(* ===== verification/Prelude.thy ===== *)
theory Prelude
  imports Main "HOL-Library.List_Lexorder" "HOL-Library.Char_ord" "HOL-Library.AList"
begin

text \<open>
  Shared vocabulary of the development: the exceptions of the program as a datatype, results
  as a sum of an exception and a value, the checks of a dataclass constructor as a list that
  stops at the first failure, and the handful of Python built-ins that several components use
  (text stripping, joining, order-preserving de-duplication, dictionaries as association lists,
  \<open>enumerate\<close>, \<open>combinations\<close>, integers as decimal text).

  A Python \<open>str\<close> is a \<^typ>\<open>string\<close>: a character stands for the code point with its number, so
  the strings of the model are those whose code points are below 256.
\<close>

section \<open>Fact collections\<close>

named_theorems checked_simps \<open>rules that evaluate or invert the checks of a constructor\<close>
named_theorems text_simps \<open>rules about Python text operations\<close>
named_theorems replay_simps \<open>rules about visibility at a replay cutoff\<close>
named_theorems ledger_simps \<open>rules that invert an accepted ledger record\<close>

section \<open>Exceptions and results\<close>

datatype pyexc =
    ValueError string
  | KeyError string
  | TypeError string
  | AssertionError string
  | OverflowError string
  | IntegrityError string
  | CanonicalizationError string
  | LedgerSchemaError string
  | LedgerCorruptError string
  | LedgerConflictError string
  | AnchorIntegrityError string
  | LedgerError string
  | AttributeError string
  | StopIteration string
  | TransportIntegrityError string
  | IndexError string
  | FindingRefused string

type_synonym 'a result = "pyexc + 'a"

text \<open>Sequencing: the first exception stops the computation.\<close>

definition rbind :: "'a result \<Rightarrow> ('a \<Rightarrow> 'b result) \<Rightarrow> 'b result" where
  "rbind m f = (case m of Inl e \<Rightarrow> Inl e | Inr x \<Rightarrow> f x)"

lemma rbind_simps [simp]:
  "rbind (Inl e) f = Inl e"
  "rbind (Inr x) f = f x"
  by (simp_all add: rbind_def)

lemma rbind_Inr_iff: "rbind m f = Inr y \<longleftrightarrow> (\<exists>x. m = Inr x \<and> f x = Inr y)"
  by (cases m) auto

lemma rbind_InrE [elim]:
  assumes "rbind m f = Inr y"
  obtains x where "m = Inr x" and "f x = Inr y"
  using assms by (auto simp: rbind_Inr_iff)

lemma rbind_Inl_iff: "rbind m f = Inl e \<longleftrightarrow> m = Inl e \<or> (\<exists>x. m = Inr x \<and> f x = Inl e)"
  by (cases m) auto

lemma rbind_cong [fundef_cong]:
  assumes "m = n" and "\<And>x. n = Inr x \<Longrightarrow> f x = g x"
  shows "rbind m f = rbind n g"
  using assms by (cases n) auto

text \<open>A comprehension whose element expression may raise, from left to right.\<close>

fun mapM :: "('a \<Rightarrow> 'b result) \<Rightarrow> 'a list \<Rightarrow> 'b list result" where
  "mapM f [] = Inr []"
| "mapM f (x # xs) =
     (case f x of
        Inl e \<Rightarrow> Inl e
      | Inr y \<Rightarrow> (case mapM f xs of Inl e \<Rightarrow> Inl e | Inr ys \<Rightarrow> Inr (y # ys)))"

lemma mapM_cong [fundef_cong]:
  "xs = ys \<Longrightarrow> (\<And>x. x \<in> set ys \<Longrightarrow> f x = g x) \<Longrightarrow> mapM f xs = mapM g ys"
proof (induction ys arbitrary: xs)
  case Nil
  then show ?case by simp
next
  case (Cons y ys)
  then have "f y = g y" and "mapM f ys = mapM g ys" by simp_all
  with Cons.prems(1) show ?case by (simp split: sum.split)
qed

lemma mapM_Inr_iff: "mapM f xs = Inr ys \<longleftrightarrow> list_all2 (\<lambda>x y. f x = Inr y) xs ys"
proof (induction xs arbitrary: ys)
  case Nil
  then show ?case by auto
next
  case (Cons x xs)
  then show ?case
    by (cases "f x"; cases ys; cases "mapM f xs") (auto simp: list_all2_Cons1)
qed

lemma mapM_total:
  "(\<And>x. x \<in> set xs \<Longrightarrow> \<exists>y. f x = Inr y) \<Longrightarrow> \<exists>ys. mapM f xs = Inr ys"
proof (induction xs)
  case Nil
  then show ?case by simp
next
  case (Cons x xs)
  then obtain y ys where "f x = Inr y" "mapM f xs = Inr ys"
    by (meson list.set_intros)
  then show ?case by simp
qed

lemma mapM_length: "mapM f xs = Inr ys \<Longrightarrow> length ys = length xs"
  by (auto simp: mapM_Inr_iff dest: list_all2_lengthD)

lemma mapM_mem: "mapM f xs = Inr ys \<Longrightarrow> y \<in> set ys \<Longrightarrow> \<exists>x \<in> set xs. f x = Inr y"
  unfolding mapM_Inr_iff by (induction rule: list_all2_induct) auto

lemma mapM_pure: "(\<And>x. x \<in> set xs \<Longrightarrow> f x = Inr (g x)) \<Longrightarrow> mapM f xs = Inr (map g xs)"
  by (induction xs) auto

section \<open>The checks of a constructor\<close>

text \<open>
  A \<open>__post_init__\<close> is a sequence of checks, each of which raises or falls through. A check is
  the exception it raises, if any; the sequence raises the first one.
\<close>

type_synonym check = "pyexc option"

fun first_failure :: "check list \<Rightarrow> pyexc option" where
  "first_failure [] = None"
| "first_failure (None # cs) = first_failure cs"
| "first_failure (Some e # cs) = Some e"

definition checked :: "check list \<Rightarrow> 'a \<Rightarrow> 'a result" where
  "checked cs v = (case first_failure cs of None \<Rightarrow> Inr v | Some e \<Rightarrow> Inl e)"

definition raise_if :: "bool \<Rightarrow> pyexc \<Rightarrow> check" where
  "raise_if b e = (if b then Some e else None)"

lemma raise_if_None [simp, checked_simps]: "raise_if b e = None \<longleftrightarrow> \<not> b"
  by (simp add: raise_if_def)

lemma first_failure_None [checked_simps]: "first_failure cs = None \<longleftrightarrow> list_all (\<lambda>c. c = None) cs"
  by (induction cs rule: first_failure.induct) auto

lemma checked_Inr [checked_simps]:
  "checked cs v = Inr w \<longleftrightarrow> w = v \<and> list_all (\<lambda>c. c = None) cs"
  by (auto simp: checked_def first_failure_None [symmetric] split: option.splits)

lemma checked_pass: "list_all (\<lambda>c. c = None) cs \<Longrightarrow> checked cs v = Inr v"
  by (simp add: checked_Inr)

lemma first_failure_append:
  "first_failure (xs @ ys) = (case first_failure xs of None \<Rightarrow> first_failure ys | Some e \<Rightarrow> Some e)"
  by (induction xs rule: first_failure.induct) auto

section \<open>Text\<close>

text \<open>White space as \<open>str.isspace\<close> has it on code points below 256.\<close>

definition is_space :: "char \<Rightarrow> bool" where
  "is_space c = (let n = of_char c :: nat in
     (9 \<le> n \<and> n \<le> 13) \<or> (28 \<le> n \<and> n \<le> 32) \<or> n = 133 \<or> n = 160)"

definition strip :: "string \<Rightarrow> string" where
  "strip s = rev (dropWhile is_space (rev (dropWhile is_space s)))"

definition blank :: "string \<Rightarrow> bool" where
  "blank s = (strip s = [])"

lemma blank_iff: "blank s \<longleftrightarrow> list_all is_space s"
proof -
  have "strip s = [] \<longleftrightarrow> dropWhile is_space s = []"
  proof
    assume "strip s = []"
    then have "\<forall>c \<in> set (dropWhile is_space s). is_space c"
      by (simp add: strip_def)
    then show "dropWhile is_space s = []"
      by (metis hd_dropWhile hd_in_set)
  qed (auto simp: strip_def dest: set_dropWhileD)
  then show ?thesis by (simp add: blank_def list_all_iff dropWhile_eq_Nil_conv)
qed

lemma blank_Nil [simp, text_simps]: "blank []"
  by (simp add: blank_iff)

lemma blank_Cons [simp, text_simps]: "blank (c # s) \<longleftrightarrow> is_space c \<and> blank s"
  by (simp add: blank_iff)

lemma blank_append [simp, text_simps]: "blank (s @ t) \<longleftrightarrow> blank s \<and> blank t"
  by (simp add: blank_iff)

text \<open>\<open>sep.join(parts)\<close>\<close>

fun join :: "string \<Rightarrow> string list \<Rightarrow> string" where
  "join sep [] = []"
| "join sep [s] = s"
| "join sep (s # t # ss) = s @ sep @ join sep (t # ss)"

lemma blank_join_nonblank:
  "s \<in> set ss \<Longrightarrow> \<not> blank s \<Longrightarrow> \<not> blank (join sep ss)"
  by (induction sep ss rule: join.induct) auto

text \<open>\<open>sorted\<close> on text compares code points, as the library's lexicographic order does.\<close>

definition sorted_text :: "string list \<Rightarrow> string list" where
  "sorted_text ss = sort ss"

text \<open>Integers as decimal text, \<open>str(n)\<close>.\<close>

definition digit_char :: "nat \<Rightarrow> char" where
  "digit_char d = char_of (48 + d)"

fun nat_text :: "nat \<Rightarrow> string" where
  "nat_text n = (if n < 10 then [digit_char n] else nat_text (n div 10) @ [digit_char (n mod 10)])"

declare nat_text.simps [simp del]

lemma nat_text_digits: "c \<in> set (nat_text n) \<Longrightarrow> \<exists>d < 10. c = digit_char d"
proof (induction n rule: nat_text.induct)
  case (1 n)
  show ?case
  proof (cases "n < 10")
    case True
    with 1(2) show ?thesis by (auto simp: nat_text.simps [of n])
  next
    case False
    then have "c \<in> set (nat_text (n div 10)) \<or> c = digit_char (n mod 10)"
      using 1(2) by (auto simp: nat_text.simps [of n])
    then show ?thesis
    proof
      assume "c = digit_char (n mod 10)"
      then show ?thesis by (intro exI [of _ "n mod 10"]) simp
    qed (rule 1(1) [OF False])
  qed
qed

definition int_text :: "int \<Rightarrow> string" where
  "int_text i = (if i < 0 then CHR ''-'' # nat_text (nat (- i)) else nat_text (nat i))"

section \<open>Sequences and dictionaries\<close>

text \<open>\<open>tuple(dict.fromkeys(xs))\<close>: the first occurrence of each element, in order.\<close>

fun uniq :: "'a list \<Rightarrow> 'a list" where
  "uniq [] = []"
| "uniq (x # xs) = x # removeAll x (uniq xs)"

lemma set_uniq [simp]: "set (uniq xs) = set xs"
  by (induction xs) auto

lemma distinct_uniq [simp]: "distinct (uniq xs)"
  by (induction xs) (auto simp: distinct_removeAll)

lemma uniq_id: "distinct xs \<Longrightarrow> uniq xs = xs"
  by (induction xs) (auto simp: removeAll_id)

lemma uniq_eq_Nil [simp]: "uniq xs = [] \<longleftrightarrow> xs = []"
  by (cases xs) auto

lemma uniq_singleton: "uniq xs = [x] \<longleftrightarrow> xs \<noteq> [] \<and> set xs = {x}"
proof
  assume "uniq xs = [x]"
  then show "xs \<noteq> [] \<and> set xs = {x}"
    by (metis empty_set list.discI list.simps(15) set_uniq uniq.simps(1))
next
  assume a: "xs \<noteq> [] \<and> set xs = {x}"
  then obtain y ys where xs: "xs = y # ys" by (cases xs) auto
  with a have y: "y = x" and "set ys \<subseteq> {x}" by auto
  then have "removeAll x (uniq ys) = []"
    by (metis Diff_eq_empty_iff set_empty set_removeAll set_uniq)
  with xs y show "uniq xs = [x]" by simp
qed

text \<open>
  A dictionary that keeps insertion order is an association list: \<open>d[k] = v\<close> replaces the value
  in place or appends the pair, as \<^const>\<open>AList.update\<close> does. A comprehension adds its pairs in order.
\<close>

definition dict_of :: "('k \<times> 'v) list \<Rightarrow> ('k \<times> 'v) list" where
  "dict_of kvs = fold (\<lambda>(k, v). AList.update k v) kvs []"

lemma map_of_fold_update:
  "map_of (fold (\<lambda>(k, v). AList.update k v) kvs d) = map_of d ++ map_of (rev kvs)"
proof (induction kvs arbitrary: d)
  case Nil
  then show ?case by simp
next
  case (Cons p kvs)
  obtain k v where p: "p = (k, v)" by (cases p)
  have "map_of (fold (\<lambda>(k, v). AList.update k v) (p # kvs) d) =
        map_of (AList.update k v d) ++ map_of (rev kvs)"
    by (simp add: p Cons.IH)
  then show ?case by (simp add: p update_conv' fun_eq_iff map_add_def split: option.split)
qed

lemma map_of_dict_of: "map_of (dict_of kvs) = map_of (rev kvs)"
  by (simp add: dict_of_def map_of_fold_update)

lemma distinct_dict_of: "distinct (map fst (dict_of kvs))"
proof -
  have "distinct (map fst (fold (\<lambda>(k, v). AList.update k v) kvs d))"
    if "distinct (map fst d)" for d
    using that by (induction kvs arbitrary: d) (auto simp: distinct_update split: prod.splits)
  then show ?thesis by (simp add: dict_of_def)
qed

text \<open>\<open>itertools.combinations(xs, 2)\<close>\<close>

fun pairs :: "'a list \<Rightarrow> ('a \<times> 'a) list" where
  "pairs [] = []"
| "pairs (x # xs) = map (Pair x) xs @ pairs xs"

lemma length_pairs: "2 * length (pairs xs) = length xs * (length xs - 1)"
proof (induction xs)
  case Nil
  then show ?case by simp
next
  case (Cons x xs)
  then show ?case by (cases xs) (auto simp: algebra_simps)
qed

lemma pairs_mem: "(x, y) \<in> set (pairs xs) \<Longrightarrow> x \<in> set xs \<and> y \<in> set xs"
  by (induction xs) auto

lemma pairs_indices:
  "p \<in> set (pairs xs) \<longleftrightarrow> (\<exists>i j. i < j \<and> j < length xs \<and> p = (xs ! i, xs ! j))"
proof (induction xs)
  case Nil
  then show ?case by simp
next
  case (Cons x xs)
  have *: "(\<exists>i j. i < j \<and> j < length (x # xs) \<and> p = ((x # xs) ! i, (x # xs) ! j)) \<longleftrightarrow>
      (\<exists>j < length xs. p = (x, xs ! j)) \<or> (\<exists>i j. i < j \<and> j < length xs \<and> p = (xs ! i, xs ! j))"
    (is "?L \<longleftrightarrow> ?R1 \<or> ?R2")
  proof
    assume ?L
    then obtain i j where ij: "i < j" "j < length (x # xs)" "p = ((x # xs) ! i, (x # xs) ! j)"
      by blast
    from ij(1) obtain j' where j: "j = Suc j'" by (cases j) auto
    show "?R1 \<or> ?R2"
      using ij j by (cases i) auto
  next
    assume "?R1 \<or> ?R2"
    then show ?L
    proof
      assume ?R1
      then obtain j where "j < length xs" "p = (x, xs ! j)" by blast
      then show ?L by (intro exI [of _ 0] exI [of _ "Suc j"]) auto
    next
      assume ?R2
      then obtain i j where "i < j" "j < length xs" "p = (xs ! i, xs ! j)" by blast
      then show ?L by (intro exI [of _ "Suc i"] exI [of _ "Suc j"]) auto
    qed
  qed
  show ?case
    unfolding * pairs.simps set_append Un_iff Cons.IH
    by (auto simp: in_set_conv_nth image_iff)
qed

text \<open>\<open>enumerate(xs)\<close> filtered by a key that may be missing: used for lineage links.\<close>

lemma enumerate_nth:
  "p \<in> set (enumerate n xs) \<longleftrightarrow> (\<exists>i < length xs. p = (n + i, xs ! i))"
proof -
  have "length (enumerate n xs) = length xs" by simp
  then show ?thesis
    unfolding in_set_conv_nth using nth_enumerate_eq [of _ xs n] by auto
qed

end
