(* ===== verification/PyNumber.thy ===== *)
theory PyNumber
  imports Prelude Complex_Main
begin

text \<open>
  Python numbers as the program uses them. A \<open>float\<close> is a datatype whose finite values are the
  exact rationals that doubles denote, so comparison is exact; the operations that round
  (integer true division, \<open>round(x, 4)\<close>, conversion of the shortest decimal text) are written out
  as IEEE 754 binary64 round-half-even, with the exponent clamped at the subnormal range. Results
  that would overflow the double range do not occur where the program divides (counts and spans of
  seconds), and are not modelled. A \<open>Decimal\<close> is a sign, a coefficient and an exponent.
\<close>

section \<open>Rounding a quotient half to even\<close>

definition rhe :: "nat \<Rightarrow> nat \<Rightarrow> nat" where
  "rhe n d = (let q = n div d; r = n mod d in
     if 2 * r < d then q else if 2 * r > d then q + 1 else if even q then q else q + 1)"

lemma rhe_le: "0 < d \<Longrightarrow> n \<le> k * d \<Longrightarrow> rhe n d \<le> k"
proof -
  assume d: "0 < d" and n: "n \<le> k * d"
  show "rhe n d \<le> k"
  proof (cases "n div d < k")
    case True
    then show ?thesis by (simp add: rhe_def Let_def)
  next
    case False
    moreover have "n div d \<le> k"
      using n d by (metis div_le_mono nonzero_mult_div_cancel_right not_gr_zero)
    ultimately have q: "n div d = k" by simp
    then have "n mod d = 0"
      using n d by (metis add.right_neutral div_mult_mod_eq le_add1 le_antisym nat_add_left_cancel_le)
    then show ?thesis using q d by (simp add: rhe_def Let_def)
  qed
qed

lemma rhe_exact: "0 < d \<Longrightarrow> rhe (k * d) d = k"
  by (simp add: rhe_def Let_def)

lemma rhe_0 [simp]: "0 < d \<Longrightarrow> rhe 0 d = 0"
  by (simp add: rhe_def)

section \<open>Integer true division\<close>

fun bit_length :: "nat \<Rightarrow> nat" where
  "bit_length n = (if n = 0 then 0 else Suc (bit_length (n div 2)))"

declare bit_length.simps [simp del]

lemma bit_length_mono: "m \<le> n \<Longrightarrow> bit_length m \<le> bit_length n"
proof (induction n arbitrary: m rule: bit_length.induct)
  case (1 n)
  show ?case
  proof (cases "m = 0")
    case True
    then show ?thesis by (simp add: bit_length.simps [of 0])
  next
    case False
    with 1 have "bit_length (m div 2) \<le> bit_length (n div 2)"
      by (metis div_le_mono le_zero_eq)
    with False 1(2) show ?thesis
      by (simp add: bit_length.simps [of m] bit_length.simps [of n])
  qed
qed

text \<open>
  \<open>a / b\<close> for integers, correctly rounded to binary64: \<open>scale a b e\<close> is \<open>a / b / 2^e\<close> as a quotient of
  naturals, and the exponent is chosen so that the significand has 53 bits (fewer when subnormal).
\<close>

definition scale :: "nat \<Rightarrow> nat \<Rightarrow> int \<Rightarrow> nat \<times> nat" where
  "scale a b e = (if 0 \<le> e then (a, b * 2 ^ nat e) else (a * 2 ^ nat (- e), b))"

definition float_exponent :: "nat \<Rightarrow> nat \<Rightarrow> int" where
  "float_exponent a b = (let e = int (bit_length a) - int (bit_length b) - 53; (n, d) = scale a b e in
     max (if n < d * 2 ^ 53 then e else e + 1) (- 1074))"

definition float_div :: "nat \<Rightarrow> nat \<Rightarrow> rat" where
  "float_div a b = (let e = float_exponent a b; (n, d) = scale a b e in of_nat (rhe n d) * 2 powi e)"

lemma float_div_nonneg [simp]: "0 \<le> float_div a b"
  by (simp add: float_div_def Let_def split: prod.split)

lemma float_exponent_le: "a \<le> b \<Longrightarrow> float_exponent a b \<le> - 52"
  using bit_length_mono [of a b] by (auto simp: float_exponent_def Let_def split: prod.splits)

lemma float_div_le_1:
  assumes "a \<le> b" "0 < b"
  shows "float_div a b \<le> 1"
proof -
  define e where "e = float_exponent a b"
  have neg: "e < 0"
    using float_exponent_le [OF assms(1)] by (simp add: e_def)
  define k where "k = nat (- e)"
  have e: "e = - int k" using neg by (simp add: k_def)
  have "a * 2 ^ k \<le> 2 ^ k * b"
    using assms(1) by (simp add: mult.commute)
  then have "rhe (a * 2 ^ k) b \<le> 2 ^ k"
    using assms(2) rhe_le by simp
  then have le: "(of_nat (rhe (a * 2 ^ k) b) :: rat) \<le> 2 ^ k"
    by (metis of_nat_le_iff of_nat_numeral of_nat_power)
  have "float_div a b = of_nat (rhe (a * 2 ^ k) b) * 2 powi (- int k)"
    using neg by (simp add: float_div_def Let_def scale_def e_def [symmetric] k_def)
  then have "float_div a b = of_nat (rhe (a * 2 ^ k) b) / 2 ^ k"
    by (simp add: power_int_minus power_int_of_nat divide_inverse)
  with le show ?thesis by (simp add: divide_le_eq_1)
qed

lemma float_div_same: "0 < b \<Longrightarrow> float_div b b = 1"
proof -
  assume b: "0 < b"
  define e where "e = float_exponent b b"
  have neg: "e < 0"
    using float_exponent_le [of b b] by (simp add: e_def)
  define k where "k = nat (- e)"
  have e: "e = - int k" using neg by (simp add: k_def)
  have "float_div b b = of_nat (rhe (2 ^ k * b) b) * 2 powi (- int k)"
    using neg by (simp add: float_div_def Let_def scale_def e_def [symmetric] k_def mult.commute)
  also have "rhe (2 ^ k * b) b = 2 ^ k"
    using b by (rule rhe_exact)
  finally show ?thesis
    by (simp add: power_int_minus power_int_of_nat)
qed

lemma float_div_0 [simp]: "0 < b \<Longrightarrow> float_div 0 b = 0"
  by (auto simp: float_div_def Let_def scale_def split: prod.split)

section \<open>Floats\<close>

datatype pyfloat = PFin rat | PNegZero | PInf | PNegInf | PNaN

fun pyfloat_val :: "pyfloat \<Rightarrow> (nat \<times> rat) option" where
  "pyfloat_val (PFin r) = Some (1, r)"
| "pyfloat_val PNegZero = Some (1, 0)"
| "pyfloat_val PInf = Some (2, 0)"
| "pyfloat_val PNegInf = Some (0, 0)"
| "pyfloat_val PNaN = None"

text \<open>\<open>x \<le> y\<close> and \<open>x < y\<close> on floats: false when either side is not a number.\<close>

definition pyfloat_le :: "pyfloat \<Rightarrow> pyfloat \<Rightarrow> bool" where
  "pyfloat_le x y = (case (pyfloat_val x, pyfloat_val y) of
     (Some (i, r), Some (j, s)) \<Rightarrow> i < j \<or> (i = j \<and> r \<le> s) | _ \<Rightarrow> False)"

definition pyfloat_less :: "pyfloat \<Rightarrow> pyfloat \<Rightarrow> bool" where
  "pyfloat_less x y = (case (pyfloat_val x, pyfloat_val y) of
     (Some (i, r), Some (j, s)) \<Rightarrow> i < j \<or> (i = j \<and> r < s) | _ \<Rightarrow> False)"

definition in_unit :: "pyfloat \<Rightarrow> bool" where
  "in_unit x = (pyfloat_le (PFin 0) x \<and> pyfloat_le x (PFin 1))"

lemma in_unit_simps [simp]:
  "in_unit (PFin r) \<longleftrightarrow> 0 \<le> r \<and> r \<le> 1"
  "in_unit PNegZero" "\<not> in_unit PInf" "\<not> in_unit PNegInf" "\<not> in_unit PNaN"
  by (simp_all add: in_unit_def pyfloat_le_def)

text \<open>\<open>round(x, 4)\<close>: the exact value is rounded half to even at four decimals, then read back as a double.\<close>

definition rat_rhe :: "rat \<Rightarrow> int" where
  "rat_rhe y = (let q = \<lfloor>y\<rfloor>; f = y - of_int q in
     if f < 1 / 2 then q else if 1 / 2 < f then q + 1 else if even q then q else q + 1)"

definition round4_rat :: "rat \<Rightarrow> rat" where
  "round4_rat r = float_div (nat (rat_rhe (r * 10000))) 10000"

definition round4 :: "pyfloat \<Rightarrow> pyfloat" where
  "round4 x = (case x of
     PFin r \<Rightarrow> (if 0 \<le> r then PFin (round4_rat r)
               else if round4_rat (- r) = 0 then PNegZero else PFin (- round4_rat (- r)))
   | _ \<Rightarrow> x)"

lemma rat_rhe_le: "y \<le> of_int k \<Longrightarrow> rat_rhe y \<le> k"
proof -
  assume y: "y \<le> of_int k"
  then have fl: "\<lfloor>y\<rfloor> \<le> k"
    by (metis floor_mono floor_of_int)
  show ?thesis
  proof (cases "\<lfloor>y\<rfloor> = k")
    case True
    then have "y = of_int k"
      using y by (metis floor_eq_iff order_antisym)
    then show ?thesis by (simp add: rat_rhe_def)
  next
    case False
    with fl show ?thesis by (simp add: rat_rhe_def Let_def)
  qed
qed

lemma rat_rhe_nonneg: "0 \<le> y \<Longrightarrow> 0 \<le> rat_rhe y"
  by (simp add: rat_rhe_def Let_def)

lemma round4_unit: "in_unit x \<Longrightarrow> in_unit (round4 x)"
proof (cases x)
  case (PFin r)
  assume "in_unit x"
  with PFin have r: "0 \<le> r" "r \<le> 1" by simp_all
  then have "rat_rhe (r * 10000) \<le> 10000"
    by (intro rat_rhe_le) simp
  then have "nat (rat_rhe (r * 10000)) \<le> 10000" by simp
  then have "round4_rat r \<le> 1"
    unfolding round4_rat_def by (rule float_div_le_1) simp
  with r PFin show ?thesis by (simp add: round4_def round4_rat_def)
qed (simp_all add: round4_def)

lemma round4_0 [simp]: "round4 (PFin 0) = PFin 0"
  by (simp add: round4_def round4_rat_def rat_rhe_def)

lemma round4_1 [simp]: "round4 (PFin 1) = PFin 1"
  by (simp add: round4_def round4_rat_def rat_rhe_def float_div_same)

text \<open>\<open>int(x)\<close> of a finite non-negative quotient: truncation of the rounded quotient.\<close>

definition trunc_div :: "int \<Rightarrow> nat \<Rightarrow> int" where
  "trunc_div a b = (if 0 \<le> a then \<lfloor>float_div (nat a) b\<rfloor> else - \<lfloor>float_div (nat (- a)) b\<rfloor>)"

section \<open>Decimals\<close>

text \<open>A finite \<open>Decimal\<close> is \<open>(-1)^sign * coefficient * 10^exponent\<close>.\<close>

datatype pydecimal = DFin (dec_neg: bool) (dec_coeff: nat) (dec_exp: int) | DNonFinite

text \<open>
  \<open>Decimal.normalize()\<close> in the default context: round half to even at 28 digits, then drop the
  trailing zeros of the coefficient; a zero keeps its sign and gets exponent 0.
\<close>

fun drop_zeros :: "nat \<Rightarrow> int \<Rightarrow> nat \<times> int" where
  "drop_zeros c e = (if c \<noteq> 0 \<and> c mod 10 = 0 then drop_zeros (c div 10) (e + 1) else (c, e))"

declare drop_zeros.simps [simp del]

definition dec_round28 :: "nat \<Rightarrow> int \<Rightarrow> nat \<times> int" where
  "dec_round28 c e = (let n = length (nat_text c) in
     if n \<le> 28 then (c, e) else (rhe c (10 ^ (n - 28)), e + int (n - 28)))"

definition dec_normalize :: "nat \<Rightarrow> int \<Rightarrow> nat \<times> int" where
  "dec_normalize c e = (let (c', e') = dec_round28 c e in
     if c' = 0 then (0, 0) else drop_zeros c' e')"

text \<open>\<open>_decimal_text\<close>: the normalized value in fixed-point notation, with no trailing zeros.\<close>

definition fixed_text :: "nat \<Rightarrow> int \<Rightarrow> string" where
  "fixed_text c e =
     (if 0 \<le> e then nat_text (c * 10 ^ nat e)
      else let k = nat (- e); ds = nat_text c; padded = replicate (Suc k - length ds) (CHR ''0'') @ ds;
               m = length padded - k
           in take m padded @ ''.'' @ drop m padded)"

definition decimal_text :: "bool \<Rightarrow> nat \<Rightarrow> int \<Rightarrow> string" where
  "decimal_text neg c e = (let (c', e') = dec_normalize c e in
     (if neg then ''-'' else '''') @ fixed_text c' e')"

text \<open>
  \<open>Decimal(str(x))\<close> of a finite float: the decimal with the fewest significant digits that reads
  back as \<open>x\<close>, and the closest one among those. \<open>dec_exponent\<close> is the decimal exponent of the leading
  digit; 330 steps reach the smallest positive double.
\<close>

fun small_exponent :: "nat \<Rightarrow> rat \<Rightarrow> int" where
  "small_exponent 0 r = 0"
| "small_exponent (Suc fuel) r = (if 1 \<le> r then 0 else small_exponent fuel (r * 10) - 1)"

definition dec_exponent :: "rat \<Rightarrow> int" where
  "dec_exponent r = (if 1 \<le> r then int (length (nat_text (nat \<lfloor>r\<rfloor>))) - 1 else small_exponent 330 r)"

definition shift10 :: "rat \<Rightarrow> int \<Rightarrow> rat" where
  "shift10 r k = r * 10 powi k"

definition reads_as :: "nat \<Rightarrow> int \<Rightarrow> rat \<Rightarrow> bool" where
  "reads_as c k r = ((if 0 \<le> k then float_div (c * 10 ^ nat k) 1 else float_div c (10 ^ nat (- k))) = r)"

definition shortest_at :: "rat \<Rightarrow> nat \<Rightarrow> (nat \<times> int) option" where
  "shortest_at r n = (let k = dec_exponent r - int n + 1; y = shift10 r (- k);
       lo = nat \<lfloor>y\<rfloor>; hi = lo + 1; near = nat (rat_rhe y); far = (if near = lo then hi else lo) in
     if reads_as near k r then Some (near, k) else if reads_as far k r then Some (far, k) else None)"

fun shortest_from :: "nat \<Rightarrow> nat \<Rightarrow> rat \<Rightarrow> nat \<times> int" where
  "shortest_from 0 n r = (0, 0)"
| "shortest_from (Suc fuel) n r =
     (case shortest_at r n of Some p \<Rightarrow> p | None \<Rightarrow> shortest_from fuel (Suc n) r)"

definition float_decimal :: "pyfloat \<Rightarrow> pydecimal" where
  "float_decimal x = (case x of
     PFin r \<Rightarrow> (if r = 0 then DFin False 0 0
               else let (c, k) = shortest_from 17 1 \<bar>r\<bar> in DFin (r < 0) c k)
   | PNegZero \<Rightarrow> DFin True 0 0
   | _ \<Rightarrow> DNonFinite)"

section \<open>The general format with 12 significant digits\<close>

definition strip_zeros :: "string \<Rightarrow> string" where
  "strip_zeros s = rev (dropWhile (\<lambda>c. c = CHR ''0'') (rev s))"

definition with_point :: "string \<Rightarrow> string \<Rightarrow> string" where
  "with_point whole fpart = (if fpart = '''' then whole else whole @ ''.'' @ fpart)"

definition general12_pos :: "rat \<Rightarrow> string" where
  "general12_pos r = (let x0 = dec_exponent r; m0 = nat (rat_rhe (shift10 r (11 - x0)));
       (m, x) = (if 10 ^ 12 \<le> m0 then (m0 div 10, x0 + 1) else (m0, x0)); ds = nat_text m in
     if x < - 4 \<or> 12 \<le> x
     then with_point (take 1 ds) (strip_zeros (drop 1 ds)) @ ''e'' @ (if x < 0 then ''-'' else ''+'') @
          (if \<bar>x\<bar> < 10 then ''0'' else '''') @ nat_text (nat \<bar>x\<bar>)
     else if x < 0 then with_point ''0'' (replicate (nat (- x) - 1) (CHR ''0'') @ strip_zeros ds)
     else with_point (take (nat x + 1) ds) (strip_zeros (drop (nat x + 1) ds)))"

definition general12 :: "pyfloat \<Rightarrow> string" where
  "general12 x = (case x of
     PFin r \<Rightarrow> (if r = 0 then ''0'' else if r < 0 then ''-'' @ general12_pos (- r) else general12_pos r)
   | PNegZero \<Rightarrow> ''-0'' | PInf \<Rightarrow> ''inf'' | PNegInf \<Rightarrow> ''-inf'' | PNaN \<Rightarrow> ''nan'')"

end
