(* ===== verification/PyTime.thy ===== *)
theory PyTime
  imports PyNumber
begin

text \<open>
  \<open>datetime\<close> values: a wall-clock reading in microseconds since 0001-01-01T00:00:00 and the UTC
  offset of its time zone in microseconds, or none for a naive value. Comparing, subtracting and
  \<open>astimezone(UTC)\<close> work on the instant, the reading less the offset. The calendar is the
  proleptic Gregorian one of the standard library, computed by the same divisions. Years outside
  1 to 9999, where the library raises, are outside the model.
\<close>

datatype pydatetime = PyDateTime (dt_wall: int) (dt_offset: "int option")

definition aware :: "pydatetime \<Rightarrow> bool" where
  "aware d = (dt_offset d \<noteq> None)"

definition instant :: "pydatetime \<Rightarrow> int" where
  "instant d = dt_wall d - (case dt_offset d of None \<Rightarrow> 0 | Some z \<Rightarrow> z)"

definition utc :: "int \<Rightarrow> pydatetime" where
  "utc t = PyDateTime t (Some 0)"

lemma instant_utc [simp]: "instant (utc t) = t"
  by (simp add: instant_def utc_def)

lemma aware_utc [simp]: "aware (utc t)"
  by (simp add: aware_def utc_def)

text \<open>\<open>a > b\<close>, \<open>a == b\<close> on aware values, and \<open>int((a - b).total_seconds())\<close>\<close>

definition dt_after :: "pydatetime \<Rightarrow> pydatetime \<Rightarrow> bool" where
  "dt_after a b = (instant b < instant a)"

definition dt_eq :: "pydatetime \<Rightarrow> pydatetime \<Rightarrow> bool" where
  "dt_eq a b = (instant a = instant b)"

definition seconds_between :: "pydatetime \<Rightarrow> pydatetime \<Rightarrow> int" where
  "seconds_between a b = trunc_div (instant a - instant b) 1000000"

section \<open>The calendar\<close>

definition is_leap :: "int \<Rightarrow> bool" where
  "is_leap y = (y mod 4 = 0 \<and> (y mod 100 \<noteq> 0 \<or> y mod 400 = 0))"

definition days_before_month :: "int \<Rightarrow> int" where
  "days_before_month m = [0, 0, 31, 59, 90, 120, 151, 181, 212, 243, 273, 304, 334] ! nat m"

definition days_in_month :: "bool \<Rightarrow> int \<Rightarrow> int" where
  "days_in_month leap m = (if m = 2 \<and> leap then 29 else [0, 31, 28, 31, 30, 31, 30, 31, 31, 30, 31, 30, 31] ! nat m)"

definition days_before_year :: "int \<Rightarrow> int" where
  "days_before_year y = (let p = y - 1 in p * 365 + p div 4 - p div 100 + p div 400)"

text \<open>Month and day of a day of the year, from an estimate that is at most one month too large.\<close>

definition month_day :: "bool \<Rightarrow> int \<Rightarrow> int \<times> int" where
  "month_day leap n = (let m = (n + 50) div 32;
       skipped = days_before_month m + (if 2 < m \<and> leap then 1 else 0);
       (m', skipped') = (if skipped > n then (m - 1, skipped - days_in_month leap (m - 1)) else (m, skipped))
     in (m', n - skipped' + 1))"

text \<open>Year, month and day of a day number, day 0 being 0001-01-01.\<close>

definition civil :: "int \<Rightarrow> int \<times> int \<times> int" where
  "civil day = (let n400 = day div 146097; a = day mod 146097;
       n100 = a div 36524; b = a mod 36524; n4 = b div 1461; c = b mod 1461;
       n1 = c div 365; d = c mod 365;
       y = n400 * 400 + 1 + n100 * 100 + n4 * 4 + n1
     in if n1 = 4 \<or> n100 = 4 then (y - 1, 12, 31)
        else (y, month_day (n1 = 3 \<and> (n4 \<noteq> 24 \<or> n100 = 3)) d))"

definition day_number :: "int \<Rightarrow> int \<Rightarrow> int \<Rightarrow> int" where
  "day_number y m d = days_before_year y + days_before_month m + (if 2 < m \<and> is_leap y then 1 else 0) + d - 1"

section \<open>Text of an instant\<close>

definition pad :: "nat \<Rightarrow> int \<Rightarrow> string" where
  "pad w i = (let s = nat_text (nat i) in replicate (w - length s) (CHR ''0'') @ s)"

text \<open>\<open>value.astimezone(UTC).isoformat()\<close>: the fraction is left out when it is zero.\<close>

definition utc_isoformat :: "pydatetime \<Rightarrow> string" where
  "utc_isoformat v = (let t = instant v; day = t div 86400000000; us = t mod 86400000000;
       (y, m, d) = civil day; s = us div 1000000; f = us mod 1000000
     in pad 4 y @ ''-'' @ pad 2 m @ ''-'' @ pad 2 d @ ''T'' @ pad 2 (s div 3600) @ '':'' @
        pad 2 (s div 60 mod 60) @ '':'' @ pad 2 (s mod 60) @
        (if f = 0 then '''' else ''.'' @ pad 6 f) @ ''+00:00'')"

lemma utc_isoformat_instant: "instant a = instant b \<Longrightarrow> utc_isoformat a = utc_isoformat b"
  by (simp add: utc_isoformat_def)

end
