(* ===== verification/Json.thy ===== *)
theory Json
  imports Prelude "HOL-Library.Word"
begin

text \<open>
  JSON values and \<open>json.dumps(value, sort_keys=True, separators=(",", ":"))\<close>, in the two modes the
  program uses: \<open>ensure_ascii=True\<close> for analytical identities and \<open>ensure_ascii=False\<close> for the
  issue ledger. An object is an association list with distinct keys; \<open>json_sorted\<close> is what reading
  the text back gives, the same value with the keys of every object in order.
\<close>

datatype json =
    JNull
  | JBool bool
  | JInt int
  | JFloat string \<comment> \<open>a float, by its \<open>repr\<close>\<close>
  | JStr string
  | JArr "json list"
  | JObj "(string \<times> json) list"

text \<open>Well-formed: no object has a key twice, as no Python dictionary has.\<close>

fun json_wf :: "json \<Rightarrow> bool" where
  "json_wf (JArr vs) = list_all json_wf vs"
| "json_wf (JObj kvs) = (distinct (map fst kvs) \<and> list_all (\<lambda>kv. json_wf (snd kv)) kvs)"
| "json_wf _ = True"

section \<open>Text of a value\<close>

definition hex_digit :: "nat \<Rightarrow> char" where
  "hex_digit n = (if n < 10 then char_of (48 + n) else char_of (87 + n))"

definition escape_char :: "bool \<Rightarrow> char \<Rightarrow> string" where
  "escape_char ascii c = (let n = of_char c :: nat in
     if n = 34 then [CHR 0x5C, CHR 0x22]
     else if n = 92 then [CHR 0x5C, CHR 0x5C]
     else if n = 10 then [CHR 0x5C, CHR ''n'']
     else if n = 13 then [CHR 0x5C, CHR ''r'']
     else if n = 9 then [CHR 0x5C, CHR ''t'']
     else if n = 12 then [CHR 0x5C, CHR ''f'']
     else if n = 8 then [CHR 0x5C, CHR ''b'']
     else if n < 32 \<or> (ascii \<and> 127 \<le> n)
     then [CHR 0x5C, CHR ''u'', CHR ''0'', CHR ''0'', hex_digit (n div 16), hex_digit (n mod 16)]
     else [c])"

definition quote :: "bool \<Rightarrow> string \<Rightarrow> string" where
  "quote ascii s = CHR 0x22 # concat (map (escape_char ascii) s) @ [CHR 0x22]"

fun dumps :: "bool \<Rightarrow> json \<Rightarrow> string" where
  "dumps a JNull = ''null''"
| "dumps a (JBool b) = (if b then ''true'' else ''false'')"
| "dumps a (JInt i) = int_text i"
| "dumps a (JFloat t) = t"
| "dumps a (JStr s) = quote a s"
| "dumps a (JArr vs) = ''['' @ join '','' (map (dumps a) vs) @ '']''"
| "dumps a (JObj kvs) =
     ''{'' @ join '','' (map (\<lambda>kt. quote a (fst kt) @ '':'' @ snd kt)
       (sort_key fst (map (\<lambda>kv. (fst kv, dumps a (snd kv))) kvs))) @ ''}''"

fun json_sorted :: "json \<Rightarrow> json" where
  "json_sorted (JArr vs) = JArr (map json_sorted vs)"
| "json_sorted (JObj kvs) = JObj (sort_key fst (map (\<lambda>kv. (fst kv, json_sorted (snd kv))) kvs))"
| "json_sorted v = v"

text \<open>Sorting by key and mapping the values commute.\<close>

lemma insort_key_map_snd:
  "insort_key fst (fst p, f (snd p)) (map (\<lambda>kv. (fst kv, f (snd kv))) xs)
   = map (\<lambda>kv. (fst kv, f (snd kv))) (insort_key fst p xs)"
  by (induction xs) auto

lemma sort_key_map_snd:
  "sort_key fst (map (\<lambda>kv. (fst kv, f (snd kv))) xs)
   = map (\<lambda>kv. (fst kv, f (snd kv))) (sort_key fst xs)"
proof (induction xs)
  case Nil
  then show ?case by simp
next
  case (Cons x xs)
  then show ?case
    using insort_key_map_snd [of x f "sort_key fst xs"] by simp
qed

lemma dumps_JObj:
  "dumps a (JObj kvs) = ''{'' @ join '','' (map (\<lambda>kv. quote a (fst kv) @ '':'' @ dumps a (snd kv))
     (sort_key fst kvs)) @ ''}''"
  by (simp add: sort_key_map_snd comp_def del: dumps.simps(1-6))

lemma sort_key_fst_sorted: "sort_key fst (sort_key fst xs) = sort_key fst (xs :: ('k::linorder \<times> 'v) list)"
  by (simp add: sort_key_id_if_sorted)

lemma json_sorted_JObj:
  "json_sorted (JObj kvs) = JObj (map (\<lambda>kv. (fst kv, json_sorted (snd kv))) (sort_key fst kvs))"
  by (simp add: sort_key_map_snd)

text \<open>The text does not depend on the order in which the keys were inserted.\<close>

lemma dumps_json_sorted: "dumps a (json_sorted v) = dumps a v"
proof (induction v)
  case (JArr vs)
  then show ?case by (simp add: comp_def cong: map_cong)
next
  case (JObj kvs)
  have "dumps a (json_sorted (JObj kvs)) = ''{'' @ join '','' (map (\<lambda>kv. quote a (fst kv) @ '':'' @ dumps a (snd kv))
     (map (\<lambda>kv. (fst kv, json_sorted (snd kv))) (sort_key fst kvs))) @ ''}''"
    unfolding json_sorted.simps dumps_JObj sort_key_fst_sorted sort_key_map_snd ..
  also have "map (\<lambda>kv. quote a (fst kv) @ '':'' @ dumps a (snd kv))
      (map (\<lambda>kv. (fst kv, json_sorted (snd kv))) (sort_key fst kvs))
    = map (\<lambda>kv. quote a (fst kv) @ '':'' @ dumps a (snd kv)) (sort_key fst kvs)"
    using JObj by (auto simp: comp_def snds.simps)
  finally show ?case by (simp only: dumps_JObj)
qed simp_all

section \<open>Bytes\<close>

text \<open>\<open>str.encode("utf-8")\<close> for code points below 256.\<close>

definition utf8_char :: "char \<Rightarrow> 8 word list" where
  "utf8_char c = (let n = of_char c :: nat in
     if n < 128 then [of_nat n] else [of_nat (192 + n div 64), of_nat (128 + n mod 64)])"

definition utf8 :: "string \<Rightarrow> 8 word list" where
  "utf8 s = concat (map utf8_char s)"

section \<open>Access\<close>

definition jget :: "string \<Rightarrow> json \<Rightarrow> json option" where
  "jget k v = (case v of JObj kvs \<Rightarrow> map_of kvs k | _ \<Rightarrow> None)"

lemma jget_simps [simp]:
  "jget k (JObj kvs) = map_of kvs k"
  "jget k JNull = None" "jget k (JBool b) = None" "jget k (JInt i) = None"
  "jget k (JFloat f) = None" "jget k (JStr s) = None" "jget k (JArr vs) = None"
  by (simp_all add: jget_def)

end
