(* ===== verification/Sha256.thy ===== *)
theory Sha256
  imports Json
begin

unbundle bit_operations_syntax

text \<open>
  \<open>hashlib.sha256(data).hexdigest()\<close>: the SHA-256 compression function on 32-bit words, the
  padding, and the lower-case hexadecimal text of the digest.
\<close>

type_synonym w32 = "32 word"

definition sha_k :: "w32 list" where
  "sha_k =
   [1116352408, 1899447441, 3049323471, 3921009573, 961987163, 1508970993, 2453635748, 2870763221,
    3624381080, 310598401, 607225278, 1426881987, 1925078388, 2162078206, 2614888103, 3248222580,
    3835390401, 4022224774, 264347078, 604807628, 770255983, 1249150122, 1555081692, 1996064986,
    2554220882, 2821834349, 2952996808, 3210313671, 3336571891, 3584528711, 113926993, 338241895,
    666307205, 773529912, 1294757372, 1396182291, 1695183700, 1986661051, 2177026350, 2456956037,
    2730485921, 2820302411, 3259730800, 3345764771, 3516065817, 3600352804, 4094571909, 275423344,
    430227734, 506948616, 659060556, 883997877, 958139571, 1322822218, 1537002063, 1747873779,
    1955562222, 2024104815, 2227730452, 2361852424, 2428436474, 2756734187, 3204031479, 3329325298]"

definition sha_h0 :: "w32 list" where
  "sha_h0 =
   [1779033703, 3144134277, 1013904242, 2773480762, 1359893119, 2600822924, 528734635, 1541459225]"

definition small_sigma0 :: "w32 \<Rightarrow> w32" where
  "small_sigma0 x = word_rotr 7 x XOR word_rotr 18 x XOR drop_bit 3 x"

definition small_sigma1 :: "w32 \<Rightarrow> w32" where
  "small_sigma1 x = word_rotr 17 x XOR word_rotr 19 x XOR drop_bit 10 x"

definition big_sigma0 :: "w32 \<Rightarrow> w32" where
  "big_sigma0 x = word_rotr 2 x XOR word_rotr 13 x XOR word_rotr 22 x"

definition big_sigma1 :: "w32 \<Rightarrow> w32" where
  "big_sigma1 x = word_rotr 6 x XOR word_rotr 11 x XOR word_rotr 25 x"

text \<open>The message schedule, newest word first, extended by \<open>n\<close> words.\<close>

fun extend_schedule :: "nat \<Rightarrow> w32 list \<Rightarrow> w32 list" where
  "extend_schedule 0 ws = ws"
| "extend_schedule (Suc n) ws =
     extend_schedule n ((small_sigma1 (ws ! 1) + ws ! 6 + small_sigma0 (ws ! 14) + ws ! 15) # ws)"

definition sha_round :: "w32 list \<Rightarrow> w32 \<times> w32 \<Rightarrow> w32 list" where
  "sha_round st kw = (case st of
     [a, b, c, d, e, f, g, h] \<Rightarrow>
       let t1 = h + big_sigma1 e + ((e AND f) XOR (NOT e AND g)) + fst kw + snd kw;
           t2 = big_sigma0 a + ((a AND b) XOR (a AND c) XOR (b AND c))
       in [t1 + t2, a, b, c, d + t1, e, f, g]
   | _ \<Rightarrow> st)"

definition sha_block :: "w32 list \<Rightarrow> w32 list \<Rightarrow> w32 list" where
  "sha_block hs block =
     map2 (+) hs (foldl sha_round hs (zip sha_k (rev (extend_schedule 48 (rev block)))))"

text \<open>Padding to a multiple of 64 bytes: a one bit, zeros, and the bit length in 64 bits.\<close>

definition length_bytes :: "nat \<Rightarrow> 8 word list" where
  "length_bytes n = map (\<lambda>i. of_nat (n div 256 ^ (7 - i))) [0..<8]"

definition sha_pad :: "8 word list \<Rightarrow> 8 word list" where
  "sha_pad bs = bs @ [128] @ replicate ((119 - length bs mod 64) mod 64) 0 @ length_bytes (8 * length bs)"

fun words_of :: "8 word list \<Rightarrow> w32 list" where
  "words_of (a # b # c # d # bs) =
     of_nat (((unat a * 256 + unat b) * 256 + unat c) * 256 + unat d) # words_of bs"
| "words_of _ = []"

fun sha_blocks :: "nat \<Rightarrow> w32 list \<Rightarrow> w32 list \<Rightarrow> w32 list" where
  "sha_blocks 0 hs ws = hs"
| "sha_blocks (Suc n) hs ws = sha_blocks n (sha_block hs (take 16 ws)) (drop 16 ws)"

definition sha256 :: "8 word list \<Rightarrow> w32 list" where
  "sha256 bs = (let p = sha_pad bs in sha_blocks (length p div 64) sha_h0 (words_of p))"

definition hex_of_word :: "w32 \<Rightarrow> string" where
  "hex_of_word w = map (\<lambda>i. hex_digit (unat w div 16 ^ (7 - i) mod 16)) [0..<8]"

definition sha256_hex :: "8 word list \<Rightarrow> string" where
  "sha256_hex bs = concat (map hex_of_word (sha256 bs))"

section \<open>The digest has 64 lower-case hexadecimal digits\<close>

definition is_hex :: "char \<Rightarrow> bool" where
  "is_hex c = (let n = of_char c :: nat in (48 \<le> n \<and> n \<le> 57) \<or> (97 \<le> n \<and> n \<le> 102))"

lemma is_hex_hex_digit: "n < 16 \<Longrightarrow> is_hex (hex_digit n)"
  by (auto simp: is_hex_def hex_digit_def Let_def)

lemma length_sha_round: "length st = 8 \<Longrightarrow> length (sha_round st kw) = 8"
  by (auto simp: sha_round_def Let_def split: list.splits)

lemma length_foldl_sha_round: "length st = 8 \<Longrightarrow> length (foldl sha_round st kws) = 8"
  by (induction kws arbitrary: st) (auto simp: length_sha_round)

lemma length_sha_block: "length hs = 8 \<Longrightarrow> length (sha_block hs b) = 8"
  by (simp add: sha_block_def length_foldl_sha_round)

lemma length_sha_blocks: "length hs = 8 \<Longrightarrow> length (sha_blocks n hs ws) = 8"
  by (induction n hs ws rule: sha_blocks.induct) (auto simp: length_sha_block)

lemma length_sha256: "length (sha256 bs) = 8"
  by (simp add: sha256_def Let_def length_sha_blocks sha_h0_def)

lemma length_length_bytes: "length (length_bytes n) = 8"
  by (simp add: length_bytes_def)

lemma padding_length:
  fixes n k r :: nat
  assumes "n = 64 * k + r" and "r < 64"
  shows "(n + 9 + (119 - r) mod 64) mod 64 = 0"
proof (cases "r \<le> 55")
  case True
  define t where "t = 55 - r"
  have "119 - r = 64 + t" and "t < 64" using True by (simp_all add: t_def)
  then have "(119 - r) mod 64 = t" by simp
  then have "n + 9 + (119 - r) mod 64 = 64 * (k + 1)" using assms(1) True by (simp add: t_def)
  then show ?thesis by (metis mod_mult_self1_is_0)
next
  case False
  define t where "t = 119 - r"
  have "t < 64" using False by (simp add: t_def)
  then have "(119 - r) mod 64 = t" by (simp add: t_def)
  then have "n + 9 + (119 - r) mod 64 = 64 * (k + 2)" using assms False by (simp add: t_def)
  then show ?thesis by (metis mod_mult_self1_is_0)
qed

lemma length_sha_pad: "length (sha_pad bs) mod 64 = 0"
proof -
  have "length (sha_pad bs) = length bs + 9 + (119 - length bs mod 64) mod 64"
    by (simp only: sha_pad_def length_append length_replicate length_length_bytes list.size)
  then show ?thesis
    using padding_length [of "length bs" "length bs div 64" "length bs mod 64"]
    by (simp only: mult_div_mod_eq mod_less_divisor zero_less_numeral simp_thms)
qed

lemma sha256_hex_length: "length (sha256_hex bs) = 64"
proof -
  have "length (concat (map hex_of_word ws)) = 8 * length ws" for ws
    by (induction ws) (auto simp: hex_of_word_def)
  then show ?thesis by (simp add: sha256_hex_def length_sha256)
qed

lemma sha256_hex_digits: "list_all is_hex (sha256_hex bs)"
  by (auto simp: sha256_hex_def hex_of_word_def list_all_iff intro!: is_hex_hex_digit)

lemma is_hex_not_space: "is_hex c \<Longrightarrow> \<not> is_space c"
  by (auto simp: is_hex_def is_space_def Let_def)

lemma sha256_hex_not_blank [simp]: "\<not> blank (sha256_hex bs)"
proof
  assume "blank (sha256_hex bs)"
  then have sp: "\<forall>c \<in> set (sha256_hex bs). is_space c"
    by (simp add: blank_iff list_all_iff)
  obtain c where "c \<in> set (sha256_hex bs)"
    using sha256_hex_length [of bs] by (cases "sha256_hex bs") auto
  with sp show False
    using sha256_hex_digits [of bs] is_hex_not_space by (auto simp: list_all_iff)
qed

end
