(* ===== verification/Canonicalization.thy ===== *)
theory Canonicalization
  imports PyTime Sha256 "HOL-Library.Multiset"
begin

text \<open>
  \<open>hunter.execution.canonicalization\<close> and \<open>hunter.execution.hashing\<close>: the normal form of an
  analytical identity input, its canonical bytes, and the digests and identifiers derived from it.
  \<open>normalize\<close> is total but for the values the code refuses, which it refuses with the exception
  the code raises. A \<open>set\<close> is a list in its (arbitrary) iteration order.
\<close>

section \<open>Values\<close>

datatype pyvalue =
    PMissing
  | PNone
  | PBool bool
  | PStr string
  | PInt int
  | PFloat pyfloat
  | PDecimal pydecimal
  | PDatetime pydatetime
  | PEnum string pyvalue
  | PPath string
  | PDict "(pyvalue \<times> pyvalue) list"
  | PSeq "pyvalue list"
  | PSet "pyvalue list"
  | PDataclass string "(string \<times> pyvalue) list"
  | PUnsupported string

section \<open>Normal form\<close>

definition datetime_text :: "pydatetime \<Rightarrow> string result" where
  "datetime_text v =
     (if \<not> aware v then Inl (CanonicalizationError ''Naive datetimes cannot be canonicalized'')
      else let s = utc_isoformat v in Inr (take (length s - 6) s @ ''Z''))"

definition decimal_result :: "string \<Rightarrow> pydecimal \<Rightarrow> json result" where
  "decimal_result refusal d = (case d of
     DNonFinite \<Rightarrow> Inl (CanonicalizationError refusal)
   | DFin s c e \<Rightarrow> Inr (JObj [(''__type__'', JStr ''decimal''), (''value'', JStr (decimal_text s c e))]))"

definition key_sort :: "json \<Rightarrow> string" where
  "key_sort k = (case k of JStr s \<Rightarrow> s | _ \<Rightarrow> dumps True k)"

fun normalize :: "pyvalue \<Rightarrow> json result" where
  "normalize PMissing = Inr (JObj [(''__type__'', JStr ''missing'')])"
| "normalize PNone = Inr JNull"
| "normalize (PBool b) = Inr (JBool b)"
| "normalize (PStr s) = Inr (JStr s)"
| "normalize (PInt i) = Inr (JObj [(''__type__'', JStr ''int''), (''value'', JStr (int_text i))])"
| "normalize (PFloat x) = decimal_result ''Non-finite floats cannot be canonicalized'' (float_decimal x)"
| "normalize (PDecimal d) = decimal_result ''Non-finite decimals cannot be canonicalized'' d"
| "normalize (PDatetime t) =
     rbind (datetime_text t) (\<lambda>s. Inr (JObj [(''__type__'', JStr ''datetime''), (''value'', JStr s)]))"
| "normalize (PEnum c v) =
     rbind (normalize v) (\<lambda>j. Inr (JObj [(''__type__'', JStr ''enum''), (''class'', JStr c), (''value'', j)]))"
| "normalize (PPath p) = Inr (JObj [(''__type__'', JStr ''path''), (''value'', JStr p)])"
| "normalize (PDict kvs) =
     rbind (mapM (\<lambda>kv. rbind (normalize (fst kv)) (\<lambda>k. rbind (normalize (snd kv)) (\<lambda>v.
              Inr (key_sort k, k, v)))) kvs)
       (\<lambda>items. Inr (JObj [(''__type__'', JStr ''mapping''),
          (''items'', JArr (map (\<lambda>row. JArr [fst (snd row), snd (snd row)]) (sort_key fst items)))]))"
| "normalize (PSeq vs) =
     rbind (mapM normalize vs) (\<lambda>js. Inr (JObj [(''__type__'', JStr ''sequence''), (''items'', JArr js)]))"
| "normalize (PSet vs) =
     rbind (mapM normalize vs) (\<lambda>js. Inr (JObj [(''__type__'', JStr ''set''),
        (''items'', JArr (sort_key (dumps True) js))]))"
| "normalize (PDataclass c fs) =
     rbind (mapM (\<lambda>f. rbind (normalize (snd f)) (\<lambda>j. Inr (fst f, j))) fs)
       (\<lambda>js. Inr (JObj [(''__type__'', JStr ''dataclass''), (''class'', JStr c), (''fields'', JObj js)]))"
| "normalize (PUnsupported t) =
     Inl (CanonicalizationError (''Unsupported canonicalization value: '' @ t))"

definition canonicalize :: "pyvalue \<Rightarrow> (8 word list) result" where
  "canonicalize v = rbind (normalize v) (\<lambda>j. Inr (utf8 (dumps True j)))"

section \<open>Digests and identifiers\<close>

definition HASH_FORMAT_VERSION :: string where
  "HASH_FORMAT_VERSION = ''hash-v1''"

definition stable_digest :: "string \<Rightarrow> pyvalue \<Rightarrow> string \<Rightarrow> string result" where
  "stable_digest namespace payload schema_version =
     rbind (canonicalize (PDict
       [(PStr ''hash_format_version'', PStr HASH_FORMAT_VERSION),
        (PStr ''namespace'', PStr namespace),
        (PStr ''schema_version'', PStr schema_version),
        (PStr ''payload'', payload)])) (\<lambda>material. Inr (sha256_hex material))"

definition stable_fingerprint :: "string \<Rightarrow> pyvalue \<Rightarrow> string \<Rightarrow> string result" where
  "stable_fingerprint namespace payload schema_version =
     rbind (stable_digest namespace payload schema_version)
       (\<lambda>d. Inr (namespace @ '':'' @ schema_version @ '':'' @ d))"

definition stable_identifier :: "string \<Rightarrow> pyvalue \<Rightarrow> string \<Rightarrow> string result" where
  "stable_identifier namespace payload schema_version =
     rbind (stable_digest namespace payload schema_version)
       (\<lambda>d. Inr (namespace @ '':'' @ schema_version @ '':'' @ d))"

definition IDENTITY_SCHEMA_VERSION :: string where
  "IDENTITY_SCHEMA_VERSION = ''analytical-identity-v1''"

definition fingerprint :: "string \<Rightarrow> pyvalue \<Rightarrow> string result" where
  "fingerprint namespace payload = stable_fingerprint namespace payload IDENTITY_SCHEMA_VERSION"

definition identity_of :: "string \<Rightarrow> pyvalue \<Rightarrow> string result" where
  "identity_of namespace payload = stable_identifier namespace payload IDENTITY_SCHEMA_VERSION"

section \<open>Which values are refused\<close>

fun canonical :: "pyvalue \<Rightarrow> bool" where
  "canonical (PFloat x) = (case x of PFin r \<Rightarrow> True | PNegZero \<Rightarrow> True | _ \<Rightarrow> False)"
| "canonical (PDecimal d) = (d \<noteq> DNonFinite)"
| "canonical (PDatetime t) = aware t"
| "canonical (PEnum c v) = canonical v"
| "canonical (PDict kvs) = list_all (\<lambda>kv. canonical (fst kv) \<and> canonical (snd kv)) kvs"
| "canonical (PSeq vs) = list_all canonical vs"
| "canonical (PSet vs) = list_all canonical vs"
| "canonical (PDataclass c fs) = list_all (\<lambda>f. canonical (snd f)) fs"
| "canonical (PUnsupported t) = False"
| "canonical _ = True"

lemma float_decimal_finite: "float_decimal x = DNonFinite \<longleftrightarrow> \<not> canonical (PFloat x)"
  by (cases x) (auto simp: float_decimal_def split: prod.splits)

lemma decimal_result_Inr: "(\<exists>j. decimal_result r d = Inr j) \<longleftrightarrow> d \<noteq> DNonFinite"
  by (cases d) (auto simp: decimal_result_def)

lemma mapM_exists: "(\<exists>ys. mapM f xs = Inr ys) \<longleftrightarrow> (\<forall>x \<in> set xs. \<exists>y. f x = Inr y)"
proof
  assume "\<exists>ys. mapM f xs = Inr ys"
  then show "\<forall>x \<in> set xs. \<exists>y. f x = Inr y"
    by (auto simp: mapM_Inr_iff list_all2_conv_all_nth in_set_conv_nth)
qed (auto intro: mapM_total)

lemma normalize_total: "(\<exists>j. normalize v = Inr j) \<longleftrightarrow> canonical v"
proof (induction v rule: normalize.induct)
  case (6 x)
  then show ?case
    using float_decimal_finite [of x] by (simp add: decimal_result_Inr)
next
  case (7 d)
  then show ?case by (simp add: decimal_result_Inr)
next
  case (8 t)
  then show ?case by (simp add: datetime_text_def rbind_Inr_iff Let_def)
next
  case (11 kvs)
  then show ?case
    by (simp add: rbind_Inr_iff mapM_exists list_all_iff) blast
next
  case (12 vs)
  then show ?case by (simp add: rbind_Inr_iff mapM_exists list_all_iff)
next
  case (13 vs)
  then show ?case by (simp add: rbind_Inr_iff mapM_exists list_all_iff)
next
  case (14 c fs)
  then show ?case by (simp add: rbind_Inr_iff mapM_exists list_all_iff)
qed (auto simp: rbind_Inr_iff)

lemma canonicalize_total: "(\<exists>b. canonicalize v = Inr b) \<longleftrightarrow> canonical v"
  by (simp add: canonicalize_def rbind_Inr_iff normalize_total)

lemma identity_of_total:
  assumes "canonical payload"
  obtains d where "identity_of ns payload = Inr (ns @ '':'' @ IDENTITY_SCHEMA_VERSION @ '':'' @ sha256_hex d)"
proof -
  have "canonical (PDict
       [(PStr ''hash_format_version'', PStr HASH_FORMAT_VERSION),
        (PStr ''namespace'', PStr ns),
        (PStr ''schema_version'', PStr IDENTITY_SCHEMA_VERSION),
        (PStr ''payload'', payload)])"
    using assms by simp
  then obtain b where "canonicalize (PDict
       [(PStr ''hash_format_version'', PStr HASH_FORMAT_VERSION),
        (PStr ''namespace'', PStr ns),
        (PStr ''schema_version'', PStr IDENTITY_SCHEMA_VERSION),
        (PStr ''payload'', payload)]) = Inr b"
    using canonicalize_total by blast
  then have "identity_of ns payload = Inr (ns @ '':'' @ IDENTITY_SCHEMA_VERSION @ '':'' @ sha256_hex b)"
    by (simp add: identity_of_def stable_identifier_def stable_digest_def)
  then show ?thesis by (rule that)
qed

section \<open>Order independence\<close>

text \<open>The rows of a dictionary, before they are sorted.\<close>

definition dict_row :: "pyvalue \<times> pyvalue \<Rightarrow> (string \<times> json \<times> json) result" where
  "dict_row kv = rbind (normalize (fst kv)) (\<lambda>k. rbind (normalize (snd kv)) (\<lambda>v. Inr (key_sort k, k, v)))"

lemma normalize_PDict:
  "normalize (PDict kvs) = rbind (mapM dict_row kvs)
       (\<lambda>items. Inr (JObj [(''__type__'', JStr ''mapping''),
          (''items'', JArr (map (\<lambda>row. JArr [fst (snd row), snd (snd row)]) (sort_key fst items)))]))"
  by (simp add: dict_row_def [abs_def])

lemma mapM_mset:
  assumes "mset xs = mset ys" and "mapM f xs = Inr us"
  shows "\<exists>vs. mapM f ys = Inr vs \<and> mset vs = mset us"
proof -
  have pw: "us = map (\<lambda>x. projr (f x)) xs" and ok: "\<forall>x \<in> set xs. \<exists>y. f x = Inr y"
    using assms(2) by (auto simp: mapM_Inr_iff list_all2_conv_all_nth in_set_conv_nth list_eq_iff_nth_eq)
  have "set ys = set xs" using assms(1) by (metis set_mset_mset)
  with ok have "mapM f ys = Inr (map (\<lambda>x. projr (f x)) ys)"
    by (intro mapM_pure) (metis sum.sel(2))
  moreover have "mset (map (\<lambda>x. projr (f x)) ys) = mset us"
    using assms(1) by (simp add: pw)
  ultimately show ?thesis by blast
qed

lemma sort_key_mset_eq:
  assumes "mset xs = mset ys" and "distinct (map f xs)"
  shows "sort_key f xs = sort_key f ys"
proof (rule sort_key_inj_key_eq)
  show "mset xs = mset (sort_key f ys)" using assms(1) by simp
  show "inj_on f (set xs)" using assms(2) by (simp add: distinct_map)
qed simp

text \<open>
  Two dictionaries with the same pairs have the same canonical bytes, whatever their insertion order,
  when their keys have distinct sort texts; two sets with the same elements always have.
\<close>

definition key_texts :: "(pyvalue \<times> pyvalue) list \<Rightarrow> string list" where
  "key_texts kvs = map (\<lambda>kv. case normalize (fst kv) of Inr k \<Rightarrow> key_sort k | Inl e \<Rightarrow> '''') kvs"

lemma dict_row_key: "dict_row kv = Inr row \<Longrightarrow> \<exists>k. normalize (fst kv) = Inr k \<and> fst row = key_sort k"
  by (auto simp: dict_row_def rbind_Inr_iff)

lemma key_texts_rows:
  assumes "mapM dict_row kvs = Inr rows"
  shows "map fst rows = key_texts kvs"
proof -
  have "list_all2 (\<lambda>kv row. dict_row kv = Inr row) kvs rows"
    using assms by (simp add: mapM_Inr_iff)
  then show ?thesis
    unfolding key_texts_def by induction (auto dest: dict_row_key)
qed

lemma normalize_dict_order:
  assumes "mset kvs = mset kvs'" and "distinct (key_texts kvs)" and "canonical (PDict kvs)"
  shows "normalize (PDict kvs) = normalize (PDict kvs')"
proof -
  from assms(3) obtain j where "normalize (PDict kvs) = Inr j"
    using normalize_total by blast
  then obtain rows where rows: "mapM dict_row kvs = Inr rows"
    unfolding normalize_PDict by auto
  then obtain rows' where rows': "mapM dict_row kvs' = Inr rows'" "mset rows' = mset rows"
    using mapM_mset [OF assms(1)] by blast
  have "sort_key fst rows = sort_key fst rows'"
    using rows'(2) assms(2) key_texts_rows [OF rows] by (intro sort_key_mset_eq) simp_all
  then show ?thesis
    unfolding normalize_PDict rows rows'(1) by simp
qed

lemma map_sort_key: "map f (sort_key f xs) = sort (map f xs)"
proof (rule sym, rule properties_for_sort)
  show "mset (map f (sort_key f xs)) = mset (map f xs)" by simp
qed simp

lemma dumps_set:
  assumes "mset js = mset js'"
  shows "dumps True (JObj [(''__type__'', JStr ''set''), (''items'', JArr (sort_key (dumps True) js))])
    = dumps True (JObj [(''__type__'', JStr ''set''), (''items'', JArr (sort_key (dumps True) js'))])"
proof -
  have "mset (map (dumps True) js) = mset (map (dumps True) js')"
    using assms by simp
  then have "sort (map (dumps True) js) = sort (map (dumps True) js')"
    by (metis mset_sort properties_for_sort sorted_sort)
  then have "map (dumps True) (sort_key (dumps True) js) = map (dumps True) (sort_key (dumps True) js')"
    by (simp add: map_sort_key)
  then show ?thesis by simp
qed

lemma canonicalize_set_order:
  assumes "mset vs = mset vs'" and "canonical (PSet vs)"
  shows "canonicalize (PSet vs) = canonicalize (PSet vs')"
proof -
  from assms(2) obtain j where "normalize (PSet vs) = Inr j"
    using normalize_total by blast
  then obtain js where js: "mapM normalize vs = Inr js" by auto
  then obtain js' where js': "mapM normalize vs' = Inr js'" "mset js' = mset js"
    using mapM_mset [OF assms(1)] by blast
  show ?thesis
    using dumps_set [OF js'(2)] by (simp add: canonicalize_def js js'(1) del: dumps.simps)
qed

end
