(* ===== verification/SuffModels.thy ===== *)
theory SuffModels
  imports Canonicalization
begin

text \<open>
  \<open>hunter.sufficiency.models\<close>: the closed vocabularies, the frozen dataclasses and their
  \<open>__post_init__\<close> checks. A dataclass is a record of its fields; \<open>mk_x r\<close> is the constructor call
  with the fields of \<open>r\<close>: the first failing check raises, otherwise the value with the fields the
  constructor rewrites. The vocabularies are \<open>Literal\<close> types, so their values are strings that
  the constructors check. Metadata keys are strings, as the annotations have them.
\<close>

section \<open>Vocabularies\<close>

definition AVAILABILITY_STATES :: "string list" where
  "AVAILABILITY_STATES = [''available'', ''stale'', ''partial'', ''unavailable'']"

definition DIRECTNESS_VALUES :: "string list" where
  "DIRECTNESS_VALUES = [''direct_observation'', ''proxy_signal'', ''derived_from_direct'', ''unavailable'']"

definition SUFFICIENCY_STATES :: "string list" where
  "SUFFICIENCY_STATES =
     [''sufficient'', ''sufficient_with_limitations'', ''degraded'', ''insufficient'', ''unavailable'']"

definition DEGRADED_MODE_OUTCOMES :: "string list" where
  "DEGRADED_MODE_OUTCOMES =
     [''normal'', ''degraded_non_blocking'', ''degraded_material_limitation'',
      ''blocked_insufficient_evidence'', ''unavailable'']"

definition BLOCKING_LEVELS :: "string list" where
  "BLOCKING_LEVELS =
     [''required_for_output'', ''required_for_high_confidence'', ''required_for_full_report'', ''optional_context'']"

definition REQUIREMENT_KINDS :: "string list" where
  "REQUIREMENT_KINDS =
     [''direct_observation'', ''derived_observation'', ''source_quality'', ''freshness'', ''lineage'',
      ''conflict_state'', ''proxy_context'']"

definition EVIDENCE_DOMAINS :: "string list" where
  "EVIDENCE_DOMAINS =
     [''candidate_identity'', ''market'', ''onchain'', ''developer'', ''social'', ''macro'',
      ''evidence_intelligence'', ''competitive'', ''historical'', ''protocol'', ''unknown'']"

definition PROXY_SIGNAL_TYPES :: "string list" where
  "PROXY_SIGNAL_TYPES =
     [''market_proxy'', ''liquidity_proxy'', ''developer_proxy'', ''usage_proxy'', ''revenue_proxy'',
      ''competitive_proxy'', ''social_proxy'', ''none'']"

definition DISAGREEMENT_STATES :: "string list" where
  "DISAGREEMENT_STATES =
     [''agreement'', ''disagreement'', ''insufficient_sources'', ''incompatible_scope'', ''unavailable'']"

definition FRESHNESS_STATES :: "string list" where
  "FRESHNESS_STATES = [''fresh'', ''stale'', ''unavailable'']"

definition SOURCE_QUALITY_STATES :: "string list" where
  "SOURCE_QUALITY_STATES = [''high'', ''medium'', ''low'', ''conflicted'', ''unavailable'']"

definition LINEAGE_STATES :: "string list" where
  "LINEAGE_STATES = [''complete'', ''partial'', ''missing'']"

definition CONFLICT_STATES :: "string list" where
  "CONFLICT_STATES = [''none'', ''disputed'', ''conflicted'', ''unavailable'']"

definition REPLAY_MODES :: "string list" where
  "REPLAY_MODES = [''current'', ''historical_strict_known_by_hunter'', ''reconstructed_after_cutoff'']"

definition SOURCE_VALIDATION_STATUSES :: "string list" where
  "SOURCE_VALIDATION_STATUSES =
     [''agreement'', ''disagreement'', ''missing_provider'', ''stale_source'', ''conflict'',
      ''incompatible_scope'', ''unavailable'']"

definition LINEAGE_OWNER_TYPES :: "string list" where
  "LINEAGE_OWNER_TYPES = [''availability'', ''assessment'', ''disagreement'', ''validation'']"

lemmas vocabulary_defs =
  AVAILABILITY_STATES_def DIRECTNESS_VALUES_def SUFFICIENCY_STATES_def DEGRADED_MODE_OUTCOMES_def
  BLOCKING_LEVELS_def REQUIREMENT_KINDS_def EVIDENCE_DOMAINS_def PROXY_SIGNAL_TYPES_def
  DISAGREEMENT_STATES_def FRESHNESS_STATES_def SOURCE_QUALITY_STATES_def LINEAGE_STATES_def
  CONFLICT_STATES_def REPLAY_MODES_def SOURCE_VALIDATION_STATUSES_def LINEAGE_OWNER_TYPES_def

section \<open>Checks shared by the constructors\<close>

definition list_text :: "string list \<Rightarrow> string" where
  "list_text ss = ''['' @ join '', '' (map (\<lambda>s. [CHR 0x27] @ s @ [CHR 0x27]) ss) @ '']''"

definition check_text :: "string \<Rightarrow> string \<Rightarrow> check" where
  "check_text name v = raise_if (blank v) (ValueError (name @ '' is required''))"

definition check_texts :: "(string \<times> string) list \<Rightarrow> check list" where
  "check_texts nvs = map (\<lambda>nv. check_text (fst nv) (snd nv)) nvs"

definition check_member :: "string \<Rightarrow> string \<Rightarrow> string list \<Rightarrow> check" where
  "check_member name v allowed =
     raise_if (v \<notin> set allowed) (ValueError (name @ '' must be one of '' @ list_text (sorted_text allowed)))"

definition check_range :: "string \<Rightarrow> pyfloat \<Rightarrow> check" where
  "check_range name v = raise_if (\<not> in_unit v) (ValueError (name @ '' must be between 0 and 1''))"

definition check_aware :: "string \<Rightarrow> pydatetime \<Rightarrow> check" where
  "check_aware name v = raise_if (\<not> aware v) (ValueError (name @ '' must be timezone-aware''))"

definition check_aware_opt :: "string \<Rightarrow> pydatetime option \<Rightarrow> check" where
  "check_aware_opt name v = (case v of None \<Rightarrow> None | Some t \<Rightarrow> check_aware name t)"

definition check_text_tuple :: "string \<Rightarrow> string list \<Rightarrow> check list" where
  "check_text_tuple name vs =
     raise_if (vs = []) (ValueError (name @ '' is required'')) # map (check_text name) vs"

definition check_proxy_tuple :: "string \<Rightarrow> string list \<Rightarrow> check list" where
  "check_proxy_tuple name vs = concat (map (\<lambda>v.
     [check_member name v PROXY_SIGNAL_TYPES,
      raise_if (v = ''none'') (ValueError ''accepted_proxy_types cannot include none'')]) vs)"

definition check_nonneg :: "string \<Rightarrow> int \<Rightarrow> check" where
  "check_nonneg name i = raise_if (i < 0) (ValueError (name @ '' must be non-negative''))"

lemma check_None [simp, checked_simps]:
  "check_text name v = None \<longleftrightarrow> \<not> blank v"
  "check_member name v allowed = None \<longleftrightarrow> v \<in> set allowed"
  "check_range name x = None \<longleftrightarrow> in_unit x"
  "check_aware name t = None \<longleftrightarrow> aware t"
  "check_aware_opt name d = None \<longleftrightarrow> (\<forall>t. d = Some t \<longrightarrow> aware t)"
  "check_nonneg name i = None \<longleftrightarrow> 0 \<le> i"
  by (auto simp: check_text_def check_member_def check_range_def check_aware_def check_aware_opt_def
      check_nonneg_def split: option.splits)

lemma check_texts_None [simp, checked_simps]:
  "list_all (\<lambda>c. c = None) (check_texts nvs) \<longleftrightarrow> list_all (\<lambda>nv. \<not> blank (snd nv)) nvs"
  by (simp add: check_texts_def list_all_iff)

lemma check_text_tuple_None [simp, checked_simps]:
  "list_all (\<lambda>c. c = None) (check_text_tuple name vs) \<longleftrightarrow> vs \<noteq> [] \<and> list_all (\<lambda>v. \<not> blank v) vs"
  by (auto simp: check_text_tuple_def list_all_iff)

lemma check_proxy_tuple_None [simp, checked_simps]:
  "list_all (\<lambda>c. c = None) (check_proxy_tuple name vs) \<longleftrightarrow>
   list_all (\<lambda>v. v \<in> set PROXY_SIGNAL_TYPES \<and> v \<noteq> ''none'') vs"
  by (auto simp: check_proxy_tuple_def list_all_iff)

section \<open>Requirements\<close>

record data_requirement =
  dr_requirement_id :: string
  dr_engine_id :: string
  dr_analysis_purpose :: string
  dr_output_field :: string
  dr_requirement_kind :: string
  dr_evidence_domain :: string
  dr_required_entity_type :: string
  dr_required_source_types :: "string list"
  dr_direct_observation_required :: bool
  dr_proxy_allowed :: bool
  dr_accepted_proxy_types :: "string list"
  dr_minimum_freshness_seconds :: int
  dr_minimum_source_authority :: string
  dr_minimum_lineage_depth :: int
  dr_minimum_confidence :: pyfloat
  dr_historical_required :: bool
  dr_blocking_level :: string
  dr_policy_id :: string
  dr_policy_version :: string
  dr_effective_at :: pydatetime
  dr_recorded_at :: pydatetime
  dr_schema_version :: string
  dr_metadata :: "(string \<times> pyvalue) list"

definition data_requirement_checks :: "data_requirement \<Rightarrow> check list" where
  "data_requirement_checks r =
     check_texts
       [(''requirement_id'', dr_requirement_id r), (''engine_id'', dr_engine_id r),
        (''analysis_purpose'', dr_analysis_purpose r), (''output_field'', dr_output_field r),
        (''required_entity_type'', dr_required_entity_type r),
        (''minimum_source_authority'', dr_minimum_source_authority r), (''policy_id'', dr_policy_id r),
        (''policy_version'', dr_policy_version r), (''schema_version'', dr_schema_version r)] @
     [check_member ''requirement_kind'' (dr_requirement_kind r) REQUIREMENT_KINDS,
      check_member ''evidence_domain'' (dr_evidence_domain r) EVIDENCE_DOMAINS,
      check_member ''blocking_level'' (dr_blocking_level r) BLOCKING_LEVELS] @
     check_text_tuple ''required_source_types'' (dr_required_source_types r) @
     check_proxy_tuple ''accepted_proxy_types'' (dr_accepted_proxy_types r) @
     [raise_if (dr_proxy_allowed r \<and> dr_accepted_proxy_types r = [])
        (ValueError ''proxy-allowed requirements must define accepted_proxy_types''),
      raise_if (\<not> dr_proxy_allowed r \<and> dr_accepted_proxy_types r \<noteq> [])
        (ValueError ''accepted_proxy_types require proxy_allowed''),
      raise_if (dr_direct_observation_required r \<and> dr_requirement_kind r = ''proxy_context'')
        (ValueError ''proxy_context requirements cannot require direct observations''),
      check_nonneg ''minimum_freshness_seconds'' (dr_minimum_freshness_seconds r),
      check_nonneg ''minimum_lineage_depth'' (dr_minimum_lineage_depth r),
      check_range ''minimum_confidence'' (dr_minimum_confidence r),
      check_aware ''effective_at'' (dr_effective_at r),
      check_aware ''recorded_at'' (dr_recorded_at r)]"

definition mk_data_requirement :: "data_requirement \<Rightarrow> data_requirement result" where
  "mk_data_requirement r = checked (data_requirement_checks r)
     (r\<lparr>dr_minimum_confidence := round4 (dr_minimum_confidence r)\<rparr>)"

definition directness_satisfies_requirement :: "data_requirement \<Rightarrow> string \<Rightarrow> bool" where
  "directness_satisfies_requirement r directness =
     (if dr_direct_observation_required r then directness = ''direct_observation''
      else if directness = ''proxy_signal'' then dr_proxy_allowed r
      else directness \<in> {''direct_observation'', ''derived_from_direct''})"

section \<open>Availabilities\<close>

record data_availability =
  da_availability_id :: string
  da_requirement_id :: string
  da_candidate_id :: string
  da_engine_id :: string
  da_analysis_purpose :: string
  da_availability_state :: string
  da_directness :: string
  da_proxy_type :: "string option"
  da_freshness_seconds :: "int option"
  da_source_quality :: string
  da_lineage_complete :: bool
  da_conflict_state :: string
  da_evidence_count :: int
  da_missing_reason :: string
  da_effective_at :: pydatetime
  da_recorded_at :: pydatetime
  da_cutoff_at :: "pydatetime option"
  da_replay_mode :: string
  da_processing_run_id :: string
  da_schema_version :: string
  da_metadata :: "(string \<times> pyvalue) list"

definition data_availability_checks :: "data_availability \<Rightarrow> check list" where
  "data_availability_checks a =
     check_texts
       [(''availability_id'', da_availability_id a), (''requirement_id'', da_requirement_id a),
        (''candidate_id'', da_candidate_id a), (''engine_id'', da_engine_id a),
        (''analysis_purpose'', da_analysis_purpose a), (''processing_run_id'', da_processing_run_id a),
        (''schema_version'', da_schema_version a)] @
     [check_member ''availability_state'' (da_availability_state a) AVAILABILITY_STATES,
      check_member ''directness'' (da_directness a) DIRECTNESS_VALUES,
      check_member ''source_quality'' (da_source_quality a) SOURCE_QUALITY_STATES,
      check_member ''conflict_state'' (da_conflict_state a) CONFLICT_STATES,
      check_member ''replay_mode'' (da_replay_mode a) REPLAY_MODES] @
     (case da_proxy_type a of
        None \<Rightarrow> []
      | Some p \<Rightarrow> [check_member ''proxy_type'' p PROXY_SIGNAL_TYPES,
                    raise_if (p = ''none'') (ValueError ''proxy_type cannot be none when present'')]) @
     [raise_if (da_directness a = ''proxy_signal'' \<and> da_proxy_type a = None)
        (ValueError ''proxy_signal directness requires proxy_type''),
      raise_if (da_directness a \<noteq> ''proxy_signal'' \<and> da_proxy_type a \<noteq> None)
        (ValueError ''proxy_type is only allowed for proxy_signal directness'')] @
     (if da_availability_state a = ''unavailable''
      then [check_text ''missing_reason'' (da_missing_reason a),
            raise_if (da_directness a \<noteq> ''unavailable'')
              (ValueError ''unavailable state requires unavailable directness'')]
      else []) @
     [raise_if (da_directness a = ''unavailable'' \<and> da_availability_state a \<noteq> ''unavailable'')
        (ValueError ''unavailable directness requires unavailable state''),
      (case da_freshness_seconds a of None \<Rightarrow> None | Some s \<Rightarrow> check_nonneg ''freshness_seconds'' s),
      check_nonneg ''evidence_count'' (da_evidence_count a),
      check_aware ''effective_at'' (da_effective_at a),
      check_aware ''recorded_at'' (da_recorded_at a),
      check_aware_opt ''cutoff_at'' (da_cutoff_at a)]"

definition mk_data_availability :: "data_availability \<Rightarrow> data_availability result" where
  "mk_data_availability a = checked (data_availability_checks a) a"

section \<open>Assessments\<close>

record data_sufficiency_assessment =
  as_assessment_id :: string
  as_candidate_id :: string
  as_engine_id :: string
  as_analysis_purpose :: string
  as_assessment_scope :: string
  as_sufficiency_state :: string
  as_degraded_mode :: string
  as_coverage_score :: pyfloat
  as_freshness_state :: string
  as_source_quality_state :: string
  as_lineage_state :: string
  as_conflict_state :: string
  as_direct_observation_coverage :: pyfloat
  as_proxy_signal_coverage :: pyfloat
  as_material_missing_count :: int
  as_limitations_summary :: string
  as_policy_id :: string
  as_policy_version :: string
  as_effective_at :: pydatetime
  as_recorded_at :: pydatetime
  as_cutoff_at :: "pydatetime option"
  as_replay_mode :: string
  as_processing_run_id :: string
  as_schema_version :: string
  as_metadata :: "(string \<times> pyvalue) list"

definition assessment_checks :: "data_sufficiency_assessment \<Rightarrow> check list" where
  "assessment_checks a =
     check_texts
       [(''assessment_id'', as_assessment_id a), (''candidate_id'', as_candidate_id a),
        (''engine_id'', as_engine_id a), (''analysis_purpose'', as_analysis_purpose a),
        (''assessment_scope'', as_assessment_scope a), (''policy_id'', as_policy_id a),
        (''policy_version'', as_policy_version a), (''processing_run_id'', as_processing_run_id a),
        (''schema_version'', as_schema_version a)] @
     [check_member ''sufficiency_state'' (as_sufficiency_state a) SUFFICIENCY_STATES,
      check_member ''degraded_mode'' (as_degraded_mode a) DEGRADED_MODE_OUTCOMES,
      check_member ''freshness_state'' (as_freshness_state a) FRESHNESS_STATES,
      check_member ''source_quality_state'' (as_source_quality_state a) SOURCE_QUALITY_STATES,
      check_member ''lineage_state'' (as_lineage_state a) LINEAGE_STATES,
      check_member ''conflict_state'' (as_conflict_state a) CONFLICT_STATES,
      check_member ''replay_mode'' (as_replay_mode a) REPLAY_MODES,
      check_range ''coverage_score'' (as_coverage_score a),
      check_range ''direct_observation_coverage'' (as_direct_observation_coverage a),
      check_range ''proxy_signal_coverage'' (as_proxy_signal_coverage a),
      check_nonneg ''material_missing_count'' (as_material_missing_count a)] @
     (if as_sufficiency_state a \<in> {''degraded'', ''insufficient'', ''unavailable''}
      then [check_text ''limitations_summary'' (as_limitations_summary a)] else []) @
     [check_aware ''effective_at'' (as_effective_at a),
      check_aware ''recorded_at'' (as_recorded_at a),
      check_aware_opt ''cutoff_at'' (as_cutoff_at a)]"

definition mk_assessment :: "data_sufficiency_assessment \<Rightarrow> data_sufficiency_assessment result" where
  "mk_assessment a = checked (assessment_checks a)
     (a\<lparr>as_coverage_score := round4 (as_coverage_score a),
        as_direct_observation_coverage := round4 (as_direct_observation_coverage a),
        as_proxy_signal_coverage := round4 (as_proxy_signal_coverage a)\<rparr>)"

section \<open>Disagreements and cross-source validation results\<close>

record source_disagreement =
  sd_disagreement_id :: string
  sd_candidate_id :: string
  sd_requirement_id :: string
  sd_engine_id :: string
  sd_analysis_purpose :: string
  sd_disagreement_state :: string
  sd_compared_source_count :: int
  sd_compatible_scope :: bool
  sd_reason :: string
  sd_effective_at :: pydatetime
  sd_recorded_at :: pydatetime
  sd_replay_mode :: string
  sd_processing_run_id :: string
  sd_schema_version :: string

definition source_disagreement_checks :: "source_disagreement \<Rightarrow> check list" where
  "source_disagreement_checks d =
     check_texts
       [(''disagreement_id'', sd_disagreement_id d), (''candidate_id'', sd_candidate_id d),
        (''requirement_id'', sd_requirement_id d), (''engine_id'', sd_engine_id d),
        (''analysis_purpose'', sd_analysis_purpose d), (''reason'', sd_reason d),
        (''processing_run_id'', sd_processing_run_id d), (''schema_version'', sd_schema_version d)] @
     [check_member ''disagreement_state'' (sd_disagreement_state d) DISAGREEMENT_STATES,
      check_member ''replay_mode'' (sd_replay_mode d) REPLAY_MODES,
      check_nonneg ''compared_source_count'' (sd_compared_source_count d),
      check_aware ''effective_at'' (sd_effective_at d),
      check_aware ''recorded_at'' (sd_recorded_at d)]"

definition mk_source_disagreement :: "source_disagreement \<Rightarrow> source_disagreement result" where
  "mk_source_disagreement d = checked (source_disagreement_checks d) d"

record source_validation_result =
  sv_validation_id :: string
  sv_candidate_id :: string
  sv_requirement_id :: string
  sv_engine_id :: string
  sv_analysis_purpose :: string
  sv_source_a :: string
  sv_source_b :: string
  sv_validation_status :: string
  sv_compatible_scope :: bool
  sv_source_authority_state :: string
  sv_freshness_state :: string
  sv_reason :: string
  sv_effective_at :: pydatetime
  sv_recorded_at :: pydatetime
  sv_cutoff_at :: "pydatetime option"
  sv_replay_mode :: string
  sv_processing_run_id :: string
  sv_schema_version :: string
  sv_metadata :: "(string \<times> pyvalue) list"

definition source_validation_checks :: "source_validation_result \<Rightarrow> check list" where
  "source_validation_checks v =
     check_texts
       [(''validation_id'', sv_validation_id v), (''candidate_id'', sv_candidate_id v),
        (''requirement_id'', sv_requirement_id v), (''engine_id'', sv_engine_id v),
        (''analysis_purpose'', sv_analysis_purpose v), (''source_a'', sv_source_a v),
        (''source_b'', sv_source_b v), (''reason'', sv_reason v),
        (''processing_run_id'', sv_processing_run_id v), (''schema_version'', sv_schema_version v)] @
     [check_member ''validation_status'' (sv_validation_status v) SOURCE_VALIDATION_STATUSES,
      check_member ''source_authority_state'' (sv_source_authority_state v) SOURCE_QUALITY_STATES,
      check_member ''freshness_state'' (sv_freshness_state v) FRESHNESS_STATES,
      check_member ''replay_mode'' (sv_replay_mode v) REPLAY_MODES,
      check_aware ''effective_at'' (sv_effective_at v),
      check_aware ''recorded_at'' (sv_recorded_at v),
      check_aware_opt ''cutoff_at'' (sv_cutoff_at v)]"

definition mk_source_validation :: "source_validation_result \<Rightarrow> source_validation_result result" where
  "mk_source_validation v = checked (source_validation_checks v) v"

section \<open>Lineage links\<close>

text \<open>
  The four link classes have the same fields but for the name of the linked identifier, which the
  checks take as a parameter, as \<open>_lineage\<close> does.
\<close>

record lineage_link =
  ll_link_id :: string
  ll_owner_type :: string
  ll_owner_id :: string
  ll_target_id :: string
  ll_role :: string
  ll_position :: int
  ll_created_at :: pydatetime
  ll_schema_version :: string

definition lineage_checks :: "string \<Rightarrow> lineage_link \<Rightarrow> check list" where
  "lineage_checks lineage_field l =
     check_texts
       [(''link_id'', ll_link_id l), (''owner_id'', ll_owner_id l), (lineage_field, ll_target_id l),
        (''role'', ll_role l), (''schema_version'', ll_schema_version l)] @
     [check_member ''owner_type'' (ll_owner_type l) LINEAGE_OWNER_TYPES,
      check_nonneg ''position'' (ll_position l),
      check_aware ''created_at'' (ll_created_at l)]"

definition mk_evidence_link :: "lineage_link \<Rightarrow> lineage_link result" where
  "mk_evidence_link l = checked (lineage_checks ''source_evidence_id'' l) l"

definition mk_span_link :: "lineage_link \<Rightarrow> lineage_link result" where
  "mk_span_link l = checked (lineage_checks ''span_id'' l) l"

definition mk_claim_link :: "lineage_link \<Rightarrow> lineage_link result" where
  "mk_claim_link l = checked (lineage_checks ''claim_id'' l) l"

definition mk_conflict_link :: "lineage_link \<Rightarrow> lineage_link result" where
  "mk_conflict_link l = checked (lineage_checks ''conflict_id'' l) l"

section \<open>Processing runs and checkpoints\<close>

record processing_run =
  pr_run_id :: string
  pr_run_type :: string
  pr_status :: string
  pr_started_at :: pydatetime
  pr_finished_at :: "pydatetime option"
  pr_replay_mode :: string
  pr_cutoff_at :: "pydatetime option"
  pr_schema_version :: string
  pr_metadata :: "(string \<times> pyvalue) list"

definition mk_processing_run :: "processing_run \<Rightarrow> processing_run result" where
  "mk_processing_run p = checked
     (check_texts
        [(''run_id'', pr_run_id p), (''run_type'', pr_run_type p), (''status'', pr_status p),
         (''schema_version'', pr_schema_version p)] @
      [check_member ''replay_mode'' (pr_replay_mode p) REPLAY_MODES,
       check_aware ''started_at'' (pr_started_at p),
       check_aware_opt ''finished_at'' (pr_finished_at p),
       check_aware_opt ''cutoff_at'' (pr_cutoff_at p)]) p"

record suff_checkpoint =
  cp_checkpoint_id :: string
  cp_processor_name :: string
  cp_target_id :: string
  cp_cursor :: string
  cp_updated_at :: pydatetime
  cp_schema_version :: string

definition mk_checkpoint :: "suff_checkpoint \<Rightarrow> suff_checkpoint result" where
  "mk_checkpoint c = checked
     (check_texts
        [(''checkpoint_id'', cp_checkpoint_id c), (''processor_name'', cp_processor_name c),
         (''target_id'', cp_target_id c), (''cursor'', cp_cursor c), (''schema_version'', cp_schema_version c)] @
      [check_aware ''updated_at'' (cp_updated_at c)]) c"

section \<open>What a constructed value satisfies\<close>

definition valid_requirement :: "data_requirement \<Rightarrow> bool" where
  "valid_requirement r = list_all (\<lambda>c. c = None) (data_requirement_checks r)"

definition valid_availability :: "data_availability \<Rightarrow> bool" where
  "valid_availability a = list_all (\<lambda>c. c = None) (data_availability_checks a)"

definition valid_assessment :: "data_sufficiency_assessment \<Rightarrow> bool" where
  "valid_assessment a = list_all (\<lambda>c. c = None) (assessment_checks a)"

lemma mk_data_requirement_Inr:
  "mk_data_requirement r = Inr r' \<longleftrightarrow>
   valid_requirement r \<and> r' = r\<lparr>dr_minimum_confidence := round4 (dr_minimum_confidence r)\<rparr>"
  by (auto simp: mk_data_requirement_def valid_requirement_def checked_Inr)

lemma mk_data_availability_Inr: "mk_data_availability a = Inr a' \<longleftrightarrow> valid_availability a \<and> a' = a"
  by (auto simp: mk_data_availability_def valid_availability_def checked_Inr)

lemma valid_requirementD:
  assumes "valid_requirement r"
  shows "\<not> blank (dr_requirement_id r)" "\<not> blank (dr_engine_id r)" "\<not> blank (dr_analysis_purpose r)"
    "\<not> blank (dr_output_field r)" "\<not> blank (dr_schema_version r)" "\<not> blank (dr_policy_id r)"
    "dr_blocking_level r \<in> set BLOCKING_LEVELS" "dr_requirement_kind r \<in> set REQUIREMENT_KINDS"
    "dr_required_source_types r \<noteq> []" "\<forall>s \<in> set (dr_required_source_types r). \<not> blank s"
    "\<forall>p \<in> set (dr_accepted_proxy_types r). p \<in> set PROXY_SIGNAL_TYPES \<and> p \<noteq> ''none''"
    "dr_proxy_allowed r \<longleftrightarrow> dr_accepted_proxy_types r \<noteq> []"
    "0 \<le> dr_minimum_freshness_seconds r" "0 \<le> dr_minimum_lineage_depth r"
    "in_unit (dr_minimum_confidence r)" "aware (dr_effective_at r)" "aware (dr_recorded_at r)"
  using assms unfolding valid_requirement_def data_requirement_checks_def list_all_append
    check_texts_None check_text_tuple_None check_proxy_tuple_None
  by (auto simp: list_all_iff)

lemma valid_availabilityD:
  assumes "valid_availability a"
  shows "da_availability_state a \<in> set AVAILABILITY_STATES" "da_directness a \<in> set DIRECTNESS_VALUES"
    "da_source_quality a \<in> set SOURCE_QUALITY_STATES" "da_conflict_state a \<in> set CONFLICT_STATES"
    "da_directness a = ''unavailable'' \<longleftrightarrow> da_availability_state a = ''unavailable''"
    "da_directness a = ''proxy_signal'' \<longleftrightarrow> da_proxy_type a \<noteq> None"
    "da_availability_state a = ''unavailable'' \<Longrightarrow> \<not> blank (da_missing_reason a)"
    "0 \<le> da_evidence_count a" "aware (da_effective_at a)" "aware (da_recorded_at a)"
  using assms unfolding valid_availability_def data_availability_checks_def list_all_append
    check_texts_None
  by (auto split: option.splits if_splits)

lemma valid_requirement_round:
  "valid_requirement r \<Longrightarrow>
   valid_requirement (r\<lparr>dr_minimum_confidence := round4 (dr_minimum_confidence r)\<rparr>)"
  unfolding valid_requirement_def data_requirement_checks_def list_all_append
    check_texts_None check_text_tuple_None check_proxy_tuple_None
  by (auto dest: round4_unit)

end
