(* ===== verification/SuffPolicies.thy ===== *)
theory SuffPolicies
  imports SuffModels
begin

text \<open>
  \<open>hunter.sufficiency.policies\<close>, \<open>identity\<close> and \<open>registry\<close>: the proxy and degraded-mode policies, the
  decision of the degraded-mode policy for one requirement and its availability, the identifiers
  derived from canonical payloads, and the registry of requirements with its default contents.
\<close>

section \<open>Identifiers\<close>

definition sufficiency_id :: "string \<Rightarrow> pyvalue \<Rightarrow> string result" where
  "sufficiency_id kind payload = identity_of (''sufficiency-'' @ kind) payload"

text \<open>A dictionary display with text keys.\<close>

definition payload_dict :: "(string \<times> pyvalue) list \<Rightarrow> pyvalue" where
  "payload_dict kvs = PDict (map (\<lambda>kv. (PStr (fst kv), snd kv)) kvs)"

lemma canonical_payload_dict [simp]:
  "canonical (payload_dict kvs) \<longleftrightarrow> list_all (\<lambda>kv. canonical (snd kv)) kvs"
  by (simp add: payload_dict_def list_all_iff)

definition data_requirement_id ::
  "string \<Rightarrow> string \<Rightarrow> string \<Rightarrow> string \<Rightarrow> string \<Rightarrow> string \<Rightarrow> string \<Rightarrow> string result" where
  "data_requirement_id engine_id analysis_purpose output_field requirement_kind policy_id policy_version
       schema_version =
     sufficiency_id ''requirement'' (payload_dict
       [(''engine_id'', PStr engine_id), (''analysis_purpose'', PStr analysis_purpose),
        (''output_field'', PStr output_field), (''requirement_kind'', PStr requirement_kind),
        (''policy_id'', PStr policy_id), (''policy_version'', PStr policy_version),
        (''schema_version'', PStr schema_version)])"

definition degraded_mode_policy_id :: "string \<Rightarrow> string \<Rightarrow> string \<Rightarrow> string result" where
  "degraded_mode_policy_id policy_name policy_version schema_version =
     sufficiency_id ''degraded-mode-policy'' (payload_dict
       [(''policy_name'', PStr policy_name), (''policy_version'', PStr policy_version),
        (''schema_version'', PStr schema_version)])"

definition proxy_signal_policy_id :: "string \<Rightarrow> string \<Rightarrow> string \<Rightarrow> string result" where
  "proxy_signal_policy_id proxy_type policy_version schema_version =
     sufficiency_id ''proxy-signal-policy'' (payload_dict
       [(''proxy_type'', PStr proxy_type), (''policy_version'', PStr policy_version),
        (''schema_version'', PStr schema_version)])"

lemma sufficiency_id_total:
  assumes "canonical payload"
  obtains i where "sufficiency_id kind payload = Inr i" and "\<not> blank i"
proof -
  obtain d where d: "sufficiency_id kind payload =
      Inr ((''sufficiency-'' @ kind) @ '':'' @ IDENTITY_SCHEMA_VERSION @ '':'' @ sha256_hex d)"
    unfolding sufficiency_id_def by (rule identity_of_total [OF assms])
  show ?thesis by (rule that [OF d]) (simp add: IDENTITY_SCHEMA_VERSION_def)
qed

lemma sufficiency_id_ex: "canonical payload \<Longrightarrow> \<exists>i. sufficiency_id kind payload = Inr i \<and> \<not> blank i"
  by (erule sufficiency_id_total [where kind = kind]) blast

section \<open>Proxy signal policies\<close>

record proxy_signal_policy =
  pp_policy_id :: string
  pp_policy_version :: string
  pp_proxy_type :: string
  pp_allowed_requirement_kinds :: "string list"
  pp_limitation_text :: string
  pp_confidence_impact :: pyfloat
  pp_may_satisfy_direct_observation :: bool
  pp_effective_at :: pydatetime
  pp_recorded_at :: pydatetime
  pp_schema_version :: string

definition proxy_signal_policy_checks :: "proxy_signal_policy \<Rightarrow> check list" where
  "proxy_signal_policy_checks p =
     check_texts
       [(''policy_id'', pp_policy_id p), (''policy_version'', pp_policy_version p),
        (''limitation_text'', pp_limitation_text p), (''schema_version'', pp_schema_version p)] @
     [raise_if (pp_proxy_type p \<notin> set PROXY_SIGNAL_TYPES \<or> pp_proxy_type p = ''none'')
        (ValueError (''proxy_type must be one of '' @
           list_text (sorted_text (filter (\<lambda>s. s \<noteq> ''none'') PROXY_SIGNAL_TYPES)))),
      raise_if (pp_allowed_requirement_kinds p = []) (ValueError ''allowed_requirement_kinds is required'')] @
     map (check_text ''allowed_requirement_kinds'') (pp_allowed_requirement_kinds p) @
     [raise_if (\<not> in_unit (pp_confidence_impact p))
        (ValueError ''confidence_impact must be between 0 and 1''),
      raise_if (pp_may_satisfy_direct_observation p)
        (ValueError ''proxy signals may not satisfy direct observations''),
      check_aware ''effective_at'' (pp_effective_at p),
      check_aware ''recorded_at'' (pp_recorded_at p)]"

definition mk_proxy_signal_policy :: "proxy_signal_policy \<Rightarrow> proxy_signal_policy result" where
  "mk_proxy_signal_policy p = checked (proxy_signal_policy_checks p)
     (p\<lparr>pp_confidence_impact := round4 (pp_confidence_impact p)\<rparr>)"

section \<open>The degraded-mode policy\<close>

record degraded_mode_decision =
  dd_outcome :: string
  dd_reason :: string
  dd_blocks_output :: bool
  dd_preserves_score :: bool
  dd_treats_missing_as_negative :: bool

text \<open>A decision with the default flags of the dataclass.\<close>

definition decision :: "string \<Rightarrow> string \<Rightarrow> bool \<Rightarrow> degraded_mode_decision" where
  "decision outcome reason blocks =
     \<lparr>dd_outcome = outcome, dd_reason = reason, dd_blocks_output = blocks,
      dd_preserves_score = True, dd_treats_missing_as_negative = False\<rparr>"

record degraded_mode_policy =
  dp_policy_id :: string
  dp_policy_version :: string
  dp_unavailable_required_outcome :: string
  dp_partial_required_outcome :: string
  dp_stale_required_outcome :: string
  dp_proxy_for_direct_outcome :: string
  dp_optional_missing_outcome :: string
  dp_effective_at :: pydatetime
  dp_recorded_at :: pydatetime
  dp_schema_version :: string

definition degraded_mode_policy_checks :: "degraded_mode_policy \<Rightarrow> check list" where
  "degraded_mode_policy_checks p =
     check_texts
       [(''policy_id'', dp_policy_id p), (''policy_version'', dp_policy_version p),
        (''schema_version'', dp_schema_version p)] @
     [check_member ''unavailable_required_outcome'' (dp_unavailable_required_outcome p) DEGRADED_MODE_OUTCOMES,
      check_member ''partial_required_outcome'' (dp_partial_required_outcome p) DEGRADED_MODE_OUTCOMES,
      check_member ''stale_required_outcome'' (dp_stale_required_outcome p) DEGRADED_MODE_OUTCOMES,
      check_member ''proxy_for_direct_outcome'' (dp_proxy_for_direct_outcome p) DEGRADED_MODE_OUTCOMES,
      check_member ''optional_missing_outcome'' (dp_optional_missing_outcome p) DEGRADED_MODE_OUTCOMES,
      raise_if (dp_proxy_for_direct_outcome p = ''normal'')
        (ValueError ''proxy_for_direct_outcome cannot be normal''),
      check_aware ''effective_at'' (dp_effective_at p),
      check_aware ''recorded_at'' (dp_recorded_at p)]"

definition mk_degraded_mode_policy :: "degraded_mode_policy \<Rightarrow> degraded_mode_policy result" where
  "mk_degraded_mode_policy p = checked (degraded_mode_policy_checks p) p"

definition valid_policy :: "degraded_mode_policy \<Rightarrow> bool" where
  "valid_policy p = list_all (\<lambda>c. c = None) (degraded_mode_policy_checks p)"

definition material :: "string \<Rightarrow> bool" where
  "material blocking_level =
     (blocking_level \<in> {''required_for_output'', ''required_for_high_confidence'', ''required_for_full_report''})"

text \<open>The outcome of a state that depends on whether the requirement is material.\<close>

definition by_material :: "data_requirement \<Rightarrow> string \<Rightarrow> string \<Rightarrow> string" where
  "by_material r required optional = (if material (dr_blocking_level r) then required else optional)"

definition policy_decide ::
  "degraded_mode_policy \<Rightarrow> data_requirement \<Rightarrow> data_availability \<Rightarrow> degraded_mode_decision result" where
  "policy_decide p r a =
     (if dr_requirement_id r \<noteq> da_requirement_id a
      then Inl (ValueError ''availability requirement_id does not match requirement'')
      else if da_directness a = ''proxy_signal'' \<and> dr_direct_observation_required r
      then Inr (decision (dp_proxy_for_direct_outcome p)
             ''proxy_signal_cannot_satisfy_required_direct_observation''
             (dp_proxy_for_direct_outcome p = ''blocked_insufficient_evidence''))
      else if da_availability_state a = ''available''
      then (if da_directness a = ''proxy_signal''
            then let outcome = (if dr_proxy_allowed r then ''degraded_non_blocking''
                                else dp_proxy_for_direct_outcome p)
                 in Inr (decision outcome ''proxy_signal_available_only_as_limited_context''
                      (outcome = ''blocked_insufficient_evidence''))
            else Inr (decision ''normal'' ''direct_or_derived_data_available'' False))
      else if da_availability_state a = ''stale''
      then let outcome = by_material r (dp_stale_required_outcome p) (dp_optional_missing_outcome p)
           in Inr (decision outcome ''required_data_stale'' (outcome = ''blocked_insufficient_evidence''))
      else if da_availability_state a = ''partial''
      then let outcome = by_material r (dp_partial_required_outcome p) (dp_optional_missing_outcome p)
           in Inr (decision outcome ''required_data_partial'' (outcome = ''blocked_insufficient_evidence''))
      else if da_availability_state a = ''unavailable''
      then let outcome = by_material r (dp_unavailable_required_outcome p) (dp_optional_missing_outcome p)
           in Inr (decision outcome ''required_data_unavailable'' (outcome = ''blocked_insufficient_evidence''))
      else if da_availability_state a \<notin> set AVAILABILITY_STATES
      then Inl (ValueError (''availability_state must be one of '' @ list_text (sorted_text AVAILABILITY_STATES)))
      else Inl (AssertionError (''unhandled availability_state: '' @ da_availability_state a)))"

definition DEFAULT_SUFFICIENCY_POLICY_ID :: string where
  "DEFAULT_SUFFICIENCY_POLICY_ID = ''data-sufficiency-default-policy''"

definition DEFAULT_SUFFICIENCY_POLICY_VERSION :: string where
  "DEFAULT_SUFFICIENCY_POLICY_VERSION = ''data-sufficiency-policy-v1''"

definition DEFAULT_SUFFICIENCY_SCHEMA_VERSION :: string where
  "DEFAULT_SUFFICIENCY_SCHEMA_VERSION = ''data-sufficiency-v1''"

definition default_degraded_mode_policy :: "pydatetime \<Rightarrow> pydatetime \<Rightarrow> degraded_mode_policy result" where
  "default_degraded_mode_policy effective_at recorded_at = mk_degraded_mode_policy
     \<lparr>dp_policy_id = DEFAULT_SUFFICIENCY_POLICY_ID,
      dp_policy_version = DEFAULT_SUFFICIENCY_POLICY_VERSION,
      dp_unavailable_required_outcome = ''blocked_insufficient_evidence'',
      dp_partial_required_outcome = ''degraded_material_limitation'',
      dp_stale_required_outcome = ''degraded_material_limitation'',
      dp_proxy_for_direct_outcome = ''blocked_insufficient_evidence'',
      dp_optional_missing_outcome = ''degraded_non_blocking'',
      dp_effective_at = effective_at,
      dp_recorded_at = recorded_at,
      dp_schema_version = DEFAULT_SUFFICIENCY_SCHEMA_VERSION\<rparr>"

section \<open>The requirement registry\<close>

record requirement_registry =
  rg_requirements :: "data_requirement list"
  rg_degraded_mode_policy :: degraded_mode_policy
  rg_proxy_policies :: "proxy_signal_policy list"
  rg_registry_version :: string

definition mk_requirement_registry :: "requirement_registry \<Rightarrow> requirement_registry result" where
  "mk_requirement_registry g = checked
     [raise_if (rg_requirements g = []) (ValueError ''requirements are required''),
      raise_if (\<not> distinct (map dr_requirement_id (rg_requirements g))) (ValueError ''duplicate requirement_id''),
      raise_if (\<not> distinct (map pp_proxy_type (rg_proxy_policies g))) (ValueError ''duplicate proxy policy type''),
      raise_if (blank (rg_registry_version g)) (ValueError ''registry_version is required'')] g"

definition registry_get :: "requirement_registry \<Rightarrow> string \<Rightarrow> data_requirement result" where
  "registry_get g requirement_id =
     (case find (\<lambda>r. dr_requirement_id r = requirement_id) (rg_requirements g) of
        Some r \<Rightarrow> Inr r
      | None \<Rightarrow> Inl (KeyError (''unknown requirement_id: '' @ requirement_id)))"

definition registry_by_engine ::
  "requirement_registry \<Rightarrow> string \<Rightarrow> string option \<Rightarrow> data_requirement list" where
  "registry_by_engine g engine_id analysis_purpose =
     filter (\<lambda>r. dr_engine_id r = engine_id \<and>
        (analysis_purpose = None \<or> analysis_purpose = Some (dr_analysis_purpose r))) (rg_requirements g)"

definition registry_proxy_policy :: "requirement_registry \<Rightarrow> string \<Rightarrow> proxy_signal_policy result" where
  "registry_proxy_policy g proxy_type =
     (case find (\<lambda>p. pp_proxy_type p = proxy_type) (rg_proxy_policies g) of
        Some p \<Rightarrow> Inr p
      | None \<Rightarrow> Inl (KeyError (''unknown proxy_type: '' @ proxy_type)))"

definition registry_requirement ::
  "string \<Rightarrow> string \<Rightarrow> string \<Rightarrow> string \<Rightarrow> string \<Rightarrow> string list \<Rightarrow> bool \<Rightarrow> bool \<Rightarrow> string list \<Rightarrow> string \<Rightarrow>
   pydatetime \<Rightarrow> data_requirement result" where
  "registry_requirement engine_id analysis_purpose output_field requirement_kind evidence_domain
       required_source_types direct_observation_required proxy_allowed accepted_proxy_types blocking_level
       created_at =
     rbind (data_requirement_id engine_id analysis_purpose output_field requirement_kind
              DEFAULT_SUFFICIENCY_POLICY_ID DEFAULT_SUFFICIENCY_POLICY_VERSION DEFAULT_SUFFICIENCY_SCHEMA_VERSION)
       (\<lambda>requirement_id. mk_data_requirement
         \<lparr>dr_requirement_id = requirement_id,
          dr_engine_id = engine_id,
          dr_analysis_purpose = analysis_purpose,
          dr_output_field = output_field,
          dr_requirement_kind = requirement_kind,
          dr_evidence_domain = evidence_domain,
          dr_required_entity_type = ''candidate'',
          dr_required_source_types = required_source_types,
          dr_direct_observation_required = direct_observation_required,
          dr_proxy_allowed = proxy_allowed,
          dr_accepted_proxy_types = accepted_proxy_types,
          dr_minimum_freshness_seconds = 86400,
          dr_minimum_source_authority = ''verified_or_persisted_hunter_evidence'',
          dr_minimum_lineage_depth = 1,
          dr_minimum_confidence = PFin 0,
          dr_historical_required = True,
          dr_blocking_level = blocking_level,
          dr_policy_id = DEFAULT_SUFFICIENCY_POLICY_ID,
          dr_policy_version = DEFAULT_SUFFICIENCY_POLICY_VERSION,
          dr_effective_at = created_at,
          dr_recorded_at = created_at,
          dr_schema_version = DEFAULT_SUFFICIENCY_SCHEMA_VERSION,
          dr_metadata = []\<rparr>)"

definition default_proxy_policy ::
  "string \<Rightarrow> string list \<Rightarrow> string \<Rightarrow> pyfloat \<Rightarrow> pydatetime \<Rightarrow> proxy_signal_policy result" where
  "default_proxy_policy proxy_type kinds limitation impact created_at =
     rbind (proxy_signal_policy_id proxy_type DEFAULT_SUFFICIENCY_POLICY_VERSION DEFAULT_SUFFICIENCY_SCHEMA_VERSION)
       (\<lambda>policy_id. mk_proxy_signal_policy
         \<lparr>pp_policy_id = policy_id,
          pp_policy_version = DEFAULT_SUFFICIENCY_POLICY_VERSION,
          pp_proxy_type = proxy_type,
          pp_allowed_requirement_kinds = kinds,
          pp_limitation_text = limitation,
          pp_confidence_impact = impact,
          pp_may_satisfy_direct_observation = False,
          pp_effective_at = created_at,
          pp_recorded_at = created_at,
          pp_schema_version = DEFAULT_SUFFICIENCY_SCHEMA_VERSION\<rparr>)"

definition default_data_requirement_registry :: "pydatetime \<Rightarrow> requirement_registry result" where
  "default_data_requirement_registry created_at =
     rbind (default_degraded_mode_policy created_at created_at) (\<lambda>policy.
     rbind (default_proxy_policy ''market_proxy'' [''proxy_context'', ''source_quality'', ''freshness'']
        ''Market proxy signals are context only and do not satisfy missing direct observations.''
        (PFin (float_div 25 100)) created_at) (\<lambda>market_policy.
     rbind (default_proxy_policy ''competitive_proxy'' [''proxy_context'', ''source_quality'']
        ''Competitive proxy signals explain context only and are not evidence-backed competition.''
        (PFin (float_div 2 10)) created_at) (\<lambda>competitive_policy.
     rbind (registry_requirement ''evidence_intelligence'' ''claim_explainability'' ''source_authority''
        ''direct_observation'' ''evidence_intelligence'' [''source_authority_verification_event'']
        True False [] ''required_for_output'' created_at) (\<lambda>authority.
     rbind (registry_requirement ''competitive'' ''peer_set_report'' ''evidence_backed_competitors''
        ''direct_observation'' ''competitive'' [''competitive_relationship'', ''knowledge_claim'']
        True True [''competitive_proxy''] ''required_for_high_confidence'' created_at) (\<lambda>competitors.
     rbind (registry_requirement ''market_validation'' ''market_context_report'' ''market_data_freshness''
        ''freshness'' ''market'' [''market_provider_observation'']
        False True [''market_proxy''] ''required_for_full_report'' created_at) (\<lambda>freshness.
     mk_requirement_registry
       \<lparr>rg_requirements = [authority, competitors, freshness],
        rg_degraded_mode_policy = policy,
        rg_proxy_policies = [market_policy, competitive_policy],
        rg_registry_version = ''data-requirement-registry-v1''\<rparr>))))))"

section \<open>Facts about decisions\<close>

lemma valid_policyD:
  assumes "valid_policy p"
  shows "dp_proxy_for_direct_outcome p \<noteq> ''normal''"
    "dp_unavailable_required_outcome p \<in> set DEGRADED_MODE_OUTCOMES"
    "dp_partial_required_outcome p \<in> set DEGRADED_MODE_OUTCOMES"
    "dp_stale_required_outcome p \<in> set DEGRADED_MODE_OUTCOMES"
    "dp_proxy_for_direct_outcome p \<in> set DEGRADED_MODE_OUTCOMES"
    "dp_optional_missing_outcome p \<in> set DEGRADED_MODE_OUTCOMES"
    "\<not> blank (dp_policy_id p)" "\<not> blank (dp_policy_version p)"
  using assms unfolding valid_policy_def degraded_mode_policy_checks_def list_all_append check_texts_None
  by auto

lemma decision_simps [simp]:
  "dd_outcome (decision out rsn b) = out" "dd_reason (decision out rsn b) = rsn"
  "dd_blocks_output (decision out rsn b) = b" "dd_preserves_score (decision out rsn b)"
  "\<not> dd_treats_missing_as_negative (decision out rsn b)"
  by (simp_all add: decision_def)

text \<open>Inversion of a decision that was reached, one case per branch of the policy.\<close>

lemma policy_decide_cases:
  assumes "policy_decide p r a = Inr d"
  obtains
    (proxy_for_direct) "da_directness a = ''proxy_signal''" "dr_direct_observation_required r"
      "d = decision (dp_proxy_for_direct_outcome p)
         ''proxy_signal_cannot_satisfy_required_direct_observation''
         (dp_proxy_for_direct_outcome p = ''blocked_insufficient_evidence'')"
  | (proxy_context) out where "da_directness a = ''proxy_signal''" "\<not> dr_direct_observation_required r"
      "da_availability_state a = ''available''"
      "out = (if dr_proxy_allowed r then ''degraded_non_blocking'' else dp_proxy_for_direct_outcome p)"
      "d = decision out ''proxy_signal_available_only_as_limited_context''
         (out = ''blocked_insufficient_evidence'')"
  | (direct) "da_directness a \<noteq> ''proxy_signal''" "da_availability_state a = ''available''"
      "d = decision ''normal'' ''direct_or_derived_data_available'' False"
  | (degraded) out rsn where "da_availability_state a \<in> {''stale'', ''partial'', ''unavailable''}"
      "out \<in> {dp_stale_required_outcome p, dp_partial_required_outcome p,
                dp_unavailable_required_outcome p, dp_optional_missing_outcome p}"
      "d = decision out rsn (out = ''blocked_insufficient_evidence'')"
  using assms unfolding policy_decide_def
  by (auto simp: Let_def by_material_def split: if_splits)

lemma policy_decide_total:
  assumes "dr_requirement_id r = da_requirement_id a" "da_availability_state a \<in> set AVAILABILITY_STATES"
  shows "\<exists>d. policy_decide p r a = Inr d"
  using assms unfolding policy_decide_def by (auto simp: Let_def AVAILABILITY_STATES_def)

lemma policy_decide_blocks:
  assumes "policy_decide p r a = Inr d"
  shows "dd_blocks_output d \<longleftrightarrow> dd_outcome d = ''blocked_insufficient_evidence''"
    "dd_preserves_score d" "\<not> dd_treats_missing_as_negative d"
  using assms by (cases rule: policy_decide_cases; simp)+

lemma outcome_members:
  "''normal'' \<in> set DEGRADED_MODE_OUTCOMES" "''degraded_non_blocking'' \<in> set DEGRADED_MODE_OUTCOMES"
  by (simp_all add: DEGRADED_MODE_OUTCOMES_def)

lemma policy_decide_outcome:
  assumes "policy_decide p r a = Inr d" "valid_policy p"
  shows "dd_outcome d \<in> set DEGRADED_MODE_OUTCOMES"
  using assms(1)
proof (cases rule: policy_decide_cases)
  case (proxy_context out)
  then show ?thesis using valid_policyD(5) [OF assms(2)] by (simp add: outcome_members)
next
  case (degraded out rsn)
  then show ?thesis using valid_policyD(2-6) [OF assms(2)] by auto
qed (simp_all add: outcome_members valid_policyD(5) [OF assms(2)])

end
