(* ===== verification/SuffErrors.thy ===== *)
theory SuffErrors
  imports SuffPolicies
begin

text \<open>
  What the constructors of \<open>hunter.sufficiency\<close> raise: their checks raise \<open>ValueError\<close> and nothing else, and a computation that only
  fails in constructors fails with \<open>ValueError\<close>.
\<close>

definition value_check :: "check \<Rightarrow> bool" where
  "value_check c = (\<forall>e. c = Some e \<longrightarrow> (\<exists>why. e = ValueError why))"

definition value_failures :: "'a result \<Rightarrow> bool" where
  "value_failures m = (\<forall>e. m = Inl e \<longrightarrow> (\<exists>why. e = ValueError why))"

lemma value_check_raise [simp]: "value_check None" "value_check (raise_if b (ValueError why))"
  by (simp_all add: value_check_def raise_if_def)

lemma value_check_basic [simp]:
  "value_check (check_text n v)" "value_check (check_member n v vs)" "value_check (check_range n x)" "value_check (check_aware n t)"
  "value_check (check_aware_opt n d)" "value_check (check_nonneg n i)"
  by (simp_all add: check_text_def check_member_def check_range_def check_aware_def check_aware_opt_def check_nonneg_def
      split: option.split)

lemma value_check_texts [simp]: "list_all value_check (check_texts nvs)"
  by (simp add: check_texts_def list_all_iff)

lemma value_checks:
  "list_all value_check (data_availability_checks a)" "list_all value_check (assessment_checks s)" "list_all value_check (lineage_checks n l)"
  by (simp_all add: data_availability_checks_def assessment_checks_def lineage_checks_def split: option.split)

lemma value_failures_simps [simp]: "value_failures (Inr x)" "value_failures (Inl (ValueError why))"
  by (simp_all add: value_failures_def)

lemma value_failuresD: "value_failures m \<Longrightarrow> m = Inl e \<Longrightarrow> \<exists>why. e = ValueError why"
  by (simp add: value_failures_def)

lemma value_failures_bind: "value_failures m \<Longrightarrow> (\<And>x. m = Inr x \<Longrightarrow> value_failures (f x)) \<Longrightarrow> value_failures (rbind m f)"
  by (auto simp: value_failures_def rbind_Inl_iff)

lemma value_failures_mapM: "(\<And>x. x \<in> set xs \<Longrightarrow> value_failures (f x)) \<Longrightarrow> value_failures (mapM f xs)"
proof (induction xs)
  case (Cons x xs)
  then have "value_failures (f x)" "value_failures (mapM f xs)" by simp_all
  then show ?case by (auto simp: value_failures_def split: sum.split)
qed simp

lemma value_failures_checked: "list_all value_check cs \<Longrightarrow> value_failures (checked cs v)"
  unfolding checked_def by (induction cs rule: first_failure.induct) (auto simp: value_check_def value_failures_def)

lemma value_failures_constructors:
  "value_failures (mk_data_availability a)" "value_failures (mk_assessment s)" "value_failures (mk_evidence_link l)"
  "value_failures (mk_span_link l)" "value_failures (mk_claim_link l)" "value_failures (mk_conflict_link l)"
  by (simp_all add: mk_data_availability_def mk_assessment_def mk_evidence_link_def mk_span_link_def mk_claim_link_def
      mk_conflict_link_def value_failures_checked value_checks)

lemma value_failures_id: "canonical payload \<Longrightarrow> value_failures (sufficiency_id kind payload)"
  using sufficiency_id_ex [of payload kind] by auto

end
