(* ===== verification/Replay.thy ===== *)
theory Replay
  imports PyTime
begin

text \<open>
  The contract of a replay filter. Several components decide with their own copy of \<open>_visible_at\<close>
  which records a historical run may use: the availability evaluator, the assessor, the cross-source
  validator and the reporter. What they rely on is stated here once: a live context sees everything, a context
  with a cutoff sees no record that took effect later, a strict one no record that was recorded
  later, and nothing else is hidden. The client lemmas say that a strict replay is a function of what
  was on record at the cutoff.
\<close>

locale replay_filter =
  fixes visible :: "'ctx \<Rightarrow> pydatetime \<Rightarrow> pydatetime \<Rightarrow> bool"
    and cutoff :: "'ctx \<Rightarrow> pydatetime option"
    and live :: "'ctx \<Rightarrow> bool"
    and strict :: "'ctx \<Rightarrow> bool"
  assumes live_visible: "live c \<Longrightarrow> visible c e r"
    and no_cutoff_visible: "cutoff c = None \<Longrightarrow> visible c e r"
    and effective_by_cutoff: "cutoff c = Some t \<Longrightarrow> \<not> live c \<Longrightarrow> visible c e r \<Longrightarrow> \<not> dt_after e t"
    and recorded_by_cutoff:
      "cutoff c = Some t \<Longrightarrow> \<not> live c \<Longrightarrow> strict c \<Longrightarrow> visible c e r \<Longrightarrow> \<not> dt_after r t"
    and past_visible:
      "cutoff c = Some t \<Longrightarrow> \<not> dt_after e t \<Longrightarrow> \<not> (strict c \<and> dt_after r t) \<Longrightarrow> visible c e r"
begin

lemma visible_iff:
  "visible c e r \<longleftrightarrow>
   live c \<or> (case cutoff c of None \<Rightarrow> True | Some t \<Rightarrow> \<not> dt_after e t \<and> (strict c \<longrightarrow> \<not> dt_after r t))"
  by (cases "cutoff c")
     (auto dest: live_visible no_cutoff_visible effective_by_cutoff recorded_by_cutoff intro: past_visible)

text \<open>Records made after the cutoff are filtered out, whatever else the filter asks for.\<close>

lemma late_records_invisible:
  assumes "cutoff c = Some t" "\<not> live c" "strict c"
    and "\<forall>x \<in> set late. dt_after (recorded x) t"
  shows "filter (\<lambda>x. P x \<and> visible c (effective x) (recorded x)) late = []"
  using assms recorded_by_cutoff by (auto simp: filter_empty_conv)

lemma strict_replay_frozen:
  assumes "cutoff c = Some t" "\<not> live c" "strict c"
    and "\<forall>x \<in> set late. dt_after (recorded x) t"
  shows "filter (\<lambda>x. P x \<and> visible c (effective x) (recorded x)) (xs @ late)
       = filter (\<lambda>x. P x \<and> visible c (effective x) (recorded x)) xs"
  by (simp only: filter_append late_records_invisible [OF assms] append_Nil2)

lemma replay_ignores_unknown:
  assumes "cutoff c = Some t" "\<not> live c" "strict c"
  shows "filter (\<lambda>x. P x \<and> visible c (effective x) (recorded x)) (filter (\<lambda>x. \<not> dt_after (recorded x) t) xs)
       = filter (\<lambda>x. P x \<and> visible c (effective x) (recorded x)) xs"
  using recorded_by_cutoff [OF assms] by (auto intro: filter_cong)

lemma replay_monotone:
  assumes "cutoff c = Some t" "cutoff c' = Some t'" "\<not> live c" "strict c' \<longrightarrow> strict c"
    and "\<not> dt_after t t'" and "visible c e r"
  shows "visible c' e r"
proof (rule past_visible)
  show "cutoff c' = Some t'" by (rule assms(2))
  have "\<not> dt_after e t" using assms by (metis effective_by_cutoff)
  with assms(5) show "\<not> dt_after e t'" by (simp add: dt_after_def)
  have "strict c \<Longrightarrow> \<not> dt_after r t" using assms by (metis recorded_by_cutoff)
  with assms(4,5) show "\<not> (strict c' \<and> dt_after r t')" by (auto simp: dt_after_def)
qed

end

end
