(* ===== verification/SuffAssessor.thy ===== *)
theory SuffAssessor
  imports SuffErrors Replay
begin

text \<open>
  \<open>hunter.sufficiency.assessor\<close>: the decision of the degraded-mode policy for each requirement of one
  engine and purpose, and the assessment that aggregates them: sufficiency state, degraded mode,
  coverage scores, missing requirements, limitations and the gate of each report field.
\<close>

section \<open>Inputs and results\<close>

definition ASSESSOR_QUALITY_RANK :: "(string \<times> int) list" where
  "ASSESSOR_QUALITY_RANK =
     [(''unavailable'', 0), (''low'', 1), (''medium'', 2),
      (''verified_or_persisted_hunter_evidence'', 2), (''high'', 3), (''conflicted'', 0)]"

record assessment_context =
  ac_candidate_id :: string
  ac_assessment_scope :: string
  ac_evaluated_at :: pydatetime
  ac_cutoff_at :: "pydatetime option"
  ac_replay_mode :: string
  ac_processing_run_id :: string

definition assessment_context_checks :: "assessment_context \<Rightarrow> check list" where
  "assessment_context_checks c =
     [check_text ''candidate_id'' (ac_candidate_id c), check_text ''assessment_scope'' (ac_assessment_scope c),
      check_text ''processing_run_id'' (ac_processing_run_id c), check_aware ''evaluated_at'' (ac_evaluated_at c),
      check_aware_opt ''cutoff_at'' (ac_cutoff_at c)]"

definition mk_assessment_context :: "assessment_context \<Rightarrow> assessment_context result" where
  "mk_assessment_context c = checked (assessment_context_checks c) c"

record requirement_decision =
  rd_requirement :: data_requirement
  rd_availability :: "data_availability option"
  rd_decision :: degraded_mode_decision

record assessment_result =
  ar_assessment :: data_sufficiency_assessment
  ar_requirement_decisions :: "requirement_decision list"
  ar_missing_requirements :: "string list"
  ar_supportable_conclusions :: "string list"
  ar_unsupported_conclusions :: "string list"
  ar_limitations :: "string list"

section \<open>One requirement\<close>

definition assessor_material :: "data_requirement \<Rightarrow> bool" where
  "assessor_material r = material (dr_blocking_level r)"

definition engine_decide ::
  "degraded_mode_policy \<Rightarrow> data_requirement \<Rightarrow> data_availability option \<Rightarrow> requirement_decision result" where
  "engine_decide p r availability =
     (case availability of
        None \<Rightarrow> Inr \<lparr>rd_requirement = r, rd_availability = None,
          rd_decision = decision
            (if assessor_material r then dp_unavailable_required_outcome p else dp_optional_missing_outcome p)
            ''required_data_unavailable''
            (assessor_material r \<and> dp_unavailable_required_outcome p = ''blocked_insufficient_evidence'')\<rparr>
      | Some a \<Rightarrow> rbind (policy_decide p r a) (\<lambda>d.
          Inr \<lparr>rd_requirement = r, rd_availability = Some a, rd_decision = d\<rparr>))"

abbreviation rd_outcome :: "requirement_decision \<Rightarrow> string" where
  "rd_outcome d \<equiv> dd_outcome (rd_decision d)"

definition rd_state :: "requirement_decision \<Rightarrow> string option" where
  "rd_state d = map_option da_availability_state (rd_availability d)"

section \<open>Aggregates\<close>

definition assessor_missing :: "requirement_decision \<Rightarrow> bool" where
  "assessor_missing d = (rd_availability d = None \<or> rd_state d = Some ''unavailable'')"

definition sufficiency_state :: "requirement_decision list \<Rightarrow> source_disagreement list \<Rightarrow> string" where
  "sufficiency_state ds disagreements =
     (if list_all assessor_missing ds then ''unavailable''
      else if list_ex (\<lambda>d. dd_blocks_output (rd_decision d)) ds then ''insufficient''
      else if list_ex (\<lambda>d. rd_outcome d = ''degraded_material_limitation'') ds then ''degraded''
      else if disagreements \<noteq> [] \<or> list_ex (\<lambda>d. rd_outcome d \<noteq> ''normal'') ds
      then ''sufficient_with_limitations''
      else ''sufficient'')"

definition degraded_mode :: "requirement_decision list \<Rightarrow> string" where
  "degraded_mode ds =
     (let outcomes = map rd_outcome ds in
      if ''blocked_insufficient_evidence'' \<in> set outcomes then ''blocked_insufficient_evidence''
      else if ''unavailable'' \<in> set outcomes then ''unavailable''
      else if ''degraded_material_limitation'' \<in> set outcomes then ''degraded_material_limitation''
      else if ''degraded_non_blocking'' \<in> set outcomes then ''degraded_non_blocking''
      else ''normal'')"

definition share :: "('a \<Rightarrow> bool) \<Rightarrow> 'a list \<Rightarrow> pyfloat" where
  "share P xs = PFin (float_div (length (filter P xs)) (length xs))"

definition coverage_score :: "requirement_decision list \<Rightarrow> pyfloat" where
  "coverage_score ds = share (\<lambda>d. rd_state d = Some ''available'') ds"

definition direct_observation_coverage :: "requirement_decision list \<Rightarrow> pyfloat" where
  "direct_observation_coverage ds =
     (let direct_required = filter (\<lambda>d. dr_direct_observation_required (rd_requirement d)) ds in
      if direct_required = [] then PFin 1
      else share (\<lambda>d. case rd_availability d of None \<Rightarrow> False
             | Some a \<Rightarrow> da_directness a = ''direct_observation'' \<and> da_availability_state a = ''available'')
             direct_required)"

definition proxy_signal_coverage :: "requirement_decision list \<Rightarrow> pyfloat" where
  "proxy_signal_coverage ds =
     (let proxy_allowed = filter (\<lambda>d. dr_proxy_allowed (rd_requirement d)) ds in
      if proxy_allowed = [] then PFin 0
      else share (\<lambda>d. case rd_availability d of None \<Rightarrow> False | Some a \<Rightarrow> da_directness a = ''proxy_signal'')
             proxy_allowed)"

definition freshness_state :: "requirement_decision list \<Rightarrow> string" where
  "freshness_state ds =
     (if list_ex (\<lambda>d. rd_state d = Some ''stale'') ds then ''stale''
      else if list_ex assessor_missing ds then ''unavailable''
      else ''fresh'')"

definition availabilities_of :: "requirement_decision list \<Rightarrow> data_availability list" where
  "availabilities_of ds = concat (map (\<lambda>d. case rd_availability d of None \<Rightarrow> [] | Some a \<Rightarrow> [a]) ds)"

definition quality_rank :: "string \<Rightarrow> int" where
  "quality_rank q = (case map_of ASSESSOR_QUALITY_RANK q of None \<Rightarrow> 0 | Some n \<Rightarrow> n)"

definition source_quality_state :: "requirement_decision list \<Rightarrow> source_disagreement list \<Rightarrow> string" where
  "source_quality_state ds disagreements =
     (if disagreements \<noteq> [] then ''conflicted''
      else case map (\<lambda>a. quality_rank (da_source_quality a)) (availabilities_of ds) of
          [] \<Rightarrow> ''unavailable''
        | x # xs \<Rightarrow> let minimum = foldl min x xs in
            if 3 \<le> minimum then ''high'' else if minimum = 2 then ''medium''
            else if minimum = 1 then ''low'' else ''unavailable'')"

definition lineage_state :: "requirement_decision list \<Rightarrow> string" where
  "lineage_state ds =
     (if list_ex (\<lambda>d. rd_availability d = None) ds then ''missing''
      else if list_ex (\<lambda>a. \<not> da_lineage_complete a) (availabilities_of ds) then ''partial''
      else ''complete'')"

definition conflict_state :: "requirement_decision list \<Rightarrow> source_disagreement list \<Rightarrow> string" where
  "conflict_state ds disagreements =
     (if disagreements \<noteq> [] then ''disputed''
      else if list_ex (\<lambda>a. da_conflict_state a = ''conflicted'') (availabilities_of ds) then ''conflicted''
      else if list_ex (\<lambda>a. da_conflict_state a = ''disputed'') (availabilities_of ds) then ''disputed''
      else if list_ex (\<lambda>d. rd_availability d = None) ds then ''unavailable''
      else ''none'')"

definition output_field :: "requirement_decision \<Rightarrow> string" where
  "output_field d = dr_output_field (rd_requirement d)"

definition missing_requirements :: "requirement_decision list \<Rightarrow> string list" where
  "missing_requirements ds = map output_field (filter assessor_missing ds)"

definition supportable :: "requirement_decision \<Rightarrow> bool" where
  "supportable d = (rd_availability d \<noteq> None \<and> \<not> dd_blocks_output (rd_decision d))"

definition supportable_conclusions :: "requirement_decision list \<Rightarrow> string list" where
  "supportable_conclusions ds = map output_field (filter supportable ds)"

definition unsupported_conclusions :: "requirement_decision list \<Rightarrow> string list" where
  "unsupported_conclusions ds =
     map output_field (filter (\<lambda>d. dd_blocks_output (rd_decision d) \<or> rd_availability d = None) ds)"

definition decision_limitations :: "requirement_decision \<Rightarrow> string list" where
  "decision_limitations d =
     (case rd_availability d of
        None \<Rightarrow> [output_field d @ '': required data unavailable'']
      | Some a \<Rightarrow>
          (if da_availability_state a \<in> {''unavailable'', ''stale'', ''partial''}
           then [output_field d @ '': '' @ da_missing_reason a] else []) @
          (if da_directness a = ''proxy_signal'' then [output_field d @ '': proxy signal only''] else []))"

definition assessor_limitations ::
  "requirement_decision list \<Rightarrow> source_disagreement list \<Rightarrow> string \<Rightarrow> string list" where
  "assessor_limitations ds disagreements replay_mode =
     uniq (concat (map decision_limitations ds) @
       (if disagreements \<noteq> []
        then [''cross-source disagreement is data-quality metadata, not project-negative evidence''] else []) @
       (if replay_mode = ''historical_strict_known_by_hunter''
        then [''strict historical assessment uses only records known by Hunter at cutoff''] else []) @
       (if replay_mode = ''reconstructed_after_cutoff''
        then [''reconstructed assessment uses later-recorded records and is not known-at-cutoff''] else []))"

text \<open>The gate of a report field, with the keys the code writes into the metadata.\<close>

definition field_gate :: "requirement_decision \<Rightarrow> (string \<times> pyvalue) list" where
  "field_gate d =
     [(''supportable'', PBool (supportable d)),
      (''outcome'', PStr (rd_outcome d)),
      (''reason'', PStr (dd_reason (rd_decision d))),
      (''directness'', PStr (case rd_availability d of None \<Rightarrow> ''unavailable'' | Some a \<Rightarrow> da_directness a)),
      (''availability_state'', PStr (case rd_availability d of None \<Rightarrow> ''unavailable''
                                      | Some a \<Rightarrow> da_availability_state a)),
      (''preserves_score'', PBool (dd_preserves_score (rd_decision d))),
      (''treats_missing_as_negative'', PBool (dd_treats_missing_as_negative (rd_decision d)))]"

definition report_field_gating :: "requirement_decision list \<Rightarrow> (string \<times> pyvalue) list" where
  "report_field_gating ds = dict_of (map (\<lambda>d. (output_field d, payload_dict (field_gate d))) ds)"

section \<open>The assessment\<close>

definition assessor_visible_at :: "assessment_context \<Rightarrow> pydatetime \<Rightarrow> pydatetime \<Rightarrow> bool" where
  "assessor_visible_at c effective_at recorded_at =
     (case ac_cutoff_at c of
        None \<Rightarrow> True
      | Some cutoff \<Rightarrow>
          if ac_replay_mode c = ''current'' then True
          else if dt_after effective_at cutoff then False
          else if ac_replay_mode c = ''historical_strict_known_by_hunter'' \<and> dt_after recorded_at cutoff
          then False else True)"

definition single_value :: "string \<Rightarrow> string list \<Rightarrow> string result" where
  "single_value name values =
     (case uniq values of
        [v] \<Rightarrow> Inr v
      | _ \<Rightarrow> Inl (ValueError (''requirements must share one '' @ name)))"

definition availability_by_requirement ::
  "string \<Rightarrow> string \<Rightarrow> assessment_context \<Rightarrow> data_availability list \<Rightarrow> (string \<times> data_availability) list" where
  "availability_by_requirement engine_id analysis_purpose c availabilities =
     dict_of (map (\<lambda>a. (da_requirement_id a, a)) (filter (\<lambda>a.
       (da_candidate_id a = ac_candidate_id c \<and> da_engine_id a = engine_id \<and>
        da_analysis_purpose a = analysis_purpose) \<and>
       assessor_visible_at c (da_effective_at a) (da_recorded_at a)) availabilities))"

definition applicable_disagreements ::
  "string \<Rightarrow> string \<Rightarrow> assessment_context \<Rightarrow> source_disagreement list \<Rightarrow> source_disagreement list" where
  "applicable_disagreements engine_id analysis_purpose c disagreements =
     filter (\<lambda>d. (sd_candidate_id d = ac_candidate_id c \<and> sd_engine_id d = engine_id \<and>
        sd_analysis_purpose d = analysis_purpose) \<and>
       assessor_visible_at c (sd_effective_at d) (sd_recorded_at d)) disagreements"

definition PTexts :: "string list \<Rightarrow> pyvalue" where
  "PTexts ss = PSeq (map PStr ss)"

definition assessment_record ::
  "degraded_mode_policy \<Rightarrow> assessment_context \<Rightarrow> string \<Rightarrow> string \<Rightarrow> string \<Rightarrow> requirement_decision list \<Rightarrow>
   source_disagreement list \<Rightarrow> string \<Rightarrow> data_sufficiency_assessment" where
  "assessment_record p c engine_id analysis_purpose schema_version ds disagreements assessment_id =
     \<lparr>as_assessment_id = assessment_id,
      as_candidate_id = ac_candidate_id c,
      as_engine_id = engine_id,
      as_analysis_purpose = analysis_purpose,
      as_assessment_scope = ac_assessment_scope c,
      as_sufficiency_state = sufficiency_state ds disagreements,
      as_degraded_mode = degraded_mode ds,
      as_coverage_score = coverage_score ds,
      as_freshness_state = freshness_state ds,
      as_source_quality_state = source_quality_state ds disagreements,
      as_lineage_state = lineage_state ds,
      as_conflict_state = conflict_state ds disagreements,
      as_direct_observation_coverage = direct_observation_coverage ds,
      as_proxy_signal_coverage = proxy_signal_coverage ds,
      as_material_missing_count = int (length (missing_requirements ds)),
      as_limitations_summary = join ''; '' (assessor_limitations ds disagreements (ac_replay_mode c)),
      as_policy_id = dp_policy_id p,
      as_policy_version = dp_policy_version p,
      as_effective_at = (case ac_cutoff_at c of None \<Rightarrow> ac_evaluated_at c | Some t \<Rightarrow> t),
      as_recorded_at = ac_evaluated_at c,
      as_cutoff_at = ac_cutoff_at c,
      as_replay_mode = ac_replay_mode c,
      as_processing_run_id = ac_processing_run_id c,
      as_schema_version = schema_version,
      as_metadata =
        [(''missing_requirements'', PTexts (missing_requirements ds)),
         (''supportable_conclusions'', PTexts (supportable_conclusions ds)),
         (''unsupported_conclusions'', PTexts (unsupported_conclusions ds)),
         (''disagreement_ids'', PTexts (map sd_disagreement_id disagreements)),
         (''preserves_score'', PBool True),
         (''treats_missing_as_negative'', PBool False),
         (''report_field_gating'', payload_dict (report_field_gating ds))]\<rparr>"

definition assess ::
  "degraded_mode_policy \<Rightarrow> data_requirement list \<Rightarrow> data_availability list \<Rightarrow> source_disagreement list \<Rightarrow>
   assessment_context \<Rightarrow> assessment_result result" where
  "assess p rs availabilities disagreements c =
     (if rs = [] then Inl (ValueError ''requirements are required for sufficiency assessment'')
      else
       rbind (single_value ''engine_id'' (map dr_engine_id rs)) (\<lambda>engine_id.
       rbind (single_value ''analysis_purpose'' (map dr_analysis_purpose rs)) (\<lambda>analysis_purpose.
       let by_requirement = availability_by_requirement engine_id analysis_purpose c availabilities;
           applicable = applicable_disagreements engine_id analysis_purpose c disagreements
       in
       rbind (mapM (\<lambda>r. engine_decide p r (map_of by_requirement (dr_requirement_id r))) rs) (\<lambda>ds.
       rbind (sufficiency_id ''assessment'' (payload_dict
          [(''candidate_id'', PStr (ac_candidate_id c)),
           (''engine_id'', PStr engine_id),
           (''analysis_purpose'', PStr analysis_purpose),
           (''assessment_scope'', PStr (ac_assessment_scope c)),
           (''processing_run_id'', PStr (ac_processing_run_id c)),
           (''replay_mode'', PStr (ac_replay_mode c)),
           (''cutoff_at'', case ac_cutoff_at c of None \<Rightarrow> PNone | Some t \<Rightarrow> PDatetime t)])) (\<lambda>assessment_id.
       rbind (mk_assessment (assessment_record p c engine_id analysis_purpose (dr_schema_version (hd rs)) ds
                applicable assessment_id)) (\<lambda>assessment.
       Inr \<lparr>ar_assessment = assessment,
            ar_requirement_decisions = ds,
            ar_missing_requirements = missing_requirements ds,
            ar_supportable_conclusions = supportable_conclusions ds,
            ar_unsupported_conclusions = unsupported_conclusions ds,
            ar_limitations = assessor_limitations ds applicable (ac_replay_mode c)\<rparr>))))))"

section \<open>The replay contract\<close>

interpretation assessor_replay: replay_filter assessor_visible_at ac_cutoff_at
  "\<lambda>c. ac_replay_mode c = ''current''" "\<lambda>c. ac_replay_mode c = ''historical_strict_known_by_hunter''"
  by unfold_locales (auto simp: assessor_visible_at_def split: option.splits if_splits)

lemma assess_known_at:
  assumes "ac_cutoff_at c = Some t" "ac_replay_mode c = ''historical_strict_known_by_hunter''"
  shows "availability_by_requirement e ap c (filter (\<lambda>a. \<not> dt_after (da_recorded_at a) t) avs)
      = availability_by_requirement e ap c avs"
    and "applicable_disagreements e ap c (filter (\<lambda>d. \<not> dt_after (sd_recorded_at d) t) dis)
      = applicable_disagreements e ap c dis"
proof -
  have live: "ac_replay_mode c \<noteq> ''current''" by (simp add: assms(2))
  note frozen = assessor_replay.replay_ignores_unknown [OF assms(1) live assms(2)]
  show "availability_by_requirement e ap c (filter (\<lambda>a. \<not> dt_after (da_recorded_at a) t) avs)
      = availability_by_requirement e ap c avs"
    unfolding availability_by_requirement_def frozen ..
  show "applicable_disagreements e ap c (filter (\<lambda>d. \<not> dt_after (sd_recorded_at d) t) dis)
      = applicable_disagreements e ap c dis"
    unfolding applicable_disagreements_def frozen ..
qed

section \<open>Facts about decisions and aggregates\<close>

lemma single_value_Inr: "single_value n vs = Inr v \<longleftrightarrow> vs \<noteq> [] \<and> set vs = {v}"
  by (auto simp: single_value_def uniq_singleton [symmetric] split: list.splits)

lemma engine_decide_Inr:
  assumes "engine_decide p r av = Inr d"
  shows "rd_requirement d = r" "rd_availability d = av"
    and "\<And>a. av = Some a \<Longrightarrow> policy_decide p r a = Inr (rd_decision d)"
    and "av = None \<Longrightarrow> rd_decision d = decision
            (if assessor_material r then dp_unavailable_required_outcome p else dp_optional_missing_outcome p)
            ''required_data_unavailable''
            (assessor_material r \<and> dp_unavailable_required_outcome p = ''blocked_insufficient_evidence'')"
  using assms by (auto simp: engine_decide_def split: option.splits)

lemma engine_decide_total:
  assumes "\<And>a. av = Some a \<Longrightarrow> da_requirement_id a = dr_requirement_id r \<and> da_availability_state a \<in> set AVAILABILITY_STATES"
  shows "\<exists>d. engine_decide p r av = Inr d"
proof (cases av)
  case None
  then show ?thesis by (simp add: engine_decide_def)
next
  case (Some a)
  with assms obtain d where "policy_decide p r a = Inr d"
    using policy_decide_total [of r a p] by auto
  then show ?thesis by (simp add: engine_decide_def Some)
qed

text \<open>A decision other than \<open>normal\<close> leaves a limitation that says why.\<close>

lemma decision_limited:
  assumes "engine_decide p r av = Inr d" and "rd_outcome d \<noteq> ''normal'' \<or> dd_blocks_output (rd_decision d)"
  shows "decision_limitations d \<noteq> []"
proof (cases av)
  case None
  then show ?thesis using engine_decide_Inr(2) [OF assms(1)] by (simp add: decision_limitations_def)
next
  case (Some a)
  have pd: "policy_decide p r a = Inr (rd_decision d)"
    by (rule engine_decide_Inr(3) [OF assms(1) Some])
  have "rd_availability d = Some a" using engine_decide_Inr(2) [OF assms(1)] Some by simp
  with pd assms(2) show ?thesis
    by (cases rule: policy_decide_cases) (auto simp: decision_limitations_def)
qed

lemma missing_limited: "assessor_missing d \<Longrightarrow> decision_limitations d \<noteq> []"
  by (auto simp: assessor_missing_def rd_state_def decision_limitations_def split: option.splits)

lemma limitation_not_blank: "l \<in> set (decision_limitations d) \<Longrightarrow> \<not> blank l"
  by (auto simp: decision_limitations_def is_space_def split: option.splits if_splits)

lemma limitations_not_blank:
  assumes "d \<in> set ds" "decision_limitations d \<noteq> []"
  shows "\<not> blank (join ''; '' (assessor_limitations ds dis mode))"
proof -
  obtain l where l: "l \<in> set (decision_limitations d)" using assms(2) by (cases "decision_limitations d") auto
  then have "l \<in> set (assessor_limitations ds dis mode)"
    using assms(1) by (auto simp: assessor_limitations_def)
  then show ?thesis by (rule blank_join_nonblank) (rule limitation_not_blank [OF l])
qed

lemma share_unit: "xs \<noteq> [] \<Longrightarrow> in_unit (share P xs)"
  by (simp add: share_def float_div_le_1)

lemma coverage_unit:
  "ds \<noteq> [] \<Longrightarrow> in_unit (coverage_score ds)" "in_unit (direct_observation_coverage ds)"
  "in_unit (proxy_signal_coverage ds)"
  by (auto simp: coverage_score_def direct_observation_coverage_def proxy_signal_coverage_def Let_def
      intro: share_unit)

lemma aggregate_vocabulary:
  "sufficiency_state ds dis \<in> set SUFFICIENCY_STATES" "degraded_mode ds \<in> set DEGRADED_MODE_OUTCOMES"
  "freshness_state ds \<in> set FRESHNESS_STATES" "source_quality_state ds dis \<in> set SOURCE_QUALITY_STATES"
  "lineage_state ds \<in> set LINEAGE_STATES" "conflict_state ds dis \<in> set CONFLICT_STATES"
  by (simp_all add: sufficiency_state_def degraded_mode_def freshness_state_def source_quality_state_def
      lineage_state_def conflict_state_def vocabulary_defs Let_def split: list.split)

text \<open>Everything the properties of the assessor use: what an assessment that returned was made from.\<close>

lemma assess_Inr:
  assumes "assess p rs avs dis c = Inr res"
  obtains e ap i where "rs \<noteq> []" and "set (map dr_engine_id rs) = {e}" and "set (map dr_analysis_purpose rs) = {ap}"
    and "list_all2 (\<lambda>r d. engine_decide p r
           (map_of (availability_by_requirement e ap c avs) (dr_requirement_id r)) = Inr d) rs
         (ar_requirement_decisions res)"
    and "mk_assessment (assessment_record p c e ap (dr_schema_version (hd rs)) (ar_requirement_decisions res)
           (applicable_disagreements e ap c dis) i) = Inr (ar_assessment res)"
    and "ar_missing_requirements res = missing_requirements (ar_requirement_decisions res)"
    and "ar_supportable_conclusions res = supportable_conclusions (ar_requirement_decisions res)"
    and "ar_unsupported_conclusions res = unsupported_conclusions (ar_requirement_decisions res)"
    and "ar_limitations res = assessor_limitations (ar_requirement_decisions res)
           (applicable_disagreements e ap c dis) (ac_replay_mode c)"
proof -
  have ne: "rs \<noteq> []" using assms by (auto simp: assess_def)
  then obtain e ap ds i a where e: "single_value ''engine_id'' (map dr_engine_id rs) = Inr e"
    and ap: "single_value ''analysis_purpose'' (map dr_analysis_purpose rs) = Inr ap"
    and ds: "mapM (\<lambda>r. engine_decide p r
       (map_of (availability_by_requirement e ap c avs) (dr_requirement_id r))) rs = Inr ds"
    and a: "mk_assessment (assessment_record p c e ap (dr_schema_version (hd rs)) ds
           (applicable_disagreements e ap c dis) i) = Inr a"
    and res: "res = \<lparr>ar_assessment = a, ar_requirement_decisions = ds,
            ar_missing_requirements = missing_requirements ds,
            ar_supportable_conclusions = supportable_conclusions ds,
            ar_unsupported_conclusions = unsupported_conclusions ds,
            ar_limitations = assessor_limitations ds (applicable_disagreements e ap c dis) (ac_replay_mode c)\<rparr>"
    using assms unfolding assess_def Let_def if_not_P [OF ne] by (elim rbind_InrE) simp
  show ?thesis
    by (rule that [of e ap i]) (use ne e ap ds a in \<open>simp_all add: res single_value_Inr mapM_Inr_iff\<close>)
qed

lemma mk_assessment_Inr:
  "mk_assessment a = Inr a' \<longleftrightarrow> valid_assessment a \<and>
     a' = a\<lparr>as_coverage_score := round4 (as_coverage_score a),
        as_direct_observation_coverage := round4 (as_direct_observation_coverage a),
        as_proxy_signal_coverage := round4 (as_proxy_signal_coverage a)\<rparr>"
  by (simp add: mk_assessment_def valid_assessment_def checked_Inr conj_commute)

lemma valid_assessment_round:
  "valid_assessment a \<Longrightarrow> valid_assessment
     (a\<lparr>as_coverage_score := round4 (as_coverage_score a),
        as_direct_observation_coverage := round4 (as_direct_observation_coverage a),
        as_proxy_signal_coverage := round4 (as_proxy_signal_coverage a)\<rparr>)"
  unfolding valid_assessment_def assessment_checks_def list_all_append check_texts_None
  by (auto dest: round4_unit)

definition valid_assessment_context :: "assessment_context \<Rightarrow> bool" where
  "valid_assessment_context c =
     (list_all (\<lambda>k. k = None) (assessment_context_checks c) \<and> ac_replay_mode c \<in> set REPLAY_MODES)"

text \<open>Requirements and a context that can be assessed.\<close>

definition assessable :: "data_requirement list \<Rightarrow> assessment_context \<Rightarrow> bool" where
  "assessable rs c = ((\<exists>e. set (map dr_engine_id rs) = {e}) \<and> (\<exists>ap. set (map dr_analysis_purpose rs) = {ap}) \<and>
     ac_replay_mode c \<in> set REPLAY_MODES)"

lemma valid_assessment_contextD:
  assumes "valid_assessment_context c"
  shows "\<not> blank (ac_candidate_id c)" "\<not> blank (ac_assessment_scope c)" "\<not> blank (ac_processing_run_id c)"
    "aware (ac_evaluated_at c)" "\<And>t. ac_cutoff_at c = Some t \<Longrightarrow> aware t" "ac_replay_mode c \<in> set REPLAY_MODES"
  using assms by (auto simp: valid_assessment_context_def assessment_context_checks_def)

lemma limited_when_required:
  assumes "ds \<noteq> []" and dec: "\<And>d. d \<in> set ds \<Longrightarrow> \<exists>r av. engine_decide p r av = Inr d"
    and "sufficiency_state ds dis \<in> {''degraded'', ''insufficient'', ''unavailable''}"
  shows "\<exists>d \<in> set ds. decision_limitations d \<noteq> []"
proof -
  consider "list_all assessor_missing ds"
    | d where "d \<in> set ds" "dd_blocks_output (rd_decision d)"
    | d where "d \<in> set ds" "rd_outcome d = ''degraded_material_limitation''"
    using assms(3) by (auto simp: sufficiency_state_def list_ex_iff split: if_splits)
  then show ?thesis
  proof cases
    case 1
    with assms(1) show ?thesis
      by (metis list.set_sel(1) list_all_iff missing_limited)
  next
    case 2
    with dec decision_limited show ?thesis by blast
  next
    case 3
    with dec [OF 3(1)] decision_limited show ?thesis by fastforce
  qed
qed

lemma assessment_record_valid:
  assumes "ds \<noteq> []" "\<And>d. d \<in> set ds \<Longrightarrow> \<exists>r av. engine_decide p r av = Inr d"
    and "valid_policy p" "valid_assessment_context c" "\<not> blank e" "\<not> blank ap" "\<not> blank v" "\<not> blank i"
  shows "valid_assessment (assessment_record p c e ap v ds dis i)"
proof -
  have "sufficiency_state ds dis \<in> {''degraded'', ''insufficient'', ''unavailable''} \<longrightarrow>
      \<not> blank (join ''; '' (assessor_limitations ds dis (ac_replay_mode c)))"
    using limited_when_required [OF assms(1,2)] limitations_not_blank by blast
  moreover have "aware (case ac_cutoff_at c of None \<Rightarrow> ac_evaluated_at c | Some t \<Rightarrow> t)"
    using valid_assessment_contextD [OF assms(4)] by (simp split: option.split)
  ultimately show ?thesis
    using assms(5-) valid_policyD(7,8) [OF assms(3)] valid_assessment_contextD [OF assms(4)] coverage_unit assms(1)
    unfolding valid_assessment_def assessment_checks_def list_all_append check_texts_None assessment_record_def
    by (simp add: aggregate_vocabulary)
qed

lemma by_requirement_mem:
  assumes "map_of (availability_by_requirement e ap c avs) rid = Some a"
  shows "a \<in> set avs" "da_requirement_id a = rid" "da_candidate_id a = ac_candidate_id c"
    "da_engine_id a = e" "da_analysis_purpose a = ap" "assessor_visible_at c (da_effective_at a) (da_recorded_at a)"
proof -
  have "map_of (rev (map (\<lambda>a. (da_requirement_id a, a)) (filter (\<lambda>a.
       (da_candidate_id a = ac_candidate_id c \<and> da_engine_id a = e \<and> da_analysis_purpose a = ap) \<and>
       assessor_visible_at c (da_effective_at a) (da_recorded_at a)) avs))) rid = Some a"
    using assms by (simp add: availability_by_requirement_def map_of_dict_of)
  from map_of_SomeD [OF this]
  show "a \<in> set avs" "da_requirement_id a = rid" "da_candidate_id a = ac_candidate_id c"
    "da_engine_id a = e" "da_analysis_purpose a = ap" "assessor_visible_at c (da_effective_at a) (da_recorded_at a)"
    by auto
qed

lemma assess_exists:
  assumes "rs \<noteq> []" "set (map dr_engine_id rs) = {e}" "set (map dr_analysis_purpose rs) = {ap}"
    and rs: "\<forall>r \<in> set rs. valid_requirement r" and avs: "\<forall>a \<in> set avs. valid_availability a"
    and "valid_policy p" "valid_assessment_context c"
  shows "\<exists>res. assess p rs avs dis c = Inr res"
proof -
  have sv: "single_value ''engine_id'' (map dr_engine_id rs) = Inr e"
    "single_value ''analysis_purpose'' (map dr_analysis_purpose rs) = Inr ap"
    using assms(1-3) by (simp_all add: single_value_Inr)
  let ?look = "\<lambda>r. map_of (availability_by_requirement e ap c avs) (dr_requirement_id r)"
  have "\<exists>d. engine_decide p r (?look r) = Inr d" for r
    by (rule engine_decide_total) (metis by_requirement_mem(1,2) avs valid_availabilityD(1))
  then obtain ds where ds: "mapM (\<lambda>r. engine_decide p r (?look r)) rs = Inr ds"
    using mapM_total [of rs "\<lambda>r. engine_decide p r (?look r)"] by blast
  have dec: "d \<in> set ds \<Longrightarrow> \<exists>r av. engine_decide p r av = Inr d" for d
    using mapM_mem [OF ds] by blast
  have ne: "ds \<noteq> []" using mapM_length [OF ds] assms(1) by auto
  have "hd rs \<in> set rs" using assms(1) by simp
  then have hd: "valid_requirement (hd rs)" "dr_engine_id (hd rs) = e" "dr_analysis_purpose (hd rs) = ap"
    using rs assms(2,3) by auto
  let ?payload = "payload_dict
          [(''candidate_id'', PStr (ac_candidate_id c)), (''engine_id'', PStr e), (''analysis_purpose'', PStr ap),
           (''assessment_scope'', PStr (ac_assessment_scope c)),
           (''processing_run_id'', PStr (ac_processing_run_id c)), (''replay_mode'', PStr (ac_replay_mode c)),
           (''cutoff_at'', case ac_cutoff_at c of None \<Rightarrow> PNone | Some t \<Rightarrow> PDatetime t)]"
  have "canonical ?payload"
    using valid_assessment_contextD(5) [OF assms(7)] by (simp split: option.split)
  then obtain i where i: "sufficiency_id ''assessment'' ?payload = Inr i" "\<not> blank i"
    using sufficiency_id_ex by blast
  have "valid_assessment (assessment_record p c e ap (dr_schema_version (hd rs)) ds (applicable_disagreements e ap c dis) i)"
    using valid_requirementD(2,3,5) [OF hd(1)] hd(2,3) i(2)
    by (intro assessment_record_valid ne assms(6,7) dec) simp_all
  then obtain a where "mk_assessment (assessment_record p c e ap (dr_schema_version (hd rs)) ds
      (applicable_disagreements e ap c dis) i) = Inr a"
    using mk_assessment_Inr by blast
  then show ?thesis
    by (simp add: assess_def assms(1) sv ds i(1) Let_def)
qed

text \<open>A policy under which missing, stale and partial data never count as normal, as the default one is.\<close>

definition limiting :: "degraded_mode_policy \<Rightarrow> bool" where
  "limiting p = (valid_policy p \<and> ''normal'' \<notin> {dp_unavailable_required_outcome p, dp_partial_required_outcome p,
     dp_stale_required_outcome p, dp_optional_missing_outcome p})"

definition directly_available :: "requirement_decision \<Rightarrow> bool" where
  "directly_available d = (\<exists>a. rd_availability d = Some a \<and> da_availability_state a = ''available'' \<and>
     da_directness a \<noteq> ''proxy_signal'')"

lemma normal_decision:
  assumes "engine_decide p r av = Inr d" "limiting p"
  shows "rd_outcome d = ''normal'' \<longleftrightarrow> directly_available d"
proof (cases av)
  case None
  then show ?thesis
    using engine_decide_Inr(2,4) [OF assms(1)] assms(2) by (auto simp: directly_available_def limiting_def)
next
  case (Some a)
  have av: "rd_availability d = Some a" using engine_decide_Inr(2) [OF assms(1)] Some by simp
  have nn: "dp_proxy_for_direct_outcome p \<noteq> ''normal''"
    using assms(2) valid_policyD(1) by (auto simp: limiting_def)
  from engine_decide_Inr(3) [OF assms(1) Some] show ?thesis
    by (cases rule: policy_decide_cases) (use nn assms(2) in \<open>auto simp: av directly_available_def limiting_def\<close>)
qed

lemma direct_decision_open:
  assumes "engine_decide p r av = Inr d" "directly_available d"
  shows "\<not> dd_blocks_output (rd_decision d)" "rd_outcome d = ''normal''"
proof -
  obtain a where a: "av = Some a" "da_availability_state a = ''available''" "da_directness a \<noteq> ''proxy_signal''"
    using assms engine_decide_Inr(2) [OF assms(1)] by (auto simp: directly_available_def)
  then have "policy_decide p r a = Inr (rd_decision d)" using engine_decide_Inr(3) [OF assms(1)] by blast
  then have "rd_decision d = decision ''normal'' ''direct_or_derived_data_available'' False"
    by (cases rule: policy_decide_cases) (use a in auto)
  then show "\<not> dd_blocks_output (rd_decision d)" "rd_outcome d = ''normal''" by simp_all
qed

lemma directly_available_not_missing: "directly_available d \<Longrightarrow> \<not> assessor_missing d \<and> rd_state d = Some ''available''"
  by (auto simp: directly_available_def assessor_missing_def rd_state_def)

lemma sufficient_iff:
  assumes "ds \<noteq> []" "limiting p" and dec: "\<And>d. d \<in> set ds \<Longrightarrow> \<exists>r av. engine_decide p r av = Inr d"
  shows "sufficiency_state ds dis = ''sufficient'' \<longleftrightarrow> dis = [] \<and> list_all directly_available ds"
proof
  assume s: "sufficiency_state ds dis = ''sufficient''"
  then have "dis = []" and all: "\<forall>d \<in> set ds. rd_outcome d = ''normal''"
    by (auto simp: sufficiency_state_def list_ex_iff split: if_splits)
  moreover have "directly_available d" if "d \<in> set ds" for d
    using dec [OF that] normal_decision [OF _ assms(2)] all that by blast
  ultimately show "dis = [] \<and> list_all directly_available ds" by (simp add: list_all_iff)
next
  assume a: "dis = [] \<and> list_all directly_available ds"
  then have da: "d \<in> set ds \<Longrightarrow> directly_available d" for d by (simp add: list_all_iff)
  obtain d ds' where ds: "ds = d # ds'" using assms(1) by (cases ds) auto
  have "\<not> list_all assessor_missing ds"
    using directly_available_not_missing [OF da [of d]] by (simp add: ds)
  moreover have "\<not> dd_blocks_output (rd_decision d) \<and> rd_outcome d = ''normal''" if "d \<in> set ds" for d
    using dec [OF that] direct_decision_open da [OF that] by blast
  ultimately show "sufficiency_state ds dis = ''sufficient''"
    using a by (auto simp: sufficiency_state_def list_ex_iff)
qed

section \<open>Properties\<close>

lemma assess_value_failures:
  assumes "\<forall>a \<in> set avs. valid_availability a" and "list_all (\<lambda>k. k = None) (assessment_context_checks c)"
  shows "value_failures (assess p rs avs dis c)"
proof -
  have decided: "value_failures (engine_decide p r (map_of (availability_by_requirement e ap c avs) (dr_requirement_id r)))" for e ap r
    using engine_decide_total [of "map_of (availability_by_requirement e ap c avs) (dr_requirement_id r)" r p]
      by_requirement_mem(1,2) assms(1) valid_availabilityD(1) by (metis value_failures_simps(1))
  have single: "value_failures (single_value n vs)" for n vs
    by (simp add: single_value_def split: list.split)
  have "canonical (case ac_cutoff_at c of None \<Rightarrow> PNone | Some t \<Rightarrow> PDatetime t)"
    using assms(2) by (simp add: assessment_context_checks_def split: option.split)
  then show ?thesis
    unfolding assess_def Let_def
    by (auto intro!: value_failures_bind value_failures_mapM value_failures_id single decided value_failures_constructors(2))
qed

text \<open>C35. An assessment of constructed inputs succeeds exactly when all requirements have one engine and one purpose (so there is one) and the
  context names a known replay mode, which its constructor does not check; otherwise it raises \<open>ValueError\<close>. When it succeeds,
  whatever the disagreements, the aggregated record passes the constructor of \<open>DataSufficiencyAssessment\<close>; in particular a degraded,
  insufficient or unavailable assessment always has limitations to report, and the coverage scores lie in the unit interval.\<close>

theorem assess_total:
  assumes "\<forall>r \<in> set rs. valid_requirement r" and "\<forall>a \<in> set avs. valid_availability a"
    and "valid_policy p" and "list_all (\<lambda>k. k = None) (assessment_context_checks c)"
  shows "case assess p rs avs dis c of
      Inr res \<Rightarrow> assessable rs c \<and> valid_assessment (ar_assessment res)
    | Inl x \<Rightarrow> \<not> assessable rs c \<and> (\<exists>why. x = ValueError why)"
proof (cases "assess p rs avs dis c")
  case (Inl x)
  have "valid_assessment_context c" if "assessable rs c"
    using that assms(4) by (simp add: valid_assessment_context_def assessable_def)
  then have "\<not> assessable rs c"
    using assess_exists [OF _ _ _ assms(1-3), of _ _ c dis] Inl unfolding assessable_def by fastforce
  then show ?thesis using value_failuresD [OF assess_value_failures [OF assms(2,4)] Inl] Inl by simp
next
  case (Inr res)
  have "assessable rs c \<and> valid_assessment (ar_assessment res)"
    using Inr
  proof (rule assess_Inr)
    fix e ap i
    assume shape: "set (map dr_engine_id rs) = {e}" "set (map dr_analysis_purpose rs) = {ap}"
      and mk: "mk_assessment (assessment_record p c e ap (dr_schema_version (hd rs)) (ar_requirement_decisions res)
        (applicable_disagreements e ap c dis) i) = Inr (ar_assessment res)"
    have "ac_replay_mode c \<in> set REPLAY_MODES"
      using mk by (simp add: mk_assessment_Inr valid_assessment_def assessment_checks_def assessment_record_def)
    with shape mk show ?thesis
      by (auto simp: assessable_def mk_assessment_Inr intro: valid_assessment_round)
  qed
  then show ?thesis by (simp add: Inr)
qed

text \<open>C36. Strict replay of an assessment: in the mode \<open>historical_strict_known_by_hunter\<close> with a cutoff it is the assessment made from the availabilities and
  disagreements that were recorded by the cutoff, and records made later change nothing.\<close>

theorem assess_strict_replay:
  assumes "ac_cutoff_at c = Some t" and "ac_replay_mode c = ''historical_strict_known_by_hunter''"
  shows "assess p rs (filter (\<lambda>a. \<not> dt_after (da_recorded_at a) t) avs)
      (filter (\<lambda>d. \<not> dt_after (sd_recorded_at d) t) dis) c = assess p rs avs dis c"
  unfolding assess_def Let_def by (simp only: assess_known_at [OF assms])

text \<open>C3. \<open>sufficient\<close> means sufficient, under every policy that assigns the outcome \<open>normal\<close> to no missing, stale,
  partial or optional-missing data: the assessment is \<open>sufficient\<close> if and only if no disagreement applies and every requirement has an
  availability that is \<open>available\<close> and not a proxy signal; the coverage score is then 1.\<close>

theorem assess_sufficient_iff:
  assumes "assess p rs avs dis c = Inr res" and "limiting p"
  shows "(as_sufficiency_state (ar_assessment res) = ''sufficient'' \<longleftrightarrow>
      list_all directly_available (ar_requirement_decisions res) \<and>
      applicable_disagreements (as_engine_id (ar_assessment res)) (as_analysis_purpose (ar_assessment res)) c dis = []) \<and>
    (as_sufficiency_state (ar_assessment res) = ''sufficient'' \<longrightarrow>
      as_coverage_score (ar_assessment res) = PFin 1)"
proof (rule assess_Inr [OF assms(1)])
  fix e ap i
  let ?ds = "ar_requirement_decisions res" and ?a = "ar_assessment res"
  assume ne: "rs \<noteq> []"
    and ds: "list_all2 (\<lambda>r d. engine_decide p r
           (map_of (availability_by_requirement e ap c avs) (dr_requirement_id r)) = Inr d) rs ?ds"
    and mk: "mk_assessment (assessment_record p c e ap (dr_schema_version (hd rs)) ?ds
           (applicable_disagreements e ap c dis) i) = Inr ?a"
  have a: "as_sufficiency_state ?a = sufficiency_state ?ds (applicable_disagreements e ap c dis)"
    "as_engine_id ?a = e" "as_analysis_purpose ?a = ap" "as_coverage_score ?a = round4 (coverage_score ?ds)"
    using mk by (simp_all add: mk_assessment_Inr assessment_record_def)
  have dec: "d \<in> set ?ds \<Longrightarrow> \<exists>r av. engine_decide p r av = Inr d" for d
    using ds by (induction rule: list_all2_induct) auto
  have "?ds \<noteq> []" using ne ds by auto
  note iff = sufficient_iff [OF this assms(2) dec, of "applicable_disagreements e ap c dis"]
  have "coverage_score ?ds = PFin 1" if "list_all directly_available ?ds"
  proof -
    have "filter (\<lambda>d. rd_state d = Some ''available'') ?ds = ?ds"
      using that directly_available_not_missing by (auto simp: list_all_iff filter_id_conv)
    then show ?thesis using \<open>?ds \<noteq> []\<close> by (simp add: coverage_score_def share_def float_div_same)
  qed
  with iff show ?thesis by (auto simp: a)
qed

text \<open>Two requirements of one engine, an availability for each, and the default policy.\<close>

definition noon_a :: pydatetime where
  "noon_a = utc 63881352000000000"

definition a_requirement :: "string \<Rightarrow> string \<Rightarrow> data_requirement" where
  "a_requirement i fld =
     \<lparr>dr_requirement_id = i, dr_engine_id = ''competitive'', dr_analysis_purpose = ''report'',
      dr_output_field = fld, dr_requirement_kind = ''direct_observation'',
      dr_evidence_domain = ''competitive'', dr_required_entity_type = ''candidate'',
      dr_required_source_types = [''relationship''], dr_direct_observation_required = True,
      dr_proxy_allowed = False, dr_accepted_proxy_types = [], dr_minimum_freshness_seconds = 86400,
      dr_minimum_source_authority = ''medium'', dr_minimum_lineage_depth = 1, dr_minimum_confidence = PFin 0,
      dr_historical_required = True, dr_blocking_level = ''required_for_output'', dr_policy_id = ''policy'',
      dr_policy_version = ''v1'', dr_effective_at = noon_a, dr_recorded_at = noon_a,
      dr_schema_version = ''v1'', dr_metadata = []\<rparr>"

definition a_availability :: "string \<Rightarrow> string \<Rightarrow> string \<Rightarrow> data_availability" where
  "a_availability rid state directness =
     \<lparr>da_availability_id = ''av'', da_requirement_id = rid, da_candidate_id = ''cand'',
      da_engine_id = ''competitive'', da_analysis_purpose = ''report'', da_availability_state = state,
      da_directness = directness, da_proxy_type = None, da_freshness_seconds = Some 0,
      da_source_quality = ''high'', da_lineage_complete = True, da_conflict_state = ''none'',
      da_evidence_count = 1, da_missing_reason = (if state = ''available'' then '''' else ''nothing seen''),
      da_effective_at = noon_a, da_recorded_at = noon_a, da_cutoff_at = None, da_replay_mode = ''current'',
      da_processing_run_id = ''run'', da_schema_version = ''v1'', da_metadata = []\<rparr>"

definition a_context :: assessment_context where
  "a_context = \<lparr>ac_candidate_id = ''cand'', ac_assessment_scope = ''candidate_report'', ac_evaluated_at = noon_a,
     ac_cutoff_at = Some noon_a, ac_replay_mode = ''historical_strict_known_by_hunter'',
     ac_processing_run_id = ''run''\<rparr>"

definition a_policy :: degraded_mode_policy where
  "a_policy = projr (default_degraded_mode_policy noon_a noon_a)"

definition a_requirements :: "data_requirement list" where
  "a_requirements = [a_requirement ''r1'' ''competitors'', a_requirement ''r2'' ''competitors'']"

lemma default_policy_Inr:
  "aware e \<Longrightarrow> aware r \<Longrightarrow> \<exists>p. default_degraded_mode_policy e r = Inr p \<and> limiting p \<and>
     dp_unavailable_required_outcome p = ''blocked_insufficient_evidence''"
  by (simp add: default_degraded_mode_policy_def mk_degraded_mode_policy_def checked_Inr limiting_def valid_policy_def
      degraded_mode_policy_checks_def check_texts_def DEGRADED_MODE_OUTCOMES_def is_space_def
      DEFAULT_SUFFICIENCY_POLICY_ID_def DEFAULT_SUFFICIENCY_POLICY_VERSION_def DEFAULT_SUFFICIENCY_SCHEMA_VERSION_def)

lemma a_policy: "limiting a_policy" "valid_policy a_policy"
  "dp_unavailable_required_outcome a_policy = ''blocked_insufficient_evidence''"
proof -
  obtain p where "default_degraded_mode_policy noon_a noon_a = Inr p" "limiting p"
    "dp_unavailable_required_outcome p = ''blocked_insufficient_evidence''"
    using default_policy_Inr [of noon_a noon_a] by (auto simp: noon_a_def)
  then show "limiting a_policy" "valid_policy a_policy"
    "dp_unavailable_required_outcome a_policy = ''blocked_insufficient_evidence''"
    by (simp_all add: a_policy_def limiting_def)
qed

lemma a_requirement_valid: "\<not> blank i \<Longrightarrow> \<not> blank fld \<Longrightarrow> valid_requirement (a_requirement i fld)"
  by (simp add: valid_requirement_def data_requirement_checks_def a_requirement_def check_texts_def
      check_text_tuple_def check_proxy_tuple_def vocabulary_defs is_space_def noon_a_def)

lemma a_availability_valid:
  "\<not> blank i \<Longrightarrow> (state, d) \<in> {(''available'', ''direct_observation''), (''available'', ''derived_from_direct''),
     (''unavailable'', ''unavailable'')} \<Longrightarrow> valid_availability (a_availability i state d)"
  by (auto simp: valid_availability_def data_availability_checks_def a_availability_def check_texts_def
      vocabulary_defs is_space_def noon_a_def)

lemma a_requirements_shape:
  "a_requirements \<noteq> []" "set (map dr_engine_id a_requirements) = {''competitive''}"
  "set (map dr_analysis_purpose a_requirements) = {''report''}" "\<forall>r \<in> set a_requirements. valid_requirement r"
  by (simp_all add: a_requirements_def a_requirement_valid is_space_def) (simp_all add: a_requirement_def)

lemma a_context_valid: "valid_assessment_context a_context"
  by (simp add: valid_assessment_context_def assessment_context_checks_def a_context_def is_space_def noon_a_def
      REPLAY_MODES_def)

definition a_availabilities :: "string \<Rightarrow> data_availability list" where
  "a_availabilities d = [a_availability ''r1'' ''available'' d, a_availability ''r2'' ''available'' d]"

lemma a_availabilities_valid:
  "d \<in> {''direct_observation'', ''derived_from_direct''} \<Longrightarrow> \<forall>a \<in> set (a_availabilities d). valid_availability a"
  by (auto simp: a_availabilities_def is_space_def intro!: a_availability_valid)

lemma assess_total_witness:
  "(\<exists>res. assess a_policy a_requirements (a_availabilities ''direct_observation'') [] a_context = Inr res \<and>
     valid_assessment (ar_assessment res)) \<and>
   (\<exists>why. assess a_policy [] [] [] a_context = Inl (ValueError why))"
proof -
  have ctx: "list_all (\<lambda>k. k = None) (assessment_context_checks a_context)"
    using a_context_valid by (simp add: valid_assessment_context_def)
  have "assessable a_requirements a_context"
    using a_requirements_shape a_context_valid by (auto simp: assessable_def valid_assessment_context_def)
  then show ?thesis
    using assess_total [OF a_requirements_shape(4) a_availabilities_valid a_policy(2) ctx, of "''direct_observation''" "[]"]
      assess_total [OF _ _ a_policy(2) ctx, of "[]" "[]" "[]"]
    by (auto simp: assessable_def split: sum.splits)
qed

lemma assess_strict_replay_witness:
  "assess a_policy a_requirements (filter (\<lambda>a. \<not> dt_after (da_recorded_at a) noon_a)
       [(a_availability ''r1'' ''available'' ''direct_observation'')\<lparr>da_recorded_at := utc 63881352000000001\<rparr>])
     (filter (\<lambda>d. \<not> dt_after (sd_recorded_at d) noon_a) []) a_context
   = assess a_policy a_requirements
       [(a_availability ''r1'' ''available'' ''direct_observation'')\<lparr>da_recorded_at := utc 63881352000000001\<rparr>] []
       a_context"
  by (rule assess_strict_replay) (simp_all add: a_context_def)

lemma a_look:
  "map_of (availability_by_requirement ''competitive'' ''report'' a_context
     [a_availability ''r1'' s1 d1, a_availability ''r2'' s2 d2]) ''r1'' = Some (a_availability ''r1'' s1 d1)"
  "map_of (availability_by_requirement ''competitive'' ''report'' a_context
     [a_availability ''r1'' s1 d1, a_availability ''r2'' s2 d2]) ''r2'' = Some (a_availability ''r2'' s2 d2)"
  by (simp_all add: availability_by_requirement_def map_of_dict_of)
    (simp_all add: a_availability_def a_context_def assessor_visible_at_def dt_after_def)

lemma a_decisions:
  assumes "assess a_policy a_requirements [a_availability ''r1'' s1 d1, a_availability ''r2'' s2 d2] dis a_context = Inr res"
  shows "\<exists>x y. ar_requirement_decisions res =
     [\<lparr>rd_requirement = a_requirement ''r1'' ''competitors'', rd_availability = Some (a_availability ''r1'' s1 d1),
       rd_decision = x\<rparr>,
      \<lparr>rd_requirement = a_requirement ''r2'' ''competitors'', rd_availability = Some (a_availability ''r2'' s2 d2),
       rd_decision = y\<rparr>] \<and>
     policy_decide a_policy (a_requirement ''r1'' ''competitors'') (a_availability ''r1'' s1 d1) = Inr x \<and>
     policy_decide a_policy (a_requirement ''r2'' ''competitors'') (a_availability ''r2'' s2 d2) = Inr y"
  using assms
proof (rule assess_Inr)
  fix e ap
  assume "set (map dr_engine_id a_requirements) = {e}" "set (map dr_analysis_purpose a_requirements) = {ap}"
  then have *: "e = ''competitive''" "ap = ''report''" using a_requirements_shape by simp_all
  assume "list_all2 (\<lambda>r d. engine_decide a_policy r
           (map_of (availability_by_requirement e ap a_context [a_availability ''r1'' s1 d1, a_availability ''r2'' s2 d2])
             (dr_requirement_id r)) = Inr d) a_requirements (ar_requirement_decisions res)"
  then obtain x y where xy: "ar_requirement_decisions res = [x, y]"
    "engine_decide a_policy (a_requirement ''r1'' ''competitors'') (Some (a_availability ''r1'' s1 d1)) = Inr x"
    "engine_decide a_policy (a_requirement ''r2'' ''competitors'') (Some (a_availability ''r2'' s2 d2)) = Inr y"
    unfolding * a_requirements_def by (auto simp: list_all2_Cons1 a_requirement_def a_look)
  then show ?thesis by (auto simp: engine_decide_def rbind_Inr_iff)
qed

lemma assess_sufficient_iff_witness:
  "\<exists>res. assess a_policy a_requirements (a_availabilities ''direct_observation'') [] a_context = Inr res \<and>
     as_sufficiency_state (ar_assessment res) = ''sufficient'' \<and> as_coverage_score (ar_assessment res) = PFin 1"
proof -
  obtain res where res: "assess a_policy a_requirements (a_availabilities ''direct_observation'') [] a_context = Inr res"
    using assess_exists [OF a_requirements_shape a_availabilities_valid a_policy(2) a_context_valid] by blast
  have "list_all directly_available (ar_requirement_decisions res)"
    using a_decisions [OF res [unfolded a_availabilities_def]]
    by (auto simp: directly_available_def a_availability_def)
  then show ?thesis using assess_sufficient_iff [OF res a_policy(1)] res
    by (auto simp: applicable_disagreements_def)
qed

text \<open>Supportable and unsupported conclusions partition the requirements: each requirement's output field is
  reported in exactly one of the two lists, once per requirement, and a requirement without
  availability, or whose data are unavailable, is reported missing.\<close>

theorem assess_partition:
  assumes "assess p rs avs dis c = Inr res"
  shows "mset (ar_supportable_conclusions res) + mset (ar_unsupported_conclusions res) = mset (map dr_output_field rs) \<and>
    as_material_missing_count (ar_assessment res) = int (length (ar_missing_requirements res)) \<and>
    set (ar_missing_requirements res) =
      output_field ` {d \<in> set (ar_requirement_decisions res). assessor_missing d}"
proof (rule assess_Inr [OF assms])
  fix e ap i
  let ?ds = "ar_requirement_decisions res"
  assume ds: "list_all2 (\<lambda>r d. engine_decide p r
           (map_of (availability_by_requirement e ap c avs) (dr_requirement_id r)) = Inr d) rs ?ds"
    and mk: "mk_assessment (assessment_record p c e ap (dr_schema_version (hd rs)) ?ds
           (applicable_disagreements e ap c dis) i) = Inr (ar_assessment res)"
    and lists: "ar_missing_requirements res = missing_requirements ?ds"
      "ar_supportable_conclusions res = supportable_conclusions ?ds"
      "ar_unsupported_conclusions res = unsupported_conclusions ?ds"
  have "map dr_output_field rs = map output_field ?ds"
    using ds by (induction rule: list_all2_induct) (auto simp: output_field_def dest: engine_decide_Inr(1))
  moreover have "mset (supportable_conclusions ds) + mset (unsupported_conclusions ds) = mset (map output_field ds)" for ds
    by (induction ds) (auto simp: supportable_conclusions_def unsupported_conclusions_def supportable_def)
  moreover have "set (missing_requirements ?ds) = output_field ` {d \<in> set ?ds. assessor_missing d}"
    by (auto simp: missing_requirements_def)
  moreover have "as_material_missing_count (ar_assessment res) = int (length (missing_requirements ?ds))"
    using mk by (simp add: mk_assessment_Inr assessment_record_def)
  ultimately show ?thesis by (simp add: lists)
qed

lemma assess_partition_witness:
  "\<exists>res. assess a_policy a_requirements (a_availabilities ''direct_observation'') [] a_context = Inr res \<and>
     mset (ar_supportable_conclusions res) + mset (ar_unsupported_conclusions res) = {#''competitors'', ''competitors''#}"
proof -
  obtain res where res: "assess a_policy a_requirements (a_availabilities ''direct_observation'') [] a_context = Inr res"
    using assess_exists [OF a_requirements_shape a_availabilities_valid a_policy(2) a_context_valid] by blast
  have "map dr_output_field a_requirements = [''competitors'', ''competitors'']"
    by (simp add: a_requirements_def a_requirement_def)
  then show ?thesis using assess_partition [OF res] res by auto
qed

text \<open>The gate of a report field is overwritten: when two requirements of an assessment write the same output
  field, the first blocks it and the last one supports it, the metadata gate the field as supportable although
  the field is also listed among the unsupported conclusions.\<close>

theorem assess_gate_overwritten:
  assumes "assess p rs avs dis c = Inr res"
    and "ar_requirement_decisions res = ds1 @ d # ds2 @ d' # ds3"
    and "output_field d' = output_field d" and "output_field d \<notin> set (map output_field ds3)"
    and "\<not> supportable d" and "supportable d'"
  shows "(\<exists>gates. map_of (as_metadata (ar_assessment res)) ''report_field_gating'' = Some (payload_dict gates) \<and>
      map_of gates (output_field d) = Some (payload_dict (field_gate d'))) \<and>
    map_of (field_gate d') ''supportable'' = Some (PBool True) \<and>
    output_field d \<in> set (ar_unsupported_conclusions res)"
proof (rule assess_Inr [OF assms(1)])
  fix e ap i
  let ?ds = "ar_requirement_decisions res"
  assume mk: "mk_assessment (assessment_record p c e ap (dr_schema_version (hd rs)) ?ds
           (applicable_disagreements e ap c dis) i) = Inr (ar_assessment res)"
    and un: "ar_unsupported_conclusions res = unsupported_conclusions ?ds"
  have "map_of (as_metadata (ar_assessment res)) ''report_field_gating'' = Some (payload_dict (report_field_gating ?ds))"
    using mk by (simp add: mk_assessment_Inr assessment_record_def)
  moreover have "map_of (rev (map (\<lambda>d. (output_field d, payload_dict (field_gate d))) ds3)) (output_field d) = None"
    using assms(4) by (auto simp: map_of_eq_None_iff)
  then have "map_of (report_field_gating ?ds) (output_field d) = Some (payload_dict (field_gate d'))"
    using assms(3) by (simp add: report_field_gating_def map_of_dict_of assms(2) map_add_def)
  ultimately show ?thesis
    using assms(5,6) by (auto simp: un unsupported_conclusions_def assms(2) supportable_def field_gate_def)
qed

lemma assess_gate_overwritten_witness:
  "\<exists>res. assess a_policy a_requirements [a_availability ''r1'' ''unavailable'' ''unavailable'',
       a_availability ''r2'' ''available'' ''direct_observation''] [] a_context = Inr res \<and>
     ''competitors'' \<in> set (ar_unsupported_conclusions res)"
proof -
  let ?avs = "[a_availability ''r1'' ''unavailable'' ''unavailable'',
       a_availability ''r2'' ''available'' ''direct_observation'']"
  have "\<forall>a \<in> set ?avs. valid_availability a" by (simp add: a_availability_valid is_space_def)
  then obtain res where res: "assess a_policy a_requirements ?avs [] a_context = Inr res"
    using assess_exists [OF a_requirements_shape _ a_policy(2) a_context_valid] by blast
  obtain x y where ds: "ar_requirement_decisions res =
     [\<lparr>rd_requirement = a_requirement ''r1'' ''competitors'',
       rd_availability = Some (a_availability ''r1'' ''unavailable'' ''unavailable''), rd_decision = x\<rparr>,
      \<lparr>rd_requirement = a_requirement ''r2'' ''competitors'',
       rd_availability = Some (a_availability ''r2'' ''available'' ''direct_observation''), rd_decision = y\<rparr>]"
    and x: "policy_decide a_policy (a_requirement ''r1'' ''competitors'')
      (a_availability ''r1'' ''unavailable'' ''unavailable'') = Inr x"
    and y: "policy_decide a_policy (a_requirement ''r2'' ''competitors'')
      (a_availability ''r2'' ''available'' ''direct_observation'') = Inr y"
    using a_decisions [OF res] by blast
  from x have "x = decision ''blocked_insufficient_evidence'' ''required_data_unavailable'' True"
    by (simp add: policy_decide_def a_requirement_def a_availability_def by_material_def material_def a_policy(3))
  moreover from y have "y = decision ''normal'' ''direct_or_derived_data_available'' False"
    by (simp add: policy_decide_def a_requirement_def a_availability_def)
  moreover obtain d d' where d: "ar_requirement_decisions res = [] @ d # [] @ d' # []"
    "d = \<lparr>rd_requirement = a_requirement ''r1'' ''competitors'',
       rd_availability = Some (a_availability ''r1'' ''unavailable'' ''unavailable''), rd_decision = x\<rparr>"
    "d' = \<lparr>rd_requirement = a_requirement ''r2'' ''competitors'',
       rd_availability = Some (a_availability ''r2'' ''available'' ''direct_observation''), rd_decision = y\<rparr>"
    using ds by simp
  moreover have f: "output_field d' = output_field d" "output_field d = ''competitors''"
    by (simp_all add: d output_field_def a_requirement_def)
  ultimately have "\<not> supportable d" "supportable d'" by (simp_all add: supportable_def)
  with assess_gate_overwritten [OF res d(1) f(1)] have "output_field d \<in> set (ar_unsupported_conclusions res)" by simp
  with res f(2) show ?thesis by auto
qed

text \<open>The two readings of "direct" meet in one assessment: when every requirement demands direct observation and
  each has an availability that is only derived from direct data, with no disagreement, the assessment is
  \<open>sufficient\<close> while its direct-observation coverage is zero.\<close>

theorem assess_derived_sufficient:
  assumes "assess p rs avs [] c = Inr res" and "limiting p"
    and "\<forall>r \<in> set rs. dr_direct_observation_required r"
    and "\<forall>d \<in> set (ar_requirement_decisions res). \<exists>a. rd_availability d = Some a \<and>
       da_availability_state a = ''available'' \<and> da_directness a = ''derived_from_direct''"
  shows "as_sufficiency_state (ar_assessment res) = ''sufficient'' \<and>
    as_direct_observation_coverage (ar_assessment res) = PFin 0"
proof (rule assess_Inr [OF assms(1)])
  fix e ap i
  let ?ds = "ar_requirement_decisions res" and ?a = "ar_assessment res"
  assume ne: "rs \<noteq> []"
    and ds: "list_all2 (\<lambda>r d. engine_decide p r
           (map_of (availability_by_requirement e ap c avs) (dr_requirement_id r)) = Inr d) rs ?ds"
    and mk: "mk_assessment (assessment_record p c e ap (dr_schema_version (hd rs)) ?ds
           (applicable_disagreements e ap c []) i) = Inr ?a"
  have a: "as_sufficiency_state ?a = sufficiency_state ?ds []"
    "as_direct_observation_coverage ?a = round4 (direct_observation_coverage ?ds)"
    using mk by (simp_all add: mk_assessment_Inr assessment_record_def applicable_disagreements_def)
  have dec: "\<exists>r av. engine_decide p r av = Inr d" "dr_direct_observation_required (rd_requirement d)"
    if "d \<in> set ?ds" for d
  proof -
    from ds that have "\<exists>r \<in> set rs. \<exists>av. engine_decide p r av = Inr d"
      by (induction rule: list_all2_induct) auto
    then show "\<exists>r av. engine_decide p r av = Inr d" "dr_direct_observation_required (rd_requirement d)"
      using assms(3) engine_decide_Inr(1) by blast+
  qed
  have dne: "?ds \<noteq> []" using ne ds by auto
  have "list_all directly_available ?ds"
    using assms(4) by (fastforce simp: list_all_iff directly_available_def)
  with sufficient_iff [OF dne assms(2) dec(1)] have "sufficiency_state ?ds [] = ''sufficient''" by simp
  moreover have "filter (\<lambda>d. dr_direct_observation_required (rd_requirement d)) ?ds = ?ds"
    using dec(2) by (simp add: filter_id_conv)
  moreover have "filter (\<lambda>d. case rd_availability d of None \<Rightarrow> False
       | Some a \<Rightarrow> da_directness a = ''direct_observation'' \<and> da_availability_state a = ''available'') ?ds = []"
    using assms(4) by (fastforce simp: filter_empty_conv)
  ultimately show ?thesis
    using dne by (simp add: a direct_observation_coverage_def share_def)
qed

lemma assess_derived_sufficient_witness:
  "\<exists>res. assess a_policy a_requirements (a_availabilities ''derived_from_direct'') [] a_context = Inr res \<and>
     as_sufficiency_state (ar_assessment res) = ''sufficient'' \<and>
     as_direct_observation_coverage (ar_assessment res) = PFin 0"
proof -
  obtain res where res: "assess a_policy a_requirements (a_availabilities ''derived_from_direct'') [] a_context = Inr res"
    using assess_exists [OF a_requirements_shape a_availabilities_valid a_policy(2) a_context_valid] by blast
  have "\<forall>r \<in> set a_requirements. dr_direct_observation_required r"
    by (simp add: a_requirements_def a_requirement_def)
  moreover have "\<forall>d \<in> set (ar_requirement_decisions res). \<exists>a. rd_availability d = Some a \<and>
       da_availability_state a = ''available'' \<and> da_directness a = ''derived_from_direct''"
    using a_decisions [OF res [unfolded a_availabilities_def]] by (auto simp: a_availability_def)
  ultimately show ?thesis using assess_derived_sufficient [OF res a_policy(1)] res by blast
qed

end
