(* ===== verification/SuffEvaluator.thy ===== *)
theory SuffEvaluator
  imports SuffErrors Replay
begin

text \<open>
  \<open>hunter.sufficiency.evaluator\<close>: which source observations a requirement may use, the availability
  record they amount to, and the lineage links of that record. Every constructor call is made, so an
  evaluation returns the exception a constructor would raise.
\<close>

section \<open>Inputs\<close>

definition TRUSTED_IDENTITY_STATES :: "string list" where
  "TRUSTED_IDENTITY_STATES = [''exact'', ''probable'', ''identified'', ''trusted'', ''screenable'', ''analyzable'']"

definition ACTIVE_LIFECYCLE_STATES :: "string list" where
  "ACTIVE_LIFECYCLE_STATES = [''active'', ''accepted'', ''verified'', ''current'', ''available'']"

definition SOURCE_QUALITY_RANK :: "(string \<times> int) list" where
  "SOURCE_QUALITY_RANK =
     [(''unavailable'', 0), (''low'', 1), (''medium'', 2),
      (''verified_or_persisted_hunter_evidence'', 2), (''high'', 3)]"

definition rank_get :: "(string \<times> int) list \<Rightarrow> string \<Rightarrow> int \<Rightarrow> int" where
  "rank_get ranks q otherwise = (case map_of ranks q of None \<Rightarrow> otherwise | Some n \<Rightarrow> n)"

record candidate_trust =
  ct_candidate_id :: string
  ct_identity_state :: string
  ct_trusted :: bool
  ct_effective_at :: pydatetime
  ct_recorded_at :: pydatetime
  ct_reason :: string

definition mk_candidate_trust :: "candidate_trust \<Rightarrow> candidate_trust result" where
  "mk_candidate_trust c = checked
     [check_text ''candidate_id'' (ct_candidate_id c), check_text ''identity_state'' (ct_identity_state c),
      check_aware ''effective_at'' (ct_effective_at c), check_aware ''recorded_at'' (ct_recorded_at c)] c"

definition trust_eligible :: "candidate_trust \<Rightarrow> bool" where
  "trust_eligible c = (ct_trusted c \<and> ct_identity_state c \<in> set TRUSTED_IDENTITY_STATES)"

record provider_state =
  ps_source_type :: string
  ps_status :: string
  ps_checked_at :: pydatetime
  ps_recorded_at :: pydatetime
  ps_reason :: string

definition mk_provider_state :: "provider_state \<Rightarrow> provider_state result" where
  "mk_provider_state p = checked
     [check_text ''source_type'' (ps_source_type p), check_text ''status'' (ps_status p),
      check_aware ''checked_at'' (ps_checked_at p), check_aware ''recorded_at'' (ps_recorded_at p)] p"

definition provider_unavailable :: "provider_state \<Rightarrow> bool" where
  "provider_unavailable p =
     (ps_status p \<in> {''unavailable'', ''rate_limited'', ''forbidden'', ''failed'', ''stale''})"

record source_observation =
  so_observation_id :: string
  so_candidate_id :: string
  so_source_type :: string
  so_evidence_domain :: string
  so_directness :: string
  so_effective_at :: pydatetime
  so_recorded_at :: pydatetime
  so_confidence :: pyfloat
  so_source_quality :: string
  so_lineage_depth :: int
  so_lifecycle_state :: string
  so_proxy_type :: "string option"
  so_conflict_state :: string
  so_evidence_id :: "string option"
  so_span_id :: "string option"
  so_claim_id :: "string option"
  so_conflict_id :: "string option"
  so_metadata :: "(string \<times> pyvalue) list"

definition observation_checks :: "source_observation \<Rightarrow> check list" where
  "observation_checks s =
     check_texts
       [(''observation_id'', so_observation_id s), (''candidate_id'', so_candidate_id s),
        (''source_type'', so_source_type s), (''evidence_domain'', so_evidence_domain s),
        (''source_quality'', so_source_quality s)] @
     [raise_if (so_directness s = ''proxy_signal'' \<and> so_proxy_type s = None)
        (ValueError ''proxy observations require proxy_type''),
      raise_if (so_directness s \<noteq> ''proxy_signal'' \<and> so_proxy_type s \<noteq> None)
        (ValueError ''proxy_type is only valid for proxy observations''),
      raise_if (\<not> in_unit (so_confidence s)) (ValueError ''confidence must be between 0 and 1''),
      raise_if (so_lineage_depth s < 0) (ValueError ''lineage_depth must be non-negative''),
      check_aware ''effective_at'' (so_effective_at s),
      check_aware ''recorded_at'' (so_recorded_at s)]"

definition mk_source_observation :: "source_observation \<Rightarrow> source_observation result" where
  "mk_source_observation s = checked (observation_checks s) s"

definition observation_active :: "source_observation \<Rightarrow> bool" where
  "observation_active s = (so_lifecycle_state s \<in> set ACTIVE_LIFECYCLE_STATES)"

record evaluation_context =
  ec_candidate_id :: string
  ec_candidate_trust :: "candidate_trust option"
  ec_observations :: "source_observation list"
  ec_provider_states :: "provider_state list"
  ec_evaluated_at :: pydatetime
  ec_cutoff_at :: "pydatetime option"
  ec_replay_mode :: string
  ec_processing_run_id :: string

definition evaluation_context_checks :: "evaluation_context \<Rightarrow> check list" where
  "evaluation_context_checks c =
     [check_text ''candidate_id'' (ec_candidate_id c), check_text ''processing_run_id'' (ec_processing_run_id c),
      check_aware ''evaluated_at'' (ec_evaluated_at c), check_aware_opt ''cutoff_at'' (ec_cutoff_at c)]"

definition mk_evaluation_context :: "evaluation_context \<Rightarrow> evaluation_context result" where
  "mk_evaluation_context c = checked (evaluation_context_checks c) c"

record evaluation_result =
  er_availability :: data_availability
  er_evidence_links :: "lineage_link list"
  er_span_links :: "lineage_link list"
  er_claim_links :: "lineage_link list"
  er_conflict_links :: "lineage_link list"

section \<open>Selecting requirements\<close>

record requirement_selection =
  rs_requirements :: "data_requirement list"
  rs_candidate_ids :: "string list"
  rs_checkpoint_cursor :: "string option"

text \<open>A filter argument that is None selects everything.\<close>

definition matches :: "string option \<Rightarrow> string \<Rightarrow> bool" where
  "matches wanted actual = (wanted = None \<or> wanted = Some actual)"

definition selector_select ::
  "data_requirement list \<Rightarrow> string option \<Rightarrow> string option \<Rightarrow> string option \<Rightarrow> string list \<Rightarrow> string option \<Rightarrow>
   requirement_selection result" where
  "selector_select registry_requirements engine_id analysis_purpose output_field candidate_ids cursor =
     (if candidate_ids = [] then Inl (ValueError ''candidate_ids are required for availability evaluation'')
      else Inr \<lparr>rs_requirements = filter (\<lambda>r. matches engine_id (dr_engine_id r) \<and>
                    matches analysis_purpose (dr_analysis_purpose r) \<and>
                    matches output_field (dr_output_field r)) registry_requirements,
                rs_candidate_ids = uniq candidate_ids,
                rs_checkpoint_cursor = cursor\<rparr>)"

section \<open>Visibility, freshness and quality\<close>

definition visible_at :: "evaluation_context \<Rightarrow> pydatetime \<Rightarrow> pydatetime \<Rightarrow> bool" where
  "visible_at c effective_at recorded_at =
     (case ec_cutoff_at c of
        None \<Rightarrow> True
      | Some cutoff \<Rightarrow>
          if ec_replay_mode c = ''current'' then True
          else if dt_after effective_at cutoff then False
          else if ec_replay_mode c = ''historical_strict_known_by_hunter'' \<and> dt_after recorded_at cutoff
          then False else True)"

definition eligible_trust :: "evaluation_context \<Rightarrow> candidate_trust option" where
  "eligible_trust c =
     (case ec_candidate_trust c of
        None \<Rightarrow> None
      | Some trust \<Rightarrow>
          if ct_candidate_id trust \<noteq> ec_candidate_id c \<or> \<not> trust_eligible trust then None
          else if \<not> visible_at c (ct_effective_at trust) (ct_recorded_at trust) then None
          else Some trust)"

definition as_of :: "evaluation_context \<Rightarrow> pydatetime" where
  "as_of c = (case ec_cutoff_at c of None \<Rightarrow> ec_evaluated_at c | Some cutoff \<Rightarrow> cutoff)"

definition freshness_seconds :: "evaluation_context \<Rightarrow> source_observation \<Rightarrow> int" where
  "freshness_seconds c s = max (seconds_between (as_of c) (so_effective_at s)) 0"

definition source_quality_satisfies :: "string \<Rightarrow> string \<Rightarrow> bool" where
  "source_quality_satisfies actual minimum =
     (rank_get SOURCE_QUALITY_RANK minimum 2 \<le> rank_get SOURCE_QUALITY_RANK actual 0)"

fun list_min :: "int list \<Rightarrow> int" where
  "list_min [] = 0"
| "list_min (x # xs) = foldl min x xs"

definition aggregate_source_quality :: "source_observation list \<Rightarrow> string" where
  "aggregate_source_quality obs =
     (if obs = [] then ''unavailable''
      else if list_ex (\<lambda>s. so_conflict_state s \<noteq> ''none'') obs then ''conflicted''
      else let minimum = list_min (map (\<lambda>s. rank_get SOURCE_QUALITY_RANK (so_source_quality s) 0) obs)
        in if 3 \<le> minimum then ''high'' else if minimum = 2 then ''medium'' else ''low'')"

definition dominant_directness :: "source_observation list \<Rightarrow> string" where
  "dominant_directness obs =
     (if list_ex (\<lambda>s. so_directness s = ''direct_observation'') obs then ''direct_observation''
      else if list_ex (\<lambda>s. so_directness s = ''derived_from_direct'') obs then ''derived_from_direct''
      else ''proxy_signal'')"

definition dominant_proxy_type :: "source_observation list \<Rightarrow> string option" where
  "dominant_proxy_type obs =
     (case find (\<lambda>s. so_directness s = ''proxy_signal'') obs of None \<Rightarrow> None | Some s \<Rightarrow> so_proxy_type s)"

definition evaluator_missing_reason :: "data_requirement \<Rightarrow> evaluation_context \<Rightarrow> string" where
  "evaluator_missing_reason r c =
     (let unavailable = filter (\<lambda>p. ps_source_type p \<in> set (dr_required_source_types r) \<and>
              provider_unavailable p \<and> visible_at c (ps_checked_at p) (ps_recorded_at p)) (ec_provider_states c)
      in if unavailable \<noteq> []
         then ''provider_unavailable:'' @ join '','' (sorted_text (map ps_source_type unavailable))
         else ''missing_required_source_types:'' @ join '','' (sorted_text (dr_required_source_types r)))"

section \<open>Lineage links\<close>

text \<open>The observations that carry a link target, with their positions among all observations.\<close>

definition linked :: "('a \<Rightarrow> string option) \<Rightarrow> 'a list \<Rightarrow> (nat \<times> 'a \<times> string) list" where
  "linked target obs =
     concat (map (\<lambda>(n, s). case target s of None \<Rightarrow> [] | Some t \<Rightarrow> [(n, s, t)]) (enumerate 0 obs))"

text \<open>
  The eight link builders of the evaluator and of the cross-source validator, with what they differ in as
  parameters: the link class, the identifier kind, two payload keys, the role, the target
  attribute and the owner type.
\<close>

definition lineage_links ::
  "(lineage_link \<Rightarrow> lineage_link result) \<Rightarrow> string \<Rightarrow> string \<Rightarrow> string \<Rightarrow> string \<Rightarrow>
   (source_observation \<Rightarrow> string option) \<Rightarrow> string \<Rightarrow> string \<Rightarrow> source_observation list \<Rightarrow> string \<Rightarrow>
   lineage_link list result" where
  "lineage_links mk kind owner_key id_key role target owner_type owner_id obs schema_version =
     mapM (\<lambda>(n, s, t).
       rbind (sufficiency_id kind (payload_dict
                [(owner_key, PStr owner_id), (id_key, PStr t), (''position'', PInt (int n))]))
         (\<lambda>link_id. mk
           \<lparr>ll_link_id = link_id, ll_owner_type = owner_type, ll_owner_id = owner_id,
            ll_target_id = t, ll_role = role, ll_position = int n,
            ll_created_at = so_recorded_at s, ll_schema_version = schema_version\<rparr>))
       (linked target obs)"

definition evaluator_evidence_links :: "string \<Rightarrow> source_observation list \<Rightarrow> string \<Rightarrow> lineage_link list result" where
  "evaluator_evidence_links = lineage_links mk_evidence_link ''availability-evidence-link''
     ''availability_id'' ''evidence_id'' ''supporting_evidence'' so_evidence_id ''availability''"

definition evaluator_span_links :: "string \<Rightarrow> source_observation list \<Rightarrow> string \<Rightarrow> lineage_link list result" where
  "evaluator_span_links = lineage_links mk_span_link ''availability-span-link''
     ''availability_id'' ''span_id'' ''supporting_span'' so_span_id ''availability''"

definition evaluator_claim_links :: "string \<Rightarrow> source_observation list \<Rightarrow> string \<Rightarrow> lineage_link list result" where
  "evaluator_claim_links = lineage_links mk_claim_link ''availability-claim-link''
     ''availability_id'' ''claim_id'' ''supporting_claim'' so_claim_id ''availability''"

definition evaluator_conflict_links :: "string \<Rightarrow> source_observation list \<Rightarrow> string \<Rightarrow> lineage_link list result" where
  "evaluator_conflict_links = lineage_links mk_conflict_link ''availability-conflict-link''
     ''availability_id'' ''conflict_id'' ''related_conflict'' so_conflict_id ''availability''"

section \<open>Evaluation\<close>

definition dt_payload :: "pydatetime option \<Rightarrow> pyvalue" where
  "dt_payload t = (case t of None \<Rightarrow> PNone | Some d \<Rightarrow> PDatetime d)"

fun list_max :: "int list \<Rightarrow> int option" where
  "list_max [] = None"
| "list_max (x # xs) = Some (foldl max x xs)"

definition evaluation_outcome ::
  "data_requirement \<Rightarrow> evaluation_context \<Rightarrow> string \<Rightarrow> string \<Rightarrow> string option \<Rightarrow> string \<Rightarrow>
   source_observation list \<Rightarrow> evaluation_result result" where
  "evaluation_outcome r c state directness proxy_type missing_reason obs =
     rbind (sufficiency_id ''availability'' (payload_dict
        [(''requirement_id'', PStr (dr_requirement_id r)),
         (''candidate_id'', PStr (ec_candidate_id c)),
         (''processing_run_id'', PStr (ec_processing_run_id c)),
         (''replay_mode'', PStr (ec_replay_mode c)),
         (''cutoff_at'', dt_payload (ec_cutoff_at c))])) (\<lambda>availability_id.
     rbind (mk_data_availability
        \<lparr>da_availability_id = availability_id,
         da_requirement_id = dr_requirement_id r,
         da_candidate_id = ec_candidate_id c,
         da_engine_id = dr_engine_id r,
         da_analysis_purpose = dr_analysis_purpose r,
         da_availability_state = state,
         da_directness = directness,
         da_proxy_type = proxy_type,
         da_freshness_seconds = list_max (map (freshness_seconds c) obs),
         da_source_quality = aggregate_source_quality obs,
         da_lineage_complete = list_all (\<lambda>s. dr_minimum_lineage_depth r \<le> so_lineage_depth s) obs,
         da_conflict_state =
           (if list_ex (\<lambda>s. so_conflict_state s \<noteq> ''none'') obs then ''conflicted'' else ''none''),
         da_evidence_count = int (length obs),
         da_missing_reason = missing_reason,
         da_effective_at = as_of c,
         da_recorded_at = ec_evaluated_at c,
         da_cutoff_at = ec_cutoff_at c,
         da_replay_mode = ec_replay_mode c,
         da_processing_run_id = ec_processing_run_id c,
         da_schema_version = dr_schema_version r,
         da_metadata = []\<rparr>) (\<lambda>availability.
     rbind (evaluator_evidence_links (da_availability_id availability) obs (dr_schema_version r)) (\<lambda>evidence.
     rbind (evaluator_span_links (da_availability_id availability) obs (dr_schema_version r)) (\<lambda>spans.
     rbind (evaluator_claim_links (da_availability_id availability) obs (dr_schema_version r)) (\<lambda>claims.
     rbind (evaluator_conflict_links (da_availability_id availability) obs (dr_schema_version r)) (\<lambda>conflicts.
     Inr \<lparr>er_availability = availability, er_evidence_links = evidence, er_span_links = spans,
          er_claim_links = claims, er_conflict_links = conflicts\<rparr>))))))"

definition eligible_observations :: "data_requirement \<Rightarrow> evaluation_context \<Rightarrow> source_observation list" where
  "eligible_observations r c = filter (\<lambda>s.
     (so_candidate_id s = ec_candidate_id c \<and>
      so_source_type s \<in> set (dr_required_source_types r) \<and>
      so_evidence_domain s = dr_evidence_domain r \<and>
      observation_active s) \<and>
     visible_at c (so_effective_at s) (so_recorded_at s)) (ec_observations c)"

definition direct_observations :: "source_observation list \<Rightarrow> source_observation list" where
  "direct_observations obs = filter (\<lambda>s. so_directness s \<in> {''direct_observation'', ''derived_from_direct''}) obs"

definition proxy_observations :: "data_requirement \<Rightarrow> source_observation list \<Rightarrow> source_observation list" where
  "proxy_observations r obs = filter (\<lambda>s. so_directness s = ''proxy_signal'' \<and>
     so_proxy_type s \<in> Some ` set (dr_accepted_proxy_types r) \<and> dr_proxy_allowed r) obs"

text \<open>The reasons for which satisfying observations are only partial, in the order they are reported.\<close>

definition missing_sources :: "data_requirement \<Rightarrow> source_observation list \<Rightarrow> string list" where
  "missing_sources r obs =
     remdups (filter (\<lambda>t. t \<notin> set (map so_source_type obs)) (dr_required_source_types r))"

definition stale_observations ::
  "data_requirement \<Rightarrow> evaluation_context \<Rightarrow> source_observation list \<Rightarrow> source_observation list" where
  "stale_observations r c obs = filter (\<lambda>s. dr_minimum_freshness_seconds r < freshness_seconds c s) obs"

definition partial_reasons :: "data_requirement \<Rightarrow> evaluation_context \<Rightarrow> source_observation list \<Rightarrow> string list" where
  "partial_reasons r c obs =
     (if missing_sources r obs \<noteq> []
      then [''missing_required_source_types:'' @ join '','' (sorted_text (missing_sources r obs))] else []) @
     (if stale_observations r c obs \<noteq> [] then [''some_required_data_stale''] else []) @
     (if list_ex (\<lambda>s. so_lineage_depth s < dr_minimum_lineage_depth r) obs then [''lineage_incomplete''] else []) @
     (if list_ex (\<lambda>s. so_conflict_state s \<noteq> ''none'') obs then [''source_conflict_present''] else []) @
     (if list_ex (\<lambda>s. \<not> source_quality_satisfies (so_source_quality s) (dr_minimum_source_authority r)) obs
      then [''source_authority_below_requirement''] else []) @
     (if list_ex (\<lambda>s. pyfloat_less (so_confidence s) (dr_minimum_confidence r)) obs
      then [''confidence_below_requirement''] else [])"

text \<open>\<open>allow_proxy\<close> is \<open>AvailabilityEvaluationPolicy.allow_proxy_for_direct_requirement\<close>, false by default.\<close>

definition evaluate :: "bool \<Rightarrow> data_requirement \<Rightarrow> evaluation_context \<Rightarrow> evaluation_result result" where
  "evaluate allow_proxy r c =
     (if eligible_trust c = None
      then evaluation_outcome r c ''unavailable'' ''unavailable'' None ''candidate_identity_not_trusted'' []
      else
        let eligible = eligible_observations r c;
            direct = direct_observations eligible;
            proxies = proxy_observations r eligible
        in
        if dr_direct_observation_required r \<and> direct = []
        then (if proxies \<noteq> [] \<and> allow_proxy
              then evaluation_outcome r c ''partial'' ''proxy_signal'' (so_proxy_type (hd proxies))
                     ''proxy_signal_cannot_fully_satisfy_direct_observation'' proxies
              else evaluation_outcome r c ''unavailable'' ''unavailable'' None
                     (evaluator_missing_reason r c) proxies)
        else
          let satisfying = (if direct \<noteq> [] then direct else proxies) in
          if satisfying = []
          then evaluation_outcome r c ''unavailable'' ''unavailable'' None (evaluator_missing_reason r c) eligible
          else if length (stale_observations r c satisfying) = length satisfying
          then evaluation_outcome r c ''stale'' (dominant_directness satisfying)
                 (dominant_proxy_type satisfying) ''required_data_stale'' satisfying
          else if partial_reasons r c satisfying \<noteq> []
          then evaluation_outcome r c ''partial'' (dominant_directness satisfying)
                 (dominant_proxy_type satisfying) (join '';'' (partial_reasons r c satisfying)) satisfying
          else evaluation_outcome r c ''available'' (dominant_directness satisfying)
                 (dominant_proxy_type satisfying) '''' satisfying)"

definition evaluate_many ::
  "bool \<Rightarrow> data_requirement list \<Rightarrow> evaluation_context list \<Rightarrow> evaluation_result list result" where
  "evaluate_many allow_proxy rs cs =
     mapM (\<lambda>cr. evaluate allow_proxy (snd cr) (fst cr)) (concat (map (\<lambda>c. map (Pair c) rs) cs))"

section \<open>The replay contract\<close>

interpretation evaluator_replay: replay_filter visible_at ec_cutoff_at
  "\<lambda>c. ec_replay_mode c = ''current''" "\<lambda>c. ec_replay_mode c = ''historical_strict_known_by_hunter''"
  by unfold_locales (auto simp: visible_at_def split: option.splits if_splits)

text \<open>A context as Hunter knew it at an instant: what was recorded later is dropped.\<close>

definition known_at :: "pydatetime \<Rightarrow> evaluation_context \<Rightarrow> evaluation_context" where
  "known_at t c = c\<lparr>
     ec_candidate_trust := (case ec_candidate_trust c of
        None \<Rightarrow> None | Some trust \<Rightarrow> if dt_after (ct_recorded_at trust) t then None else Some trust),
     ec_observations := filter (\<lambda>s. \<not> dt_after (so_recorded_at s) t) (ec_observations c),
     ec_provider_states := filter (\<lambda>p. \<not> dt_after (ps_recorded_at p) t) (ec_provider_states c)\<rparr>"

lemma known_at_simps [simp]:
  "ec_candidate_id (known_at t c) = ec_candidate_id c"
  "ec_evaluated_at (known_at t c) = ec_evaluated_at c"
  "ec_cutoff_at (known_at t c) = ec_cutoff_at c"
  "ec_replay_mode (known_at t c) = ec_replay_mode c"
  "ec_processing_run_id (known_at t c) = ec_processing_run_id c"
  by (simp_all add: known_at_def)

lemma visibility_known_at [simp]:
  "as_of (known_at t c) = as_of c"
  "visible_at (known_at t c) = visible_at c"
  "freshness_seconds (known_at t c) = freshness_seconds c"
  by (simp_all add: as_of_def visible_at_def fun_eq_iff freshness_seconds_def split: option.split)

lemma evaluation_outcome_known_at [simp]:
  "evaluation_outcome r (known_at t c) = evaluation_outcome r c"
  by (simp add: fun_eq_iff evaluation_outcome_def)

lemma reasons_known_at [simp]:
  "stale_observations r (known_at t c) = stale_observations r c"
  "partial_reasons r (known_at t c) = partial_reasons r c"
  by (simp_all add: fun_eq_iff stale_observations_def partial_reasons_def)

lemma known_at_strict:
  assumes "ec_cutoff_at c = Some t" "ec_replay_mode c = ''historical_strict_known_by_hunter''"
  shows "eligible_trust (known_at t c) = eligible_trust c"
    "eligible_observations r (known_at t c) = eligible_observations r c"
    "evaluator_missing_reason r (known_at t c) = evaluator_missing_reason r c"
proof -
  have live: "ec_replay_mode c \<noteq> ''current''" by (simp add: assms(2))
  note frozen = evaluator_replay.replay_ignores_unknown [OF assms(1) live assms(2)]
  show "eligible_trust (known_at t c) = eligible_trust c"
    using evaluator_replay.recorded_by_cutoff [OF assms(1) live assms(2)]
    by (auto simp: eligible_trust_def known_at_def visible_at_def split: option.splits)
  show "eligible_observations r (known_at t c) = eligible_observations r c"
    using frozen [where recorded = so_recorded_at and effective = so_effective_at and xs = "ec_observations c"
        and P = "\<lambda>s. so_candidate_id s = ec_candidate_id c \<and>
          so_source_type s \<in> set (dr_required_source_types r) \<and>
          so_evidence_domain s = dr_evidence_domain r \<and> observation_active s"]
    by (simp add: eligible_observations_def) (simp add: known_at_def conj_assoc)
  have "filter (\<lambda>p. ps_source_type p \<in> set (dr_required_source_types r) \<and>
              provider_unavailable p \<and> visible_at c (ps_checked_at p) (ps_recorded_at p))
          (ec_provider_states (known_at t c))
      = filter (\<lambda>p. ps_source_type p \<in> set (dr_required_source_types r) \<and>
              provider_unavailable p \<and> visible_at c (ps_checked_at p) (ps_recorded_at p))
          (ec_provider_states c)"
    using frozen [where recorded = ps_recorded_at and effective = ps_checked_at and xs = "ec_provider_states c"
        and P = "\<lambda>p. ps_source_type p \<in> set (dr_required_source_types r) \<and> provider_unavailable p"]
    by (simp add: known_at_def conj_assoc)
  then show "evaluator_missing_reason r (known_at t c) = evaluator_missing_reason r c"
    by (simp add: evaluator_missing_reason_def)
qed
section \<open>The branches of an evaluation\<close>

text \<open>
  The reference reading of \<^const>\<open>evaluate\<close>: state, directness, proxy type, reason and the
  observations used, one rule per return statement. \<open>evaluation_branch_ex\<close> says that a
  branch always applies and \<open>evaluate_branch\<close> that the code takes it.
\<close>

definition satisfying :: "data_requirement \<Rightarrow> evaluation_context \<Rightarrow> source_observation list" where
  "satisfying r c = (let eligible = eligible_observations r c; direct = direct_observations eligible
     in if direct \<noteq> [] then direct else proxy_observations r eligible)"

inductive evaluation_branch ::
  "bool \<Rightarrow> data_requirement \<Rightarrow> evaluation_context \<Rightarrow> string \<Rightarrow> string \<Rightarrow> string option \<Rightarrow> string \<Rightarrow>
   source_observation list \<Rightarrow> bool" for ap r c where
  untrusted: "eligible_trust c = None \<Longrightarrow>
    evaluation_branch ap r c ''unavailable'' ''unavailable'' None ''candidate_identity_not_trusted'' []"
| proxy_for_direct:
    "eligible_trust c \<noteq> None \<Longrightarrow> dr_direct_observation_required r \<Longrightarrow>
     direct_observations (eligible_observations r c) = [] \<Longrightarrow>
     proxy_observations r (eligible_observations r c) = p # ps \<Longrightarrow> ap \<Longrightarrow>
     evaluation_branch ap r c ''partial'' ''proxy_signal'' (so_proxy_type p)
       ''proxy_signal_cannot_fully_satisfy_direct_observation'' (p # ps)"
| no_direct:
    "eligible_trust c \<noteq> None \<Longrightarrow> dr_direct_observation_required r \<Longrightarrow>
     direct_observations (eligible_observations r c) = [] \<Longrightarrow>
     \<not> ap \<or> proxy_observations r (eligible_observations r c) = [] \<Longrightarrow>
     evaluation_branch ap r c ''unavailable'' ''unavailable'' None (evaluator_missing_reason r c)
       (proxy_observations r (eligible_observations r c))"
| no_data:
    "eligible_trust c \<noteq> None \<Longrightarrow> \<not> dr_direct_observation_required r \<Longrightarrow> satisfying r c = [] \<Longrightarrow>
     evaluation_branch ap r c ''unavailable'' ''unavailable'' None (evaluator_missing_reason r c)
       (eligible_observations r c)"
| all_stale:
    "eligible_trust c \<noteq> None \<Longrightarrow>
     dr_direct_observation_required r \<longrightarrow> direct_observations (eligible_observations r c) \<noteq> [] \<Longrightarrow>
     satisfying r c = obs \<Longrightarrow> obs \<noteq> [] \<Longrightarrow>
     \<forall>s \<in> set obs. dr_minimum_freshness_seconds r < freshness_seconds c s \<Longrightarrow>
     evaluation_branch ap r c ''stale'' (dominant_directness obs) (dominant_proxy_type obs)
       ''required_data_stale'' obs"
| some_reason:
    "eligible_trust c \<noteq> None \<Longrightarrow>
     dr_direct_observation_required r \<longrightarrow> direct_observations (eligible_observations r c) \<noteq> [] \<Longrightarrow>
     satisfying r c = obs \<Longrightarrow> obs \<noteq> [] \<Longrightarrow>
     \<exists>s \<in> set obs. freshness_seconds c s \<le> dr_minimum_freshness_seconds r \<Longrightarrow>
     partial_reasons r c obs \<noteq> [] \<Longrightarrow>
     evaluation_branch ap r c ''partial'' (dominant_directness obs) (dominant_proxy_type obs)
       (join '';'' (partial_reasons r c obs)) obs"
| full:
    "eligible_trust c \<noteq> None \<Longrightarrow>
     dr_direct_observation_required r \<longrightarrow> direct_observations (eligible_observations r c) \<noteq> [] \<Longrightarrow>
     satisfying r c = obs \<Longrightarrow> obs \<noteq> [] \<Longrightarrow>
     partial_reasons r c obs = [] \<Longrightarrow>
     evaluation_branch ap r c ''available'' (dominant_directness obs) (dominant_proxy_type obs) '''' obs"

inductive_simps available_branch: "evaluation_branch ap r c ''available'' d p m obs"

lemma all_stale_length:
  "length (stale_observations r c obs) = length obs \<longleftrightarrow>
   (\<forall>s \<in> set obs. dr_minimum_freshness_seconds r < freshness_seconds c s)"
proof -
  have "length (filter P obs) = length obs \<longleftrightarrow> (\<forall>s \<in> set obs. P s)" for P
    by (metis (mono_tags, lifting) filter_True length_filter_less less_irrefl)
  then show ?thesis by (simp add: stale_observations_def)
qed

lemma evaluate_takes:
  "evaluation_branch ap r c state d p m obs \<Longrightarrow> evaluate ap r c = evaluation_outcome r c state d p m obs \<Longrightarrow>
   \<exists>state d p m obs. evaluation_branch ap r c state d p m obs \<and>
     evaluate ap r c = evaluation_outcome r c state d p m obs"
  by blast

lemma evaluate_branch:
  "\<exists>state d p m obs. evaluation_branch ap r c state d p m obs \<and>
     evaluate ap r c = evaluation_outcome r c state d p m obs"
proof -
  let ?e = "eligible_observations r c"
  consider (u) "eligible_trust c = None"
    | (d) "eligible_trust c \<noteq> None" "dr_direct_observation_required r" "direct_observations ?e = []"
    | (s) "eligible_trust c \<noteq> None" "dr_direct_observation_required r \<longrightarrow> direct_observations ?e \<noteq> []"
    by blast
  then show ?thesis
  proof cases
    case u
    then show ?thesis by (intro evaluate_takes [OF untrusted]) (simp_all add: evaluate_def)
  next
    case d
    then show ?thesis
    proof (cases "proxy_observations r ?e")
      case Nil
      with d show ?thesis by (intro evaluate_takes [OF no_direct [OF d]]) (auto simp: evaluate_def)
    next
      case (Cons p ps)
      show ?thesis
      proof (cases ap)
        case True
        with d Cons show ?thesis
          by (intro evaluate_takes [OF proxy_for_direct [OF d Cons True]]) (auto simp: evaluate_def)
      next
        case False
        with d show ?thesis by (intro evaluate_takes [OF no_direct [OF d]]) (auto simp: evaluate_def)
      qed
    qed
  next
    case s
    let ?s = "satisfying r c"
    have ev: "evaluate ap r c =
       (if ?s = []
        then evaluation_outcome r c ''unavailable'' ''unavailable'' None (evaluator_missing_reason r c) ?e
        else if length (stale_observations r c ?s) = length ?s
        then evaluation_outcome r c ''stale'' (dominant_directness ?s) (dominant_proxy_type ?s)
               ''required_data_stale'' ?s
        else if partial_reasons r c ?s \<noteq> []
        then evaluation_outcome r c ''partial'' (dominant_directness ?s) (dominant_proxy_type ?s)
               (join '';'' (partial_reasons r c ?s)) ?s
        else evaluation_outcome r c ''available'' (dominant_directness ?s) (dominant_proxy_type ?s) '''' ?s)"
      using s by (auto simp: evaluate_def satisfying_def Let_def)
    show ?thesis
    proof (cases "?s = []")
      case True
      then have nd: "\<not> dr_direct_observation_required r"
        using s by (auto simp: satisfying_def Let_def split: if_splits)
      show ?thesis
        by (rule evaluate_takes [OF no_data [OF s(1) nd True]]) (simp add: ev True)
    next
      case ne: False
      show ?thesis
      proof (cases "length (stale_observations r c ?s) = length ?s")
        case True
        then have "\<forall>x \<in> set ?s. dr_minimum_freshness_seconds r < freshness_seconds c x"
          by (simp only: all_stale_length)
        from evaluate_takes [OF all_stale [OF s refl ne this]] show ?thesis by (simp add: ev ne True)
      next
        case fresh: False
        then have "\<exists>x \<in> set ?s. freshness_seconds c x \<le> dr_minimum_freshness_seconds r"
          by (auto simp: all_stale_length not_less)
        note some = some_reason [OF s refl ne this]
        show ?thesis
        proof (cases "partial_reasons r c ?s = []")
          case True
          from evaluate_takes [OF full [OF s refl ne True]] show ?thesis by (simp add: ev ne fresh True)
        next
          case False
          from evaluate_takes [OF some [OF False]] show ?thesis by (simp add: ev ne fresh False)
        qed
      qed
    qed
  qed
qed

section \<open>What an evaluation returns\<close>

text \<open>
  What the callers of the evaluator provide: constructed observations and contexts, a replay mode of
  the vocabulary (the annotation is not checked by the context's constructor), and link targets that
  are absent rather than blank.
\<close>

definition targets_present :: "source_observation \<Rightarrow> bool" where
  "targets_present s = (\<forall>t. Some t \<in> {so_evidence_id s, so_span_id s, so_claim_id s, so_conflict_id s} \<longrightarrow> \<not> blank t)"

definition valid_observation :: "source_observation \<Rightarrow> bool" where
  "valid_observation s = (list_all (\<lambda>c. c = None) (observation_checks s))"

definition valid_context :: "evaluation_context \<Rightarrow> bool" where
  "valid_context c = (list_all (\<lambda>k. k = None) (evaluation_context_checks c) \<and>
     ec_replay_mode c \<in> set REPLAY_MODES \<and>
     (\<forall>s \<in> set (ec_observations c). valid_observation s \<and> targets_present s))"

lemma valid_observationD:
  "valid_observation s \<Longrightarrow> aware (so_effective_at s) \<and> aware (so_recorded_at s) \<and>
     in_unit (so_confidence s) \<and> 0 \<le> so_lineage_depth s \<and>
     (so_directness s = ''proxy_signal'' \<longleftrightarrow> so_proxy_type s \<noteq> None)"
  unfolding valid_observation_def observation_checks_def list_all_append check_texts_None by auto

lemma valid_contextD:
  assumes "valid_context c"
  shows "\<not> blank (ec_candidate_id c)" "\<not> blank (ec_processing_run_id c)" "aware (ec_evaluated_at c)"
    "ec_cutoff_at c = Some t \<Longrightarrow> aware t" "ec_replay_mode c \<in> set REPLAY_MODES"
    "aware (as_of c)"
    "s \<in> set (ec_observations c) \<Longrightarrow> valid_observation s \<and> targets_present s"
  using assms by (auto simp: valid_context_def evaluation_context_checks_def as_of_def split: option.splits)

text \<open>Each link of a result points at the observation at its position.\<close>

lemma linked_mem:
  "(n, s, t) \<in> set (linked target obs) \<longleftrightarrow> n < length obs \<and> s = obs ! n \<and> target s = Some t"
  by (fastforce simp: linked_def enumerate_nth split: option.splits)

lemma linked_distinct: "distinct (map fst (linked target obs))"
proof -
  have "distinct (map fst (concat (map (\<lambda>(n, s). case target s of None \<Rightarrow> [] | Some t \<Rightarrow> [(n, s, t)])
      (enumerate k obs))))" for k
    by (induction obs arbitrary: k) (auto simp: enumerate_nth split: option.splits)
  then show ?thesis by (simp add: linked_def)
qed

definition mirrors ::
  "(source_observation \<Rightarrow> string option) \<Rightarrow> string \<Rightarrow> string \<Rightarrow> source_observation list \<Rightarrow> lineage_link list \<Rightarrow> bool"
  where "mirrors target owner_type owner obs links =
    (map (\<lambda>l. (ll_position l, ll_target_id l)) links = map (\<lambda>(n, s, t). (int n, t)) (linked target obs) \<and>
     list_all (\<lambda>l. ll_owner_type l = owner_type \<and> ll_owner_id l = owner) links)"

lemma lineage_links_mirror:
  assumes "lineage_links mk kind owner_key id_key role target owner_type owner obs v = Inr links"
    and mk: "\<And>l l'. mk l = Inr l' \<Longrightarrow> l' = l"
  shows "mirrors target owner_type owner obs links"
proof -
  have "list_all2 (\<lambda>(n, s, t) l. ll_position l = int n \<and> ll_target_id l = t \<and>
      ll_owner_type l = owner_type \<and> ll_owner_id l = owner) (linked target obs) links"
    using assms(1) unfolding lineage_links_def mapM_Inr_iff
    by (rule list_all2_mono) (auto dest!: mk simp: rbind_Inr_iff)
  then show ?thesis
    unfolding mirrors_def by induction auto
qed

lemma mk_links [simp]:
  "mk_evidence_link l = Inr l' \<longleftrightarrow> l' = l \<and> list_all (\<lambda>c. c = None) (lineage_checks ''source_evidence_id'' l)"
  "mk_span_link l = Inr l' \<longleftrightarrow> l' = l \<and> list_all (\<lambda>c. c = None) (lineage_checks ''span_id'' l)"
  "mk_claim_link l = Inr l' \<longleftrightarrow> l' = l \<and> list_all (\<lambda>c. c = None) (lineage_checks ''claim_id'' l)"
  "mk_conflict_link l = Inr l' \<longleftrightarrow> l' = l \<and> list_all (\<lambda>c. c = None) (lineage_checks ''conflict_id'' l)"
  by (auto simp: mk_evidence_link_def mk_span_link_def mk_claim_link_def mk_conflict_link_def checked_Inr)

lemma lineage_links_total:
  assumes mk: "\<And>l. list_all (\<lambda>c. c = None) (lineage_checks fld l) \<Longrightarrow> mk l = Inr l"
    and "\<not> blank owner" "\<not> blank role" "\<not> blank v" "owner_type \<in> set LINEAGE_OWNER_TYPES"
    and obs: "\<And>s t. s \<in> set obs \<Longrightarrow> target s = Some t \<Longrightarrow> \<not> blank t \<and> aware (so_recorded_at s)"
  shows "\<exists>links. lineage_links mk kind owner_key id_key role target owner_type owner obs v = Inr links"
  unfolding lineage_links_def
proof (rule mapM_total)
  fix p assume p: "p \<in> set (linked target obs)"
  obtain n s t where nst: "p = (n, s, t)" by (cases p)
  then have s: "s \<in> set obs" "target s = Some t"
    using p by (auto simp: linked_mem)
  obtain i where i: "sufficiency_id kind (payload_dict
      [(owner_key, PStr owner), (id_key, PStr t), (''position'', PInt (int n))]) = Inr i" "\<not> blank i"
    using sufficiency_id_ex [of "payload_dict
      [(owner_key, PStr owner), (id_key, PStr t), (''position'', PInt (int n))]"] by auto
  have "mk \<lparr>ll_link_id = i, ll_owner_type = owner_type, ll_owner_id = owner, ll_target_id = t, ll_role = role,
      ll_position = int n, ll_created_at = so_recorded_at s, ll_schema_version = v\<rparr> =
    Inr \<lparr>ll_link_id = i, ll_owner_type = owner_type, ll_owner_id = owner, ll_target_id = t, ll_role = role,
      ll_position = int n, ll_created_at = so_recorded_at s, ll_schema_version = v\<rparr>"
    using assms(2-5) i(2) obs [OF s]
    by (intro mk) (simp add: lineage_checks_def)
  with i(1) show "\<exists>l. (\<lambda>(n, s, t). rbind (sufficiency_id kind (payload_dict
         [(owner_key, PStr owner), (id_key, PStr t), (''position'', PInt (int n))]))
       (\<lambda>link_id. mk \<lparr>ll_link_id = link_id, ll_owner_type = owner_type, ll_owner_id = owner,
          ll_target_id = t, ll_role = role, ll_position = int n, ll_created_at = so_recorded_at s,
          ll_schema_version = v\<rparr>)) p = Inr l"
    by (simp add: nst)
qed

text \<open>The record an outcome builds, before its constructor checks it.\<close>

definition outcome_record ::
  "data_requirement \<Rightarrow> evaluation_context \<Rightarrow> string \<Rightarrow> string \<Rightarrow> string option \<Rightarrow> string \<Rightarrow>
   source_observation list \<Rightarrow> string \<Rightarrow> data_availability" where
  "outcome_record r c state directness proxy_type missing_reason obs availability_id =
        \<lparr>da_availability_id = availability_id,
         da_requirement_id = dr_requirement_id r,
         da_candidate_id = ec_candidate_id c,
         da_engine_id = dr_engine_id r,
         da_analysis_purpose = dr_analysis_purpose r,
         da_availability_state = state,
         da_directness = directness,
         da_proxy_type = proxy_type,
         da_freshness_seconds = list_max (map (freshness_seconds c) obs),
         da_source_quality = aggregate_source_quality obs,
         da_lineage_complete = list_all (\<lambda>s. dr_minimum_lineage_depth r \<le> so_lineage_depth s) obs,
         da_conflict_state =
           (if list_ex (\<lambda>s. so_conflict_state s \<noteq> ''none'') obs then ''conflicted'' else ''none''),
         da_evidence_count = int (length obs),
         da_missing_reason = missing_reason,
         da_effective_at = as_of c,
         da_recorded_at = ec_evaluated_at c,
         da_cutoff_at = ec_cutoff_at c,
         da_replay_mode = ec_replay_mode c,
         da_processing_run_id = ec_processing_run_id c,
         da_schema_version = dr_schema_version r,
         da_metadata = []\<rparr>"

lemma evaluation_outcome_Inr:
  assumes "evaluation_outcome r c state d p m obs = Inr res"
  obtains i where "er_availability res = outcome_record r c state d p m obs i"
    and "valid_availability (er_availability res)"
    and "mirrors so_evidence_id ''availability'' i obs (er_evidence_links res)"
    and "mirrors so_span_id ''availability'' i obs (er_span_links res)"
    and "mirrors so_claim_id ''availability'' i obs (er_claim_links res)"
    and "mirrors so_conflict_id ''availability'' i obs (er_conflict_links res)"
proof -
  obtain i a el sl cl xl where a: "mk_data_availability (outcome_record r c state d p m obs i) = Inr a"
    and el: "evaluator_evidence_links (da_availability_id a) obs (dr_schema_version r) = Inr el"
    and sl: "evaluator_span_links (da_availability_id a) obs (dr_schema_version r) = Inr sl"
    and cl: "evaluator_claim_links (da_availability_id a) obs (dr_schema_version r) = Inr cl"
    and xl: "evaluator_conflict_links (da_availability_id a) obs (dr_schema_version r) = Inr xl"
    and res: "res = \<lparr>er_availability = a, er_evidence_links = el, er_span_links = sl,
      er_claim_links = cl, er_conflict_links = xl\<rparr>"
    using assms unfolding evaluation_outcome_def outcome_record_def by (elim rbind_InrE) simp
  have a': "a = outcome_record r c state d p m obs i" "valid_availability a"
    using a by (simp_all add: mk_data_availability_Inr)
  have i: "da_availability_id a = i" by (simp add: a' outcome_record_def)
  note links = el sl cl xl
  note links = links [unfolded i evaluator_evidence_links_def evaluator_span_links_def evaluator_claim_links_def
      evaluator_conflict_links_def]
  have mk: "mk_evidence_link l = Inr l' \<Longrightarrow> l' = l" "mk_span_link l = Inr l' \<Longrightarrow> l' = l"
    "mk_claim_link l = Inr l' \<Longrightarrow> l' = l" "mk_conflict_link l = Inr l' \<Longrightarrow> l' = l" for l l'
    by simp_all
  show ?thesis
    by (rule that [of i], unfold res evaluation_result.select_convs,
        rule a'(1), rule a'(2),
        rule lineage_links_mirror [OF links(1) mk(1)], assumption,
        rule lineage_links_mirror [OF links(2) mk(2)], assumption,
        rule lineage_links_mirror [OF links(3) mk(3)], assumption,
        rule lineage_links_mirror [OF links(4) mk(4)], assumption)
qed

lemma list_max_nonneg: "\<forall>x \<in> set xs. 0 \<le> x \<Longrightarrow> list_max xs = Some m \<Longrightarrow> 0 \<le> m"
proof -
  have "0 \<le> a \<Longrightarrow> 0 \<le> foldl max a ys" for a and ys :: "int list"
    by (induction ys arbitrary: a) auto
  then show "\<forall>x \<in> set xs. 0 \<le> x \<Longrightarrow> list_max xs = Some m \<Longrightarrow> 0 \<le> m" by (cases xs) auto
qed

lemma freshness_nonneg [simp]: "0 \<le> freshness_seconds c s"
  by (simp add: freshness_seconds_def)

lemma aggregate_quality_state: "aggregate_source_quality obs \<in> set SOURCE_QUALITY_STATES"
  by (simp add: aggregate_source_quality_def SOURCE_QUALITY_STATES_def Let_def)

text \<open>How a branch's state, directness, proxy type and reason fit together.\<close>

definition coherent :: "string \<Rightarrow> string \<Rightarrow> string option \<Rightarrow> string \<Rightarrow> bool" where
  "coherent state d p m =
     (state \<in> set AVAILABILITY_STATES \<and> d \<in> set DIRECTNESS_VALUES \<and>
      (d = ''unavailable'' \<longleftrightarrow> state = ''unavailable'') \<and> (d = ''proxy_signal'' \<longleftrightarrow> p \<noteq> None) \<and>
      (\<forall>t. p = Some t \<longrightarrow> t \<in> set PROXY_SIGNAL_TYPES \<and> t \<noteq> ''none'') \<and>
      (state = ''unavailable'' \<longrightarrow> \<not> blank m))"

lemma outcome_record_valid:
  assumes "valid_requirement r" "valid_context c" "coherent state d p m" "\<not> blank i"
  shows "valid_availability (outcome_record r c state d p m obs i)"
proof -
  have "list_all (\<lambda>c. c = None) (case list_max (map (freshness_seconds c) obs) of None \<Rightarrow> [] | Some s \<Rightarrow> [check_nonneg n s])" for n
    using list_max_nonneg [of "map (freshness_seconds c) obs"] by (auto split: option.split)
  then have fresh: "(case list_max (map (freshness_seconds c) obs) of None \<Rightarrow> None | Some s \<Rightarrow> check_nonneg n s) = None" for n
    by (auto split: option.splits)
  have conflict: "''conflicted'' \<in> set CONFLICT_STATES" "''none'' \<in> set CONFLICT_STATES"
    by (simp_all add: CONFLICT_STATES_def)
  show ?thesis
    using assms(3,4) valid_requirementD [OF assms(1)] valid_contextD [OF assms(2)] aggregate_quality_state [of obs]
    unfolding valid_availability_def data_availability_checks_def list_all_append check_texts_None
      outcome_record_def coherent_def
    by (simp add: fresh conflict split: option.split)
qed

lemma missing_reason_not_blank: "\<not> blank (evaluator_missing_reason r c)"
  by (auto simp: evaluator_missing_reason_def Let_def is_space_def)

lemma branch_observations:
  assumes "evaluation_branch ap r c st d p m obs"
  shows "set obs \<subseteq> set (eligible_observations r c)"
proof -
  have "set (satisfying r c) \<subseteq> set (eligible_observations r c)"
    "set (proxy_observations r (eligible_observations r c)) \<subseteq> set (eligible_observations r c)"
    by (auto simp: satisfying_def direct_observations_def proxy_observations_def Let_def)
  with assms show ?thesis by (cases rule: evaluation_branch.cases) auto
qed

lemma eligible_subset: "set (eligible_observations r c) \<subseteq> set (ec_observations c)"
  by (auto simp: eligible_observations_def)

lemma satisfying_cases:
  assumes "satisfying r c = obs" "obs \<noteq> []"
  obtains (direct) "obs = direct_observations (eligible_observations r c)"
      "dominant_directness obs \<in> {''direct_observation'', ''derived_from_direct''}" "dominant_proxy_type obs = None"
  | (proxy) q where "obs = proxy_observations r (eligible_observations r c)"
      "dominant_directness obs = ''proxy_signal''" "dominant_proxy_type obs = Some q"
      "q \<in> set (dr_accepted_proxy_types r)" "direct_observations (eligible_observations r c) = []"
proof (cases "direct_observations (eligible_observations r c) = []")
  case False
  then have o: "obs = direct_observations (eligible_observations r c)"
    using assms by (auto simp: satisfying_def Let_def)
  have *: "\<forall>s \<in> set obs. so_directness s \<in> {''direct_observation'', ''derived_from_direct''}"
    by (auto simp: o direct_observations_def)
  have "find (\<lambda>s. so_directness s = ''proxy_signal'') obs = None"
    using * by (auto simp: find_None_iff)
  then have "dominant_proxy_type obs = None"
    by (simp add: dominant_proxy_type_def)
  moreover have "dominant_directness obs \<in> {''direct_observation'', ''derived_from_direct''}"
    using assms(2) * by (cases obs) (auto simp: dominant_directness_def)
  ultimately show ?thesis using o by (intro direct)
next
  case True
  then have o: "obs = proxy_observations r (eligible_observations r c)"
    using assms by (auto simp: satisfying_def Let_def)
  then have *: "\<forall>s \<in> set obs. so_directness s = ''proxy_signal'' \<and> so_proxy_type s \<in> Some ` set (dr_accepted_proxy_types r)"
    by (auto simp: proxy_observations_def)
  obtain s ss where obs: "obs = s # ss" using assms(2) by (cases obs) auto
  then obtain q where q: "so_proxy_type s = Some q" "q \<in> set (dr_accepted_proxy_types r)" using * by auto
  have "dominant_directness obs = ''proxy_signal''"
    using * by (auto simp: dominant_directness_def list_ex_iff)
  moreover have "dominant_proxy_type obs = Some q"
    using * by (simp add: obs dominant_proxy_type_def q)
  ultimately show ?thesis using o q(2) True by (intro proxy)
qed

lemma coherent_branch:
  assumes "evaluation_branch ap r c st d p m obs" "valid_requirement r"
  shows "coherent st d p m"
  using assms(1)
proof (cases rule: evaluation_branch.cases)
  case (proxy_for_direct q qs)
  then have "q \<in> set (proxy_observations r (eligible_observations r c))" by simp
  then obtain t where "so_proxy_type q = Some t" "t \<in> set (dr_accepted_proxy_types r)"
    by (auto simp: proxy_observations_def)
  with proxy_for_direct valid_requirementD(11) [OF assms(2)] show ?thesis
    by (auto simp: coherent_def AVAILABILITY_STATES_def DIRECTNESS_VALUES_def)
next
  case all_stale
  from satisfying_cases [OF all_stale(7,8)] valid_requirementD(11) [OF assms(2)] all_stale(1-4) show ?thesis
    by cases (auto simp: coherent_def AVAILABILITY_STATES_def DIRECTNESS_VALUES_def)
next
  case some_reason
  from satisfying_cases [OF some_reason(7,8)] valid_requirementD(11) [OF assms(2)] some_reason(1-4) show ?thesis
    by cases (auto simp: coherent_def AVAILABILITY_STATES_def DIRECTNESS_VALUES_def)
next
  case full
  from satisfying_cases [OF full(7,8)] valid_requirementD(11) [OF assms(2)] full(1-4) show ?thesis
    by cases (auto simp: coherent_def AVAILABILITY_STATES_def DIRECTNESS_VALUES_def)
qed (simp_all add: coherent_def AVAILABILITY_STATES_def DIRECTNESS_VALUES_def missing_reason_not_blank is_space_def)

lemma evaluation_outcome_total:
  assumes "valid_requirement r" "valid_context c" "coherent st d p m" "set obs \<subseteq> set (ec_observations c)"
  shows "\<exists>res. evaluation_outcome r c st d p m obs = Inr res"
proof -
  have "canonical (dt_payload (ec_cutoff_at c))"
    using valid_contextD(4) [OF assms(2)] by (simp add: dt_payload_def split: option.split)
  then obtain i where i: "sufficiency_id ''availability'' (payload_dict
        [(''requirement_id'', PStr (dr_requirement_id r)), (''candidate_id'', PStr (ec_candidate_id c)),
         (''processing_run_id'', PStr (ec_processing_run_id c)), (''replay_mode'', PStr (ec_replay_mode c)),
         (''cutoff_at'', dt_payload (ec_cutoff_at c))]) = Inr i" "\<not> blank i"
    using sufficiency_id_ex [of "payload_dict
        [(''requirement_id'', PStr (dr_requirement_id r)), (''candidate_id'', PStr (ec_candidate_id c)),
         (''processing_run_id'', PStr (ec_processing_run_id c)), (''replay_mode'', PStr (ec_replay_mode c)),
         (''cutoff_at'', dt_payload (ec_cutoff_at c))]"] by auto
  have a: "mk_data_availability (outcome_record r c st d p m obs i) = Inr (outcome_record r c st d p m obs i)"
    using outcome_record_valid [OF assms(1-3) i(2)] by (simp add: mk_data_availability_Inr)
  have present: "s \<in> set obs \<Longrightarrow> target s = Some t \<Longrightarrow> \<not> blank t \<and> aware (so_recorded_at s)"
    if "target \<in> {so_evidence_id, so_span_id, so_claim_id, so_conflict_id}" for target s t
    using that assms(4) valid_contextD(7) [OF assms(2)] valid_observationD
    by (fastforce simp: targets_present_def)
  have v: "\<not> blank (dr_schema_version r)" by (rule valid_requirementD [OF assms(1)])
  have "\<exists>el. evaluator_evidence_links i obs (dr_schema_version r) = Inr el"
    unfolding evaluator_evidence_links_def
    by (rule lineage_links_total [where fld = "''source_evidence_id''"])
      (use i v present in \<open>auto simp: is_space_def LINEAGE_OWNER_TYPES_def\<close>)
  moreover have "\<exists>sl. evaluator_span_links i obs (dr_schema_version r) = Inr sl"
    unfolding evaluator_span_links_def
    by (rule lineage_links_total [where fld = "''span_id''"])
      (use i v present in \<open>auto simp: is_space_def LINEAGE_OWNER_TYPES_def\<close>)
  moreover have "\<exists>cl. evaluator_claim_links i obs (dr_schema_version r) = Inr cl"
    unfolding evaluator_claim_links_def
    by (rule lineage_links_total [where fld = "''claim_id''"])
      (use i v present in \<open>auto simp: is_space_def LINEAGE_OWNER_TYPES_def\<close>)
  moreover have "\<exists>xl. evaluator_conflict_links i obs (dr_schema_version r) = Inr xl"
    unfolding evaluator_conflict_links_def
    by (rule lineage_links_total [where fld = "''conflict_id''"])
      (use i v present in \<open>auto simp: is_space_def LINEAGE_OWNER_TYPES_def\<close>)
  moreover have "da_availability_id (outcome_record r c st d p m obs i) = i"
    by (simp add: outcome_record_def)
  ultimately show ?thesis
    using a unfolding evaluation_outcome_def i(1) rbind_simps outcome_record_def [symmetric] by auto
qed

text \<open>Everything the properties of the evaluator use: the branch taken, and what it returned.\<close>

lemma evaluate_Inr:
  assumes "evaluate ap r c = Inr res"
  obtains st d p m obs i where "evaluation_branch ap r c st d p m obs"
    and "er_availability res = outcome_record r c st d p m obs i"
    and "valid_availability (er_availability res)"
    and "mirrors so_evidence_id ''availability'' i obs (er_evidence_links res)"
    and "mirrors so_span_id ''availability'' i obs (er_span_links res)"
    and "mirrors so_claim_id ''availability'' i obs (er_claim_links res)"
    and "mirrors so_conflict_id ''availability'' i obs (er_conflict_links res)"
proof -
  obtain st d p m obs where br: "evaluation_branch ap r c st d p m obs"
    and ev: "evaluation_outcome r c st d p m obs = Inr res"
    using evaluate_branch [of ap r c] assms by auto
  from ev show ?thesis by (rule evaluation_outcome_Inr) (rule that [OF br])
qed

lemma evaluate_Inr_exists:
  assumes "valid_requirement r" "valid_context c"
  shows "\<exists>res. evaluate ap r c = Inr res"
proof -
  obtain st d p m obs where br: "evaluation_branch ap r c st d p m obs"
    and ev: "evaluate ap r c = evaluation_outcome r c st d p m obs"
    using evaluate_branch [of ap r c] by auto
  have "set obs \<subseteq> set (ec_observations c)"
    using branch_observations [OF br] eligible_subset by blast
  then show ?thesis
    unfolding ev by (rule evaluation_outcome_total [OF assms coherent_branch [OF br assms(1)]])
qed

text \<open>An evaluation only fails in a constructor.\<close>

lemma lineage_links_value_failures:
  assumes "\<And>l. value_failures (mk l)"
  shows "value_failures (lineage_links mk kind owner_key id_key role target owner_type owner obs v)"
  unfolding lineage_links_def
  by (rule value_failures_mapM) (auto intro!: value_failures_bind value_failures_id assms)

lemma evaluate_value_failures:
  assumes "list_all (\<lambda>k. k = None) (evaluation_context_checks c)"
  shows "value_failures (evaluate ap r c)"
proof -
  have "canonical (dt_payload (ec_cutoff_at c))"
    using assms by (simp add: evaluation_context_checks_def dt_payload_def split: option.splits)
  then have "value_failures (evaluation_outcome r c st d p m obs)" for st d p m obs
    unfolding evaluation_outcome_def evaluator_evidence_links_def evaluator_span_links_def evaluator_claim_links_def
      evaluator_conflict_links_def
    by (auto intro!: value_failures_bind value_failures_id lineage_links_value_failures value_failures_constructors)
  then show ?thesis by (simp add: evaluate_def Let_def)
qed

lemma partial_reasons_Nil:
  "partial_reasons r c obs = [] \<longleftrightarrow>
   set (dr_required_source_types r) \<subseteq> set (map so_source_type obs) \<and>
   (\<forall>s \<in> set obs. freshness_seconds c s \<le> dr_minimum_freshness_seconds r \<and>
      dr_minimum_lineage_depth r \<le> so_lineage_depth s \<and> so_conflict_state s = ''none'' \<and>
      source_quality_satisfies (so_source_quality s) (dr_minimum_source_authority r) \<and>
      \<not> pyfloat_less (so_confidence s) (dr_minimum_confidence r))"
  by (auto simp: partial_reasons_def missing_sources_def stale_observations_def list_ex_iff
      filter_empty_conv not_less not_le)

lemma outcome_record_simps [simp]:
  "da_requirement_id (outcome_record r c st d p m obs i) = dr_requirement_id r"
  "da_availability_state (outcome_record r c st d p m obs i) = st"
  "da_directness (outcome_record r c st d p m obs i) = d"
  "da_proxy_type (outcome_record r c st d p m obs i) = p"
  "da_missing_reason (outcome_record r c st d p m obs i) = m"
  "da_evidence_count (outcome_record r c st d p m obs i) = int (length obs)"
  "da_availability_id (outcome_record r c st d p m obs i) = i"
  "da_lineage_complete (outcome_record r c st d p m obs i) =
     list_all (\<lambda>s. dr_minimum_lineage_depth r \<le> so_lineage_depth s) obs"
  by (simp_all add: outcome_record_def)

lemma available_satisfying:
  "evaluation_branch ap r c ''available'' d p m obs \<Longrightarrow> obs = satisfying r c"
  by (simp add: available_branch)

section \<open>Properties\<close>

text \<open>Two source types, one observation of each, judged at noon of the same day.\<close>

definition noon :: pydatetime where
  "noon = utc 63881352000000000"

definition sample_requirement :: data_requirement where
  "sample_requirement =
     \<lparr>dr_requirement_id = ''req-1'', dr_engine_id = ''competitive'', dr_analysis_purpose = ''report'',
      dr_output_field = ''competitors'', dr_requirement_kind = ''direct_observation'',
      dr_evidence_domain = ''competitive'', dr_required_entity_type = ''candidate'',
      dr_required_source_types = [''relationship'', ''claim''], dr_direct_observation_required = True,
      dr_proxy_allowed = True, dr_accepted_proxy_types = [''competitive_proxy''],
      dr_minimum_freshness_seconds = 86400,
      dr_minimum_source_authority = ''verified_or_persisted_hunter_evidence'',
      dr_minimum_lineage_depth = 1, dr_minimum_confidence = PFin (1/2), dr_historical_required = True,
      dr_blocking_level = ''required_for_output'', dr_policy_id = ''policy'', dr_policy_version = ''v1'',
      dr_effective_at = noon, dr_recorded_at = noon, dr_schema_version = ''v1'', dr_metadata = []\<rparr>"

definition sample_observation :: "string \<Rightarrow> string \<Rightarrow> string \<Rightarrow> source_observation" where
  "sample_observation i source directness =
     \<lparr>so_observation_id = i, so_candidate_id = ''cand'', so_source_type = source,
      so_evidence_domain = ''competitive'', so_directness = directness,
      so_effective_at = noon, so_recorded_at = noon, so_confidence = PFin (3/4), so_source_quality = ''high'',
      so_lineage_depth = 2, so_lifecycle_state = ''active'',
      so_proxy_type = (if directness = ''proxy_signal'' then Some ''competitive_proxy'' else None),
      so_conflict_state = ''none'', so_evidence_id = Some (''ev-'' @ i), so_span_id = None, so_claim_id = None,
      so_conflict_id = None, so_metadata = []\<rparr>"

definition sample_context :: "string \<Rightarrow> evaluation_context" where
  "sample_context directness =
     \<lparr>ec_candidate_id = ''cand'',
      ec_candidate_trust = Some \<lparr>ct_candidate_id = ''cand'', ct_identity_state = ''exact'', ct_trusted = True,
        ct_effective_at = noon, ct_recorded_at = noon, ct_reason = ''''\<rparr>,
      ec_observations = [sample_observation ''1'' ''relationship'' directness,
                         sample_observation ''2'' ''claim'' directness],
      ec_provider_states = [], ec_evaluated_at = noon, ec_cutoff_at = Some noon,
      ec_replay_mode = ''historical_strict_known_by_hunter'', ec_processing_run_id = ''run-1''\<rparr>"

lemma sample_requirement_valid: "valid_requirement sample_requirement"
  by (simp add: valid_requirement_def data_requirement_checks_def sample_requirement_def check_texts_def
      check_text_tuple_def check_proxy_tuple_def vocabulary_defs is_space_def noon_def)

lemma sample_observation_valid:
  "i \<in> {''1'', ''2''} \<Longrightarrow> source \<in> {''relationship'', ''claim''} \<Longrightarrow>
   valid_observation (sample_observation i source d) \<and> targets_present (sample_observation i source d)"
  by (auto simp: valid_observation_def observation_checks_def sample_observation_def check_texts_def is_space_def
      noon_def targets_present_def)

lemma sample_context_valid: "valid_context (sample_context d)"
  using sample_observation_valid
  by (simp add: valid_context_def evaluation_context_checks_def sample_context_def is_space_def noon_def
      REPLAY_MODES_def)

text \<open>C34. An evaluation of a constructed requirement, a constructed context and constructed observations returns a record that
  passes the constructor of \<open>DataAvailability\<close>, with all its links, when the context names a known replay mode (which its
  constructor does not check) and no observation has a link target that is blank (which its constructor does not check either).
  Otherwise it may raise, with an unknown replay mode it does, and what it raises is \<open>ValueError\<close>.\<close>

theorem evaluate_total:
  assumes "valid_requirement r" and "list_all (\<lambda>k. k = None) (evaluation_context_checks c)"
    and "\<forall>s \<in> set (ec_observations c). valid_observation s"
  shows "case evaluate allow_proxy r c of
      Inr res \<Rightarrow> ec_replay_mode c \<in> set REPLAY_MODES \<and> valid_availability (er_availability res)
    | Inl x \<Rightarrow> (\<exists>why. x = ValueError why) \<and>
        (ec_replay_mode c \<notin> set REPLAY_MODES \<or> (\<exists>s \<in> set (ec_observations c). \<not> targets_present s))"
proof (cases "evaluate allow_proxy r c")
  case (Inl x)
  have "\<not> valid_context c" using evaluate_Inr_exists [OF assms(1), of c allow_proxy] Inl by auto
  then show ?thesis
    using value_failuresD [OF evaluate_value_failures [OF assms(2)] Inl] assms(2,3) Inl by (auto simp: valid_context_def)
next
  case (Inr res)
  then have "ec_replay_mode c \<in> set REPLAY_MODES \<and> valid_availability (er_availability res)"
  proof (rule evaluate_Inr)
    fix st d p m obs i
    assume "er_availability res = outcome_record r c st d p m obs i" "valid_availability (er_availability res)"
    then show ?thesis by (simp add: valid_availability_def data_availability_checks_def outcome_record_def)
  qed
  then show ?thesis by (simp add: Inr)
qed

definition unreplayable_context :: evaluation_context where
  "unreplayable_context = (sample_context ''direct_observation'')\<lparr>ec_replay_mode := ''tomorrow''\<rparr>"

lemma evaluate_total_witness:
  "(\<exists>res. evaluate False sample_requirement (sample_context ''direct_observation'') = Inr res \<and>
     valid_availability (er_availability res)) \<and>
   (\<exists>why. evaluate False sample_requirement unreplayable_context = Inl (ValueError why))"
proof -
  note valid = sample_context_valid [of "''direct_observation''", unfolded valid_context_def]
  have "''tomorrow'' \<notin> set REPLAY_MODES" by (simp add: REPLAY_MODES_def)
  then show ?thesis
    using evaluate_total [OF sample_requirement_valid, of "sample_context ''direct_observation''" False]
      evaluate_total [OF sample_requirement_valid, of unreplayable_context False] valid
    by (auto simp: unreplayable_context_def evaluation_context_checks_def split: sum.splits)
qed

text \<open>C2. Strict replay has no look-ahead: under a cutoff, an evaluation in the mode
  \<open>historical_strict_known_by_hunter\<close> is the one made from the trust state, the observations and the
  provider states that were already recorded at the cutoff.\<close>

theorem evaluate_strict_replay:
  assumes "ec_cutoff_at c = Some t" and "ec_replay_mode c = ''historical_strict_known_by_hunter''"
  shows "evaluate allow_proxy r (known_at t c) = evaluate allow_proxy r c"
  unfolding evaluate_def by (simp only: known_at_strict [OF assms] evaluation_outcome_known_at reasons_known_at)

lemma evaluate_strict_replay_witness:
  "evaluate False sample_requirement (known_at noon
      (sample_context ''direct_observation''\<lparr>ec_observations :=
         [(sample_observation ''3'' ''claim'' ''direct_observation'')\<lparr>so_recorded_at := utc 63881352000000001\<rparr>]\<rparr>))
   = evaluate False sample_requirement (sample_context ''direct_observation''\<lparr>ec_observations :=
         [(sample_observation ''3'' ''claim'' ''direct_observation'')\<lparr>so_recorded_at := utc 63881352000000001\<rparr>]\<rparr>)"
  by (rule evaluate_strict_replay) (simp_all add: sample_context_def)

text \<open>C1. The state \<open>available\<close> means what the requirement asks for, exactly: the identity is trusted, there
  is something to use (directly observed data where the requirement demands it), every required
  source type is covered, and every observation used is fresh, deep enough in lineage, free of
  conflict, of sufficient authority and not below the minimum confidence.\<close>

theorem evaluate_available_iff:
  assumes "evaluate allow_proxy r c = Inr res"
  shows "da_availability_state (er_availability res) = ''available'' \<longleftrightarrow>
    eligible_trust c \<noteq> None \<and> satisfying r c \<noteq> [] \<and>
    (dr_direct_observation_required r \<longrightarrow> direct_observations (eligible_observations r c) \<noteq> []) \<and>
    set (dr_required_source_types r) \<subseteq> set (map so_source_type (satisfying r c)) \<and>
    (\<forall>s \<in> set (satisfying r c).
       freshness_seconds c s \<le> dr_minimum_freshness_seconds r \<and>
       dr_minimum_lineage_depth r \<le> so_lineage_depth s \<and> so_conflict_state s = ''none'' \<and>
       source_quality_satisfies (so_source_quality s) (dr_minimum_source_authority r) \<and>
       \<not> pyfloat_less (so_confidence s) (dr_minimum_confidence r))"
    (is "_ = ''available'' \<longleftrightarrow> ?spec")
proof -
  obtain st d p m obs i where br: "evaluation_branch allow_proxy r c st d p m obs"
    and a: "er_availability res = outcome_record r c st d p m obs i"
    using assms by (rule evaluate_Inr)
  from br have "st = ''available'' \<longleftrightarrow> ?spec"
  proof (cases rule: evaluation_branch.cases)
    case all_stale
    then show ?thesis by (cases obs) auto
  next
    case some_reason
    then show ?thesis using partial_reasons_Nil [of r c obs] by auto
  next
    case full
    then show ?thesis using partial_reasons_Nil [of r c obs] by auto
  qed (auto simp: satisfying_def Let_def)
  then show ?thesis by (simp add: a)
qed

lemma sample_eligible:
  "d \<in> {''direct_observation'', ''derived_from_direct''} \<Longrightarrow>
   eligible_observations sample_requirement (sample_context d) = ec_observations (sample_context d)"
  "d \<in> {''direct_observation'', ''derived_from_direct''} \<Longrightarrow>
   direct_observations (ec_observations (sample_context d)) = ec_observations (sample_context d)"
  "eligible_trust (sample_context d) \<noteq> None"
  by (auto simp: eligible_observations_def sample_requirement_def sample_context_def sample_observation_def
      observation_active_def ACTIVE_LIFECYCLE_STATES_def visible_at_def dt_after_def direct_observations_def
      eligible_trust_def trust_eligible_def TRUSTED_IDENTITY_STATES_def)

lemma evaluate_full:
  assumes "eligible_trust c \<noteq> None"
    and "dr_direct_observation_required r \<longrightarrow> direct_observations (eligible_observations r c) \<noteq> []"
    and "satisfying r c = obs" "obs \<noteq> []" "partial_reasons r c obs = []"
  shows "evaluate ap r c =
    evaluation_outcome r c ''available'' (dominant_directness obs) (dominant_proxy_type obs) '''' obs"
proof -
  have "length (stale_observations r c obs) \<noteq> length obs"
    unfolding all_stale_length using assms(4,5) partial_reasons_Nil [of r c obs] by (cases obs) auto
  with assms show ?thesis by (auto simp: evaluate_def satisfying_def Let_def)
qed

lemma sample_full:
  assumes "d \<in> {''direct_observation'', ''derived_from_direct''}"
  obtains res where "evaluate False sample_requirement (sample_context d) = Inr res"
    and "da_availability_state (er_availability res) = ''available''"
proof -
  let ?c = "sample_context d"
  have ne: "ec_observations ?c \<noteq> []" by (simp add: sample_context_def)
  have s: "satisfying sample_requirement ?c = ec_observations ?c"
    using assms ne by (simp add: satisfying_def Let_def sample_eligible)
  have p: "partial_reasons sample_requirement ?c (ec_observations ?c) = []"
    unfolding partial_reasons_Nil
    by (simp add: sample_context_def sample_requirement_def sample_observation_def freshness_seconds_def
        as_of_def seconds_between_def trunc_div_def source_quality_satisfies_def rank_get_def SOURCE_QUALITY_RANK_def
        pyfloat_less_def)
  have "direct_observations (eligible_observations sample_requirement ?c) \<noteq> []"
    using assms ne by (simp add: sample_eligible)
  then have ev: "evaluate False sample_requirement ?c =
    evaluation_outcome sample_requirement ?c ''available'' (dominant_directness (ec_observations ?c))
      (dominant_proxy_type (ec_observations ?c)) '''' (ec_observations ?c)"
    by (intro evaluate_full sample_eligible(3) impI s ne p)
  obtain res where res: "evaluate False sample_requirement ?c = Inr res"
    using evaluate_Inr_exists [OF sample_requirement_valid sample_context_valid] by blast
  moreover have "da_availability_state (er_availability res) = ''available''"
    using res unfolding ev by (rule evaluation_outcome_Inr) simp
  ultimately show ?thesis by (rule that)
qed

lemma evaluate_available_iff_witness:
  "\<exists>res. evaluate False sample_requirement (sample_context ''direct_observation'') = Inr res \<and>
     da_availability_state (er_availability res) = ''available'' \<and>
     set (dr_required_source_types sample_requirement)
       \<subseteq> set (map so_source_type (satisfying sample_requirement (sample_context ''direct_observation'')))"
proof (rule sample_full [of "''direct_observation''"])
  fix res
  assume res: "evaluate False sample_requirement (sample_context ''direct_observation'') = Inr res"
    and "da_availability_state (er_availability res) = ''available''"
  then show ?thesis using evaluate_available_iff [OF res] by blast
qed simp

text \<open>A proxy signal is never the direct observation a requirement asks for: when the requirement demands
  direct observation, an evaluation that reports \<open>proxy_signal\<close> was made under the policy that lets proxies
  through, is only \<open>partial\<close>, and rests on no direct observation.\<close>

theorem evaluate_proxy_partial:
  assumes "evaluate allow_proxy r c = Inr res" and "dr_direct_observation_required r"
    and "da_directness (er_availability res) = ''proxy_signal''"
  shows "allow_proxy \<and> da_availability_state (er_availability res) = ''partial'' \<and>
    direct_observations (eligible_observations r c) = []"
proof -
  obtain st d p m obs i where br: "evaluation_branch allow_proxy r c st d p m obs"
    and a: "er_availability res = outcome_record r c st d p m obs i"
    using assms(1) by (rule evaluate_Inr)
  have d: "d = ''proxy_signal''" using assms(3) by (simp add: a)
  have used: "dominant_directness os \<noteq> ''proxy_signal''"
    if "satisfying r c = os" "os \<noteq> []" "direct_observations (eligible_observations r c) \<noteq> []" for os
    using satisfying_cases [OF that(1,2)] that(3) by (cases rule: satisfying_cases [OF that(1,2)]) auto
  from br d assms(2) used show ?thesis
    by (cases rule: evaluation_branch.cases) (auto simp: a)
qed

lemma evaluate_proxy_partial_witness:
  "\<exists>res. evaluate True sample_requirement (sample_context ''proxy_signal'') = Inr res \<and>
     da_availability_state (er_availability res) = ''partial''"
proof -
  let ?c = "sample_context ''proxy_signal''"
  have e: "eligible_observations sample_requirement ?c = ec_observations ?c"
    by (simp add: eligible_observations_def sample_requirement_def sample_context_def sample_observation_def
        observation_active_def ACTIVE_LIFECYCLE_STATES_def visible_at_def dt_after_def)
  have p: "proxy_observations sample_requirement (ec_observations ?c) = ec_observations ?c"
    "direct_observations (ec_observations ?c) = []"
    by (simp_all add: proxy_observations_def direct_observations_def sample_requirement_def sample_context_def
        sample_observation_def)
  have "evaluate True sample_requirement ?c = evaluation_outcome sample_requirement ?c ''partial'' ''proxy_signal''
      (Some ''competitive_proxy'') ''proxy_signal_cannot_fully_satisfy_direct_observation'' (ec_observations ?c)"
    unfolding evaluate_def Let_def e p
    by (simp only: sample_eligible(3) if_False)
      (simp add: sample_requirement_def sample_context_def sample_observation_def)
  moreover obtain res where res: "evaluate True sample_requirement ?c = Inr res"
    using evaluate_Inr_exists [OF sample_requirement_valid sample_context_valid] by blast
  ultimately have "evaluation_outcome sample_requirement ?c ''partial'' ''proxy_signal''
      (Some ''competitive_proxy'') ''proxy_signal_cannot_fully_satisfy_direct_observation'' (ec_observations ?c) = Inr res"
    by simp
  then have d: "da_directness (er_availability res) = ''proxy_signal''"
    by (rule evaluation_outcome_Inr) simp
  have "dr_direct_observation_required sample_requirement" by (simp add: sample_requirement_def)
  from evaluate_proxy_partial [OF res this d] res show ?thesis by blast
qed

text \<open>C39. The evidence, span, claim and conflict links of a result mirror the observations that were used: link
  after link, the position is the observation's position and the target is its identifier, for
  exactly the observations that have one; every link is owned by the availability; the evidence count is the
  number of observations used; and each of these belongs to the candidate, has a required source
  type and the required domain, is active and was visible at the cutoff.\<close>

theorem evaluate_links:
  assumes "evaluate allow_proxy r c = Inr res"
  shows "\<exists>obs. da_evidence_count (er_availability res) = int (length obs) \<and>
    (\<forall>s \<in> set obs. s \<in> set (ec_observations c) \<and> so_candidate_id s = ec_candidate_id c \<and>
       so_source_type s \<in> set (dr_required_source_types r) \<and> so_evidence_domain s = dr_evidence_domain r \<and>
       observation_active s \<and> visible_at c (so_effective_at s) (so_recorded_at s)) \<and>
    mirrors so_evidence_id ''availability'' (da_availability_id (er_availability res)) obs (er_evidence_links res) \<and>
    mirrors so_span_id ''availability'' (da_availability_id (er_availability res)) obs (er_span_links res) \<and>
    mirrors so_claim_id ''availability'' (da_availability_id (er_availability res)) obs (er_claim_links res) \<and>
    mirrors so_conflict_id ''availability'' (da_availability_id (er_availability res)) obs (er_conflict_links res)"
  using assms
proof (rule evaluate_Inr)
  fix st d p m obs i
  assume br: "evaluation_branch allow_proxy r c st d p m obs"
    and a: "er_availability res = outcome_record r c st d p m obs i"
    and links: "mirrors so_evidence_id ''availability'' i obs (er_evidence_links res)" "mirrors so_span_id ''availability'' i obs (er_span_links res)"
      "mirrors so_claim_id ''availability'' i obs (er_claim_links res)" "mirrors so_conflict_id ''availability'' i obs (er_conflict_links res)"
  show ?thesis
    using branch_observations [OF br] links
    by (intro exI [of _ obs]) (auto simp: a eligible_observations_def)
qed

lemma evaluate_links_witness:
  "\<exists>res obs. evaluate False sample_requirement (sample_context ''direct_observation'') = Inr res \<and>
     mirrors so_evidence_id ''availability'' (da_availability_id (er_availability res)) obs (er_evidence_links res)"
proof -
  obtain res where res: "evaluate False sample_requirement (sample_context ''direct_observation'') = Inr res"
    using evaluate_Inr_exists [OF sample_requirement_valid sample_context_valid] by blast
  from evaluate_links [OF res] res show ?thesis by blast
qed

text \<open>The evaluator fails closed on identity: without a trust state for this candidate that is trusted, has an
  accepted identity state and is visible at the cutoff, the result is \<open>unavailable\<close>, with no
  evidence and no links, however much evidence the context holds.\<close>

theorem evaluate_untrusted:
  assumes "evaluate allow_proxy r c = Inr res"
    and "\<forall>trust. ec_candidate_trust c = Some trust \<longrightarrow>
       ct_candidate_id trust \<noteq> ec_candidate_id c \<or> \<not> ct_trusted trust \<or>
       ct_identity_state trust \<notin> set TRUSTED_IDENTITY_STATES \<or>
       \<not> visible_at c (ct_effective_at trust) (ct_recorded_at trust)"
  shows "da_availability_state (er_availability res) = ''unavailable'' \<and>
    da_missing_reason (er_availability res) = ''candidate_identity_not_trusted'' \<and>
    da_evidence_count (er_availability res) = 0 \<and>
    er_evidence_links res = [] \<and> er_span_links res = [] \<and> er_claim_links res = [] \<and> er_conflict_links res = []"
proof -
  have none: "eligible_trust c = None"
    using assms(2) by (auto simp: eligible_trust_def trust_eligible_def split: option.split)
  then have "evaluation_outcome r c ''unavailable'' ''unavailable'' None ''candidate_identity_not_trusted'' [] = Inr res"
    using assms(1) by (simp add: evaluate_def)
  then show ?thesis
    by (rule evaluation_outcome_Inr) (simp add: mirrors_def linked_def)
qed

lemma evaluate_untrusted_witness:
  "\<exists>res. evaluate True sample_requirement (sample_context ''direct_observation''\<lparr>ec_candidate_trust := None\<rparr>) = Inr res \<and>
     da_availability_state (er_availability res) = ''unavailable''"
proof -
  let ?c = "sample_context ''direct_observation''\<lparr>ec_candidate_trust := None\<rparr>"
  have "valid_context ?c"
    using sample_context_valid [of "''direct_observation''"]
    by (simp add: valid_context_def evaluation_context_checks_def)
  then obtain res where res: "evaluate True sample_requirement ?c = Inr res"
    using evaluate_Inr_exists [OF sample_requirement_valid] by blast
  have "\<forall>trust. ec_candidate_trust ?c = Some trust \<longrightarrow>
       ct_candidate_id trust \<noteq> ec_candidate_id ?c \<or> \<not> ct_trusted trust \<or>
       ct_identity_state trust \<notin> set TRUSTED_IDENTITY_STATES \<or>
       \<not> visible_at ?c (ct_effective_at trust) (ct_recorded_at trust)" by simp
  from evaluate_untrusted [OF res this] res show ?thesis by blast
qed

text \<open>Where the two readings of "direct" part: when a requirement demands direct observation, every
  eligible observation is at most \<open>derived_from_direct\<close> and nothing else is missing, the evaluator reports
  \<open>available\<close> and the degraded-mode policy decides \<open>normal\<close>, although
  \<open>DataRequirement.directness_satisfies_requirement\<close> says that this directness does not satisfy the
  requirement.\<close>

theorem evaluate_derived_passes_as_direct:
  assumes "evaluate allow_proxy r c = Inr res" and "dr_direct_observation_required r"
    and "da_availability_state (er_availability res) = ''available''"
    and "\<forall>s \<in> set (ec_observations c). so_directness s \<noteq> ''direct_observation''"
  shows "policy_decide policy r (er_availability res) =
      Inr (decision ''normal'' ''direct_or_derived_data_available'' False) \<and>
    \<not> directness_satisfies_requirement r (da_directness (er_availability res))"
proof -
  obtain st d p m obs i where br: "evaluation_branch allow_proxy r c st d p m obs"
    and a: "er_availability res = outcome_record r c st d p m obs i"
    using assms(1) by (rule evaluate_Inr)
  have st: "st = ''available''" using assms(3) by (simp add: a)
  have obs: "set obs \<subseteq> set (ec_observations c)"
    using branch_observations [OF br] eligible_subset by blast
  have d: "d = dominant_directness obs" "satisfying r c = obs" "obs \<noteq> []"
    "direct_observations (eligible_observations r c) \<noteq> []"
    using br assms(2) unfolding st available_branch by simp_all
  have "d \<in> {''direct_observation'', ''derived_from_direct''}"
    using d(4) by (cases rule: satisfying_cases [OF d(2,3)]) (simp_all add: d(1))
  moreover have "d \<noteq> ''direct_observation''"
    using obs assms(4) by (auto simp: d(1) dominant_directness_def list_ex_iff)
  ultimately show ?thesis
    using assms(2) by (simp add: a st policy_decide_def directness_satisfies_requirement_def)
qed

lemma evaluate_derived_passes_as_direct_witness:
  "\<exists>res. evaluate False sample_requirement (sample_context ''derived_from_direct'') = Inr res \<and>
     \<not> directness_satisfies_requirement sample_requirement (da_directness (er_availability res))"
proof (rule sample_full [of "''derived_from_direct''"])
  fix res
  assume res: "evaluate False sample_requirement (sample_context ''derived_from_direct'') = Inr res"
    "da_availability_state (er_availability res) = ''available''"
  have "dr_direct_observation_required sample_requirement"
    "\<forall>s \<in> set (ec_observations (sample_context ''derived_from_direct'')). so_directness s \<noteq> ''direct_observation''"
    by (simp_all add: sample_requirement_def sample_context_def sample_observation_def)
  from evaluate_derived_passes_as_direct [OF res(1) this(1) res(2) this(2)] res(1) show ?thesis by blast
qed simp

end
