(* ===== verification/SuffValidation.thy ===== *)
theory SuffValidation
  imports SuffEvaluator
begin

text \<open>
  \<open>hunter.sufficiency.validation\<close>: pairwise comparison of the observations that different sources
  make of the same metric. A pair is incompatible, agrees or disagrees; a disagreement is recorded as a state
  of the data, never as evidence against the project.
\<close>

section \<open>Inputs and results\<close>

record metric_context =
  mc_metric_name :: string
  mc_unit :: string
  mc_scope :: string
  mc_chain :: string
  mc_product :: string
  mc_period_start :: pydatetime
  mc_period_end :: pydatetime

definition metric_context_checks :: "metric_context \<Rightarrow> check list" where
  "metric_context_checks m =
     check_texts
       [(''metric_name'', mc_metric_name m), (''unit'', mc_unit m), (''scope'', mc_scope m),
        (''chain'', mc_chain m), (''product'', mc_product m)] @
     [check_aware ''period_start'' (mc_period_start m), check_aware ''period_end'' (mc_period_end m),
      raise_if (dt_after (mc_period_start m) (mc_period_end m))
        (ValueError ''period_end must be on or after period_start'')]"

definition mk_metric_context :: "metric_context \<Rightarrow> metric_context result" where
  "mk_metric_context m = checked (metric_context_checks m) m"

datatype source_value = SVText string | SVInt int | SVFloat pyfloat | SVBool bool

record comparable_observation =
  cs_observation :: source_observation
  cs_metric_context :: metric_context
  cs_value :: source_value

record validation_context =
  vc_candidate_id :: string
  vc_observations :: "comparable_observation list"
  vc_provider_states :: "provider_state list"
  vc_evaluated_at :: pydatetime
  vc_cutoff_at :: "pydatetime option"
  vc_replay_mode :: string
  vc_processing_run_id :: string

definition validation_context_checks :: "validation_context \<Rightarrow> check list" where
  "validation_context_checks c =
     [check_text ''candidate_id'' (vc_candidate_id c), check_text ''processing_run_id'' (vc_processing_run_id c),
      check_aware ''evaluated_at'' (vc_evaluated_at c), check_aware_opt ''cutoff_at'' (vc_cutoff_at c)]"

definition mk_validation_context :: "validation_context \<Rightarrow> validation_context result" where
  "mk_validation_context c = checked (validation_context_checks c) c"

record cross_validation_record =
  vr_validation :: source_validation_result
  vr_evidence_links :: "lineage_link list"
  vr_span_links :: "lineage_link list"
  vr_claim_links :: "lineage_link list"
  vr_conflict_links :: "lineage_link list"

record cross_disagreement_record =
  gr_disagreement :: source_disagreement
  gr_evidence_links :: "lineage_link list"
  gr_span_links :: "lineage_link list"
  gr_claim_links :: "lineage_link list"
  gr_conflict_links :: "lineage_link list"

record validation_output =
  vo_validations :: "cross_validation_record list"
  vo_disagreements :: "cross_disagreement_record list"

section \<open>Comparing two observations\<close>

definition mismatched_fields :: "metric_context \<Rightarrow> metric_context \<Rightarrow> string list" where
  "mismatched_fields l r =
     (if mc_metric_name l \<noteq> mc_metric_name r then [''metric_name''] else []) @
     (if mc_unit l \<noteq> mc_unit r then [''unit''] else []) @
     (if mc_scope l \<noteq> mc_scope r then [''scope''] else []) @
     (if mc_chain l \<noteq> mc_chain r then [''chain''] else []) @
     (if mc_product l \<noteq> mc_product r then [''product''] else []) @
     (if \<not> dt_eq (mc_period_start l) (mc_period_start r) then [''period_start''] else []) @
     (if \<not> dt_eq (mc_period_end l) (mc_period_end r) then [''period_end''] else [])"

text \<open>\<open>SourceCompatibilityPolicy.compare\<close>: whether the pair is compatible, and the reason.\<close>

definition compatibility_compare :: "comparable_observation \<Rightarrow> comparable_observation \<Rightarrow> bool \<times> string" where
  "compatibility_compare l r =
     (let mismatched = mismatched_fields (cs_metric_context l) (cs_metric_context r) in
      if mismatched \<noteq> [] then (False, ''incompatible_'' @ join '','' mismatched) else (True, ''compatible''))"

text \<open>\<open>str.lower\<close> on code points below 256.\<close>

definition lower_char :: "char \<Rightarrow> char" where
  "lower_char c = (let n = of_char c :: nat in
     if (65 \<le> n \<and> n \<le> 90) \<or> (192 \<le> n \<and> n \<le> 222 \<and> n \<noteq> 215) then char_of (n + 32) else c)"

definition value_text :: "source_value \<Rightarrow> string" where
  "value_text v = (case v of
     SVText s \<Rightarrow> s | SVInt i \<Rightarrow> int_text i | SVBool b \<Rightarrow> (if b then ''True'' else ''False'')
   | SVFloat x \<Rightarrow> general12 x)"

definition canonical_value :: "source_value \<Rightarrow> string" where
  "canonical_value v = (case v of
     SVFloat x \<Rightarrow> general12 x
   | _ \<Rightarrow> map lower_char (strip (value_text v)))"

section \<open>Which observations are compared\<close>

definition validation_visible_at :: "validation_context \<Rightarrow> pydatetime \<Rightarrow> pydatetime \<Rightarrow> bool" where
  "validation_visible_at c effective_at recorded_at =
     (case vc_cutoff_at c of
        None \<Rightarrow> True
      | Some cutoff \<Rightarrow>
          if vc_replay_mode c = ''current'' then True
          else if dt_after effective_at cutoff then False
          else if vc_replay_mode c = ''historical_strict_known_by_hunter'' \<and> dt_after recorded_at cutoff
          then False else True)"

definition validation_as_of :: "validation_context \<Rightarrow> pydatetime" where
  "validation_as_of c = (case vc_cutoff_at c of None \<Rightarrow> vc_evaluated_at c | Some cutoff \<Rightarrow> cutoff)"

definition validation_freshness_seconds :: "source_observation \<Rightarrow> validation_context \<Rightarrow> int" where
  "validation_freshness_seconds s c = max (seconds_between (validation_as_of c) (so_effective_at s)) 0"

definition VALIDATION_QUALITY_RANK :: "(string \<times> int) list" where
  "VALIDATION_QUALITY_RANK =
     [(''unavailable'', 0), (''low'', 1), (''medium'', 2),
      (''verified_or_persisted_hunter_evidence'', 2), (''high'', 3)]"

definition validation_quality_satisfies :: "string \<Rightarrow> string \<Rightarrow> bool" where
  "validation_quality_satisfies actual minimum =
     (rank_get VALIDATION_QUALITY_RANK minimum 2 \<le> rank_get VALIDATION_QUALITY_RANK actual 0)"

definition matching_observations :: "data_requirement \<Rightarrow> validation_context \<Rightarrow> comparable_observation list" where
  "matching_observations r c = filter (\<lambda>x. let s = cs_observation x in
     (so_candidate_id s = vc_candidate_id c \<and>
      so_source_type s \<in> set (dr_required_source_types r) \<and>
      so_evidence_domain s = dr_evidence_domain r \<and>
      observation_active s) \<and>
     validation_visible_at c (so_effective_at s) (so_recorded_at s)) (vc_observations c)"

definition comparable_directness :: "data_requirement \<Rightarrow> source_observation \<Rightarrow> bool" where
  "comparable_directness r s =
     (if dr_direct_observation_required r then so_directness s = ''direct_observation''
      else so_directness s \<noteq> ''proxy_signal'' \<or>
           (dr_proxy_allowed r \<and> so_proxy_type s \<in> Some ` set (dr_accepted_proxy_types r)))"

definition comparable_quality :: "data_requirement \<Rightarrow> validation_context \<Rightarrow> source_observation \<Rightarrow> bool" where
  "comparable_quality r c s =
     (validation_quality_satisfies (so_source_quality s) (dr_minimum_source_authority r) \<and>
      pyfloat_le (dr_minimum_confidence r) (so_confidence s) \<and>
      dr_minimum_lineage_depth r \<le> so_lineage_depth s \<and>
      validation_freshness_seconds s c \<le> dr_minimum_freshness_seconds r)"

definition validation_eligible :: "data_requirement \<Rightarrow> validation_context \<Rightarrow> comparable_observation list" where
  "validation_eligible r c =
     filter (\<lambda>x. comparable_quality r c (cs_observation x))
       (filter (\<lambda>x. comparable_directness r (cs_observation x)) (matching_observations r c))"

section \<open>States and reasons\<close>

definition unavailable_providers :: "data_requirement \<Rightarrow> validation_context \<Rightarrow> provider_state list" where
  "unavailable_providers r c = filter (\<lambda>p.
     (ps_source_type p \<in> set (dr_required_source_types r) \<and> provider_unavailable p) \<and>
     validation_visible_at c (ps_checked_at p) (ps_recorded_at p)) (vc_provider_states c)"

definition missing_status :: "data_requirement \<Rightarrow> validation_context \<Rightarrow> string" where
  "missing_status r c =
     (if unavailable_providers r c \<noteq> [] then ''missing_provider''
      else if list_ex (\<lambda>x. dr_minimum_freshness_seconds r < validation_freshness_seconds (cs_observation x) c)
                (matching_observations r c)
      then ''stale_source'' else ''unavailable'')"

definition proxies_seen :: "data_requirement \<Rightarrow> validation_context \<Rightarrow> comparable_observation list" where
  "proxies_seen r c = filter (\<lambda>x. let s = cs_observation x in
     (so_candidate_id s = vc_candidate_id c \<and> so_source_type s \<in> set (dr_required_source_types r) \<and>
      so_directness s = ''proxy_signal'') \<and>
     validation_visible_at c (so_effective_at s) (so_recorded_at s)) (vc_observations c)"

definition validation_missing_reason :: "data_requirement \<Rightarrow> validation_context \<Rightarrow> string" where
  "validation_missing_reason r c =
     (if unavailable_providers r c \<noteq> []
      then ''provider_unavailable:'' @ join '','' (sorted_text (map ps_source_type (unavailable_providers r c)))
      else if dr_direct_observation_required r \<and> proxies_seen r c \<noteq> []
      then ''direct_observation_missing_proxy_only''
      else ''missing_comparable_source_observations'')"

definition validation_freshness_state ::
  "data_requirement \<Rightarrow> validation_context \<Rightarrow> comparable_observation list \<Rightarrow> string" where
  "validation_freshness_state r c obs =
     (if obs = [] then ''unavailable''
      else if list_ex (\<lambda>x. dr_minimum_freshness_seconds r < validation_freshness_seconds (cs_observation x) c) obs
      then ''stale'' else ''fresh'')"

definition validation_aggregate_quality :: "comparable_observation list \<Rightarrow> string" where
  "validation_aggregate_quality obs =
     (if obs = [] then ''unavailable''
      else if list_ex (\<lambda>x. so_conflict_state (cs_observation x) \<noteq> ''none'') obs then ''conflicted''
      else let minimum = list_min (map (\<lambda>x.
             rank_get VALIDATION_QUALITY_RANK (so_source_quality (cs_observation x)) 0) obs)
        in if 3 \<le> minimum then ''high'' else if minimum = 2 then ''medium'' else ''low'')"

definition source_label :: "data_requirement \<Rightarrow> string" where
  "source_label r = join '','' (dr_required_source_types r)"

definition source_label_for_observations :: "comparable_observation list \<Rightarrow> string" where
  "source_label_for_observations obs =
     join '','' (sorted_text (remdups (map (\<lambda>x. so_source_type (cs_observation x)) obs)))"

section \<open>Lineage links\<close>

definition validation_evidence_links ::
  "string \<Rightarrow> string \<Rightarrow> comparable_observation list \<Rightarrow> string \<Rightarrow> lineage_link list result" where
  "validation_evidence_links owner_type owner_id obs schema_version =
     lineage_links mk_evidence_link (owner_type @ ''-evidence-link'') ''owner_id'' ''evidence_id''
       ''compared_source_observation'' so_evidence_id owner_type owner_id (map cs_observation obs) schema_version"

definition validation_span_links ::
  "string \<Rightarrow> string \<Rightarrow> comparable_observation list \<Rightarrow> string \<Rightarrow> lineage_link list result" where
  "validation_span_links owner_type owner_id obs schema_version =
     lineage_links mk_span_link (owner_type @ ''-span-link'') ''owner_id'' ''span_id''
       ''compared_source_span'' so_span_id owner_type owner_id (map cs_observation obs) schema_version"

definition validation_claim_links ::
  "string \<Rightarrow> string \<Rightarrow> comparable_observation list \<Rightarrow> string \<Rightarrow> lineage_link list result" where
  "validation_claim_links owner_type owner_id obs schema_version =
     lineage_links mk_claim_link (owner_type @ ''-claim-link'') ''owner_id'' ''claim_id''
       ''compared_source_claim'' so_claim_id owner_type owner_id (map cs_observation obs) schema_version"

definition validation_conflict_links ::
  "string \<Rightarrow> string \<Rightarrow> comparable_observation list \<Rightarrow> string \<Rightarrow> lineage_link list result" where
  "validation_conflict_links owner_type owner_id obs schema_version =
     lineage_links mk_conflict_link (owner_type @ ''-conflict-link'') ''owner_id'' ''conflict_id''
       ''related_conflict'' so_conflict_id owner_type owner_id (map cs_observation obs) schema_version"

section \<open>Records\<close>

definition validation_record ::
  "data_requirement \<Rightarrow> validation_context \<Rightarrow> string \<Rightarrow> string \<Rightarrow> string \<Rightarrow> bool \<Rightarrow> string \<Rightarrow> string \<Rightarrow> string \<Rightarrow>
   comparable_observation list \<Rightarrow> cross_validation_record result" where
  "validation_record r c source_a source_b status compatible_scope authority freshness reason obs =
     rbind (sufficiency_id ''source-validation'' (payload_dict
        [(''candidate_id'', PStr (vc_candidate_id c)),
         (''requirement_id'', PStr (dr_requirement_id r)),
         (''source_a'', PStr source_a),
         (''source_b'', PStr source_b),
         (''status'', PStr status),
         (''reason'', PStr reason),
         (''processing_run_id'', PStr (vc_processing_run_id c)),
         (''replay_mode'', PStr (vc_replay_mode c)),
         (''cutoff_at'', dt_payload (vc_cutoff_at c))])) (\<lambda>validation_id.
     rbind (mk_source_validation
        \<lparr>sv_validation_id = validation_id,
         sv_candidate_id = vc_candidate_id c,
         sv_requirement_id = dr_requirement_id r,
         sv_engine_id = dr_engine_id r,
         sv_analysis_purpose = dr_analysis_purpose r,
         sv_source_a = source_a,
         sv_source_b = source_b,
         sv_validation_status = status,
         sv_compatible_scope = compatible_scope,
         sv_source_authority_state = authority,
         sv_freshness_state = freshness,
         sv_reason = reason,
         sv_effective_at = validation_as_of c,
         sv_recorded_at = vc_evaluated_at c,
         sv_cutoff_at = vc_cutoff_at c,
         sv_replay_mode = vc_replay_mode c,
         sv_processing_run_id = vc_processing_run_id c,
         sv_schema_version = dr_schema_version r,
         sv_metadata = [(''project_negative_evidence'', PBool False)]\<rparr>) (\<lambda>validation.
     rbind (validation_evidence_links ''validation'' validation_id obs (dr_schema_version r)) (\<lambda>evidence.
     rbind (validation_span_links ''validation'' validation_id obs (dr_schema_version r)) (\<lambda>spans.
     rbind (validation_claim_links ''validation'' validation_id obs (dr_schema_version r)) (\<lambda>claims.
     rbind (validation_conflict_links ''validation'' validation_id obs (dr_schema_version r)) (\<lambda>conflicts.
     Inr \<lparr>vr_validation = validation, vr_evidence_links = evidence, vr_span_links = spans,
          vr_claim_links = claims, vr_conflict_links = conflicts\<rparr>))))))"

definition disagreement_record ::
  "data_requirement \<Rightarrow> validation_context \<Rightarrow> comparable_observation \<Rightarrow> comparable_observation \<Rightarrow>
   cross_disagreement_record result" where
  "disagreement_record r c left right =
     (let obs = [left, right] in
     rbind (sufficiency_id ''source-disagreement'' (payload_dict
        [(''candidate_id'', PStr (vc_candidate_id c)),
         (''requirement_id'', PStr (dr_requirement_id r)),
         (''source_ids'', PSeq (map PStr (sorted_text (map (\<lambda>x. so_source_type (cs_observation x)) obs)))),
         (''metric'', PStr (mc_metric_name (cs_metric_context left))),
         (''values'', PSeq (map (\<lambda>x. PStr (canonical_value (cs_value x))) obs)),
         (''processing_run_id'', PStr (vc_processing_run_id c)),
         (''replay_mode'', PStr (vc_replay_mode c)),
         (''cutoff_at'', dt_payload (vc_cutoff_at c))])) (\<lambda>disagreement_id.
     rbind (mk_source_disagreement
        \<lparr>sd_disagreement_id = disagreement_id,
         sd_candidate_id = vc_candidate_id c,
         sd_requirement_id = dr_requirement_id r,
         sd_engine_id = dr_engine_id r,
         sd_analysis_purpose = dr_analysis_purpose r,
         sd_disagreement_state = ''disagreement'',
         sd_compared_source_count = int (length obs),
         sd_compatible_scope = True,
         sd_reason = ''data_quality_state:compatible_sources_disagree'',
         sd_effective_at = validation_as_of c,
         sd_recorded_at = vc_evaluated_at c,
         sd_replay_mode = vc_replay_mode c,
         sd_processing_run_id = vc_processing_run_id c,
         sd_schema_version = dr_schema_version r\<rparr>) (\<lambda>disagreement.
     rbind (validation_evidence_links ''disagreement'' disagreement_id obs (dr_schema_version r)) (\<lambda>evidence.
     rbind (validation_span_links ''disagreement'' disagreement_id obs (dr_schema_version r)) (\<lambda>spans.
     rbind (validation_claim_links ''disagreement'' disagreement_id obs (dr_schema_version r)) (\<lambda>claims.
     rbind (validation_conflict_links ''disagreement'' disagreement_id obs (dr_schema_version r)) (\<lambda>conflicts.
     Inr \<lparr>gr_disagreement = disagreement, gr_evidence_links = evidence, gr_span_links = spans,
          gr_claim_links = claims, gr_conflict_links = conflicts\<rparr>)))))))"

section \<open>The service\<close>

text \<open>One iteration of the loop over the pairs: the validation, and the disagreement if there is one.\<close>

definition validate_pair ::
  "data_requirement \<Rightarrow> validation_context \<Rightarrow> comparable_observation \<times> comparable_observation \<Rightarrow>
   (cross_validation_record \<times> cross_disagreement_record option) result" where
  "validate_pair r c pair =
     (let (left, right) = pair; (compatible, reason) = compatibility_compare left right;
          record = (\<lambda>status scope why. validation_record r c
            (so_source_type (cs_observation left)) (so_source_type (cs_observation right)) status scope
            (validation_aggregate_quality [left, right]) (validation_freshness_state r c [left, right]) why
            [left, right])
      in if \<not> compatible
         then rbind (record ''incompatible_scope'' False reason) (\<lambda>v. Inr (v, None))
         else if canonical_value (cs_value left) = canonical_value (cs_value right)
         then rbind (record ''agreement'' True ''compatible_sources_agree'') (\<lambda>v. Inr (v, None))
         else rbind (record ''disagreement'' True ''compatible_sources_disagree'') (\<lambda>v.
              rbind (disagreement_record r c left right) (\<lambda>d. Inr (v, Some d))))"

definition single_output :: "cross_validation_record result \<Rightarrow> validation_output result" where
  "single_output record = rbind record (\<lambda>v. Inr \<lparr>vo_validations = [v], vo_disagreements = []\<rparr>)"

definition validate :: "data_requirement \<Rightarrow> validation_context \<Rightarrow> validation_output result" where
  "validate r c =
     (let eligible = validation_eligible r c;
          conflicted = filter (\<lambda>x. so_conflict_state (cs_observation x) \<noteq> ''none'') eligible
      in if eligible = []
         then single_output (validation_record r c (source_label r) ''missing'' (missing_status r c) False
                ''unavailable'' ''unavailable'' (validation_missing_reason r c) [])
         else if conflicted \<noteq> []
         then single_output (validation_record r c (source_label_for_observations conflicted) ''conflict''
                ''conflict'' True (validation_aggregate_quality conflicted)
                (validation_freshness_state r c conflicted) ''source_conflict_present'' conflicted)
         else if length eligible < 2
         then single_output (validation_record r c (so_source_type (cs_observation (hd eligible)))
                ''insufficient_sources'' ''unavailable'' True (validation_aggregate_quality eligible)
                (validation_freshness_state r c eligible) ''insufficient_comparable_sources'' eligible)
         else rbind (mapM (validate_pair r c) (pairs eligible)) (\<lambda>vds.
                Inr \<lparr>vo_validations = map fst vds, vo_disagreements = List.map_filter snd vds\<rparr>))"

section \<open>The replay contract\<close>

interpretation validation_replay: replay_filter validation_visible_at vc_cutoff_at
  "\<lambda>c. vc_replay_mode c = ''current''" "\<lambda>c. vc_replay_mode c = ''historical_strict_known_by_hunter''"
  by unfold_locales (auto simp: validation_visible_at_def split: option.splits if_splits)

definition validation_known_at :: "pydatetime \<Rightarrow> validation_context \<Rightarrow> validation_context" where
  "validation_known_at t c = c\<lparr>
     vc_observations := filter (\<lambda>x. \<not> dt_after (so_recorded_at (cs_observation x)) t) (vc_observations c),
     vc_provider_states := filter (\<lambda>p. \<not> dt_after (ps_recorded_at p) t) (vc_provider_states c)\<rparr>"

lemma validation_known_at_simps [simp]:
  "vc_candidate_id (validation_known_at t c) = vc_candidate_id c"
  "vc_evaluated_at (validation_known_at t c) = vc_evaluated_at c"
  "vc_cutoff_at (validation_known_at t c) = vc_cutoff_at c"
  "vc_replay_mode (validation_known_at t c) = vc_replay_mode c"
  "vc_processing_run_id (validation_known_at t c) = vc_processing_run_id c"
  by (simp_all add: validation_known_at_def)

lemma validation_time_known_at [simp]:
  "validation_as_of (validation_known_at t c) = validation_as_of c"
  "validation_visible_at (validation_known_at t c) = validation_visible_at c"
  "validation_freshness_seconds s (validation_known_at t c) = validation_freshness_seconds s c"
  by (simp_all add: validation_as_of_def validation_visible_at_def fun_eq_iff validation_freshness_seconds_def
      split: option.split)

lemma records_known_at [simp]:
  "validation_record r (validation_known_at t c) = validation_record r c"
  "disagreement_record r (validation_known_at t c) = disagreement_record r c"
  "validation_freshness_state r (validation_known_at t c) = validation_freshness_state r c"
  "comparable_quality r (validation_known_at t c) = comparable_quality r c"
  by (simp_all add: fun_eq_iff validation_record_def disagreement_record_def validation_freshness_state_def
      comparable_quality_def)

lemma validate_pair_known_at [simp]: "validate_pair r (validation_known_at t c) = validate_pair r c"
  unfolding validate_pair_def records_known_at ..

lemma validation_known_at_strict:
  assumes "vc_cutoff_at c = Some t" "vc_replay_mode c = ''historical_strict_known_by_hunter''"
  shows "matching_observations r (validation_known_at t c) = matching_observations r c"
    "unavailable_providers r (validation_known_at t c) = unavailable_providers r c"
    "proxies_seen r (validation_known_at t c) = proxies_seen r c"
proof -
  have live: "vc_replay_mode c \<noteq> ''current''" by (simp add: assms(2))
  note frozen = validation_replay.replay_ignores_unknown [OF assms(1) live assms(2)]
  show "matching_observations r (validation_known_at t c) = matching_observations r c"
    using frozen [where recorded = "\<lambda>x. so_recorded_at (cs_observation x)"
        and effective = "\<lambda>x. so_effective_at (cs_observation x)" and xs = "vc_observations c"
        and P = "\<lambda>x. so_candidate_id (cs_observation x) = vc_candidate_id c \<and>
          so_source_type (cs_observation x) \<in> set (dr_required_source_types r) \<and>
          so_evidence_domain (cs_observation x) = dr_evidence_domain r \<and> observation_active (cs_observation x)"]
    by (simp add: matching_observations_def Let_def) (simp add: validation_known_at_def conj_assoc)
  show "unavailable_providers r (validation_known_at t c) = unavailable_providers r c"
    using frozen [where recorded = ps_recorded_at and effective = ps_checked_at and xs = "vc_provider_states c"
        and P = "\<lambda>p. ps_source_type p \<in> set (dr_required_source_types r) \<and> provider_unavailable p"]
    by (simp add: unavailable_providers_def) (simp add: validation_known_at_def conj_assoc)
  show "proxies_seen r (validation_known_at t c) = proxies_seen r c"
    using frozen [where recorded = "\<lambda>x. so_recorded_at (cs_observation x)"
        and effective = "\<lambda>x. so_effective_at (cs_observation x)" and xs = "vc_observations c"
        and P = "\<lambda>x. so_candidate_id (cs_observation x) = vc_candidate_id c \<and>
          so_source_type (cs_observation x) \<in> set (dr_required_source_types r) \<and>
          so_directness (cs_observation x) = ''proxy_signal''"]
    by (simp add: proxies_seen_def Let_def) (simp add: validation_known_at_def conj_assoc)
qed

section \<open>What a validation returns\<close>

definition valid_validation_context :: "validation_context \<Rightarrow> bool" where
  "valid_validation_context c = (list_all (\<lambda>k. k = None) (validation_context_checks c) \<and>
     vc_replay_mode c \<in> set REPLAY_MODES \<and>
     (\<forall>x \<in> set (vc_observations c). valid_observation (cs_observation x) \<and> targets_present (cs_observation x)))"

lemma valid_validation_contextD:
  assumes "valid_validation_context c"
  shows "\<not> blank (vc_candidate_id c)" "\<not> blank (vc_processing_run_id c)" "aware (vc_evaluated_at c)"
    "\<And>t. vc_cutoff_at c = Some t \<Longrightarrow> aware t" "vc_replay_mode c \<in> set REPLAY_MODES"
    "aware (validation_as_of c)" "canonical (dt_payload (vc_cutoff_at c))"
    "\<And>x. x \<in> set (vc_observations c) \<Longrightarrow> valid_observation (cs_observation x) \<and> targets_present (cs_observation x)"
  using assms by (auto simp: valid_validation_context_def validation_context_checks_def validation_as_of_def
      dt_payload_def split: option.splits)

lemma validation_eligible_subset: "set (validation_eligible r c) \<subseteq> set (vc_observations c)"
  by (auto simp: validation_eligible_def matching_observations_def Let_def)

lemma validation_links_total:
  assumes "valid_validation_context c" "set obs \<subseteq> set (vc_observations c)" "owner_type \<in> set LINEAGE_OWNER_TYPES"
    "\<not> blank i" "\<not> blank v"
  shows "\<exists>ls. validation_evidence_links owner_type i obs v = Inr ls" "\<exists>ls. validation_span_links owner_type i obs v = Inr ls"
    "\<exists>ls. validation_claim_links owner_type i obs v = Inr ls" "\<exists>ls. validation_conflict_links owner_type i obs v = Inr ls"
proof -
  have present: "s \<in> set (map cs_observation obs) \<Longrightarrow> target s = Some t \<Longrightarrow> \<not> blank t \<and> aware (so_recorded_at s)"
    if "target \<in> {so_evidence_id, so_span_id, so_claim_id, so_conflict_id}" for target s t
    using that assms(2) valid_validation_contextD(8) [OF assms(1)] valid_observationD
    by (fastforce simp: targets_present_def)
  show "\<exists>ls. validation_evidence_links owner_type i obs v = Inr ls"
    unfolding validation_evidence_links_def
    by (rule lineage_links_total [where fld = "''source_evidence_id''"])
      (use assms(3-5) present in \<open>auto simp: is_space_def\<close>)
  show "\<exists>ls. validation_span_links owner_type i obs v = Inr ls"
    unfolding validation_span_links_def
    by (rule lineage_links_total [where fld = "''span_id''"])
      (use assms(3-5) present in \<open>auto simp: is_space_def\<close>)
  show "\<exists>ls. validation_claim_links owner_type i obs v = Inr ls"
    unfolding validation_claim_links_def
    by (rule lineage_links_total [where fld = "''claim_id''"])
      (use assms(3-5) present in \<open>auto simp: is_space_def\<close>)
  show "\<exists>ls. validation_conflict_links owner_type i obs v = Inr ls"
    unfolding validation_conflict_links_def
    by (rule lineage_links_total [where fld = "''conflict_id''"])
      (use assms(3-5) present in \<open>auto simp: is_space_def\<close>)
qed

text \<open>The identifier of a validation is a function of the two source labels, the status and the reason.\<close>

definition validation_id_of ::
  "data_requirement \<Rightarrow> validation_context \<Rightarrow> string \<Rightarrow> string \<Rightarrow> string \<Rightarrow> string \<Rightarrow> string result" where
  "validation_id_of r c source_a source_b status reason =
     sufficiency_id ''source-validation'' (payload_dict
        [(''candidate_id'', PStr (vc_candidate_id c)),
         (''requirement_id'', PStr (dr_requirement_id r)),
         (''source_a'', PStr source_a),
         (''source_b'', PStr source_b),
         (''status'', PStr status),
         (''reason'', PStr reason),
         (''processing_run_id'', PStr (vc_processing_run_id c)),
         (''replay_mode'', PStr (vc_replay_mode c)),
         (''cutoff_at'', dt_payload (vc_cutoff_at c))])"

lemma mk_source_validation_Inr:
  "mk_source_validation v = Inr v' \<longleftrightarrow> list_all (\<lambda>c. c = None) (source_validation_checks v) \<and> v' = v"
  by (simp add: mk_source_validation_def checked_Inr conj_commute)

lemma validation_record_Inr:
  assumes "validation_record r c a b st scope auth fresh why obs = Inr v"
  shows "validation_id_of r c a b st why = Inr (sv_validation_id (vr_validation v))"
    "sv_validation_status (vr_validation v) = st" "sv_source_a (vr_validation v) = a"
    "sv_source_b (vr_validation v) = b" "sv_reason (vr_validation v) = why"
    "sv_compatible_scope (vr_validation v) = scope" "sv_candidate_id (vr_validation v) = vc_candidate_id c"
    "sv_metadata (vr_validation v) = [(''project_negative_evidence'', PBool False)]"
    "list_all (\<lambda>c. c = None) (source_validation_checks (vr_validation v))"
    "mirrors so_evidence_id ''validation'' (sv_validation_id (vr_validation v)) (map cs_observation obs)
       (vr_evidence_links v)"
  using assms unfolding validation_record_def validation_id_of_def validation_evidence_links_def
  by (auto simp: rbind_Inr_iff mk_source_validation_Inr elim!: lineage_links_mirror)

lemma validation_record_total:
  assumes "valid_requirement r" "valid_validation_context c" "set obs \<subseteq> set (vc_observations c)"
    and "\<not> blank a" "\<not> blank b" "\<not> blank why" "st \<in> set SOURCE_VALIDATION_STATUSES"
    and "auth \<in> set SOURCE_QUALITY_STATES" "fresh \<in> set FRESHNESS_STATES"
  shows "\<exists>v. validation_record r c a b st scope auth fresh why obs = Inr v"
proof -
  note ctx = valid_validation_contextD [OF assms(2)]
  obtain i where i: "validation_id_of r c a b st why = Inr i" "\<not> blank i"
    using sufficiency_id_ex [of "payload_dict
        [(''candidate_id'', PStr (vc_candidate_id c)), (''requirement_id'', PStr (dr_requirement_id r)),
         (''source_a'', PStr a), (''source_b'', PStr b), (''status'', PStr st), (''reason'', PStr why),
         (''processing_run_id'', PStr (vc_processing_run_id c)), (''replay_mode'', PStr (vc_replay_mode c)),
         (''cutoff_at'', dt_payload (vc_cutoff_at c))]"] ctx(7) by (auto simp: validation_id_of_def)
  have v: "\<not> blank (dr_schema_version r)" by (rule valid_requirementD [OF assms(1)])
  have "''validation'' \<in> set LINEAGE_OWNER_TYPES" by (simp add: LINEAGE_OWNER_TYPES_def)
  note links = validation_links_total [OF assms(2,3) this i(2) v]
  show ?thesis
    unfolding validation_record_def validation_id_of_def [symmetric] i(1) rbind_simps rbind_Inr_iff
      mk_source_validation_Inr
    using links i(2) v assms(4-) ctx valid_requirementD(1-3) [OF assms(1)]
    by (auto simp: source_validation_checks_def check_texts_None)
qed

lemma disagreement_record_Inr:
  assumes "disagreement_record r c x y = Inr d"
  shows "sd_disagreement_state (gr_disagreement d) = ''disagreement''"
    "sd_compared_source_count (gr_disagreement d) = 2"
    "sd_reason (gr_disagreement d) = ''data_quality_state:compatible_sources_disagree''"
    "sd_candidate_id (gr_disagreement d) = vc_candidate_id c"
  using assms unfolding disagreement_record_def
  by (auto simp: rbind_Inr_iff mk_source_disagreement_def checked_Inr Let_def)

lemma disagreement_record_total:
  assumes "valid_requirement r" "valid_validation_context c" "{x, y} \<subseteq> set (vc_observations c)"
  shows "\<exists>d. disagreement_record r c x y = Inr d"
proof -
  note ctx = valid_validation_contextD [OF assms(2)]
  have v: "\<not> blank (dr_schema_version r)" by (rule valid_requirementD [OF assms(1)])
  have "''disagreement'' \<in> set LINEAGE_OWNER_TYPES" by (simp add: LINEAGE_OWNER_TYPES_def)
  have sub: "set [x, y] \<subseteq> set (vc_observations c)" using assms(3) by simp
  let ?payload = "payload_dict
        [(''candidate_id'', PStr (vc_candidate_id c)),
         (''requirement_id'', PStr (dr_requirement_id r)),
         (''source_ids'', PSeq (map PStr (sorted_text (map (\<lambda>x. so_source_type (cs_observation x)) [x, y])))),
         (''metric'', PStr (mc_metric_name (cs_metric_context x))),
         (''values'', PSeq (map (\<lambda>x. PStr (canonical_value (cs_value x))) [x, y])),
         (''processing_run_id'', PStr (vc_processing_run_id c)),
         (''replay_mode'', PStr (vc_replay_mode c)),
         (''cutoff_at'', dt_payload (vc_cutoff_at c))]"
  have "canonical ?payload" using ctx(7) by (simp add: sorted_text_def list_all_iff)
  then obtain i where i: "sufficiency_id ''source-disagreement'' ?payload = Inr i" "\<not> blank i"
    using sufficiency_id_ex by blast
  note links = validation_links_total [OF assms(2) sub \<open>''disagreement'' \<in> set LINEAGE_OWNER_TYPES\<close> i(2) v]
  show ?thesis
    unfolding disagreement_record_def Let_def i(1) rbind_simps rbind_Inr_iff mk_source_disagreement_def checked_Inr
    using links i(2) v ctx valid_requirementD(1-3) [OF assms(1)]
    by (auto simp: source_disagreement_checks_def check_texts_None DISAGREEMENT_STATES_def is_space_def)
qed

text \<open>The status of a compared pair.\<close>

definition pair_status :: "comparable_observation \<times> comparable_observation \<Rightarrow> string" where
  "pair_status p =
     (if mismatched_fields (cs_metric_context (fst p)) (cs_metric_context (snd p)) \<noteq> [] then ''incompatible_scope''
      else if canonical_value (cs_value (fst p)) = canonical_value (cs_value (snd p)) then ''agreement''
      else ''disagreement'')"

lemma validate_pair_Inr:
  assumes "validate_pair r c p = Inr (v, d)"
  shows "sv_validation_status (vr_validation v) = pair_status p"
    "d = None \<longleftrightarrow> pair_status p \<noteq> ''disagreement''"
    "sv_metadata (vr_validation v) = [(''project_negative_evidence'', PBool False)]"
    "sv_source_a (vr_validation v) = so_source_type (cs_observation (fst p))"
    "sv_source_b (vr_validation v) = so_source_type (cs_observation (snd p))"
    "validation_id_of r c (so_source_type (cs_observation (fst p))) (so_source_type (cs_observation (snd p)))
       (pair_status p) (sv_reason (vr_validation v)) = Inr (sv_validation_id (vr_validation v))"
    "pair_status p \<noteq> ''incompatible_scope'' \<Longrightarrow> sv_reason (vr_validation v) =
       (if pair_status p = ''agreement'' then ''compatible_sources_agree'' else ''compatible_sources_disagree'')"
proof -
  have "\<exists>scope auth fresh why obs. validation_record r c (so_source_type (cs_observation (fst p)))
       (so_source_type (cs_observation (snd p))) (pair_status p) scope auth fresh why obs = Inr v \<and>
     (d = None \<longleftrightarrow> pair_status p \<noteq> ''disagreement'') \<and>
     (pair_status p \<noteq> ''incompatible_scope'' \<longrightarrow>
        why = (if pair_status p = ''agreement'' then ''compatible_sources_agree'' else ''compatible_sources_disagree''))"
    using assms by (auto simp: validate_pair_def compatibility_compare_def pair_status_def rbind_Inr_iff Let_def
        split: prod.splits if_splits) blast+
  then obtain scope auth fresh why obs where rec: "validation_record r c (so_source_type (cs_observation (fst p)))
       (so_source_type (cs_observation (snd p))) (pair_status p) scope auth fresh why obs = Inr v"
    and d: "d = None \<longleftrightarrow> pair_status p \<noteq> ''disagreement''"
    and why: "pair_status p \<noteq> ''incompatible_scope'' \<Longrightarrow>
        why = (if pair_status p = ''agreement'' then ''compatible_sources_agree'' else ''compatible_sources_disagree'')"
    by blast
  note facts = validation_record_Inr [OF rec]
  show "sv_validation_status (vr_validation v) = pair_status p"
    "d = None \<longleftrightarrow> pair_status p \<noteq> ''disagreement''"
    "sv_metadata (vr_validation v) = [(''project_negative_evidence'', PBool False)]"
    "sv_source_a (vr_validation v) = so_source_type (cs_observation (fst p))"
    "sv_source_b (vr_validation v) = so_source_type (cs_observation (snd p))"
    "validation_id_of r c (so_source_type (cs_observation (fst p))) (so_source_type (cs_observation (snd p)))
       (pair_status p) (sv_reason (vr_validation v)) = Inr (sv_validation_id (vr_validation v))"
    "pair_status p \<noteq> ''incompatible_scope'' \<Longrightarrow> sv_reason (vr_validation v) =
       (if pair_status p = ''agreement'' then ''compatible_sources_agree'' else ''compatible_sources_disagree'')"
    using facts(1-8) d why by simp_all
qed

lemma join_not_blank: "ss \<noteq> [] \<Longrightarrow> \<forall>s \<in> set ss. \<not> blank s \<Longrightarrow> \<not> blank (join sep ss)"
  by (metis blank_join_nonblank list.set_sel(1))

lemma sorted_text_Nil [simp]: "sorted_text ss = [] \<longleftrightarrow> ss = []"
  unfolding sorted_text_def by (metis length_0_conv length_sort)

lemma set_sorted_text [simp]: "set (sorted_text ss) = set ss"
  by (simp add: sorted_text_def)

lemma validate_pair_total:
  assumes "valid_requirement r" "valid_validation_context c" "p \<in> set (pairs (validation_eligible r c))"
  shows "\<exists>vd. validate_pair r c p = Inr vd"
proof -
  obtain x y where p: "p = (x, y)" by (cases p)
  then have xy: "x \<in> set (validation_eligible r c)" "y \<in> set (validation_eligible r c)"
    using assms(3) pairs_mem by fastforce+
  then have sub: "set [x, y] \<subseteq> set (vc_observations c)" using validation_eligible_subset by fastforce
  have src: "\<not> blank (so_source_type (cs_observation x))" "\<not> blank (so_source_type (cs_observation y))"
    using xy valid_requirementD(10) [OF assms(1)]
    by (auto simp: validation_eligible_def matching_observations_def Let_def)
  have auth: "validation_aggregate_quality [x, y] \<in> set SOURCE_QUALITY_STATES"
    "validation_freshness_state r c [x, y] \<in> set FRESHNESS_STATES"
    by (simp_all add: validation_aggregate_quality_def SOURCE_QUALITY_STATES_def Let_def
        validation_freshness_state_def FRESHNESS_STATES_def)
  note total = validation_record_total [OF assms(1,2) sub src _ _ auth]
  show ?thesis
    unfolding validate_pair_def p compatibility_compare_def
    using total [of "''incompatible_'' @ join '','' (mismatched_fields (cs_metric_context x) (cs_metric_context y))"
          "''incompatible_scope''" False]
      total [of "''compatible_sources_agree''" "''agreement''" True]
      total [of "''compatible_sources_disagree''" "''disagreement''" True]
      disagreement_record_total [OF assms(1,2), of x y] sub
    by (auto simp: rbind_Inr_iff SOURCE_VALIDATION_STATUSES_def is_space_def Let_def)
qed

lemma labels_not_blank:
  assumes "valid_requirement r"
  shows "\<not> blank (source_label r)"
    and "set obs \<subseteq> set (validation_eligible r c) \<Longrightarrow> obs \<noteq> [] \<Longrightarrow> \<not> blank (source_label_for_observations obs)"
proof -
  show "\<not> blank (source_label r)"
    unfolding source_label_def using valid_requirementD(9,10) [OF assms] by (intro join_not_blank) auto
  assume "set obs \<subseteq> set (validation_eligible r c)" "obs \<noteq> []"
  moreover have "\<forall>x \<in> set (validation_eligible r c). \<not> blank (so_source_type (cs_observation x))"
    using valid_requirementD(10) [OF assms] by (auto simp: validation_eligible_def matching_observations_def Let_def)
  ultimately show "\<not> blank (source_label_for_observations obs)"
    unfolding source_label_for_observations_def
    by (intro join_not_blank) auto
qed

lemma validate_exists:
  assumes "valid_requirement r" "valid_validation_context c"
  shows "\<exists>vo. validate r c = Inr vo"
proof -
  let ?e = "validation_eligible r c"
  let ?x = "filter (\<lambda>x. so_conflict_state (cs_observation x) \<noteq> ''none'') ?e"
  have sub: "set ?e \<subseteq> set (vc_observations c)" by (rule validation_eligible_subset)
  have vocab: "validation_aggregate_quality obs \<in> set SOURCE_QUALITY_STATES"
    "validation_freshness_state r c obs \<in> set FRESHNESS_STATES" for obs
    by (simp_all add: validation_aggregate_quality_def SOURCE_QUALITY_STATES_def Let_def
        validation_freshness_state_def FRESHNESS_STATES_def)
  have missing: "\<not> blank (validation_missing_reason r c)" "missing_status r c \<in> set SOURCE_VALIDATION_STATUSES"
    by (auto simp: validation_missing_reason_def missing_status_def SOURCE_VALIDATION_STATUSES_def is_space_def)
  consider (none) "?e = []" | (conflict) "?e \<noteq> []" "?x \<noteq> []"
    | (one) "?e \<noteq> []" "?x = []" "length ?e < 2" | (many) "?e \<noteq> []" "?x = []" "\<not> length ?e < 2" by blast
  then show ?thesis
  proof cases
    case none
    have "\<exists>v. validation_record r c (source_label r) ''missing'' (missing_status r c) False
        ''unavailable'' ''unavailable'' (validation_missing_reason r c) [] = Inr v"
      by (rule validation_record_total [OF assms])
        (use labels_not_blank(1) [OF assms(1)] missing in
          \<open>simp_all add: is_space_def SOURCE_QUALITY_STATES_def FRESHNESS_STATES_def\<close>)
    with none show ?thesis by (auto simp: validate_def single_output_def Let_def)
  next
    case conflict
    have "\<exists>v. validation_record r c (source_label_for_observations ?x) ''conflict'' ''conflict'' True
        (validation_aggregate_quality ?x) (validation_freshness_state r c ?x) ''source_conflict_present'' ?x = Inr v"
      by (rule validation_record_total [OF assms])
        (use labels_not_blank(2) [OF assms(1), of ?x c] conflict(2) sub vocab in
          \<open>auto simp: is_space_def SOURCE_VALIDATION_STATUSES_def\<close>)
    with conflict show ?thesis by (auto simp: validate_def single_output_def Let_def)
  next
    case one
    then have "hd ?e \<in> set ?e" by simp
    then have "\<not> blank (so_source_type (cs_observation (hd ?e)))"
      using valid_requirementD(10) [OF assms(1)] by (auto simp: validation_eligible_def matching_observations_def Let_def)
    then have "\<exists>v. validation_record r c (so_source_type (cs_observation (hd ?e))) ''insufficient_sources''
        ''unavailable'' True (validation_aggregate_quality ?e) (validation_freshness_state r c ?e)
        ''insufficient_comparable_sources'' ?e = Inr v"
      by (intro validation_record_total [OF assms sub])
        (use vocab in \<open>auto simp: is_space_def SOURCE_VALIDATION_STATUSES_def\<close>)
    with one show ?thesis by (auto simp: validate_def single_output_def Let_def)
  next
    case many
    obtain vds where "mapM (validate_pair r c) (pairs ?e) = Inr vds"
      using mapM_total [of "pairs ?e" "validate_pair r c"] validate_pair_total [OF assms] by blast
    with many show ?thesis by (simp add: validate_def Let_def)
  qed
qed

text \<open>The comparison of two or more unconflicted observations, as a list of one status per pair.\<close>

lemma validate_pairs:
  assumes "validate r c = Inr vo" "2 \<le> length (validation_eligible r c)"
    and "\<forall>x \<in> set (validation_eligible r c). so_conflict_state (cs_observation x) = ''none''"
  obtains vds where "list_all2 (\<lambda>p vd. validate_pair r c p = Inr vd) (pairs (validation_eligible r c)) vds"
    and "vo_validations vo = map fst vds" and "vo_disagreements vo = List.map_filter snd vds"
proof -
  have "validation_eligible r c \<noteq> []" "\<not> length (validation_eligible r c) < 2" using assms(2) by auto
  moreover have "filter (\<lambda>x. so_conflict_state (cs_observation x) \<noteq> ''none'') (validation_eligible r c) = []"
    using assms(3) by simp
  ultimately have "rbind (mapM (validate_pair r c) (pairs (validation_eligible r c)))
      (\<lambda>vds. Inr \<lparr>vo_validations = map fst vds, vo_disagreements = List.map_filter snd vds\<rparr>) = Inr vo"
    using assms(1) by (simp add: validate_def Let_def)
  then show ?thesis by (auto simp: rbind_Inr_iff mapM_Inr_iff intro: that)
qed

lemma pair_statuses:
  assumes "list_all2 (\<lambda>p vd. validate_pair r c p = Inr vd) ps vds"
  shows "map (\<lambda>vd. sv_validation_status (vr_validation (fst vd))) vds = map pair_status ps"
    and "length (List.map_filter snd vds) = length (filter (\<lambda>p. pair_status p = ''disagreement'') ps)"
  using assms
  by (induction rule: list_all2_induct)
    (auto simp: List.map_filter_simps split: option.split dest: validate_pair_Inr(1,2))

section \<open>Properties\<close>

text \<open>Cross-source validation never raises on constructed inputs, whatever the observations say: every outcome,
  from no source at all to any mixture of incompatible, agreeing and disagreeing pairs, is a record
  that its constructor accepts.\<close>

theorem validate_total:
  assumes "valid_requirement r" and "valid_validation_context c"
  shows "\<exists>vo. validate r c = Inr vo"
  by (rule validate_exists [OF assms])

text \<open>C40. Strict replay of cross-source validation: in the mode \<open>historical_strict_known_by_hunter\<close> with a cutoff the result is the one obtained from the observations
  and provider states that were recorded by the cutoff.\<close>

theorem validate_strict_replay:
  assumes "vc_cutoff_at c = Some t" and "vc_replay_mode c = ''historical_strict_known_by_hunter''"
  shows "validate r (validation_known_at t c) = validate r c"
proof -
  have "validation_eligible r (validation_known_at t c) = validation_eligible r c"
    unfolding validation_eligible_def by (simp only: validation_known_at_strict [OF assms] records_known_at)
  moreover have "missing_status r (validation_known_at t c) = missing_status r c"
    unfolding missing_status_def by (simp only: validation_known_at_strict [OF assms] validation_time_known_at)
  moreover have "validation_missing_reason r (validation_known_at t c) = validation_missing_reason r c"
    unfolding validation_missing_reason_def by (simp only: validation_known_at_strict [OF assms])
  ultimately show ?thesis
    unfolding validate_def Let_def by (simp only: records_known_at validate_pair_known_at)
qed

text \<open>The validations that a set of eligible observations gets when no pair is compared.\<close>

lemma validate_single:
  assumes "validate r c = Inr vo"
    and "length (validation_eligible r c) < 2 \<or>
      (\<exists>x \<in> set (validation_eligible r c). so_conflict_state (cs_observation x) \<noteq> ''none'')"
  shows "map (\<lambda>v. sv_validation_status (vr_validation v)) (vo_validations vo) =
      [if validation_eligible r c = [] then missing_status r c
       else if \<exists>x \<in> set (validation_eligible r c). so_conflict_state (cs_observation x) \<noteq> ''none'' then ''conflict''
       else ''unavailable''] \<and> vo_disagreements vo = []"
proof -
  have status: "map (\<lambda>v. sv_validation_status (vr_validation v)) (vo_validations vo) = [st] \<and> vo_disagreements vo = []"
    if "single_output (validation_record r c a b st scope auth fresh why obs) = Inr vo" for a b st scope auth fresh why obs
    using that by (auto simp: single_output_def rbind_Inr_iff validation_record_Inr(2))
  show ?thesis
    using assms unfolding validate_def Let_def by (auto simp: filter_empty_conv split: if_splits dest!: status)
qed

text \<open>C30. What a validation compares: without eligible observations there is one validation that says what is missing; as
  soon as one eligible observation is in conflict there is one validation with the status \<open>conflict\<close>, and no pair is compared;
  a single observation is \<open>unavailable\<close>. Otherwise every pair of the n eligible observations is compared once: there are
  n (n - 1) / 2 validations, in the order of the pairs, each with the status of its pair, and exactly one disagreement record
  for each pair whose scopes match and whose canonical values differ.\<close>

theorem validate_every_pair:
  assumes "validate r c = Inr vo"
  shows "map (\<lambda>v. sv_validation_status (vr_validation v)) (vo_validations vo) =
      (if validation_eligible r c = [] then [missing_status r c]
       else if \<exists>x \<in> set (validation_eligible r c). so_conflict_state (cs_observation x) \<noteq> ''none'' then [''conflict'']
       else if length (validation_eligible r c) = 1 then [''unavailable'']
       else map pair_status (pairs (validation_eligible r c))) \<and>
    length (vo_disagreements vo) =
      (if \<exists>x \<in> set (validation_eligible r c). so_conflict_state (cs_observation x) \<noteq> ''none'' then 0
       else length (filter (\<lambda>p. pair_status p = ''disagreement'') (pairs (validation_eligible r c)))) \<and>
    2 * length (pairs (validation_eligible r c)) = length (validation_eligible r c) * (length (validation_eligible r c) - 1)"
    (is "_ = (if ?e = [] then _ else _) \<and> _ \<and> _")
proof (cases "length ?e < 2 \<or> (\<exists>x \<in> set ?e. so_conflict_state (cs_observation x) \<noteq> ''none'')")
  case True
  have "length ?e < 2 \<Longrightarrow> pairs ?e = []" using length_pairs [of ?e] by (cases "length ?e") auto
  then show ?thesis using validate_single [OF assms True] length_pairs [of ?e] True by (cases "length ?e") auto
next
  case False
  then have many: "2 \<le> length ?e" and clean: "\<forall>x \<in> set ?e. so_conflict_state (cs_observation x) = ''none''" by auto
  show ?thesis
  proof (rule validate_pairs [OF assms many clean])
    fix vds
    assume vds: "list_all2 (\<lambda>p vd. validate_pair r c p = Inr vd) (pairs ?e) vds"
      and vo: "vo_validations vo = map fst vds" "vo_disagreements vo = List.map_filter snd vds"
    show ?thesis using pair_statuses [OF vds] length_pairs [of ?e] many clean by (auto simp: vo comp_def)
  qed
qed

text \<open>Three observations of one metric: two of the source \<open>relationship\<close>, one of the source \<open>claim\<close>.\<close>

definition sample_metric :: metric_context where
  "sample_metric = \<lparr>mc_metric_name = ''competitors'', mc_unit = ''count'', mc_scope = ''global'', mc_chain = ''all'',
     mc_product = ''all'', mc_period_start = noon, mc_period_end = noon\<rparr>"

definition sample_comparable :: "string \<Rightarrow> string \<Rightarrow> source_value \<Rightarrow> comparable_observation" where
  "sample_comparable i source v =
     \<lparr>cs_observation = sample_observation i source ''direct_observation'', cs_metric_context = sample_metric, cs_value = v\<rparr>"

definition sample_validation :: "source_value \<Rightarrow> source_value \<Rightarrow> source_value \<Rightarrow> validation_context" where
  "sample_validation u v w =
     \<lparr>vc_candidate_id = ''cand'',
      vc_observations = [sample_comparable ''1'' ''relationship'' u, sample_comparable ''2'' ''relationship'' v,
                         sample_comparable ''1'' ''claim'' w],
      vc_provider_states = [], vc_evaluated_at = noon, vc_cutoff_at = Some noon,
      vc_replay_mode = ''historical_strict_known_by_hunter'', vc_processing_run_id = ''run''\<rparr>"

lemma sample_validation_valid: "valid_validation_context (sample_validation u v w)"
  using sample_observation_valid
  by (simp add: valid_validation_context_def validation_context_checks_def sample_validation_def
      sample_comparable_def is_space_def noon_def REPLAY_MODES_def)

lemma sample_validation_eligible:
  "validation_eligible sample_requirement (sample_validation u v w) = vc_observations (sample_validation u v w)"
  by (simp add: validation_eligible_def matching_observations_def sample_validation_def sample_comparable_def
      sample_requirement_def sample_observation_def comparable_directness_def comparable_quality_def
      observation_active_def ACTIVE_LIFECYCLE_STATES_def validation_visible_at_def dt_after_def
      validation_quality_satisfies_def rank_get_def VALIDATION_QUALITY_RANK_def pyfloat_le_def
      validation_freshness_seconds_def validation_as_of_def seconds_between_def trunc_div_def)

lemma sample_validation_shape:
  "2 \<le> length (validation_eligible sample_requirement (sample_validation u v w))"
  "\<forall>x \<in> set (validation_eligible sample_requirement (sample_validation u v w)).
     so_conflict_state (cs_observation x) = ''none''"
  unfolding sample_validation_eligible
  by (simp_all add: sample_validation_def sample_comparable_def sample_observation_def)

lemma sample_validated:
  obtains vo where "validate sample_requirement (sample_validation u v w) = Inr vo"
  using validate_exists [OF sample_requirement_valid sample_validation_valid] by blast

lemma validate_total_witness: "\<exists>vo. validate sample_requirement (sample_validation (SVInt 1) (SVInt 2) (SVText ''1'')) = Inr vo"
  by (rule validate_total [OF sample_requirement_valid sample_validation_valid])

lemma validate_strict_replay_witness:
  "validate sample_requirement (validation_known_at noon (sample_validation (SVInt 1) (SVInt 2) (SVText ''1'')))
   = validate sample_requirement (sample_validation (SVInt 1) (SVInt 2) (SVText ''1''))"
  by (rule validate_strict_replay) (simp_all add: sample_validation_def)

definition conflicted_comparable :: comparable_observation where
  "conflicted_comparable = (sample_comparable ''1'' ''claim'' (SVInt 1))
     \<lparr>cs_observation := (sample_observation ''1'' ''claim'' ''direct_observation'')\<lparr>so_conflict_state := ''conflicted''\<rparr>\<rparr>"

definition conflicted_validation :: validation_context where
  "conflicted_validation = (sample_validation (SVText ''1'') (SVText ''2'') (SVInt 1))
     \<lparr>vc_observations := [sample_comparable ''1'' ''relationship'' (SVText ''1''), conflicted_comparable]\<rparr>"

lemma conflicted_validation_valid: "valid_validation_context conflicted_validation"
  using sample_observation_valid [of "''1''" "''relationship''" "''direct_observation''"]
    sample_observation_valid [of "''1''" "''claim''" "''direct_observation''"]
  by (simp add: valid_validation_context_def validation_context_checks_def conflicted_validation_def sample_validation_def
      sample_comparable_def conflicted_comparable_def is_space_def noon_def REPLAY_MODES_def valid_observation_def
      observation_checks_def targets_present_def)

lemma conflicted_validation_eligible: "validation_eligible sample_requirement conflicted_validation =
    [sample_comparable ''1'' ''relationship'' (SVText ''1''), conflicted_comparable]"
  by (simp add: validation_eligible_def matching_observations_def conflicted_validation_def sample_validation_def
      conflicted_comparable_def sample_comparable_def sample_requirement_def sample_observation_def comparable_directness_def
      comparable_quality_def observation_active_def ACTIVE_LIFECYCLE_STATES_def validation_visible_at_def dt_after_def
      validation_quality_satisfies_def rank_get_def VALIDATION_QUALITY_RANK_def pyfloat_le_def
      validation_freshness_seconds_def validation_as_of_def seconds_between_def trunc_div_def)

lemma length_disagreeing:
  "length (filter (\<lambda>p. pair_status p = s) ps) = length (filter (\<lambda>st. st = s) (map pair_status ps))"
  by (simp add: filter_map comp_def)

lemma validate_every_pair_witness:
  "(\<exists>vo. validate sample_requirement (sample_validation (SVText ''1'') (SVText ''2'') (SVText '' 1'')) = Inr vo \<and>
     map (\<lambda>v. sv_validation_status (vr_validation v)) (vo_validations vo) =
       [''disagreement'', ''agreement'', ''disagreement''] \<and> length (vo_disagreements vo) = 2) \<and>
   (\<exists>vo. validate sample_requirement conflicted_validation = Inr vo \<and>
     map (\<lambda>v. sv_validation_status (vr_validation v)) (vo_validations vo) = [''conflict''] \<and> length (vo_disagreements vo) = 0)"
proof -
  obtain vo where vo: "validate sample_requirement (sample_validation (SVText ''1'') (SVText ''2'') (SVText '' 1'')) = Inr vo"
    by (rule sample_validated)
  obtain wo where wo: "validate sample_requirement conflicted_validation = Inr wo"
    using validate_exists [OF sample_requirement_valid conflicted_validation_valid] by blast
  have three: "map pair_status (pairs (vc_observations (sample_validation (SVText ''1'') (SVText ''2'') (SVText '' 1'')))) =
      [''disagreement'', ''agreement'', ''disagreement'']"
    by (simp add: sample_validation_def sample_comparable_def pair_status_def mismatched_fields_def dt_eq_def
        canonical_value_def value_text_def strip_def is_space_def lower_char_def)
  have two: "length (filter (\<lambda>p. pair_status p = ''disagreement'')
      (pairs (vc_observations (sample_validation (SVText ''1'') (SVText ''2'') (SVText '' 1''))))) = 2"
    unfolding length_disagreeing three by simp
  have "so_conflict_state (cs_observation conflicted_comparable) \<noteq> ''none''" by (simp add: conflicted_comparable_def)
  then have confl: "map (\<lambda>v. sv_validation_status (vr_validation v)) (vo_validations wo) = [''conflict''] \<and>
      length (vo_disagreements wo) = 0"
    using validate_every_pair [OF wo]
    by (simp only: conflicted_validation_eligible list.set bex_simps if_True if_False list.distinct simp_thms)
  have "length (vc_observations (sample_validation (SVText ''1'') (SVText ''2'') (SVText '' 1''))) \<noteq> 1"
    "vc_observations (sample_validation (SVText ''1'') (SVText ''2'') (SVText '' 1'')) \<noteq> []"
    by (simp_all add: sample_validation_def)
  moreover have "(\<exists>x \<in> set (vc_observations (sample_validation (SVText ''1'') (SVText ''2'') (SVText '' 1''))).
      so_conflict_state (cs_observation x) \<noteq> ''none'') = False"
    using sample_validation_shape(2) unfolding sample_validation_eligible by blast
  ultimately have "map (\<lambda>v. sv_validation_status (vr_validation v)) (vo_validations vo) =
      [''disagreement'', ''agreement'', ''disagreement''] \<and> length (vo_disagreements vo) = 2"
    using validate_every_pair [OF vo] unfolding sample_validation_eligible by (simp only: three two if_False simp_thms)
  from conjI [OF vo this] conjI [OF wo confl] show ?thesis
    by - (rule conjI, rule exI [of _ vo], assumption, rule exI [of _ wo], assumption)
qed

text \<open>Validation identifiers collide: the identifier of a compared pair depends on the source types, the status and
  the reason only, so two validations of one run whose pairs have the same source types and the same status
  have the same identifier, even though they compare different observations.\<close>

theorem validate_identifier_collision:
  assumes "validate r c = Inr vo" and "2 \<le> length (validation_eligible r c)"
    and "\<forall>x \<in> set (validation_eligible r c). so_conflict_state (cs_observation x) = ''none''"
    and "v \<in> set (vo_validations vo)" and "v' \<in> set (vo_validations vo)"
    and "sv_source_a (vr_validation v) = sv_source_a (vr_validation v')"
    and "sv_source_b (vr_validation v) = sv_source_b (vr_validation v')"
    and "sv_validation_status (vr_validation v) = sv_validation_status (vr_validation v')"
    and "sv_validation_status (vr_validation v) \<noteq> ''incompatible_scope''"
  shows "sv_validation_id (vr_validation v) = sv_validation_id (vr_validation v')"
proof (rule validate_pairs [OF assms(1-3)])
  fix vds
  assume vds: "list_all2 (\<lambda>p vd. validate_pair r c p = Inr vd) (pairs (validation_eligible r c)) vds"
    and vo: "vo_validations vo = map fst vds"
  have id: "validation_id_of r c (sv_source_a (vr_validation u)) (sv_source_b (vr_validation u))
      (sv_validation_status (vr_validation u))
      (if sv_validation_status (vr_validation u) = ''agreement'' then ''compatible_sources_agree''
       else ''compatible_sources_disagree'') = Inr (sv_validation_id (vr_validation u))"
    if "u \<in> set (map fst vds)" "sv_validation_status (vr_validation u) \<noteq> ''incompatible_scope''" for u
  proof -
    from vds that obtain p d where "validate_pair r c p = Inr (u, d)"
      by (induction rule: list_all2_induct) auto
    from validate_pair_Inr [OF this] that(2) show ?thesis by simp
  qed
  from id [of v] id [of v'] assms(4-9) show ?thesis by (simp add: vo)
qed

lemma validate_identifier_collision_witness:
  "\<exists>vo. validate sample_requirement (sample_validation (SVText ''1'') (SVText ''1'') (SVText ''1'')) = Inr vo \<and>
     length (vo_validations vo) = 3 \<and>
     sv_validation_id (vr_validation (vo_validations vo ! 1)) = sv_validation_id (vr_validation (vo_validations vo ! 2))"
proof (rule sample_validated)
  let ?c = "sample_validation (SVText ''1'') (SVText ''1'') (SVText ''1'')"
  fix vo
  assume vo: "validate sample_requirement ?c = Inr vo"
  have ps: "pairs (validation_eligible sample_requirement ?c) =
      [(sample_comparable ''1'' ''relationship'' (SVText ''1''), sample_comparable ''2'' ''relationship'' (SVText ''1'')),
       (sample_comparable ''1'' ''relationship'' (SVText ''1''), sample_comparable ''1'' ''claim'' (SVText ''1'')),
       (sample_comparable ''2'' ''relationship'' (SVText ''1''), sample_comparable ''1'' ''claim'' (SVText ''1''))]"
    unfolding sample_validation_eligible by (simp add: sample_validation_def)
  show ?thesis
  proof (rule validate_pairs [OF vo sample_validation_shape])
    fix vds
    assume "list_all2 (\<lambda>p vd. validate_pair sample_requirement ?c p = Inr vd)
        (pairs (validation_eligible sample_requirement ?c)) vds" and vs: "vo_validations vo = map fst vds"
    then obtain x y d z e where vds: "vds = [x, (y, d), (z, e)]"
      and y: "validate_pair sample_requirement ?c
         (sample_comparable ''1'' ''relationship'' (SVText ''1''), sample_comparable ''1'' ''claim'' (SVText ''1'')) = Inr (y, d)"
      and z: "validate_pair sample_requirement ?c
         (sample_comparable ''2'' ''relationship'' (SVText ''1''), sample_comparable ''1'' ''claim'' (SVText ''1'')) = Inr (z, e)"
      unfolding ps by (auto simp: list_all2_Cons1)
    have "sv_validation_status (vr_validation y) = ''agreement''"
      "sv_validation_status (vr_validation z) = ''agreement''"
      "sv_source_a (vr_validation y) = ''relationship''" "sv_source_a (vr_validation z) = ''relationship''"
      "sv_source_b (vr_validation y) = ''claim''" "sv_source_b (vr_validation z) = ''claim''"
      unfolding validate_pair_Inr(1,4,5) [OF y] validate_pair_Inr(1,4,5) [OF z]
      by (simp_all add: pair_status_def sample_comparable_def sample_observation_def mismatched_fields_def dt_eq_def)
    then show ?thesis
      using validate_identifier_collision [OF vo sample_validation_shape, of y z] vo
      by (simp add: vs vds)
  qed
qed

lemma nat_text_length: "n < 10 ^ length (nat_text n)"
proof (induction n rule: nat_text.induct)
  case (1 n)
  show ?case
  proof (cases "n < 10")
    case True
    then show ?thesis by (simp add: nat_text.simps [of n])
  next
    case False
    with 1 have "n div 10 < 10 ^ length (nat_text (n div 10))" by simp
    then have "n < 10 * 10 ^ length (nat_text (n div 10))" by linarith
    with False show ?thesis by (simp add: nat_text.simps [of n])
  qed
qed

lemma digit_not_e: "d < 10 \<Longrightarrow> digit_char d \<noteq> CHR ''e'' \<and> \<not> is_space (digit_char d) \<and> lower_char (digit_char d) = digit_char d"
proof -
  assume d: "d < 10"
  then have n: "(of_char (digit_char d) :: nat) = 48 + d" by (simp add: digit_char_def)
  then have "digit_char d \<noteq> CHR ''e''"
    using d by (auto dest: arg_cong [where f = "of_char :: char \<Rightarrow> nat"])
  with d n show ?thesis by (simp add: is_space_def lower_char_def)
qed

lemma canonical_nat: "canonical_value (SVInt (int n)) = nat_text n"
proof -
  have plain: "\<forall>c \<in> set (nat_text n). \<not> is_space c \<and> lower_char c = c"
    using nat_text_digits digit_not_e by blast
  then have "dropWhile is_space (nat_text n) = nat_text n" "dropWhile is_space (rev (nat_text n)) = rev (nat_text n)"
    using plain by (auto simp: dropWhile_eq_self_iff hd_in_set last_in_set hd_rev)
  then have "strip (nat_text n) = nat_text n" by (simp add: strip_def)
  moreover have "map lower_char (nat_text n) = nat_text n" using plain by (simp add: map_idI)
  ultimately show ?thesis by (simp add: canonical_value_def value_text_def int_text_def)
qed

lemma general12_large:
  assumes "10 ^ 12 \<le> n"
  shows "CHR ''e'' \<in> set (general12 (PFin (of_nat n)))"
proof -
  have "10 ^ 12 < (10::nat) ^ length (nat_text n)"
    using assms nat_text_length [of n] by linarith
  then have "12 < length (nat_text n)" by (rule power_less_imp_less_exp [rotated]) simp
  then have "12 \<le> dec_exponent (of_nat n)"
    using assms by (simp add: dec_exponent_def)
  then have "CHR ''e'' \<in> set (general12_pos (of_nat n))"
    by (simp add: general12_pos_def Let_def split: prod.split)
  moreover have "(of_nat n :: rat) \<noteq> 0" "\<not> (of_nat n :: rat) < 0" using assms by auto
  ultimately show ?thesis by (simp add: general12_def)
qed

text \<open>Equal numbers can disagree: from one trillion on, an integer and the float that equals it have
  different canonical values (the float is written with an exponent), so a compatible pair of sources
  that report the same number, one as an integer and one as a float, is recorded as a disagreement.\<close>

theorem validate_equal_numbers_disagree:
  assumes "validate_pair r c (x, y) = Inr (v, d)"
    and "mismatched_fields (cs_metric_context x) (cs_metric_context y) = []"
    and "cs_value x = SVInt (int n)" and "cs_value y = SVFloat (PFin (of_nat n))" and "10 ^ 12 \<le> n"
  shows "sv_validation_status (vr_validation v) = ''disagreement'' \<and> d \<noteq> None"
proof -
  have "CHR ''e'' \<notin> set (nat_text n)" using nat_text_digits [of "CHR ''e''" n] digit_not_e by metis
  moreover have "CHR ''e'' \<in> set (canonical_value (SVFloat (PFin (of_nat n))))"
    using general12_large [OF assms(5)] by (simp add: canonical_value_def)
  ultimately have "canonical_value (cs_value x) \<noteq> canonical_value (cs_value y)"
    by (auto simp: assms(3,4) canonical_nat)
  then have "pair_status (x, y) = ''disagreement''" by (simp add: pair_status_def assms(2))
  then show ?thesis using validate_pair_Inr(1,2) [OF assms(1)] by simp
qed

lemma validate_equal_numbers_disagree_witness:
  "\<exists>v d. validate_pair sample_requirement
      (sample_validation (SVInt 1000000000000) (SVFloat (PFin 1000000000000)) (SVInt 0))
      (sample_comparable ''1'' ''relationship'' (SVInt 1000000000000),
       sample_comparable ''2'' ''relationship'' (SVFloat (PFin 1000000000000))) = Inr (v, d) \<and>
     sv_validation_status (vr_validation v) = ''disagreement''"
proof -
  let ?c = "sample_validation (SVInt 1000000000000) (SVFloat (PFin 1000000000000)) (SVInt 0)"
  let ?x = "sample_comparable ''1'' ''relationship'' (SVInt 1000000000000)"
  let ?y = "sample_comparable ''2'' ''relationship'' (SVFloat (PFin 1000000000000))"
  have "(?x, ?y) \<in> set (pairs (validation_eligible sample_requirement ?c))"
    unfolding sample_validation_eligible by (simp add: sample_validation_def)
  then obtain v d where vd: "validate_pair sample_requirement ?c (?x, ?y) = Inr (v, d)"
    using validate_pair_total [OF sample_requirement_valid sample_validation_valid] by (metis surj_pair)
  have "mismatched_fields (cs_metric_context ?x) (cs_metric_context ?y) = []"
    "cs_value ?x = SVInt (int 1000000000000)" "cs_value ?y = SVFloat (PFin (of_nat 1000000000000))"
    by (simp_all add: sample_comparable_def mismatched_fields_def dt_eq_def)
  from validate_equal_numbers_disagree [OF vd this] vd show ?thesis by auto
qed

text \<open>Disagreement is a state of the data: no validation record of a run counts as evidence against the project,
  no disagreement record says more than that compatible sources disagree, and for a requirement that demands
  direct observation nothing but direct observations are compared.\<close>

theorem validate_no_negative_evidence:
  assumes "validate r c = Inr vo"
  shows "(\<forall>v \<in> set (vo_validations vo).
       sv_metadata (vr_validation v) = [(''project_negative_evidence'', PBool False)]) \<and>
    (\<forall>g \<in> set (vo_disagreements vo). sd_disagreement_state (gr_disagreement g) = ''disagreement'' \<and>
       sd_reason (gr_disagreement g) = ''data_quality_state:compatible_sources_disagree'' \<and>
       sd_compared_source_count (gr_disagreement g) = 2) \<and>
    (dr_direct_observation_required r \<longrightarrow>
       (\<forall>x \<in> set (validation_eligible r c). so_directness (cs_observation x) = ''direct_observation''))"
proof -
  have single: "\<forall>v \<in> set (vo_validations vo). sv_metadata (vr_validation v) = [(''project_negative_evidence'', PBool False)]"
    "vo_disagreements vo = []" if "single_output (validation_record r c a b st s au f w obs) = Inr vo"
    for a b st s au f w obs
    using that by (auto simp: single_output_def rbind_Inr_iff dest: validation_record_Inr(8))
  have pair: "sv_metadata (vr_validation (fst vd)) = [(''project_negative_evidence'', PBool False)] \<and>
      (\<forall>g. snd vd = Some g \<longrightarrow> sd_disagreement_state (gr_disagreement g) = ''disagreement'' \<and>
       sd_reason (gr_disagreement g) = ''data_quality_state:compatible_sources_disagree'' \<and>
       sd_compared_source_count (gr_disagreement g) = 2)" if "validate_pair r c p = Inr vd" for p vd
    using that validate_pair_Inr(3) [of r c p "fst vd" "snd vd"]
    by (auto simp: validate_pair_def Let_def rbind_Inr_iff dest: disagreement_record_Inr split: prod.splits if_splits)
  have many: "(\<forall>v \<in> set (vo_validations vo). sv_metadata (vr_validation v) = [(''project_negative_evidence'', PBool False)]) \<and>
      (\<forall>g \<in> set (vo_disagreements vo). sd_disagreement_state (gr_disagreement g) = ''disagreement'' \<and>
       sd_reason (gr_disagreement g) = ''data_quality_state:compatible_sources_disagree'' \<and>
       sd_compared_source_count (gr_disagreement g) = 2)"
    if "mapM (validate_pair r c) (pairs (validation_eligible r c)) = Inr vds"
      "vo = \<lparr>vo_validations = map fst vds, vo_disagreements = List.map_filter snd vds\<rparr>" for vds
    using mapM_mem [OF that(1)] pair by (fastforce simp: that(2) List.map_filter_def)
  have "dr_direct_observation_required r \<longrightarrow>
       (\<forall>x \<in> set (validation_eligible r c). so_directness (cs_observation x) = ''direct_observation'')"
    by (simp add: validation_eligible_def comparable_directness_def)
  then show ?thesis
    using assms single many by (auto simp: validate_def Let_def rbind_Inr_iff split: if_splits)
qed

lemma validate_no_negative_evidence_witness:
  "\<exists>vo. validate sample_requirement (sample_validation (SVText ''1'') (SVText ''2'') (SVText '' 1'')) = Inr vo \<and>
     (\<forall>v \<in> set (vo_validations vo). sv_metadata (vr_validation v) = [(''project_negative_evidence'', PBool False)])"
proof (rule sample_validated)
  fix vo
  assume vo: "validate sample_requirement (sample_validation (SVText ''1'') (SVText ''2'') (SVText '' 1'')) = Inr vo"
  from validate_no_negative_evidence [OF this] vo show ?thesis by blast
qed

end
