(* ===== verification/PyCalendar.thy ===== *)
theory PyCalendar
  imports PyTime
begin

text \<open>
  Facts about the calendar and the text of an instant: the civil date of a day number is a valid date and
  \<open>day_number\<close> gives the day back; texts of instants compare as the instants do, which is
  what the repository's comparisons of stored timestamps rely on.
\<close>

section \<open>Years\<close>

lemma div_step:
  fixes y :: int
  assumes "0 < k"
  shows "y div k = (y - 1) div k + (if y mod k = 0 then 1 else 0)"
proof -
  define q where "q = (y - 1) div k"
  define r where "r = (y - 1) mod k"
  have y: "y = k * q + (r + 1)" and r: "0 \<le> r" "r < k"
    using assms mult_div_mod_eq [of k "y - 1"] by (simp_all add: q_def r_def)
  show ?thesis
  proof (cases "r + 1 = k")
    case True
    then have "y = k * (q + 1)" by (simp add: y algebra_simps)
    then have "y div k = q + 1" "y mod k = 0" using assms by simp_all
    then show ?thesis by (simp add: q_def)
  next
    case False
    with r have "0 \<le> r + 1" "r + 1 < k" by simp_all
    from int_div_pos_eq [OF y this] int_mod_pos_eq [OF y this] r show ?thesis
      by (simp add: q_def [symmetric])
  qed
qed

lemma days_before_year_Suc: "days_before_year (y + 1) = days_before_year y + 365 + (if is_leap y then 1 else 0)"
proof -
  define a b c where abc: "a = (y - 1) div 4" "b = (y - 1) div 100" "c = (y - 1) div 400"
  have d: "y div 4 = a + (if y mod 4 = 0 then 1 else 0)" "y div 100 = b + (if y mod 100 = 0 then 1 else 0)"
    "y div 400 = c + (if y mod 400 = 0 then 1 else 0)"
    unfolding abc by (rule div_step; simp)+
  have mods: "y mod 100 = 0" if "y mod 400 = 0"
    using that dvd_trans [of 100 "400::int" y] by (simp add: mod_eq_0_iff_dvd)
  have mods': "y mod 4 = 0" if "y mod 100 = 0"
    using that dvd_trans [of 4 "100::int" y] by (simp add: mod_eq_0_iff_dvd)
  have e: "days_before_year (y + 1) = y * 365 + y div 4 - y div 100 + y div 400"
    "days_before_year y = (y - 1) * 365 + a - b + c"
    by (simp_all add: days_before_year_def Let_def abc)
  consider "y mod 400 = 0" "y mod 100 = 0" "y mod 4 = 0" | "y mod 400 \<noteq> 0" "y mod 100 = 0" "y mod 4 = 0"
    | "y mod 400 \<noteq> 0" "y mod 100 \<noteq> 0" "y mod 4 = 0" | "y mod 400 \<noteq> 0" "y mod 100 \<noteq> 0" "y mod 4 \<noteq> 0"
    using mods mods' by metis
  then show ?thesis
    unfolding e d is_leap_def by cases simp_all
qed

lemma days_before_year_mono: "x \<le> y \<Longrightarrow> days_before_year x \<le> days_before_year y"
proof -
  have "days_before_year x \<le> days_before_year (x + int n)" for n
  proof (induction n)
    case (Suc n)
    then show ?case using days_before_year_Suc [of "x + int n"] by (simp add: algebra_simps split: if_splits)
  qed simp
  from this [of "nat (y - x)"] show "x \<le> y \<Longrightarrow> ?thesis" by simp
qed

lemma days_before_year_less: "x < y \<Longrightarrow> days_before_year x + 365 + (if is_leap x then 1 else 0) \<le> days_before_year y"
  using days_before_year_Suc [of x] days_before_year_mono [of "x + 1" y] by simp

section \<open>Valid dates\<close>

definition valid_date :: "int \<Rightarrow> int \<Rightarrow> int \<Rightarrow> bool" where
  "valid_date y m d = (1 \<le> m \<and> m \<le> 12 \<and> 1 \<le> d \<and> d \<le> days_in_month (is_leap y) m)"

definition day_of_year :: "bool \<Rightarrow> int \<Rightarrow> int \<Rightarrow> int" where
  "day_of_year leap m d = days_before_month m + (if 2 < m \<and> leap then 1 else 0) + d - 1"

lemma day_number_alt: "day_number y m d = days_before_year y + day_of_year (is_leap y) m d"
  by (simp add: day_number_def day_of_year_def)

lemma months: "1 \<le> m \<Longrightarrow> m \<le> 12 \<Longrightarrow> m \<in> {1, 2, 3, 4, 5, 6, 7, 8, 9, 10, 11, 12 :: int}"
proof -
  assume "1 \<le> m" "m \<le> 12"
  then have "m \<in> set [1..12]" by simp
  moreover have "[1..12] = [1, 2, 3, 4, 5, 6, 7, 8, 9, 10, 11, 12 :: int]"
    by (simp add: upto_rec1)
  ultimately show ?thesis by (metis list.set)
qed

lemma day_of_year_bounds:
  assumes "1 \<le> m" "m \<le> 12" "1 \<le> d" "d \<le> days_in_month leap m"
  shows "0 \<le> day_of_year leap m d" "day_of_year leap m d < 365 + (if leap then 1 else 0)"
  using months [OF assms(1,2)] assms(3,4)
  by (auto simp: day_of_year_def days_before_month_def days_in_month_def eval_nat_numeral split: if_splits)

lemma month_order_check:
  "list_all (\<lambda>leap. list_all (\<lambda>m. list_all (\<lambda>m'. m < m' \<longrightarrow>
     day_of_year leap m (days_in_month leap m) < day_of_year leap m' 1) [1..12]) [1..12]) [True, False]"
  by code_simp

lemma day_of_year_less_month:
  assumes "1 \<le> m" "m < m'" "m' \<le> 12" "d \<le> days_in_month leap m" "1 \<le> d'"
  shows "day_of_year leap m d < day_of_year leap m' d'"
proof -
  have "m \<in> set [1..12]" "m' \<in> set [1..12]" "leap \<in> set [True, False]" using assms by auto
  then have "m < m' \<longrightarrow> day_of_year leap m (days_in_month leap m) < day_of_year leap m' 1"
    using month_order_check unfolding list_all_iff by blast
  with assms show ?thesis by (simp add: day_of_year_def)
qed

lemma day_number_less:
  assumes "valid_date y m d" "valid_date y' m' d'" "(y, m, d) \<noteq> (y', m', d')"
    and "y < y' \<or> y = y' \<and> (m < m' \<or> m = m' \<and> d < d')"
  shows "day_number y m d < day_number y' m' d'"
proof -
  have b: "1 \<le> m" "m \<le> 12" "1 \<le> d" "d \<le> days_in_month (is_leap y) m"
    "1 \<le> m'" "m' \<le> 12" "1 \<le> d'" "d' \<le> days_in_month (is_leap y') m'"
    using assms(1,2) by (simp_all add: valid_date_def)
  consider "y < y'" | "y = y'" "m < m'" | "y = y'" "m = m'" "d < d'" using assms(4) by blast
  then show ?thesis
  proof cases
    case 1
    then show ?thesis
      using days_before_year_less [of y y'] day_of_year_bounds(2) [OF b(1-4)] day_of_year_bounds(1) [OF b(5-8)]
      by (simp add: day_number_alt)
  next
    case 2
    then show ?thesis using day_of_year_less_month [OF b(1) _ b(6) b(4) b(7)] by (simp add: day_number_alt)
  next
    case 3
    then show ?thesis by (simp add: day_number_alt day_of_year_def)
  qed
qed

section \<open>The civil date of a day\<close>

lemma month_day_check:
  "list_all (\<lambda>n. list_all (\<lambda>leap. let (m, d) = month_day leap n in
     1 \<le> m \<and> m \<le> 12 \<and> 1 \<le> d \<and> d \<le> days_in_month leap m \<and> day_of_year leap m d = n) [True, False]) [0..364]"
  by code_simp

lemma month_day_valid:
  assumes "0 \<le> n" "n \<le> 364" "month_day leap n = (m, d)"
  shows "1 \<le> m" "m \<le> 12" "1 \<le> d" "d \<le> days_in_month leap m" "day_of_year leap m d = n"
proof -
  have "n \<in> set [0..364]" "leap \<in> set [True, False]" using assms(1,2) by auto
  then have "let (m, d) = month_day leap n in
     1 \<le> m \<and> m \<le> 12 \<and> 1 \<le> d \<and> d \<le> days_in_month leap m \<and> day_of_year leap m d = n"
    using month_day_check unfolding list_all_iff by blast
  then show "1 \<le> m" "m \<le> 12" "1 \<le> d" "d \<le> days_in_month leap m" "day_of_year leap m d = n"
    using assms(3) by simp_all
qed

text \<open>The quotients of \<^const>\<open>civil\<close>, with the bounds that make its year count exact.\<close>

lemma civil_parts:
  fixes day :: int
  defines "n400 \<equiv> day div 146097" and "a \<equiv> day mod 146097"
  defines "n100 \<equiv> a div 36524" and "b \<equiv> a mod 36524"
  defines "n4 \<equiv> b div 1461" and "c \<equiv> b mod 1461"
  defines "n1 \<equiv> c div 365" and "d \<equiv> c mod 365"
  shows "day = 146097 * n400 + 36524 * n100 + 1461 * n4 + 365 * n1 + d"
    and "0 \<le> n100" "n100 \<le> 4" "0 \<le> n4" "n4 \<le> 24" "0 \<le> n1" "n1 \<le> 4" "0 \<le> d" "d < 365"
    and "n100 = 4 \<Longrightarrow> n4 = 0 \<and> n1 = 0 \<and> d = 0"
    and "n1 = 4 \<Longrightarrow> d = 0 \<and> (n4 \<noteq> 24)"
proof -
  have e: "day = 146097 * n400 + a" "a = 36524 * n100 + b" "b = 1461 * n4 + c" "c = 365 * n1 + d"
    by (simp_all add: n400_def a_def n100_def b_def n4_def c_def n1_def d_def)
  have r: "0 \<le> a" "a < 146097" "0 \<le> b" "b < 36524" "0 \<le> c" "c < 1461" "0 \<le> d" "d < 365"
    by (simp_all add: a_def b_def c_def d_def)
  from e show "day = 146097 * n400 + 36524 * n100 + 1461 * n4 + 365 * n1 + d" by simp
  show "0 \<le> n100" "n100 \<le> 4" using e(2) r by linarith+
  show "0 \<le> n4" "n4 \<le> 24" using e(3) r by linarith+
  show "0 \<le> n1" "n1 \<le> 4" using e(4) r by linarith+
  show "0 \<le> d" "d < 365" using r by simp_all
  show "n4 = 0 \<and> n1 = 0 \<and> d = 0" if "n100 = 4"
  proof -
    have "b = 0" using that e(2) r by linarith
    then show ?thesis by (simp add: n4_def c_def n1_def d_def)
  qed
  show "d = 0 \<and> n4 \<noteq> 24" if "n1 = 4" using that e(3,4) r by linarith
qed

lemma days_before_year_parts:
  assumes "0 \<le> n100" "n100 \<le> 3" "0 \<le> n4" "n4 \<le> 24" "0 \<le> n1" "n1 \<le> (3::int)"
  shows "days_before_year (n400 * 400 + 1 + n100 * 100 + n4 * 4 + n1)
    = 146097 * n400 + 36524 * n100 + 1461 * n4 + 365 * n1"
proof -
  let ?p = "n400 * 400 + n100 * 100 + n4 * 4 + n1"
  have "?p div 4 = 100 * n400 + 25 * n100 + n4"
    by (rule int_div_pos_eq [where r = n1]) (use assms in auto)
  moreover have "?p div 100 = 4 * n400 + n100"
    by (rule int_div_pos_eq [where r = "n4 * 4 + n1"]) (use assms in auto)
  moreover have "?p div 400 = n400"
    by (rule int_div_pos_eq [where r = "n100 * 100 + n4 * 4 + n1"]) (use assms in auto)
  ultimately show ?thesis by (simp add: days_before_year_def Let_def algebra_simps)
qed

lemma leap_parts:
  assumes "0 \<le> n100" "n100 \<le> 3" "0 \<le> n4" "n4 \<le> 24" "0 \<le> n1" "n1 \<le> (3::int)"
  shows "is_leap (n400 * 400 + 1 + n100 * 100 + n4 * 4 + n1) = (n1 = 3 \<and> (n4 \<noteq> 24 \<or> n100 = 3))"
proof -
  let ?y = "n400 * 400 + 1 + n100 * 100 + n4 * 4 + n1"
  have m4: "?y mod 4 = (n1 + 1) mod 4"
  proof -
    have "?y = (n1 + 1) + 4 * (n400 * 100 + n100 * 25 + n4)" by simp
    then show ?thesis by (metis mod_mult_self2)
  qed
  have m100: "?y mod 100 = (n4 * 4 + n1 + 1) mod 100"
  proof -
    have "?y = (n4 * 4 + n1 + 1) + 100 * (n400 * 4 + n100)" by simp
    then show ?thesis by (metis mod_mult_self2)
  qed
  have m400: "?y mod 400 = (n100 * 100 + n4 * 4 + n1 + 1) mod 400"
  proof -
    have "?y = (n100 * 100 + n4 * 4 + n1 + 1) + 400 * n400" by simp
    then show ?thesis by (metis mod_mult_self2)
  qed
  have "(n1 + 1) mod 4 = 0 \<longleftrightarrow> n1 = 3"
    using assms by (cases "n1 = 3") auto
  moreover have "(n4 * 4 + n1 + 1) mod 100 = 0 \<longleftrightarrow> n4 = 24 \<and> n1 = 3"
  proof (cases "n4 = 24 \<and> n1 = 3")
    case False
    then have "0 < n4 * 4 + n1 + 1" "n4 * 4 + n1 + 1 < 100" using assms by auto
    with False show ?thesis by simp
  qed auto
  moreover have "(n100 * 100 + n4 * 4 + n1 + 1) mod 400 = 0 \<longleftrightarrow> n100 = 3 \<and> n4 = 24 \<and> n1 = 3"
  proof (cases "n100 = 3 \<and> n4 = 24 \<and> n1 = 3")
    case False
    then have "0 < n100 * 100 + n4 * 4 + n1 + 1" "n100 * 100 + n4 * 4 + n1 + 1 < 400" using assms by auto
    with False show ?thesis by simp
  qed auto
  ultimately show ?thesis unfolding is_leap_def m4 m100 m400 by auto
qed

lemma civil_valid:
  assumes "civil day = (y, m, d)"
  shows "valid_date y m d" "day_number y m d = day"
proof -
  define n400 a n100 b n4 c n1 r where defs: "n400 = day div 146097" "a = day mod 146097" "n100 = a div 36524"
    "b = a mod 36524" "n4 = b div 1461" "c = b mod 1461" "n1 = c div 365" "r = c mod 365"
  note parts = civil_parts [of day, folded defs, folded defs(3-4), folded defs(5-6), folded defs(7-8)]
  have civ: "civil day = (let yy = n400 * 400 + 1 + n100 * 100 + n4 * 4 + n1 in
     if n1 = 4 \<or> n100 = 4 then (yy - 1, 12, 31) else (yy, month_day (n1 = 3 \<and> (n4 \<noteq> 24 \<or> n100 = 3)) r))"
    by (simp add: civil_def Let_def defs)
  have goal: "valid_date y m d \<and> day_number y m d = day"
  proof -
    consider (century) "n100 = 4" | (leap_end) "n100 \<noteq> 4" "n1 = 4" | (plain) "n100 \<noteq> 4" "n1 \<noteq> 4" by blast
    then show ?thesis
    proof cases
      case century
      then have z: "n4 = 0" "n1 = 0" "r = 0" using parts(10) by simp_all
      then have y: "y = n400 * 400 + 1 + 3 * 100 + 24 * 4 + 3" "m = 12" "d = 31"
        using assms century by (simp_all add: civ Let_def)
      have "is_leap y" using leap_parts [of 3 24 3 n400] by (simp add: y)
      moreover have "days_before_year y = 146097 * n400 + 36524 * 3 + 1461 * 24 + 365 * 3"
        unfolding y using days_before_year_parts [of 3 24 3 n400] by simp
      ultimately show ?thesis
        using parts(1) century z
        by (simp add: valid_date_def y(2,3) days_in_month_def day_number_alt day_of_year_def days_before_month_def
            eval_nat_numeral)
    next
      case leap_end
      then have z: "r = 0" "n4 \<noteq> 24" using parts(11) by simp_all
      then have y: "y = n400 * 400 + 1 + n100 * 100 + n4 * 4 + 3" "m = 12" "d = 31"
        using assms leap_end by (simp_all add: civ Let_def)
      have b: "0 \<le> n100" "n100 \<le> 3" "0 \<le> n4" "n4 \<le> 24" using parts(2-5) leap_end by simp_all
      have "is_leap y" unfolding y using leap_parts [OF b, of 3 n400] z by simp
      moreover have "days_before_year y = 146097 * n400 + 36524 * n100 + 1461 * n4 + 365 * 3"
        unfolding y using days_before_year_parts [OF b, of 3 n400] by simp
      ultimately show ?thesis
        using parts(1) leap_end z
        by (simp add: valid_date_def y(2,3) days_in_month_def day_number_alt day_of_year_def days_before_month_def
            eval_nat_numeral)
    next
      case plain
      then have b: "0 \<le> n100" "n100 \<le> 3" "0 \<le> n4" "n4 \<le> 24" "0 \<le> n1" "n1 \<le> 3" using parts(2-7) by simp_all
      have y: "y = n400 * 400 + 1 + n100 * 100 + n4 * 4 + n1"
        and md: "month_day (is_leap y) r = (m, d)"
        using assms plain leap_parts [OF b, of n400] by (simp_all add: civ Let_def)
      have "r \<le> 364" using parts(9) by simp
      note v = month_day_valid [OF parts(8) this md]
      have "days_before_year y = 146097 * n400 + 36524 * n100 + 1461 * n4 + 365 * n1"
        unfolding y by (rule days_before_year_parts [OF b])
      with v parts(1) show ?thesis by (simp add: valid_date_def day_number_alt)
    qed
  qed
  then show "valid_date y m d" "day_number y m d = day" by simp_all
qed

lemma civil_order:
  assumes "civil day = (y, m, d)" "civil day' = (y', m', d')" "day < day'"
  shows "y < y' \<or> y = y' \<and> (m < m' \<or> m = m' \<and> d < d')"
proof (rule ccontr)
  assume "\<not> ?thesis"
  then have "(y', m', d') = (y, m, d) \<or> (y', m', d') \<noteq> (y, m, d) \<and> (y' < y \<or> y' = y \<and> (m' < m \<or> m' = m \<and> d' < d))"
    by auto
  then show False
    using day_number_less [of y' m' d' y m d] civil_valid [OF assms(1)] civil_valid [OF assms(2)] assms(3) by auto
qed

section \<open>Fixed-width numbers\<close>

lemma append_less:
  fixes a b :: "'a::linorder list"
  assumes "length a = length b"
  shows "a @ x < b @ y \<longleftrightarrow> a < b \<or> a = b \<and> x < y"
  using assms by (induction a b rule: list_induct2) (auto simp: Cons_less_Cons)

fun digits :: "nat \<Rightarrow> nat \<Rightarrow> string" where
  "digits 0 n = []"
| "digits (Suc w) n = digits w (n div 10) @ [digit_char (n mod 10)]"

lemma length_digits [simp]: "length (digits w n) = w"
  by (induction w arbitrary: n) auto

lemma digits_0: "digits w 0 = replicate w (CHR ''0'')"
proof (induction w)
  case (Suc w)
  have "digit_char 0 = CHR ''0''" by (simp add: digit_char_def char_of_def bit_iff_odd)
  with Suc show ?case by (simp add: replicate_append_same)
qed simp

lemma length_nat_text: "n < 10 ^ w \<Longrightarrow> 0 < w \<Longrightarrow> length (nat_text n) \<le> w"
proof (induction w arbitrary: n)
  case (Suc w)
  show ?case
  proof (cases "n < 10")
    case False
    then have "n div 10 < 10 ^ w" "0 < w" using Suc.prems by (auto intro: gr0I)
    then have "length (nat_text (n div 10)) \<le> w" by (rule Suc.IH)
    with False show ?thesis by (simp add: nat_text.simps [of n])
  qed (simp add: nat_text.simps [of n])
qed simp

lemma digits_nat_text: "n < 10 ^ w \<Longrightarrow> 0 < w \<Longrightarrow> digits w n = replicate (w - length (nat_text n)) (CHR ''0'') @ nat_text n"
proof (induction w arbitrary: n)
  case (Suc w)
  show ?case
  proof (cases "n < 10")
    case True
    then show ?thesis by (simp add: nat_text.simps [of n] digits_0)
  next
    case False
    then have "n div 10 < 10 ^ w" "0 < w" using Suc.prems by (auto intro: gr0I)
    with False show ?thesis using Suc.IH [of "n div 10"] by (simp add: nat_text.simps [of n])
  qed
qed simp

lemma pad_digits: "0 \<le> i \<Longrightarrow> i < 10 ^ w \<Longrightarrow> 0 < w \<Longrightarrow> pad w i = digits w (nat i)"
proof -
  assume i: "0 \<le> i" "i < 10 ^ w" "0 < w"
  then have "nat i < 10 ^ w"
    by (metis nat_less_iff of_nat_numeral of_nat_power)
  from digits_nat_text [OF this i(3)] show ?thesis by (simp add: pad_def Let_def)
qed

lemma digit_char_less: "d < 10 \<Longrightarrow> e < 10 \<Longrightarrow> digit_char d < digit_char e \<longleftrightarrow> d < e"
  by (simp add: less_char_def digit_char_def)

lemma digit_char_eq: "d < 10 \<Longrightarrow> e < 10 \<Longrightarrow> digit_char d = digit_char e \<longleftrightarrow> d = e"
  by (metis digit_char_less nat_neq_iff)

lemma digits_less:
  "n < 10 ^ w \<Longrightarrow> m < 10 ^ w \<Longrightarrow> (digits w n < digits w m \<longleftrightarrow> n < m) \<and> (digits w n = digits w m \<longleftrightarrow> n = m)"
proof (induction w arbitrary: n m)
  case (Suc w)
  then have b: "n div 10 < 10 ^ w" "m div 10 < 10 ^ w" by auto
  have e: "n = 10 * (n div 10) + n mod 10" "m = 10 * (m div 10) + m mod 10" "n mod 10 < 10" "m mod 10 < 10"
    by simp_all
  have "n < m \<longleftrightarrow> n div 10 < m div 10 \<or> n div 10 = m div 10 \<and> n mod 10 < m mod 10"
    using e by linarith
  moreover have "n = m \<longleftrightarrow> n div 10 = m div 10 \<and> n mod 10 = m mod 10"
    by (metis e(1,2))
  ultimately show ?case
    using Suc.IH [OF b] by (auto simp: append_less digit_char_less digit_char_eq)
qed simp

lemma pad_less:
  assumes "0 \<le> i" "i < 10 ^ w" "0 \<le> j" "j < 10 ^ w" "0 < w"
  shows "pad w i < pad w j \<longleftrightarrow> i < j" "pad w i = pad w j \<longleftrightarrow> i = j" "length (pad w i) = w"
proof -
  have b: "nat i < 10 ^ w" "nat j < 10 ^ w"
    using assms by (metis nat_less_iff of_nat_numeral of_nat_power)+
  show "pad w i < pad w j \<longleftrightarrow> i < j" "pad w i = pad w j \<longleftrightarrow> i = j" "length (pad w i) = w"
    using digits_less [OF b] assms by (auto simp: pad_digits)
qed

section \<open>The order of texts of instants\<close>

text \<open>Instants whose UTC date lies in the years 1 to 9999, which are those the library can represent.\<close>

definition representable :: "int \<Rightarrow> bool" where
  "representable t = (0 \<le> t \<and> t < 3652059 * 86400000000)"

definition date_text :: "int \<Rightarrow> string" where
  "date_text day = (let (y, m, d) = civil day in pad 4 y @ ''-'' @ pad 2 m @ ''-'' @ pad 2 d @ ''T'')"

definition fraction_text :: "int \<Rightarrow> string" where
  "fraction_text f = (if f = 0 then '''' else ''.'' @ pad 6 f) @ ''+00:00''"

definition clock_text :: "int \<Rightarrow> string" where
  "clock_text us = (let s = us div 1000000 in
     pad 2 (s div 3600) @ '':'' @ pad 2 (s div 60 mod 60) @ '':'' @ pad 2 (s mod 60) @
     fraction_text (us mod 1000000))"

lemma utc_isoformat_texts:
  "utc_isoformat v = date_text (instant v div 86400000000) @ clock_text (instant v mod 86400000000)"
  unfolding utc_isoformat_def date_text_def clock_text_def fraction_text_def Let_def
  by (simp only: split_def append_assoc append_Cons append_Nil)

lemma civil_year:
  assumes "civil day = (y, m, d)" "0 \<le> day" "day < 3652059"
  shows "1 \<le> y" "y \<le> 9999"
proof -
  note v = civil_valid [OF assms(1)]
  have b: "0 \<le> day_of_year (is_leap y) m d" "day_of_year (is_leap y) m d < 365 + (if is_leap y then 1 else 0)"
    using v(1) day_of_year_bounds [of m d "is_leap y"] by (simp_all add: valid_date_def)
  have day: "day = days_before_year y + day_of_year (is_leap y) m d" using v(2) by (simp add: day_number_alt)
  have l: "days_before_year 1 = 0" "days_before_year 10000 = 3652059" by (simp_all add: days_before_year_def)
  show "1 \<le> y"
  proof (rule ccontr)
    assume "\<not> 1 \<le> y"
    then have "days_before_year y + 365 + (if is_leap y then 1 else 0) \<le> 0"
      using days_before_year_less [of y 1] l(1) by simp
    with b day assms(2) show False by linarith
  qed
  show "y \<le> 9999"
  proof (rule ccontr)
    assume "\<not> y \<le> 9999"
    then have "3652059 \<le> days_before_year y" using days_before_year_mono [of 10000 y] l(2) by simp
    with b day assms(3) show False by linarith
  qed
qed

lemma date_text_order:
  assumes "0 \<le> day" "day < day'" "day' < 3652059"
  shows "date_text day < date_text day'" "length (date_text day) = length (date_text day')"
proof -
  obtain y m d y' m' d' where c: "civil day = (y, m, d)" "civil day' = (y', m', d')"
    by (metis prod_cases3)
  have b: "1 \<le> m \<and> m \<le> 12 \<and> 1 \<le> d \<and> d \<le> days_in_month (is_leap y) m"
    "1 \<le> m' \<and> m' \<le> 12 \<and> 1 \<le> d' \<and> d' \<le> days_in_month (is_leap y') m'"
    using civil_valid(1) [OF c(1)] civil_valid(1) [OF c(2)] by (simp_all add: valid_date_def)
  have dim: "days_in_month l k \<le> 31" if "1 \<le> k" "k \<le> 12" for l k
    using months [OF that] by (auto simp: days_in_month_def eval_nat_numeral)
  have y: "0 \<le> y" "y < 10 ^ 4" "0 \<le> y'" "y' < 10 ^ 4"
    using civil_year [OF c(1)] civil_year [OF c(2)] assms by simp_all
  have m: "0 \<le> m" "m < 10 ^ 2" "0 \<le> m'" "m' < 10 ^ 2" using b by simp_all
  have "days_in_month (is_leap y) m \<le> 31" "days_in_month (is_leap y') m' \<le> 31" using b dim by simp_all
  then have d: "0 \<le> d" "d < 10 ^ 2" "0 \<le> d'" "d' < 10 ^ 2" using b by simp_all
  note p = pad_less [OF y] pad_less [OF m] pad_less [OF d]
    pad_less(3) [OF y(3,4) y(1,2)] pad_less(3) [OF m(3,4) m(1,2)] pad_less(3) [OF d(3,4) d(1,2)]
  show "length (date_text day) = length (date_text day')"
    by (simp add: date_text_def c p)
  show "date_text day < date_text day'"
    using civil_order [OF c assms(2)] by (auto simp: date_text_def c append_less p)
qed

lemma fraction_order:
  assumes "0 \<le> f" "f < g" "g < 10 ^ 6"
  shows "fraction_text f < fraction_text g"
proof (cases "f = 0")
  case True
  then show ?thesis using assms by (simp add: fraction_text_def Cons_less_Cons less_char_def)
next
  case False
  have "0 \<le> g" "f < 10 ^ 6" using assms by simp_all
  with assms False pad_less [of f 6 g] pad_less(3) [of g 6 f] show ?thesis
    by (simp add: fraction_text_def Cons_less_Cons append_less)
qed

lemma clock_bounds:
  fixes us :: int
  assumes "0 \<le> us" "us < 86400000000"
  shows "0 \<le> us div 1000000" "us div 1000000 < 86400"
    "0 \<le> us div 1000000 div 3600" "us div 1000000 div 3600 < 10 ^ 2"
    "0 \<le> us div 1000000 div 60 mod 60" "us div 1000000 div 60 mod 60 < 10 ^ 2"
    "0 \<le> us div 1000000 mod 60" "us div 1000000 mod 60 < 10 ^ 2"
    "0 \<le> us mod 1000000" "us mod 1000000 < 10 ^ 6"
proof -
  let ?s = "us div 1000000"
  show s: "0 \<le> ?s" "?s < 86400" using assms by (simp_all add: pos_imp_zdiv_nonneg_iff div_less_iff_less_mult)
  then show "0 \<le> ?s div 3600" by (simp add: pos_imp_zdiv_nonneg_iff)
  have "?s = 3600 * (?s div 3600) + ?s mod 3600" "0 \<le> ?s mod 3600" by simp_all
  then have "?s div 3600 < 24" using s by linarith
  then show "?s div 3600 < 10 ^ 2" by simp
  have "?s div 60 mod 60 < 60" "?s mod 60 < 60" by simp_all
  then show "?s div 60 mod 60 < 10 ^ 2" "?s mod 60 < 10 ^ 2" by simp_all
  show "0 \<le> ?s div 60 mod 60" "0 \<le> ?s mod 60" "0 \<le> us mod 1000000" "us mod 1000000 < 10 ^ 6" by simp_all
qed

lemma radix_less:
  fixes a k :: int
  assumes "0 < k" "a < b"
  shows "a div k < b div k \<or> a div k = b div k \<and> a mod k < b mod k"
proof (rule ccontr)
  assume "\<not> ?thesis"
  then consider "b div k < a div k" | "a div k = b div k" "b mod k \<le> a mod k" by fastforce
  then show False
  proof cases
    case 1
    then show ?thesis using zdiv_mono1 [of a b k] assms by simp
  next
    case 2
    then have "k * (a div k) = k * (b div k)" by simp
    then show ?thesis using 2 mult_div_mod_eq [of k a] mult_div_mod_eq [of k b] assms(2) by linarith
  qed
qed

lemma clock_less:
  fixes a b :: int
  assumes "a < b"
  shows "a div 3600 < b div 3600 \<or> a div 3600 = b div 3600 \<and>
    (a div 60 mod 60 < b div 60 mod 60 \<or> a div 60 mod 60 = b div 60 mod 60 \<and> a mod 60 < b mod 60)"
proof -
  have d: "x div 60 div 60 = x div 3600" for x :: int by (simp add: zdiv_zmult2_eq [symmetric])
  from radix_less [of 60, OF _ assms] have "a div 60 < b div 60 \<or> a div 60 = b div 60 \<and> a mod 60 < b mod 60" by simp
  then show ?thesis
  proof
    assume "a div 60 < b div 60"
    from radix_less [of 60, OF _ this] show ?thesis by (auto simp: d)
  next
    assume "a div 60 = b div 60 \<and> a mod 60 < b mod 60"
    moreover from this have "a div 3600 = b div 3600" by (metis d)
    ultimately show ?thesis by simp
  qed
qed

lemma clock_fields_less:
  assumes h: "0 \<le> h" "h < 10 ^ 2" "0 \<le> h'" "h' < 10 ^ 2" and m: "0 \<le> m" "m < 10 ^ 2" "0 \<le> m'" "m' < 10 ^ 2"
    and c: "0 \<le> c" "c < 10 ^ 2" "0 \<le> c'" "c' < 10 ^ 2" and f: "0 \<le> f" "f' < 10 ^ 6"
    and "h < h' \<or> h = h' \<and> (m < m' \<or> m = m' \<and> (c < c' \<or> c = c' \<and> f < f'))"
  shows "pad 2 h @ '':'' @ pad 2 m @ '':'' @ pad 2 c @ fraction_text f
    < pad 2 h' @ '':'' @ pad 2 m' @ '':'' @ pad 2 c' @ fraction_text f'"
proof -
  note p = pad_less [OF h] pad_less [OF m] pad_less [OF c]
    pad_less(3) [OF h(3,4,1,2)] pad_less(3) [OF m(3,4,1,2)] pad_less(3) [OF c(3,4,1,2)]
  have "f < f' \<Longrightarrow> fraction_text f < fraction_text f'" using fraction_order f by simp
  with assms(15) show ?thesis by (auto simp: append_less p)
qed

lemma clock_text_order:
  assumes "0 \<le> us" "us < us'" "us' < 86400000000"
  shows "clock_text us < clock_text us'"
proof -
  have u: "0 \<le> us" "us < 86400000000" and u': "0 \<le> us'" "us' < 86400000000" using assms by simp_all
  note b = clock_bounds [OF u] and b' = clock_bounds [OF u']
  let ?s = "us div 1000000" and ?s' = "us' div 1000000"
  let ?h = "?s div 3600" and ?h' = "?s' div 3600" and ?m = "?s div 60 mod 60" and ?m' = "?s' div 60 mod 60"
  let ?c = "?s mod 60" and ?c' = "?s' mod 60" and ?f = "us mod 1000000" and ?f' = "us' mod 1000000"
  have "?s < ?s' \<or> ?s = ?s' \<and> ?f < ?f'" using radix_less [of 1000000, OF _ assms(2)] by simp
  then have lex: "?h < ?h' \<or> ?h = ?h' \<and> (?m < ?m' \<or> ?m = ?m' \<and> (?c < ?c' \<or> ?c = ?c' \<and> ?f < ?f'))"
    using clock_less [of ?s ?s'] by metis
  show ?thesis
    unfolding clock_text_def Let_def
    by (rule clock_fields_less [OF b(3,4) b'(3,4) b(5,6) b'(5,6) b(7,8) b'(7,8) b(9) b'(10) lex])
qed

lemma iso_less:
  assumes "representable (instant a)" "representable (instant b)" "instant a < instant b"
  shows "utc_isoformat a < utc_isoformat b"
proof -
  let ?da = "instant a div 86400000000" and ?db = "instant b div 86400000000"
  let ?ua = "instant a mod 86400000000" and ?ub = "instant b mod 86400000000"
  have e: "instant a = 86400000000 * ?da + ?ua" "instant b = 86400000000 * ?db + ?ub"
    "0 \<le> ?ua" "?ua < 86400000000" "0 \<le> ?ub" "?ub < 86400000000" by simp_all
  have d: "0 \<le> ?da" "?db < 3652059"
    using assms(1,2) by (auto simp: representable_def pos_imp_zdiv_nonneg_iff div_less_iff_less_mult)
  have "?da < ?db \<or> ?da = ?db \<and> ?ua < ?ub" using e assms(3) by linarith
  then show ?thesis
  proof
    assume lt: "?da < ?db"
    from date_text_order [OF d(1) lt d(2)] show ?thesis
      by (simp add: utc_isoformat_texts append_less)
  next
    assume "?da = ?db \<and> ?ua < ?ub"
    then show ?thesis using clock_text_order [of ?ua ?ub] e by (simp add: utc_isoformat_texts append_less)
  qed
qed

lemma iso_order:
  assumes "representable (instant a)" "representable (instant b)"
  shows "utc_isoformat a < utc_isoformat b \<longleftrightarrow> instant a < instant b"
    "utc_isoformat a \<le> utc_isoformat b \<longleftrightarrow> instant a \<le> instant b"
    "utc_isoformat a = utc_isoformat b \<longleftrightarrow> instant a = instant b"
proof -
  have "utc_isoformat a < utc_isoformat b" if "instant a < instant b" by (rule iso_less [OF assms that])
  moreover have "utc_isoformat b < utc_isoformat a" if "instant b < instant a" by (rule iso_less [OF assms(2,1) that])
  moreover have "utc_isoformat a = utc_isoformat b" if "instant a = instant b"
    using that by (rule utc_isoformat_instant)
  ultimately show "utc_isoformat a < utc_isoformat b \<longleftrightarrow> instant a < instant b"
    "utc_isoformat a \<le> utc_isoformat b \<longleftrightarrow> instant a \<le> instant b"
    "utc_isoformat a = utc_isoformat b \<longleftrightarrow> instant a = instant b"
    by (metis less_irrefl less_linear less_trans, metis leD le_less less_linear not_le,
        metis less_irrefl less_linear)
qed

section \<open>Reading a timestamp back\<close>

text \<open>
  \<open>datetime.fromisoformat\<close> on the one format the repository writes, a date, a time and an optional
  six-digit fraction in UTC. Texts of other shapes, which the library partly accepts, are
  refused here; the program applies it to columns that it wrote itself.
\<close>

definition digit_value :: "char \<Rightarrow> nat option" where
  "digit_value c = (let n = of_char c :: nat in if 48 \<le> n \<and> n \<le> 57 then Some (n - 48) else None)"

fun read_nat :: "nat \<Rightarrow> string \<Rightarrow> nat option" where
  "read_nat acc [] = Some acc"
| "read_nat acc (c # s) = (case digit_value c of None \<Rightarrow> None | Some d \<Rightarrow> read_nat (10 * acc + d) s)"

definition iso_fields :: "string \<Rightarrow> (string list \<times> string) option" where
  "iso_fields s =
     (let rest = drop 19 s; fractional = (take 1 rest = ''.'');
          f = (if fractional then take 6 (drop 1 rest) else ''000000'');
          zone = (if fractional then drop 7 rest else rest)
      in if 19 \<le> length s \<and> s ! 4 = CHR ''-'' \<and> s ! 7 = CHR ''-'' \<and> s ! 10 = CHR ''T'' \<and>
            s ! 13 = CHR '':'' \<and> s ! 16 = CHR '':'' \<and> length f = 6
         then Some ([take 4 s, take 2 (drop 5 s), take 2 (drop 8 s), take 2 (drop 11 s), take 2 (drop 14 s),
                     take 2 (drop 17 s), f], zone)
         else None)"

definition fromisoformat :: "string \<Rightarrow> pydatetime result" where
  "fromisoformat s =
     (case iso_fields s of
        Some ([ty, tm, td, th, tn, tc, tf], zone) \<Rightarrow>
          (case (read_nat 0 ty, read_nat 0 tm, read_nat 0 td, read_nat 0 th, read_nat 0 tn, read_nat 0 tc, read_nat 0 tf) of
             (Some y, Some m, Some d, Some h, Some n, Some c, Some f) \<Rightarrow>
               if 1 \<le> y \<and> valid_date (int y) (int m) (int d) \<and> h < 24 \<and> n < 60 \<and> c < 60 \<and> zone = ''+00:00''
               then Inr (utc (86400000000 * day_number (int y) (int m) (int d) +
                      1000000 * (3600 * int h + 60 * int n + int c) + int f))
               else Inl (ValueError ''Invalid isoformat string'')
           | _ \<Rightarrow> Inl (ValueError ''Invalid isoformat string''))
      | _ \<Rightarrow> Inl (ValueError ''Invalid isoformat string''))"

lemma digit_value_char: "d < 10 \<Longrightarrow> digit_value (digit_char d) = Some d"
  by (simp add: digit_value_def digit_char_def)

lemma read_nat_append: "read_nat acc (s @ t) = (case read_nat acc s of None \<Rightarrow> None | Some n \<Rightarrow> read_nat n t)"
  by (induction s arbitrary: acc) (auto split: option.split)

lemma read_digits: "n < 10 ^ w \<Longrightarrow> read_nat acc (digits w n) = Some (acc * 10 ^ w + n)"
proof (induction w arbitrary: acc n)
  case (Suc w)
  then have "n div 10 < 10 ^ w" by auto
  with Suc.IH have "read_nat acc (digits w (n div 10)) = Some (acc * 10 ^ w + n div 10)" by blast
  then show ?case by (simp add: read_nat_append digit_value_char algebra_simps)
qed simp

lemma read_pad: "0 \<le> i \<Longrightarrow> i < 10 ^ w \<Longrightarrow> 0 < w \<Longrightarrow> read_nat 0 (pad w i) = Some (nat i)"
proof -
  assume i: "0 \<le> i" "i < 10 ^ w" "0 < w"
  then have "nat i < 10 ^ w" by (metis nat_less_iff of_nat_numeral of_nat_power)
  then show ?thesis using read_digits [of "nat i" w 0] by (simp add: pad_digits [OF i])
qed

lemma pad_length: "0 \<le> i \<Longrightarrow> i < 10 ^ w \<Longrightarrow> 0 < w \<Longrightarrow> length (pad w i) = w"
  by (rule pad_less(3) [where j = i])

lemma length_Suc4: "length s = 4 \<Longrightarrow> \<exists>a b c d. s = [a, b, c, d]"
  by (auto simp: length_Suc_conv eval_nat_numeral)

lemma length_Suc2: "length s = 2 \<Longrightarrow> \<exists>a b. s = [a, b]"
  by (auto simp: length_Suc_conv eval_nat_numeral)

lemma iso_fields_texts:
  assumes "length y = 4" "length m = 2" "length d = 2" "length h = 2" "length n = 2" "length c = 2"
    and "0 \<le> f" "f < 10 ^ 6"
  shows "iso_fields (y @ ''-'' @ m @ ''-'' @ d @ ''T'' @ h @ '':'' @ n @ '':'' @ c @ fraction_text f)
    = Some ([y, m, d, h, n, c, pad 6 f], ''+00:00'')"
proof -
  obtain y1 y2 y3 y4 m1 m2 d1 d2 h1 h2 n1 n2 c1 c2 where
    e: "y = [y1, y2, y3, y4]" "m = [m1, m2]" "d = [d1, d2]" "h = [h1, h2]" "n = [n1, n2]" "c = [c1, c2]"
    using length_Suc4 [OF assms(1)] length_Suc2 [OF assms(2)] length_Suc2 [OF assms(3)]
      length_Suc2 [OF assms(4)] length_Suc2 [OF assms(5)] length_Suc2 [OF assms(6)] by blast
  have "length (pad 6 f) = 6" using pad_less(3) [of f 6 f] assms(7,8) by simp
  moreover have "replicate 6 (CHR ''0'') = ''000000''" by (simp add: eval_nat_numeral)
  then have "f = 0 \<Longrightarrow> pad 6 f = ''000000''"
    using pad_digits [of 0 6] digits_0 [of 6] by simp
  ultimately show ?thesis
    by (cases "f = 0") (simp_all add: e iso_fields_def fraction_text_def Let_def)
qed

lemma fromisoformat_utc:
  assumes "representable (instant v)"
  shows "fromisoformat (utc_isoformat v) = Inr (utc (instant v))"
proof -
  let ?day = "instant v div 86400000000" and ?us = "instant v mod 86400000000"
  let ?s = "?us div 1000000"
  obtain y m d where c: "civil ?day = (y, m, d)" by (metis prod_cases3)
  have day: "0 \<le> ?day" "?day < 3652059"
    using assms by (auto simp: representable_def pos_imp_zdiv_nonneg_iff div_less_iff_less_mult)
  have us: "0 \<le> ?us" "?us < 86400000000" by simp_all
  note b = clock_bounds [OF us]
  note v = civil_valid [OF c] and y = civil_year [OF c day]
  have md: "1 \<le> m" "m \<le> 12" "1 \<le> d" "d \<le> days_in_month (is_leap y) m" using v(1) by (simp_all add: valid_date_def)
  have "days_in_month (is_leap y) m \<le> 31"
    using months [OF md(1,2)] by (auto simp: days_in_month_def eval_nat_numeral)
  then have r: "0 \<le> y" "y < 10 ^ 4" "0 \<le> m" "m < 10 ^ 2" "0 \<le> d" "d < 10 ^ 2" using y md by simp_all
  have h: "?s div 3600 < 24"
  proof -
    have "?s = 3600 * (?s div 3600) + ?s mod 3600" "0 \<le> ?s mod 3600" by simp_all
    then show ?thesis using b(2) by linarith
  qed
  have s: "?s = 3600 * (?s div 3600) + 60 * (?s div 60 mod 60) + ?s mod 60"
  proof -
    have d: "x div 60 div 60 = x div 3600" for x :: int by (simp add: zdiv_zmult2_eq [symmetric])
    have "?s div 60 = 60 * (?s div 60 div 60) + ?s div 60 mod 60" "?s = 60 * (?s div 60) + ?s mod 60"
      by (simp_all only: mult_div_mod_eq)
    then show ?thesis unfolding d by linarith
  qed
  have t: "instant v = 86400000000 * ?day + (1000000 * ?s + ?us mod 1000000)"
    by (simp only: mult_div_mod_eq)
  define H N C F where HNCF: "H = ?s div 3600" "N = ?s div 60 mod 60" "C = ?s mod 60" "F = ?us mod 1000000"
  have b1: "0 \<le> H" "H < 10 ^ 2" "0 \<le> N" "N < 10 ^ 2" "0 \<le> C" "C < 10 ^ 2" "0 \<le> F" "F < 10 ^ 6"
    unfolding HNCF by (fact b)+
  have b2: "N < 60" "C < 60" unfolding HNCF by (rule pos_mod_bound, rule zero_less_numeral)+
  have b3: "H < 24" unfolding HNCF by (fact h)
  note b' = b1 b2 b3
  have time: "instant v = 86400000000 * ?day + (1000000 * (3600 * H + 60 * N + C) + F)"
    unfolding HNCF by (simp only: s [symmetric] t [symmetric])
  have "utc_isoformat v = pad 4 y @ ''-'' @ pad 2 m @ ''-'' @ pad 2 d @ ''T'' @ pad 2 H @ '':'' @ pad 2 N @ '':'' @
      pad 2 C @ fraction_text F"
    by (simp add: utc_isoformat_texts date_text_def clock_text_def Let_def c HNCF)
  moreover have "iso_fields \<dots> = Some ([pad 4 y, pad 2 m, pad 2 d, pad 2 H, pad 2 N, pad 2 C, pad 6 F], ''+00:00'')"
    by (rule iso_fields_texts) (simp_all only: pad_length r b' zero_less_numeral)
  ultimately have f: "iso_fields (utc_isoformat v) =
      Some ([pad 4 y, pad 2 m, pad 2 d, pad 2 H, pad 2 N, pad 2 C, pad 6 F], ''+00:00'')" by simp
  have val: "86400000000 * day_number y m d + 1000000 * (3600 * H + 60 * N + C) + F = instant v"
    by (simp only: v(2) time [symmetric] add.assoc [of "86400000000 * ?day"])
  have reads: "read_nat 0 (pad 4 y) = Some (nat y)" "read_nat 0 (pad 2 m) = Some (nat m)"
    "read_nat 0 (pad 2 d) = Some (nat d)" "read_nat 0 (pad 2 H) = Some (nat H)" "read_nat 0 (pad 2 N) = Some (nat N)"
    "read_nat 0 (pad 2 C) = Some (nat C)" "read_nat 0 (pad 6 F) = Some (nat F)"
    by (simp_all only: read_pad r b' zero_less_numeral)
  have ints: "int (nat y) = y" "int (nat m) = m" "int (nat d) = d" "int (nat H) = H" "int (nat N) = N"
    "int (nat C) = C" "int (nat F) = F"
    using r b' by simp_all
  have ranges: "1 \<le> nat y" "nat H < 24" "nat N < 60" "nat C < 60" using y b' by simp_all
  show ?thesis
    unfolding fromisoformat_def f by (simp only: option.case list.case prod.case reads ints ranges v(1) val simp_thms if_True)
qed

section \<open>One text is no prefix of another\<close>

lemma digit_not_plus: "d < 10 \<Longrightarrow> digit_char d \<noteq> CHR ''+''"
proof
  assume "d < 10" and "digit_char d = CHR ''+''"
  then have "(of_char (digit_char d) :: nat) = 43" by simp
  with \<open>d < 10\<close> show False by (simp add: digit_char_def)
qed

lemma pad_no_plus: "CHR ''+'' \<notin> set (pad w i)"
  using nat_text_digits [of "CHR ''+''" "nat i"] by (auto simp: pad_def Let_def) (metis digit_not_plus)

lemma iso_shape: "\<exists>p. utc_isoformat v = p @ ''+00:00'' \<and> CHR ''+'' \<notin> set p"
proof -
  have date: "CHR ''+'' \<notin> set (date_text day)" for day
    by (auto simp: date_text_def pad_no_plus split: prod.split)
  let ?us = "instant v mod 86400000000" and ?day = "instant v div 86400000000"
  let ?s = "?us div 1000000" and ?f = "?us mod 1000000"
  let ?p = "date_text ?day @ pad 2 (?s div 3600) @ '':'' @ pad 2 (?s div 60 mod 60) @ '':'' @ pad 2 (?s mod 60) @
    (if ?f = 0 then '''' else ''.'' @ pad 6 ?f)"
  have "utc_isoformat v = ?p @ ''+00:00''"
    by (simp add: utc_isoformat_texts clock_text_def fraction_text_def Let_def)
  moreover have "CHR ''+'' \<notin> set ?p" using date pad_no_plus by auto
  ultimately show ?thesis by blast
qed

lemma iso_prefix_free:
  assumes "utc_isoformat b = utc_isoformat a @ zs"
  shows "zs = []"
proof -
  obtain p q where p: "utc_isoformat a = p @ ''+00:00''" "CHR ''+'' \<notin> set p"
    and q: "utc_isoformat b = q @ ''+00:00''" "CHR ''+'' \<notin> set q" by (metis iso_shape)
  let ?t = "takeWhile (\<lambda>c. c \<noteq> CHR ''+'')"
  have stop: "?t (p @ CHR ''+'' # us) = p" if "CHR ''+'' \<notin> set p" for p us
    using that by (induction p) auto
  have "?t (p @ ''+00:00'' @ zs) = p" "?t (q @ ''+00:00'') = q"
    using stop [OF p(2), of "''00:00'' @ zs"] stop [OF q(2), of "''00:00''"] by simp_all
  then have "q = p" using assms p(1) q(1) by simp
  then show ?thesis using assms p(1) q(1) by simp
qed

lemma append_less_prefix_free:
  fixes xs ys :: string
  assumes "xs < ys" and "\<And>zs. ys \<noteq> xs @ zs"
  shows "xs @ us < ys @ vs"
  using assms
proof (induction xs arbitrary: ys)
  case Nil
  then show ?case by (metis append_Nil)
next
  case (Cons x xs)
  then obtain y ys' where ys: "ys = y # ys'" by (cases ys) auto
  show ?case
  proof (cases "x = y")
    case True
    then have "xs < ys'" "\<And>zs. ys' \<noteq> xs @ zs" using Cons.prems ys by auto
    then show ?thesis using Cons.IH True ys by simp
  next
    case False
    then show ?thesis using Cons.prems(1) ys by simp
  qed
qed

text \<open>Two joined texts are in the order of their instants, the first one deciding.\<close>

lemma iso_pair_order:
  assumes "representable (instant a)" "representable (instant b)" "representable (instant a')" "representable (instant b')"
  shows "utc_isoformat a @ ''|'' @ utc_isoformat a' < utc_isoformat b @ ''|'' @ utc_isoformat b' \<longleftrightarrow>
    instant a < instant b \<or> instant a = instant b \<and> instant a' < instant b'"
proof -
  have less: "utc_isoformat c @ ''|'' @ us < utc_isoformat d @ ''|'' @ vs" if "utc_isoformat c < utc_isoformat d" for c d us vs
  proof (rule append_less_prefix_free [OF that])
    fix zs show "utc_isoformat d \<noteq> utc_isoformat c @ zs"
      using iso_prefix_free [of d c zs] that by auto
  qed
  consider "instant a < instant b" | "instant a = instant b" | "instant b < instant a" by linarith
  then show ?thesis
  proof cases
    case 1
    then show ?thesis using less iso_order(1) [OF assms(1,2)] by blast
  next
    case 2
    then show ?thesis using iso_order(3) [OF assms(1,2)] iso_order(1) [OF assms(3,4)] by (simp add: append_less)
  next
    case 3
    then have "utc_isoformat b @ ''|'' @ utc_isoformat b' < utc_isoformat a @ ''|'' @ utc_isoformat a'"
      using less iso_order(1) [OF assms(2,1)] by blast
    then have "\<not> utc_isoformat a @ ''|'' @ utc_isoformat a' < utc_isoformat b @ ''|'' @ utc_isoformat b'"
      by (rule less_not_sym)
    then show ?thesis using 3 by simp
  qed
qed

end
