(* ===== verification/SuffRepository.thy ===== *)
theory SuffRepository
  imports SuffEvaluator PyCalendar "HOL-Library.Product_Lexorder"
begin

text \<open>
  \<open>hunter.sufficiency.repository\<close>: the versioned store. A table is the list of its rows in the order of their
  row identifiers, a row an association list from columns to SQL values, the database a
  function from table names to tables. \<open>INSERT ... ON CONFLICT DO UPDATE\<close> is written out with the constraints of the
  schema, the queries as filters and sorts. Text is compared by code point, as SQLite's binary
  collation compares its UTF-8 form. An operation that uses one transaction returns the new database or
  raises and leaves the database as it was.
\<close>

section \<open>Values and rows\<close>

datatype sqlv = SNull | SInt int | SReal pyfloat | SText string

type_synonym sql_row = "(string \<times> sqlv) list"
type_synonym sql_table = "sql_row list"
type_synonym sql_db = "string \<Rightarrow> sql_table"

definition col :: "sql_row \<Rightarrow> string \<Rightarrow> sqlv" where
  "col row c = (case map_of row c of None \<Rightarrow> SNull | Some v \<Rightarrow> v)"

definition cols :: "string list \<Rightarrow> sql_row \<Rightarrow> sqlv list" where
  "cols cs row = map (col row) cs"

text \<open>Text of a column; SQL comparisons of the program are between text columns and text parameters.\<close>

definition text_col :: "sql_row \<Rightarrow> string \<Rightarrow> string" where
  "text_col row c = (case col row c of SText s \<Rightarrow> s | _ \<Rightarrow> '''')"

text \<open>The order of \<open>ORDER BY\<close>: NULL before numbers before text.\<close>

definition sql_rank :: "sqlv \<Rightarrow> nat \<times> rat \<times> string" where
  "sql_rank v = (case v of SNull \<Rightarrow> (0, 0, '''') | SInt i \<Rightarrow> (1, of_int i, '''')
     | SReal (PFin r) \<Rightarrow> (1, r, '''') | SReal _ \<Rightarrow> (1, 0, '''') | SText s \<Rightarrow> (2, 0, s))"

definition order_by :: "string list \<Rightarrow> sql_table \<Rightarrow> sql_table" where
  "order_by cs rows = sort_key (\<lambda>row. map sql_rank (cols cs row)) rows"

section \<open>Serialization\<close>

text \<open>\<open>repr\<close> of a float, which \<open>json.dumps\<close> uses: the shortest digits that read back, with an exponent
  outside the range from 1e-4 to 1e16.\<close>

definition float_repr :: "pyfloat \<Rightarrow> string" where
  "float_repr x = (case x of PNaN \<Rightarrow> ''NaN'' | PInf \<Rightarrow> ''Infinity'' | PNegInf \<Rightarrow> ''-Infinity''
     | PNegZero \<Rightarrow> ''-0.0''
     | PFin r \<Rightarrow> (case float_decimal (PFin r) of DNonFinite \<Rightarrow> '''' | DFin neg c k \<Rightarrow>
         if c = 0 then ''0.0'' else
         let ds = nat_text c; x = int (length ds) + k - 1; sign = (if neg then ''-'' else '''') in
         if x < - 4 \<or> 16 \<le> x
         then sign @ with_point (take 1 ds) (strip_zeros (drop 1 ds)) @ ''e'' @ (if x < 0 then ''-'' else ''+'') @
              (if \<bar>x\<bar> < 10 then ''0'' else '''') @ nat_text (nat \<bar>x\<bar>)
         else let t = fixed_text c k in sign @ (if CHR ''.'' \<in> set t then t else t @ ''.0'')))"

text \<open>
  \<open>json.dumps(value, sort_keys=True)\<close> with the default separators, on the values that metadata hold: None, booleans,
  text, numbers, sequences and dictionaries with text keys. Anything else is refused as
  \<open>TypeError\<close>.
\<close>

fun json_text :: "pyvalue \<Rightarrow> string result" where
  "json_text PNone = Inr ''null''"
| "json_text (PBool b) = Inr (if b then ''true'' else ''false'')"
| "json_text (PStr s) = Inr (quote True s)"
| "json_text (PInt i) = Inr (int_text i)"
| "json_text (PFloat x) = Inr (float_repr x)"
| "json_text (PSeq vs) = rbind (mapM json_text vs) (\<lambda>ts. Inr (''['' @ join '', '' ts @ '']''))"
| "json_text (PDict kvs) =
     rbind (mapM (\<lambda>kv. rbind (json_text (snd kv)) (\<lambda>t.
              case fst kv of PStr k \<Rightarrow> Inr (k, t) | _ \<Rightarrow> Inl (TypeError ''keys must be text''))) kvs)
       (\<lambda>kts. Inr (''{'' @ join '', '' (map (\<lambda>kt. quote True (fst kt) @ '': '' @ snd kt) (sort_key fst kts)) @ ''}''))"
| "json_text _ = Inl (TypeError ''Object is not JSON serializable'')"

definition serialize_time :: "pydatetime \<Rightarrow> sqlv" where
  "serialize_time t = SText (utc_isoformat t)"

definition serialize_time_opt :: "pydatetime option \<Rightarrow> sqlv" where
  "serialize_time_opt t = (case t of None \<Rightarrow> SNull | Some d \<Rightarrow> serialize_time d)"

definition serialize_bool :: "bool \<Rightarrow> sqlv" where
  "serialize_bool b = SInt (if b then 1 else 0)"

definition serialize_text_opt :: "string option \<Rightarrow> sqlv" where
  "serialize_text_opt s = (case s of None \<Rightarrow> SNull | Some t \<Rightarrow> SText t)"

definition serialize_int_opt :: "int option \<Rightarrow> sqlv" where
  "serialize_int_opt i = (case i of None \<Rightarrow> SNull | Some n \<Rightarrow> SInt n)"

definition serialize_metadata :: "(string \<times> pyvalue) list \<Rightarrow> sqlv result" where
  "serialize_metadata m = rbind (json_text (payload_dict m)) (\<lambda>t. Inr (SText t))"

text \<open>A payload with a metadata column at its end.\<close>

definition with_metadata :: "sql_row \<Rightarrow> (string \<times> pyvalue) list \<Rightarrow> sql_row result" where
  "with_metadata row m = rbind (serialize_metadata m) (\<lambda>t. Inr (row @ [(''metadata'', t)]))"

section \<open>The schema\<close>

record table_schema =
  ts_columns :: "string list"
  ts_nullable :: "string list"
  ts_unique :: "string list list"

definition requirements_schema :: table_schema where
  "requirements_schema =
     \<lparr>ts_columns = [''requirement_id'', ''engine_id'', ''analysis_purpose'', ''output_field'', ''requirement_kind'',
        ''evidence_domain'', ''required_entity_type'', ''direct_observation_required'', ''proxy_allowed'',
        ''minimum_freshness_seconds'', ''minimum_source_authority'', ''minimum_lineage_depth'',
        ''minimum_confidence'', ''historical_required'', ''blocking_level'', ''policy_id'', ''policy_version'',
        ''effective_at'', ''recorded_at'', ''schema_version'', ''metadata''],
      ts_nullable = [],
      ts_unique = [[''requirement_id'', ''effective_at'', ''recorded_at'', ''schema_version'']]\<rparr>"

definition source_types_schema :: table_schema where
  "source_types_schema =
     \<lparr>ts_columns = [''requirement_id'', ''source_type'', ''position'', ''schema_version'', ''effective_at'', ''recorded_at''],
      ts_nullable = [],
      ts_unique = [[''requirement_id'', ''source_type'', ''schema_version'', ''effective_at'', ''recorded_at'']]\<rparr>"

definition proxy_types_schema :: table_schema where
  "proxy_types_schema =
     \<lparr>ts_columns = [''requirement_id'', ''proxy_type'', ''position'', ''schema_version'', ''effective_at'', ''recorded_at''],
      ts_nullable = [],
      ts_unique = [[''requirement_id'', ''proxy_type'', ''schema_version'', ''effective_at'', ''recorded_at'']]\<rparr>"

definition availability_schema :: table_schema where
  "availability_schema =
     \<lparr>ts_columns = [''availability_id'', ''requirement_id'', ''candidate_id'', ''engine_id'', ''analysis_purpose'',
        ''availability_state'', ''directness'', ''proxy_type'', ''freshness_seconds'', ''source_quality'',
        ''lineage_complete'', ''conflict_state'', ''evidence_count'', ''missing_reason'', ''effective_at'',
        ''recorded_at'', ''cutoff_at'', ''replay_mode'', ''processing_run_id'', ''schema_version'', ''metadata''],
      ts_nullable = [''proxy_type'', ''freshness_seconds'', ''cutoff_at''],
      ts_unique = [[''availability_id'', ''effective_at'', ''recorded_at'', ''schema_version'']]\<rparr>"

definition assessments_schema :: table_schema where
  "assessments_schema =
     \<lparr>ts_columns = [''assessment_id'', ''candidate_id'', ''engine_id'', ''analysis_purpose'', ''assessment_scope'',
        ''sufficiency_state'', ''degraded_mode'', ''coverage_score'', ''freshness_state'', ''source_quality_state'',
        ''lineage_state'', ''conflict_state'', ''direct_observation_coverage'', ''proxy_signal_coverage'',
        ''material_missing_count'', ''limitations_summary'', ''policy_id'', ''policy_version'', ''effective_at'',
        ''recorded_at'', ''cutoff_at'', ''replay_mode'', ''processing_run_id'', ''schema_version'', ''metadata''],
      ts_nullable = [''cutoff_at''],
      ts_unique = [[''assessment_id'', ''effective_at'', ''recorded_at'', ''schema_version'']]\<rparr>"

definition policies_schema :: table_schema where
  "policies_schema =
     \<lparr>ts_columns = [''policy_id'', ''policy_version'', ''unavailable_required_outcome'', ''partial_required_outcome'',
        ''stale_required_outcome'', ''proxy_for_direct_outcome'', ''optional_missing_outcome'', ''effective_at'',
        ''recorded_at'', ''schema_version''],
      ts_nullable = [],
      ts_unique = [[''policy_id'', ''effective_at'', ''recorded_at'', ''schema_version'']]\<rparr>"

definition validations_schema :: table_schema where
  "validations_schema =
     \<lparr>ts_columns = [''validation_id'', ''candidate_id'', ''requirement_id'', ''engine_id'', ''analysis_purpose'',
        ''source_a'', ''source_b'', ''validation_status'', ''compatible_scope'', ''source_authority_state'',
        ''freshness_state'', ''reason'', ''effective_at'', ''recorded_at'', ''cutoff_at'', ''replay_mode'',
        ''processing_run_id'', ''schema_version'', ''metadata''],
      ts_nullable = [''cutoff_at''],
      ts_unique = [[''validation_id'', ''effective_at'', ''recorded_at'', ''schema_version'']]\<rparr>"

definition disagreements_schema :: table_schema where
  "disagreements_schema =
     \<lparr>ts_columns = [''disagreement_id'', ''candidate_id'', ''requirement_id'', ''engine_id'', ''analysis_purpose'',
        ''disagreement_state'', ''compared_source_count'', ''compatible_scope'', ''reason'', ''effective_at'',
        ''recorded_at'', ''replay_mode'', ''processing_run_id'', ''schema_version''],
      ts_nullable = [],
      ts_unique = [[''disagreement_id'', ''effective_at'', ''recorded_at'', ''schema_version'']]\<rparr>"

text \<open>The four link tables differ in the name of the target column.\<close>

definition links_schema :: "string \<Rightarrow> table_schema" where
  "links_schema target =
     \<lparr>ts_columns = [''link_id'', ''owner_type'', ''owner_id'', target, ''role'', ''position'', ''created_at'', ''schema_version''],
      ts_nullable = [],
      ts_unique = [[''link_id''], [''owner_type'', ''owner_id'', target, ''role'', ''schema_version'']]\<rparr>"

definition runs_schema :: table_schema where
  "runs_schema =
     \<lparr>ts_columns = [''run_id'', ''run_type'', ''status'', ''started_at'', ''finished_at'', ''replay_mode'', ''cutoff_at'',
        ''schema_version'', ''metadata''],
      ts_nullable = [''finished_at'', ''cutoff_at''],
      ts_unique = [[''run_id'']]\<rparr>"

definition checkpoints_schema :: table_schema where
  "checkpoints_schema =
     \<lparr>ts_columns = [''checkpoint_id'', ''processor_name'', ''target_id'', ''cursor'', ''updated_at'', ''schema_version''],
      ts_nullable = [],
      ts_unique = [[''checkpoint_id''], [''processor_name'', ''target_id'', ''schema_version'']]\<rparr>"

definition SUFFICIENCY_TABLES :: "(string \<times> table_schema) list" where
  "SUFFICIENCY_TABLES =
     [(''data_requirements'', requirements_schema),
      (''data_requirement_source_types'', source_types_schema),
      (''data_requirement_proxy_types'', proxy_types_schema),
      (''data_availability'', availability_schema),
      (''data_sufficiency_assessments'', assessments_schema),
      (''degraded_mode_policies'', policies_schema),
      (''data_source_validation_results'', validations_schema),
      (''data_disagreement_records'', disagreements_schema),
      (''data_sufficiency_evidence_links'', links_schema ''source_evidence_id''),
      (''data_sufficiency_span_links'', links_schema ''span_id''),
      (''data_sufficiency_claim_links'', links_schema ''claim_id''),
      (''data_sufficiency_conflict_links'', links_schema ''conflict_id''),
      (''data_sufficiency_processing_runs'', runs_schema),
      (''data_sufficiency_checkpoints'', checkpoints_schema)]"

definition ensure_table :: "string \<Rightarrow> table_schema result" where
  "ensure_table name = (case map_of SUFFICIENCY_TABLES name of
     None \<Rightarrow> Inl (ValueError (''unsupported data sufficiency table: '' @ name))
   | Some ts \<Rightarrow> Inr ts)"

section \<open>Writing\<close>

text \<open>The constraints a table must meet after a statement; otherwise the statement raises.\<close>

definition admit :: "table_schema \<Rightarrow> sql_table \<Rightarrow> sql_table result" where
  "admit ts t =
     (if list_all (\<lambda>row. list_all (\<lambda>c. c \<in> set (ts_nullable ts) \<or> col row c \<noteq> SNull) (ts_columns ts)) t \<and>
         list_all (\<lambda>u. distinct (map (cols u) t)) (ts_unique ts)
      then Inr t else Inl (IntegrityError ''constraint failed''))"

text \<open>\<open>DO UPDATE SET column = excluded.column\<close> for the payload columns outside the key.\<close>

definition merge_row :: "string list \<Rightarrow> sql_row \<Rightarrow> sql_row \<Rightarrow> sql_row" where
  "merge_row key old new = map (\<lambda>(c, v). (c, if c \<in> set key then v else
     case map_of new c of None \<Rightarrow> v | Some v' \<Rightarrow> v')) old"

definition upsert_rows :: "string list \<Rightarrow> sql_row \<Rightarrow> sql_table \<Rightarrow> sql_table" where
  "upsert_rows key row t =
     (if list_ex (\<lambda>r. cols key r = cols key row) t
      then map (\<lambda>r. if cols key r = cols key row then merge_row key r row else r) t
      else t @ [row])"

text \<open>What \<open>sqlite3\<close> does with the parameters of a statement: an integer must fit into 64 bits, the driver raises otherwise,
  before the statement runs. A column of reals has no negative zero, and stores what is not a number as null.\<close>

definition bindable :: "sqlv \<Rightarrow> bool" where
  "bindable v = (case v of SInt i \<Rightarrow> - (2 ^ 63) \<le> i \<and> i < 2 ^ 63 | _ \<Rightarrow> True)"

definition bind_params :: "sql_row \<Rightarrow> sql_row result" where
  "bind_params row = (if list_all (\<lambda>(c, v). bindable v) row then Inr row
     else Inl (OverflowError ''Python int too large to convert to SQLite INTEGER''))"

definition serialize_real :: "pyfloat \<Rightarrow> sqlv" where
  "serialize_real x = (case x of PNegZero \<Rightarrow> SReal (PFin 0) | PNaN \<Rightarrow> SNull | _ \<Rightarrow> SReal x)"

definition upsert_payload :: "string \<Rightarrow> string list \<Rightarrow> sql_row \<Rightarrow> sql_db \<Rightarrow> sql_db result" where
  "upsert_payload name key row db =
     rbind (ensure_table name) (\<lambda>ts.
     rbind (bind_params row) (\<lambda>row.
     rbind (admit ts (upsert_rows key row (db name))) (\<lambda>t. Inr (db(name := t)))))"

definition versioned_key :: "string \<Rightarrow> string list" where
  "versioned_key identity_column = [identity_column, ''effective_at'', ''recorded_at'', ''schema_version'']"

text \<open>One statement after the other within a transaction.\<close>

fun each :: "('a \<Rightarrow> 's \<Rightarrow> 's result) \<Rightarrow> 'a list \<Rightarrow> 's \<Rightarrow> 's result" where
  "each f [] s = Inr s"
| "each f (x # xs) s = rbind (f x s) (each f xs)"

text \<open>One transaction per element: what was committed before a failure stays.\<close>

definition transaction :: "('s \<Rightarrow> 's result) \<Rightarrow> 's \<Rightarrow> 's \<times> pyexc option" where
  "transaction f s = (case f s of Inl e \<Rightarrow> (s, Some e) | Inr s' \<Rightarrow> (s', None))"

fun commit_each :: "('a \<Rightarrow> 's \<Rightarrow> 's \<times> pyexc option) \<Rightarrow> 'a list \<Rightarrow> 's \<Rightarrow> 's \<times> pyexc option" where
  "commit_each f [] s = (s, None)"
| "commit_each f (x # xs) s = (case f x s of (s', Some e) \<Rightarrow> (s', Some e) | (s', None) \<Rightarrow> commit_each f xs s')"

section \<open>Payloads\<close>

definition requirement_payload :: "data_requirement \<Rightarrow> sql_row result" where
  "requirement_payload r = with_metadata
     [(''requirement_id'', SText (dr_requirement_id r)), (''engine_id'', SText (dr_engine_id r)),
      (''analysis_purpose'', SText (dr_analysis_purpose r)), (''output_field'', SText (dr_output_field r)),
      (''requirement_kind'', SText (dr_requirement_kind r)), (''evidence_domain'', SText (dr_evidence_domain r)),
      (''required_entity_type'', SText (dr_required_entity_type r)),
      (''direct_observation_required'', serialize_bool (dr_direct_observation_required r)),
      (''proxy_allowed'', serialize_bool (dr_proxy_allowed r)),
      (''minimum_freshness_seconds'', SInt (dr_minimum_freshness_seconds r)),
      (''minimum_source_authority'', SText (dr_minimum_source_authority r)),
      (''minimum_lineage_depth'', SInt (dr_minimum_lineage_depth r)),
      (''minimum_confidence'', serialize_real (dr_minimum_confidence r)),
      (''historical_required'', serialize_bool (dr_historical_required r)),
      (''blocking_level'', SText (dr_blocking_level r)), (''policy_id'', SText (dr_policy_id r)),
      (''policy_version'', SText (dr_policy_version r)), (''effective_at'', serialize_time (dr_effective_at r)),
      (''recorded_at'', serialize_time (dr_recorded_at r)), (''schema_version'', SText (dr_schema_version r))]
     (dr_metadata r)"

definition availability_payload :: "data_availability \<Rightarrow> sql_row result" where
  "availability_payload a = with_metadata
     [(''availability_id'', SText (da_availability_id a)), (''requirement_id'', SText (da_requirement_id a)),
      (''candidate_id'', SText (da_candidate_id a)), (''engine_id'', SText (da_engine_id a)),
      (''analysis_purpose'', SText (da_analysis_purpose a)),
      (''availability_state'', SText (da_availability_state a)), (''directness'', SText (da_directness a)),
      (''proxy_type'', serialize_text_opt (da_proxy_type a)),
      (''freshness_seconds'', serialize_int_opt (da_freshness_seconds a)),
      (''source_quality'', SText (da_source_quality a)),
      (''lineage_complete'', serialize_bool (da_lineage_complete a)),
      (''conflict_state'', SText (da_conflict_state a)), (''evidence_count'', SInt (da_evidence_count a)),
      (''missing_reason'', SText (da_missing_reason a)), (''effective_at'', serialize_time (da_effective_at a)),
      (''recorded_at'', serialize_time (da_recorded_at a)), (''cutoff_at'', serialize_time_opt (da_cutoff_at a)),
      (''replay_mode'', SText (da_replay_mode a)), (''processing_run_id'', SText (da_processing_run_id a)),
      (''schema_version'', SText (da_schema_version a))]
     (da_metadata a)"

definition assessment_payload :: "data_sufficiency_assessment \<Rightarrow> sql_row result" where
  "assessment_payload a = with_metadata
     [(''assessment_id'', SText (as_assessment_id a)), (''candidate_id'', SText (as_candidate_id a)),
      (''engine_id'', SText (as_engine_id a)), (''analysis_purpose'', SText (as_analysis_purpose a)),
      (''assessment_scope'', SText (as_assessment_scope a)),
      (''sufficiency_state'', SText (as_sufficiency_state a)), (''degraded_mode'', SText (as_degraded_mode a)),
      (''coverage_score'', serialize_real (as_coverage_score a)), (''freshness_state'', SText (as_freshness_state a)),
      (''source_quality_state'', SText (as_source_quality_state a)), (''lineage_state'', SText (as_lineage_state a)),
      (''conflict_state'', SText (as_conflict_state a)),
      (''direct_observation_coverage'', serialize_real (as_direct_observation_coverage a)),
      (''proxy_signal_coverage'', serialize_real (as_proxy_signal_coverage a)),
      (''material_missing_count'', SInt (as_material_missing_count a)),
      (''limitations_summary'', SText (as_limitations_summary a)), (''policy_id'', SText (as_policy_id a)),
      (''policy_version'', SText (as_policy_version a)), (''effective_at'', serialize_time (as_effective_at a)),
      (''recorded_at'', serialize_time (as_recorded_at a)), (''cutoff_at'', serialize_time_opt (as_cutoff_at a)),
      (''replay_mode'', SText (as_replay_mode a)), (''processing_run_id'', SText (as_processing_run_id a)),
      (''schema_version'', SText (as_schema_version a))]
     (as_metadata a)"

definition policy_payload :: "degraded_mode_policy \<Rightarrow> sql_row result" where
  "policy_payload p = Inr
     [(''policy_id'', SText (dp_policy_id p)), (''policy_version'', SText (dp_policy_version p)),
      (''unavailable_required_outcome'', SText (dp_unavailable_required_outcome p)),
      (''partial_required_outcome'', SText (dp_partial_required_outcome p)),
      (''stale_required_outcome'', SText (dp_stale_required_outcome p)),
      (''proxy_for_direct_outcome'', SText (dp_proxy_for_direct_outcome p)),
      (''optional_missing_outcome'', SText (dp_optional_missing_outcome p)),
      (''effective_at'', serialize_time (dp_effective_at p)), (''recorded_at'', serialize_time (dp_recorded_at p)),
      (''schema_version'', SText (dp_schema_version p))]"

definition validation_payload :: "source_validation_result \<Rightarrow> sql_row result" where
  "validation_payload v = with_metadata
     [(''validation_id'', SText (sv_validation_id v)), (''candidate_id'', SText (sv_candidate_id v)),
      (''requirement_id'', SText (sv_requirement_id v)), (''engine_id'', SText (sv_engine_id v)),
      (''analysis_purpose'', SText (sv_analysis_purpose v)), (''source_a'', SText (sv_source_a v)),
      (''source_b'', SText (sv_source_b v)), (''validation_status'', SText (sv_validation_status v)),
      (''compatible_scope'', serialize_bool (sv_compatible_scope v)),
      (''source_authority_state'', SText (sv_source_authority_state v)),
      (''freshness_state'', SText (sv_freshness_state v)), (''reason'', SText (sv_reason v)),
      (''effective_at'', serialize_time (sv_effective_at v)), (''recorded_at'', serialize_time (sv_recorded_at v)),
      (''cutoff_at'', serialize_time_opt (sv_cutoff_at v)), (''replay_mode'', SText (sv_replay_mode v)),
      (''processing_run_id'', SText (sv_processing_run_id v)), (''schema_version'', SText (sv_schema_version v))]
     (sv_metadata v)"

definition disagreement_payload :: "source_disagreement \<Rightarrow> sql_row result" where
  "disagreement_payload d = Inr
     [(''disagreement_id'', SText (sd_disagreement_id d)), (''candidate_id'', SText (sd_candidate_id d)),
      (''requirement_id'', SText (sd_requirement_id d)), (''engine_id'', SText (sd_engine_id d)),
      (''analysis_purpose'', SText (sd_analysis_purpose d)),
      (''disagreement_state'', SText (sd_disagreement_state d)),
      (''compared_source_count'', SInt (sd_compared_source_count d)),
      (''compatible_scope'', serialize_bool (sd_compatible_scope d)), (''reason'', SText (sd_reason d)),
      (''effective_at'', serialize_time (sd_effective_at d)), (''recorded_at'', serialize_time (sd_recorded_at d)),
      (''replay_mode'', SText (sd_replay_mode d)), (''processing_run_id'', SText (sd_processing_run_id d)),
      (''schema_version'', SText (sd_schema_version d))]"

definition link_payload :: "string \<Rightarrow> lineage_link \<Rightarrow> sql_row" where
  "link_payload target l =
     [(''link_id'', SText (ll_link_id l)), (''owner_type'', SText (ll_owner_type l)),
      (''owner_id'', SText (ll_owner_id l)), (target, SText (ll_target_id l)), (''role'', SText (ll_role l)),
      (''position'', SInt (ll_position l)), (''created_at'', serialize_time (ll_created_at l)),
      (''schema_version'', SText (ll_schema_version l))]"

definition run_payload :: "processing_run \<Rightarrow> sql_row result" where
  "run_payload p = with_metadata
     [(''run_id'', SText (pr_run_id p)), (''run_type'', SText (pr_run_type p)), (''status'', SText (pr_status p)),
      (''started_at'', serialize_time (pr_started_at p)), (''finished_at'', serialize_time_opt (pr_finished_at p)),
      (''replay_mode'', SText (pr_replay_mode p)), (''cutoff_at'', serialize_time_opt (pr_cutoff_at p)),
      (''schema_version'', SText (pr_schema_version p))]
     (pr_metadata p)"

definition checkpoint_payload :: "suff_checkpoint \<Rightarrow> sql_row" where
  "checkpoint_payload c =
     [(''checkpoint_id'', SText (cp_checkpoint_id c)), (''processor_name'', SText (cp_processor_name c)),
      (''target_id'', SText (cp_target_id c)), (''cursor'', SText (cp_cursor c)),
      (''updated_at'', serialize_time (cp_updated_at c)), (''schema_version'', SText (cp_schema_version c))]"

section \<open>Saving\<close>

text \<open>\<open>_upsert\<close>: one payload in a transaction of its own.\<close>

definition upsert :: "string \<Rightarrow> string list \<Rightarrow> sql_row result \<Rightarrow> sql_db \<Rightarrow> sql_db \<times> pyexc option" where
  "upsert name key payload = transaction (\<lambda>db. rbind payload (\<lambda>row. upsert_payload name key row db))"

definition insert_row :: "string \<Rightarrow> sql_row \<Rightarrow> sql_db \<Rightarrow> sql_db result" where
  "insert_row name row db =
     rbind (ensure_table name) (\<lambda>ts. rbind (admit ts (db name @ [row])) (\<lambda>t. Inr (db(name := t))))"

definition replace_requirement_rows ::
  "string \<Rightarrow> string \<Rightarrow> string \<Rightarrow> pydatetime \<Rightarrow> pydatetime \<Rightarrow> string \<Rightarrow> string list \<Rightarrow> sql_db \<Rightarrow> sql_db result" where
  "replace_requirement_rows name requirement_id schema_version effective_at recorded_at value_column values db =
     (let version = [SText requirement_id, SText schema_version, serialize_time effective_at, serialize_time recorded_at];
          kept = filter (\<lambda>r. cols [''requirement_id'', ''schema_version'', ''effective_at'', ''recorded_at''] r \<noteq> version)
                   (db name)
      in each (\<lambda>(position, v). insert_row name
           [(''requirement_id'', SText requirement_id), (value_column, SText v), (''position'', SInt (int position)),
            (''schema_version'', SText schema_version), (''effective_at'', serialize_time effective_at),
            (''recorded_at'', serialize_time recorded_at)])
         (enumerate 0 values) (db(name := kept)))"

definition save_requirement :: "data_requirement \<Rightarrow> sql_db \<Rightarrow> sql_db \<times> pyexc option" where
  "save_requirement r = transaction (\<lambda>db.
     rbind (requirement_payload r) (\<lambda>row.
     rbind (upsert_payload ''data_requirements'' (versioned_key ''requirement_id'') row db) (\<lambda>db.
     rbind (replace_requirement_rows ''data_requirement_source_types'' (dr_requirement_id r) (dr_schema_version r)
              (dr_effective_at r) (dr_recorded_at r) ''source_type'' (dr_required_source_types r) db) (\<lambda>db.
     replace_requirement_rows ''data_requirement_proxy_types'' (dr_requirement_id r) (dr_schema_version r)
       (dr_effective_at r) (dr_recorded_at r) ''proxy_type'' (dr_accepted_proxy_types r) db))))"

definition save_requirements :: "data_requirement list \<Rightarrow> sql_db \<Rightarrow> sql_db \<times> pyexc option" where
  "save_requirements = commit_each save_requirement"

definition save_degraded_mode_policy :: "degraded_mode_policy \<Rightarrow> sql_db \<Rightarrow> sql_db \<times> pyexc option" where
  "save_degraded_mode_policy p = upsert ''degraded_mode_policies'' (versioned_key ''policy_id'') (policy_payload p)"

definition save_availability :: "data_availability \<Rightarrow> sql_db \<Rightarrow> sql_db \<times> pyexc option" where
  "save_availability a = upsert ''data_availability'' (versioned_key ''availability_id'') (availability_payload a)"

definition save_assessment :: "data_sufficiency_assessment \<Rightarrow> sql_db \<Rightarrow> sql_db \<times> pyexc option" where
  "save_assessment a =
     upsert ''data_sufficiency_assessments'' (versioned_key ''assessment_id'') (assessment_payload a)"

definition save_source_validation_result :: "source_validation_result \<Rightarrow> sql_db \<Rightarrow> sql_db \<times> pyexc option" where
  "save_source_validation_result v =
     upsert ''data_source_validation_results'' (versioned_key ''validation_id'') (validation_payload v)"

definition save_disagreement :: "source_disagreement \<Rightarrow> sql_db \<Rightarrow> sql_db \<times> pyexc option" where
  "save_disagreement d =
     upsert ''data_disagreement_records'' (versioned_key ''disagreement_id'') (disagreement_payload d)"

definition save_links :: "string \<Rightarrow> string \<Rightarrow> lineage_link list \<Rightarrow> sql_db \<Rightarrow> sql_db \<times> pyexc option" where
  "save_links name target = commit_each (\<lambda>l. upsert name [''link_id''] (Inr (link_payload target l)))"

definition save_evidence_links :: "lineage_link list \<Rightarrow> sql_db \<Rightarrow> sql_db \<times> pyexc option" where
  "save_evidence_links = save_links ''data_sufficiency_evidence_links'' ''source_evidence_id''"

definition save_span_links :: "lineage_link list \<Rightarrow> sql_db \<Rightarrow> sql_db \<times> pyexc option" where
  "save_span_links = save_links ''data_sufficiency_span_links'' ''span_id''"

definition save_claim_links :: "lineage_link list \<Rightarrow> sql_db \<Rightarrow> sql_db \<times> pyexc option" where
  "save_claim_links = save_links ''data_sufficiency_claim_links'' ''claim_id''"

definition save_conflict_links :: "lineage_link list \<Rightarrow> sql_db \<Rightarrow> sql_db \<times> pyexc option" where
  "save_conflict_links = save_links ''data_sufficiency_conflict_links'' ''conflict_id''"

definition save_processing_run :: "processing_run \<Rightarrow> sql_db \<Rightarrow> sql_db \<times> pyexc option" where
  "save_processing_run p = upsert ''data_sufficiency_processing_runs'' [''run_id''] (run_payload p)"

definition save_checkpoint :: "suff_checkpoint \<Rightarrow> sql_db \<Rightarrow> sql_db \<times> pyexc option" where
  "save_checkpoint c = upsert ''data_sufficiency_checkpoints'' [''checkpoint_id''] (Inr (checkpoint_payload c))"

definition save_lineage ::
  "lineage_link list \<Rightarrow> lineage_link list \<Rightarrow> lineage_link list \<Rightarrow> lineage_link list \<Rightarrow> sql_db \<Rightarrow> sql_db result" where
  "save_lineage evidence spans claims conflicts db =
     rbind (each (\<lambda>l. upsert_payload ''data_sufficiency_evidence_links'' [''link_id'']
              (link_payload ''source_evidence_id'' l)) evidence db) (\<lambda>db.
     rbind (each (\<lambda>l. upsert_payload ''data_sufficiency_span_links'' [''link_id'']
              (link_payload ''span_id'' l)) spans db) (\<lambda>db.
     rbind (each (\<lambda>l. upsert_payload ''data_sufficiency_claim_links'' [''link_id'']
              (link_payload ''claim_id'' l)) claims db) (\<lambda>db.
     each (\<lambda>l. upsert_payload ''data_sufficiency_conflict_links'' [''link_id'']
       (link_payload ''conflict_id'' l)) conflicts db)))"

text \<open>A record and its lineage in one transaction.\<close>

definition save_with_lineage ::
  "string \<Rightarrow> string \<Rightarrow> sql_row result \<Rightarrow> lineage_link list \<Rightarrow> lineage_link list \<Rightarrow> lineage_link list \<Rightarrow>
   lineage_link list \<Rightarrow> sql_db \<Rightarrow> sql_db \<times> pyexc option" where
  "save_with_lineage name identity_column payload evidence spans claims conflicts = transaction (\<lambda>db.
     rbind payload (\<lambda>row.
     rbind (upsert_payload name (versioned_key identity_column) row db)
       (save_lineage evidence spans claims conflicts)))"

definition save_source_validation_with_lineage where
  "save_source_validation_with_lineage v =
     save_with_lineage ''data_source_validation_results'' ''validation_id'' (validation_payload v)"

definition save_disagreement_with_lineage where
  "save_disagreement_with_lineage d =
     save_with_lineage ''data_disagreement_records'' ''disagreement_id'' (disagreement_payload d)"

definition save_availability_with_lineage where
  "save_availability_with_lineage a =
     save_with_lineage ''data_availability'' ''availability_id'' (availability_payload a)"

definition save_assessment_with_lineage where
  "save_assessment_with_lineage a =
     save_with_lineage ''data_sufficiency_assessments'' ''assessment_id'' (assessment_payload a)"

section \<open>Reading\<close>

text \<open>An equality filter: the columns asked for, with the text each must have.\<close>

definition wanted :: "(string \<times> string option) list \<Rightarrow> sql_row \<Rightarrow> bool" where
  "wanted filters row =
     list_all (\<lambda>(c, v). case v of None \<Rightarrow> True | Some s \<Rightarrow> col row c = SText s) filters"

text \<open>\<open>_version_tuple\<close>, registered with every connection.\<close>

definition version_tuple :: "sql_row \<Rightarrow> string" where
  "version_tuple row = text_col row ''effective_at'' @ ''|'' @ text_col row ''recorded_at''"

text \<open>The rows of a table that no visible row of the same identity supersedes.\<close>

definition latest_rows :: "string \<Rightarrow> (sql_row \<Rightarrow> bool) \<Rightarrow> sql_table \<Rightarrow> sql_table" where
  "latest_rows identity_column visible t =
     filter (\<lambda>row. visible row \<and> \<not> list_ex (\<lambda>newer. visible newer \<and>
        col newer identity_column = col row identity_column \<and> version_tuple row < version_tuple newer) t) t"

definition current_rows ::
  "string \<Rightarrow> string \<Rightarrow> (string \<times> string option) list \<Rightarrow> string list \<Rightarrow> sql_db \<Rightarrow> sql_table" where
  "current_rows name identity_column filters order_cols db =
     order_by order_cols (filter (wanted filters) (latest_rows identity_column (\<lambda>row. True) (db name)))"

definition known_by :: "bool \<Rightarrow> pydatetime \<Rightarrow> sql_row \<Rightarrow> bool" where
  "known_by strict cutoff row =
     (text_col row ''effective_at'' \<le> utc_isoformat cutoff \<and>
      (strict \<longrightarrow> text_col row ''recorded_at'' \<le> utc_isoformat cutoff))"

definition rows_at ::
  "string \<Rightarrow> string \<Rightarrow> pydatetime \<Rightarrow> (string \<times> string option) list \<Rightarrow> bool \<Rightarrow> string list \<Rightarrow> sql_db \<Rightarrow> sql_table" where
  "rows_at name identity_column cutoff filters strict order_cols db =
     order_by order_cols (filter (wanted filters) (latest_rows identity_column (known_by strict cutoff) (db name)))"

text \<open>\<open>ORDER BY effective_at DESC, recorded_at DESC LIMIT 1\<close>: the first row with the greatest version.\<close>

fun best_version :: "sql_table \<Rightarrow> sql_row option" where
  "best_version [] = None"
| "best_version (row # rows) = (case best_version rows of
     None \<Rightarrow> Some row
   | Some other \<Rightarrow>
       if (text_col row ''effective_at'', text_col row ''recorded_at'')
          < (text_col other ''effective_at'', text_col other ''recorded_at'')
       then Some other else Some row)"

definition version_at :: "string \<Rightarrow> string \<Rightarrow> string \<Rightarrow> pydatetime \<Rightarrow> bool \<Rightarrow> sql_db \<Rightarrow> sql_row option" where
  "version_at name identity_column identity_value cutoff strict db =
     best_version (filter (\<lambda>row. col row identity_column = SText identity_value \<and> known_by strict cutoff row) (db name))"

definition requirement_at :: "string \<Rightarrow> pydatetime \<Rightarrow> bool \<Rightarrow> sql_db \<Rightarrow> sql_row option" where
  "requirement_at i = version_at ''data_requirements'' ''requirement_id'' i"

definition availability_at :: "string \<Rightarrow> pydatetime \<Rightarrow> bool \<Rightarrow> sql_db \<Rightarrow> sql_row option" where
  "availability_at i = version_at ''data_availability'' ''availability_id'' i"

definition assessment_at :: "string \<Rightarrow> pydatetime \<Rightarrow> bool \<Rightarrow> sql_db \<Rightarrow> sql_row option" where
  "assessment_at i = version_at ''data_sufficiency_assessments'' ''assessment_id'' i"

definition repository_requirements ::
  "string option \<Rightarrow> string option \<Rightarrow> string option \<Rightarrow> string option \<Rightarrow> sql_db \<Rightarrow> sql_table" where
  "repository_requirements engine_id analysis_purpose fld policy_version =
     current_rows ''data_requirements'' ''requirement_id''
       [(''engine_id'', engine_id), (''analysis_purpose'', analysis_purpose), (''output_field'', fld),
        (''policy_version'', policy_version)]
       [''engine_id'', ''analysis_purpose'', ''output_field'', ''requirement_id'']"

definition type_rows ::
  "string \<Rightarrow> string \<Rightarrow> string \<Rightarrow> string \<Rightarrow> (pydatetime \<times> pydatetime) option \<Rightarrow> sql_db \<Rightarrow> string list" where
  "type_rows name value_column requirement_id schema_version version db =
     map (\<lambda>row. text_col row value_column) (order_by [''position'', value_column]
       (filter (wanted ([(''requirement_id'', Some requirement_id), (''schema_version'', Some schema_version)] @
          (case version of None \<Rightarrow> [] | Some (e, r) \<Rightarrow>
             [(''effective_at'', Some (utc_isoformat e)), (''recorded_at'', Some (utc_isoformat r))])))
         (db name)))"

text \<open>Both instants are given or, as in the selector of requirements, neither.\<close>

definition requirement_source_types :: "string \<Rightarrow> string \<Rightarrow> (pydatetime \<times> pydatetime) option \<Rightarrow> sql_db \<Rightarrow> string list"
  where "requirement_source_types = type_rows ''data_requirement_source_types'' ''source_type''"

definition requirement_proxy_types :: "string \<Rightarrow> string \<Rightarrow> (pydatetime \<times> pydatetime) option \<Rightarrow> sql_db \<Rightarrow> string list"
  where "requirement_proxy_types = type_rows ''data_requirement_proxy_types'' ''proxy_type''"

text \<open>\<open>ORDER BY updated_at DESC, checkpoint_id DESC LIMIT 1\<close>\<close>

fun last_checkpoint :: "sql_table \<Rightarrow> sql_row option" where
  "last_checkpoint [] = None"
| "last_checkpoint (row # rows) = (case last_checkpoint rows of
     None \<Rightarrow> Some row
   | Some other \<Rightarrow>
       if (text_col row ''updated_at'', text_col row ''checkpoint_id'')
          < (text_col other ''updated_at'', text_col other ''checkpoint_id'')
       then Some other else Some row)"

definition repository_checkpoint :: "string \<Rightarrow> string \<Rightarrow> sql_db \<Rightarrow> sql_row option" where
  "repository_checkpoint processor_name target_id db = last_checkpoint
     (filter (wanted [(''processor_name'', Some processor_name), (''target_id'', Some target_id)])
       (db ''data_sufficiency_checkpoints''))"

definition availability_for_candidate ::
  "string \<Rightarrow> string option \<Rightarrow> string option \<Rightarrow> string option \<Rightarrow> sql_db \<Rightarrow> sql_table" where
  "availability_for_candidate candidate_id engine_id analysis_purpose availability_state =
     current_rows ''data_availability'' ''availability_id''
       [(''candidate_id'', Some candidate_id), (''engine_id'', engine_id), (''analysis_purpose'', analysis_purpose),
        (''availability_state'', availability_state)] [''availability_id'']"

definition availability_for_candidate_at :: "string \<Rightarrow> pydatetime \<Rightarrow> bool \<Rightarrow> sql_db \<Rightarrow> sql_table" where
  "availability_for_candidate_at candidate_id cutoff strict =
     rows_at ''data_availability'' ''availability_id'' cutoff [(''candidate_id'', Some candidate_id)] strict
       [''engine_id'', ''analysis_purpose'', ''requirement_id'']"

definition assessments_for_candidate ::
  "string \<Rightarrow> string option \<Rightarrow> string option \<Rightarrow> string option \<Rightarrow> sql_db \<Rightarrow> sql_table" where
  "assessments_for_candidate candidate_id engine_id analysis_purpose suff_state =
     current_rows ''data_sufficiency_assessments'' ''assessment_id''
       [(''candidate_id'', Some candidate_id), (''engine_id'', engine_id), (''analysis_purpose'', analysis_purpose),
        (''sufficiency_state'', suff_state)] [''engine_id'', ''analysis_purpose'', ''assessment_scope'']"

definition assessments_for_candidate_at :: "string \<Rightarrow> pydatetime \<Rightarrow> bool \<Rightarrow> sql_db \<Rightarrow> sql_table" where
  "assessments_for_candidate_at candidate_id cutoff strict =
     rows_at ''data_sufficiency_assessments'' ''assessment_id'' cutoff [(''candidate_id'', Some candidate_id)] strict
       [''engine_id'', ''analysis_purpose'', ''assessment_scope'']"

definition repository_disagreements :: "string option \<Rightarrow> string option \<Rightarrow> sql_db \<Rightarrow> sql_table" where
  "repository_disagreements candidate_id engine_id =
     current_rows ''data_disagreement_records'' ''disagreement_id''
       [(''candidate_id'', candidate_id), (''engine_id'', engine_id)]
       [''candidate_id'', ''engine_id'', ''analysis_purpose'', ''disagreement_id'']"

definition source_validation_results :: "string option \<Rightarrow> string option \<Rightarrow> string option \<Rightarrow> sql_db \<Rightarrow> sql_table" where
  "source_validation_results candidate_id engine_id validation_status =
     current_rows ''data_source_validation_results'' ''validation_id''
       [(''candidate_id'', candidate_id), (''engine_id'', engine_id), (''validation_status'', validation_status)]
       [''candidate_id'', ''engine_id'', ''analysis_purpose'', ''validation_id'']"

definition repository_count :: "string \<Rightarrow> sql_db \<Rightarrow> int result" where
  "repository_count name db = rbind (ensure_table name) (\<lambda>_. Inr (int (length (db name))))"

definition links_of :: "string \<Rightarrow> string \<Rightarrow> string \<Rightarrow> sql_db \<Rightarrow> sql_table" where
  "links_of name owner_type owner_id db = order_by [''role'', ''position'', ''link_id'']
     (filter (wanted [(''owner_type'', Some owner_type), (''owner_id'', Some owner_id)]) (db name))"

definition lineage :: "string \<Rightarrow> string \<Rightarrow> sql_db \<Rightarrow> (string \<times> sql_table) list" where
  "lineage owner_type owner_id db =
     [(''source_evidence'', links_of ''data_sufficiency_evidence_links'' owner_type owner_id db),
      (''spans'', links_of ''data_sufficiency_span_links'' owner_type owner_id db),
      (''claims'', links_of ''data_sufficiency_claim_links'' owner_type owner_id db),
      (''conflicts'', links_of ''data_sufficiency_conflict_links'' owner_type owner_id db)]"

section \<open>The contract of a keyed table\<close>

text \<open>
  What the operations of the repository need of a table: a write makes its key present, leaves the rows with
  other keys as they are, adds no row with another key and keeps keys unique. It is stated for any
  row type, and the upsert of the model is an instance for every key.
\<close>

locale keyed_table =
  fixes key :: "'row \<Rightarrow> 'k" and put :: "'row \<Rightarrow> 'row list \<Rightarrow> 'row list"
  assumes put_present: "key row \<in> key ` set (put row t)"
    and put_keeps: "r \<in> set t \<Longrightarrow> key r \<noteq> key row \<Longrightarrow> r \<in> set (put row t)"
    and put_adds: "r \<in> set (put row t) \<Longrightarrow> r \<in> set t \<or> key r = key row"
    and put_distinct: "distinct (map key t) \<Longrightarrow> distinct (map key (put row t))"
begin

lemma put_keys: "key ` set (put row t) = insert (key row) (key ` set t)"
proof
  show "key ` set (put row t) \<subseteq> insert (key row) (key ` set t)"
    using put_adds by fastforce
  show "insert (key row) (key ` set t) \<subseteq> key ` set (put row t)"
  proof
    fix k assume "k \<in> insert (key row) (key ` set t)"
    then consider "k = key row" | r where "r \<in> set t" "k = key r" "k \<noteq> key row" by auto
    then show "k \<in> key ` set (put row t)"
      by cases (auto simp: put_present intro: put_keeps)
  qed
qed

lemma put_length:
  assumes "distinct (map key t)"
  shows "length (put row t) = (if key row \<in> key ` set t then length t else Suc (length t))"
proof -
  have card: "length xs = card (key ` set xs)" if "distinct (map key xs)" for xs
    using distinct_card [OF that] by simp
  have "length (put row t) = card (insert (key row) (key ` set t))"
    using card [OF put_distinct [OF assms]] put_keys by simp
  also have "\<dots> = (if key row \<in> key ` set t then card (key ` set t) else Suc (card (key ` set t)))"
    by (simp add: card_insert_if)
  finally show ?thesis using card [OF assms] by simp
qed

lemma put_distinct_fold: "distinct (map key t) \<Longrightarrow> distinct (map key (fold put rows t))"
  by (induction rows arbitrary: t) (auto intro: put_distinct)

lemma put_keys_fold: "key ` set (fold put rows t) = key ` set rows \<union> key ` set t"
  by (induction rows arbitrary: t) (auto simp: put_keys)

text \<open>Two writes under one key leave one row.\<close>

lemma put_collision:
  assumes "distinct (map key t)" "key row = key row'"
  shows "length (put row' (put row t)) = length (put row t)"
  using put_length [OF put_distinct [OF assms(1)], of row' row] put_present [of row t] assms(2) by simp

end

lemma cols_merge_row: "cols key (merge_row key old new) = cols key old"
proof -
  have "map_of (merge_row key old new) c = map_of old c" if "c \<in> set key" for c
    using that by (induction old) (auto simp: merge_row_def)
  then show ?thesis by (simp add: cols_def col_def)
qed

interpretation upsert_table: keyed_table "cols key" "upsert_rows key" for key
proof
  fix row r :: sql_row and t
  show "cols key row \<in> cols key ` set (upsert_rows key row t)"
  proof (cases "list_ex (\<lambda>r. cols key r = cols key row) t")
    case True
    then obtain r where "r \<in> set t" "cols key r = cols key row" by (auto simp: list_ex_iff)
    with True have "merge_row key r row \<in> set (upsert_rows key row t)"
      "cols key (merge_row key r row) = cols key row"
      by (auto simp: upsert_rows_def cols_merge_row image_iff)
    then show ?thesis by (metis imageI)
  qed (simp add: upsert_rows_def)
  show "r \<in> set t \<Longrightarrow> cols key r \<noteq> cols key row \<Longrightarrow> r \<in> set (upsert_rows key row t)"
    by (auto simp: upsert_rows_def image_iff)
  show "r \<in> set (upsert_rows key row t) \<Longrightarrow> r \<in> set t \<or> cols key r = cols key row"
    by (auto simp: upsert_rows_def cols_merge_row split: if_splits)
  have "map (cols key) (map (\<lambda>r. if cols key r = cols key row then merge_row key r row else r) t) = map (cols key) t"
    by (simp add: cols_merge_row)
  then show "distinct (map (cols key) t) \<Longrightarrow> distinct (map (cols key) (upsert_rows key row t))"
    by (auto simp: upsert_rows_def list_ex_iff simp del: map_map)
qed

section \<open>Facts about queries\<close>

lemma set_order_by [simp]: "set (order_by cs rows) = set rows"
  by (simp add: order_by_def)

lemma latest_rows_mem:
  "row \<in> set (latest_rows identity_column visible t) \<longleftrightarrow>
   row \<in> set t \<and> visible row \<and> (\<forall>newer \<in> set t. visible newer \<longrightarrow>
     col newer identity_column = col row identity_column \<longrightarrow> version_tuple newer \<le> version_tuple row)"
  by (auto simp: latest_rows_def list_ex_iff not_less)

lemma latest_rows_exist:
  assumes "row \<in> set t" "visible row"
  shows "\<exists>best \<in> set (latest_rows identity_column visible t). col best identity_column = col row identity_column"
proof -
  let ?rs = "{r \<in> set t. visible r \<and> col r identity_column = col row identity_column}"
  have fin: "finite (version_tuple ` ?rs)" "version_tuple ` ?rs \<noteq> {}" using assms by auto
  from Max_in [OF fin] obtain best where "best \<in> ?rs" "version_tuple best = Max (version_tuple ` ?rs)"
    by (metis (no_types, lifting) imageE)
  then have "best \<in> set (latest_rows identity_column visible t)"
    using fin(1) by (auto simp: latest_rows_mem intro!: Max_ge)
  with \<open>best \<in> ?rs\<close> show ?thesis by blast
qed

text \<open>Rows that are not visible do not affect which rows are the latest.\<close>

lemma latest_rows_visible: "latest_rows i visible (filter visible t) = latest_rows i visible t"
  by (auto simp: latest_rows_def list_ex_iff intro!: filter_cong)

lemma latest_rows_append_invisible:
  "\<forall>row \<in> set late. \<not> visible row \<Longrightarrow> latest_rows i visible (t @ late) = latest_rows i visible t"
  by (metis (no_types, lifting) append_Nil2 filter_False filter_append latest_rows_visible)

end
