(* ===== verification/SuffHistory.thy ===== *)
theory SuffHistory
  imports SuffRepository
begin

text \<open>
  The repository as a state machine: its writing methods as operations, a run as a list of them.
  The lemmas say what every operation keeps: the constraints of the schema, the versions already stored, and,
  for a strict replay, everything that was on record at the cutoff.
\<close>

section \<open>Operations\<close>

datatype save_op =
    SaveRequirement data_requirement
  | SavePolicy degraded_mode_policy
  | SaveAvailability data_availability
  | SaveAssessment data_sufficiency_assessment
  | SaveValidation source_validation_result
  | SaveDisagreement source_disagreement
  | SaveValidationWithLineage source_validation_result
      "lineage_link list" "lineage_link list" "lineage_link list" "lineage_link list"
  | SaveDisagreementWithLineage source_disagreement
      "lineage_link list" "lineage_link list" "lineage_link list" "lineage_link list"
  | SaveAvailabilityWithLineage data_availability
      "lineage_link list" "lineage_link list" "lineage_link list" "lineage_link list"
  | SaveAssessmentWithLineage data_sufficiency_assessment
      "lineage_link list" "lineage_link list" "lineage_link list" "lineage_link list"
  | SaveEvidenceLink lineage_link
  | SaveSpanLink lineage_link
  | SaveClaimLink lineage_link
  | SaveConflictLink lineage_link
  | SaveRun processing_run
  | SaveCheckpoint suff_checkpoint

fun run_op :: "save_op \<Rightarrow> sql_db \<Rightarrow> sql_db \<times> pyexc option" where
  "run_op (SaveRequirement r) = save_requirement r"
| "run_op (SavePolicy p) = save_degraded_mode_policy p"
| "run_op (SaveAvailability a) = save_availability a"
| "run_op (SaveAssessment a) = save_assessment a"
| "run_op (SaveValidation v) = save_source_validation_result v"
| "run_op (SaveDisagreement d) = save_disagreement d"
| "run_op (SaveValidationWithLineage v e s c k) = save_source_validation_with_lineage v e s c k"
| "run_op (SaveDisagreementWithLineage d e s c k) = save_disagreement_with_lineage d e s c k"
| "run_op (SaveAvailabilityWithLineage a e s c k) = save_availability_with_lineage a e s c k"
| "run_op (SaveAssessmentWithLineage a e s c k) = save_assessment_with_lineage a e s c k"
| "run_op (SaveEvidenceLink l) = save_evidence_links [l]"
| "run_op (SaveSpanLink l) = save_span_links [l]"
| "run_op (SaveClaimLink l) = save_claim_links [l]"
| "run_op (SaveConflictLink l) = save_conflict_links [l]"
| "run_op (SaveRun p) = save_processing_run p"
| "run_op (SaveCheckpoint c) = save_checkpoint c"

text \<open>A caller that goes on after an exception sees the database the failed operation left.\<close>

fun run_ops :: "save_op list \<Rightarrow> sql_db \<Rightarrow> sql_db" where
  "run_ops [] db = db"
| "run_ops (s # ss) db = run_ops ss (fst (run_op s db))"

text \<open>When a versioned record took effect and when it was recorded.\<close>

fun op_times :: "save_op \<Rightarrow> (pydatetime \<times> pydatetime) option" where
  "op_times (SaveRequirement r) = Some (dr_effective_at r, dr_recorded_at r)"
| "op_times (SavePolicy p) = Some (dp_effective_at p, dp_recorded_at p)"
| "op_times (SaveAvailability a) = Some (da_effective_at a, da_recorded_at a)"
| "op_times (SaveAssessment a) = Some (as_effective_at a, as_recorded_at a)"
| "op_times (SaveValidation v) = Some (sv_effective_at v, sv_recorded_at v)"
| "op_times (SaveDisagreement d) = Some (sd_effective_at d, sd_recorded_at d)"
| "op_times (SaveValidationWithLineage v e s c k) = Some (sv_effective_at v, sv_recorded_at v)"
| "op_times (SaveDisagreementWithLineage d e s c k) = Some (sd_effective_at d, sd_recorded_at d)"
| "op_times (SaveAvailabilityWithLineage a e s c k) = Some (da_effective_at a, da_recorded_at a)"
| "op_times (SaveAssessmentWithLineage a e s c k) = Some (as_effective_at a, as_recorded_at a)"
| "op_times _ = None"

definition op_recorded :: "save_op \<Rightarrow> pydatetime option" where
  "op_recorded s = map_option snd (op_times s)"

section \<open>What a statement does to the tables\<close>

lemma admitE:
  assumes "admit ts t = Inr t'"
  obtains "t' = t" "list_all (\<lambda>row. list_all (\<lambda>c. c \<in> set (ts_nullable ts) \<or> col row c \<noteq> SNull) (ts_columns ts)) t"
    "list_all (\<lambda>u. distinct (map (cols u) t)) (ts_unique ts)"
  using assms by (auto simp: admit_def split: if_splits)

lemma upsert_payloadE:
  assumes "upsert_payload name key row db = Inr db'"
  obtains ts where "map_of SUFFICIENCY_TABLES name = Some ts"
    "admit ts (upsert_rows key row (db name)) = Inr (upsert_rows key row (db name))"
    "db' = db(name := upsert_rows key row (db name))"
  using assms by (auto simp: upsert_payload_def bind_params_def ensure_table_def rbind_Inr_iff elim: admitE split: option.splits if_splits)

lemma insert_rowE:
  assumes "insert_row name row db = Inr db'"
  obtains ts where "map_of SUFFICIENCY_TABLES name = Some ts"
    "admit ts (db name @ [row]) = Inr (db name @ [row])" "db' = db(name := db name @ [row])"
  using assms by (auto simp: insert_row_def ensure_table_def rbind_Inr_iff elim: admitE split: option.splits)

text \<open>A relation between databases that every statement keeps, every sequence of statements keeps.\<close>

lemma each_induct:
  assumes "each f xs s = Inr s'" and "P s"
    and "\<And>x s s'. x \<in> set xs \<Longrightarrow> P s \<Longrightarrow> f x s = Inr s' \<Longrightarrow> P s'"
  shows "P s'"
  using assms by (induction xs arbitrary: s) (auto simp: rbind_Inr_iff)

text \<open>Which tables a payload goes to, and with which key.\<close>

definition link_tables :: "string list" where
  "link_tables = [''data_sufficiency_evidence_links'', ''data_sufficiency_span_links'',
     ''data_sufficiency_claim_links'', ''data_sufficiency_conflict_links'']"

text \<open>
  Every operation is a sequence of two kinds of statement: an upsert, or, for a requirement, the
  replacement of the value rows of one version. An invariant of both is an invariant of the operation.
\<close>

lemma replace_rows_induct:
  assumes "replace_requirement_rows name i sv e r vc vs db = Inr db'" and "P db"
    and delete: "\<And>db Q. P db \<Longrightarrow> P (db(name := filter Q (db name)))"
    and insert: "\<And>db db' row. P db \<Longrightarrow> insert_row name row db = Inr db' \<Longrightarrow> P db'"
  shows "P db'"
proof -
  from assms(1) show ?thesis
    unfolding replace_requirement_rows_def Let_def
    by (rule each_induct [where P = P, OF _ delete [OF assms(2)]])
      (use insert in \<open>auto split: prod.splits\<close>)
qed

lemma save_lineage_induct:
  assumes "save_lineage ev sp cl co db = Inr db'" and "P db"
    and "\<And>db db' name row. P db \<Longrightarrow> name \<in> set link_tables \<Longrightarrow>
           upsert_payload name [''link_id''] row db = Inr db' \<Longrightarrow> P db'"
  shows "P db'"
proof -
  have link: "P s'" if "each (\<lambda>l. upsert_payload name [''link_id''] (f l)) ls s = Inr s'" "P s"
    "name \<in> set link_tables" for name f ls s s'
    using that(1,2) by (rule each_induct [where P = P]) (use assms(3) that(3) in blast)
  show ?thesis
    using assms(1,2) unfolding save_lineage_def
    by (auto simp: rbind_Inr_iff link_tables_def dest!: link)
qed

text \<open>The versioned record an operation writes: its table, its identity column and its payload.\<close>

fun op_payload :: "save_op \<Rightarrow> (string \<times> string \<times> sql_row result) option" where
  "op_payload (SaveRequirement r) = Some (''data_requirements'', ''requirement_id'', requirement_payload r)"
| "op_payload (SavePolicy p) = Some (''degraded_mode_policies'', ''policy_id'', policy_payload p)"
| "op_payload (SaveAvailability a) = Some (''data_availability'', ''availability_id'', availability_payload a)"
| "op_payload (SaveAssessment a) =
     Some (''data_sufficiency_assessments'', ''assessment_id'', assessment_payload a)"
| "op_payload (SaveValidation v) =
     Some (''data_source_validation_results'', ''validation_id'', validation_payload v)"
| "op_payload (SaveDisagreement d) =
     Some (''data_disagreement_records'', ''disagreement_id'', disagreement_payload d)"
| "op_payload (SaveValidationWithLineage v e s c k) =
     Some (''data_source_validation_results'', ''validation_id'', validation_payload v)"
| "op_payload (SaveDisagreementWithLineage d e s c k) =
     Some (''data_disagreement_records'', ''disagreement_id'', disagreement_payload d)"
| "op_payload (SaveAvailabilityWithLineage a e s c k) =
     Some (''data_availability'', ''availability_id'', availability_payload a)"
| "op_payload (SaveAssessmentWithLineage a e s c k) =
     Some (''data_sufficiency_assessments'', ''assessment_id'', assessment_payload a)"
| "op_payload _ = None"

definition plain_tables :: "string list" where
  "plain_tables = link_tables @ [''data_sufficiency_processing_runs'', ''data_sufficiency_checkpoints'']"

definition value_tables :: "string list" where
  "value_tables = [''data_requirement_source_types'', ''data_requirement_proxy_types'']"

lemmas table_names = link_tables_def plain_tables_def value_tables_def

text \<open>The statements an operation issues, as an induction rule for invariants of the database.\<close>

lemma transaction_induct:
  assumes "transaction f db = (db', e)" and "P db" and "\<And>db'. f db = Inr db' \<Longrightarrow> P db'"
  shows "P db'"
  using assms by (auto simp: transaction_def split: sum.splits)

lemma upsert_induct:
  assumes "upsert name key payload db = (db', e)" and "P db"
    and "\<And>row db'. payload = Inr row \<Longrightarrow> upsert_payload name key row db = Inr db' \<Longrightarrow> P db'"
  shows "P db'"
  using assms(1,2) unfolding upsert_def
  by (rule transaction_induct [where P = P]) (use assms(3) in \<open>auto simp: rbind_Inr_iff\<close>)

lemma save_with_lineage_induct:
  assumes "save_with_lineage name idc payload ev sp cl co db = (db', e)" and "P db"
    and versioned: "\<And>row db'. payload = Inr row \<Longrightarrow> upsert_payload name (versioned_key idc) row db = Inr db' \<Longrightarrow> P db'"
    and link: "\<And>db db' name row. P db \<Longrightarrow> name \<in> set plain_tables \<Longrightarrow>
           upsert_payload name [''link_id''] row db = Inr db' \<Longrightarrow> P db'"
  shows "P db'"
proof -
  have lineage: "P s'" if "save_lineage ev sp cl co s = Inr s'" "P s" for s s'
    using that by (rule save_lineage_induct [where P = P]) (use link in \<open>auto simp: table_names\<close>)
  show ?thesis
    using assms(1,2) unfolding save_with_lineage_def
    by (rule transaction_induct [where P = P]) (use versioned lineage in \<open>auto simp: rbind_Inr_iff\<close>)
qed

lemma run_op_induct [consumes 2, case_names versioned plain delete insert]:
  assumes run: "run_op s db = (db', e)" and start: "P db"
    and versioned: "\<And>name idc row db db'. P db \<Longrightarrow> op_payload s = Some (name, idc, Inr row) \<Longrightarrow>
          upsert_payload name (versioned_key idc) row db = Inr db' \<Longrightarrow> P db'"
    and plain: "\<And>name k row db db'. P db \<Longrightarrow> name \<in> set plain_tables \<Longrightarrow>
          upsert_payload name [k] row db = Inr db' \<Longrightarrow> P db'"
    and delete: "\<And>name Q db. P db \<Longrightarrow> name \<in> set value_tables \<Longrightarrow> P (db(name := filter Q (db name)))"
    and insert: "\<And>name row db db'. P db \<Longrightarrow> name \<in> set value_tables \<Longrightarrow> insert_row name row db = Inr db' \<Longrightarrow> P db'"
  shows "P db'"
proof -
  have up: "P db'" if "upsert name (versioned_key idc) payload db = (db', e)"
    "op_payload s = Some (name, idc, payload)" for name idc payload
    using that(1) start by (rule upsert_induct [where P = P]) (use versioned start that(2) in blast)
  have lin: "P db'" if "save_with_lineage name idc payload ev sp cl co db = (db', e)"
    "op_payload s = Some (name, idc, payload)" for name idc payload ev sp cl co
    using that(1) start
    by (rule save_with_lineage_induct [where P = P]) (use versioned plain start that(2) in \<open>blast+\<close>)
  have pl: "P db'" if "upsert name [k] payload db = (db', e)" "name \<in> set plain_tables" for name k payload
    using that(1) start by (rule upsert_induct [where P = P]) (use plain start that(2) in blast)
  have one: "commit_each f [l] db = (db', e) \<Longrightarrow> \<exists>e. f l db = (db', e)" for f and l :: lineage_link
    by (auto split: prod.splits option.splits)
  have vals: "P s'" if "replace_requirement_rows name i sv ef re vc vs s = Inr s'" "P s" "name \<in> set value_tables"
    for name i sv ef re vc vs s s'
    using that(1,2) by (rule replace_rows_induct [where P = P]) (use delete insert that(3) in blast)+
  have req: "P db'" if "save_requirement r db = (db', e)" "s = SaveRequirement r" for r
    using that(1) start unfolding save_requirement_def
  proof (rule transaction_induct [where P = P])
    fix t assume "rbind (requirement_payload r) (\<lambda>row.
       rbind (upsert_payload ''data_requirements'' (versioned_key ''requirement_id'') row db) (\<lambda>db.
       rbind (replace_requirement_rows ''data_requirement_source_types'' (dr_requirement_id r) (dr_schema_version r)
                (dr_effective_at r) (dr_recorded_at r) ''source_type'' (dr_required_source_types r) db) (\<lambda>db.
       replace_requirement_rows ''data_requirement_proxy_types'' (dr_requirement_id r) (dr_schema_version r)
         (dr_effective_at r) (dr_recorded_at r) ''proxy_type'' (dr_accepted_proxy_types r) db))) = Inr t"
    then obtain row t1 t2 where row: "requirement_payload r = Inr row"
      and 1: "upsert_payload ''data_requirements'' (versioned_key ''requirement_id'') row db = Inr t1"
      and 2: "replace_requirement_rows ''data_requirement_source_types'' (dr_requirement_id r) (dr_schema_version r)
                (dr_effective_at r) (dr_recorded_at r) ''source_type'' (dr_required_source_types r) t1 = Inr t2"
      and 3: "replace_requirement_rows ''data_requirement_proxy_types'' (dr_requirement_id r) (dr_schema_version r)
         (dr_effective_at r) (dr_recorded_at r) ''proxy_type'' (dr_accepted_proxy_types r) t2 = Inr t"
      by (auto simp: rbind_Inr_iff)
    have "P t1" using versioned [OF start _ 1] row that(2) by simp
    then have "P t2" using vals [OF 2] by (simp add: value_tables_def)
    then show "P t" using vals [OF 3] by (simp add: value_tables_def)
  qed
  note single = save_evidence_links_def save_span_links_def save_claim_links_def save_conflict_links_def save_links_def
  show ?thesis
    using run
    by (cases s)
      (use up lin in \<open>auto simp: save_degraded_mode_policy_def save_availability_def save_assessment_def
          save_source_validation_result_def save_disagreement_def save_source_validation_with_lineage_def
          save_disagreement_with_lineage_def save_availability_with_lineage_def save_assessment_with_lineage_def
          intro: req; fail\<close> |
       use pl one in \<open>auto simp: single save_processing_run_def save_checkpoint_def table_names
          split: prod.splits option.splits; fail\<close>)+
qed

section \<open>The constraints hold at every moment\<close>

definition conforms :: "table_schema \<Rightarrow> sql_table \<Rightarrow> bool" where
  "conforms ts t =
     (list_all (\<lambda>row. list_all (\<lambda>c. c \<in> set (ts_nullable ts) \<or> col row c \<noteq> SNull) (ts_columns ts)) t \<and>
      list_all (\<lambda>u. distinct (map (cols u) t)) (ts_unique ts))"

definition store_valid :: "sql_db \<Rightarrow> bool" where
  "store_valid db = list_all (\<lambda>(name, ts). conforms ts (db name)) SUFFICIENCY_TABLES"

lemma admit_conforms: "admit ts t = Inr t' \<longleftrightarrow> t' = t \<and> conforms ts t"
  by (auto simp: admit_def conforms_def)

lemma conforms_Nil [simp]: "conforms ts []"
  by (simp add: conforms_def list_all_iff)

lemma conforms_filter: "conforms ts t \<Longrightarrow> conforms ts (filter Q t)"
  by (auto simp: conforms_def list_all_iff distinct_map_filter)

lemma table_names_distinct: "distinct (map fst SUFFICIENCY_TABLES)"
  by (simp add: SUFFICIENCY_TABLES_def)

lemma store_valid_table: "store_valid db \<Longrightarrow> map_of SUFFICIENCY_TABLES name = Some ts \<Longrightarrow> conforms ts (db name)"
  by (auto simp: store_valid_def list_all_iff dest: map_of_SomeD)

lemma store_valid_update:
  assumes "store_valid db" and "\<And>ts. map_of SUFFICIENCY_TABLES name = Some ts \<Longrightarrow> conforms ts t"
  shows "store_valid (db(name := t))"
proof -
  have "map_of SUFFICIENCY_TABLES name = Some ts" if "(name, ts) \<in> set SUFFICIENCY_TABLES" for ts
    using that table_names_distinct by simp
  then show ?thesis using assms by (auto simp: store_valid_def list_all_iff)
qed

lemma run_op_valid:
  assumes "run_op s db = (db', e)" and "store_valid db"
  shows "store_valid db'"
  using assms
proof (induction rule: run_op_induct)
  case (versioned name idc row db db')
  then show ?case by (auto simp: admit_conforms elim!: upsert_payloadE intro: store_valid_update)
next
  case (plain name k row db db')
  then show ?case by (auto simp: admit_conforms elim!: upsert_payloadE intro: store_valid_update)
next
  case (delete name Q db)
  show ?case by (intro store_valid_update conforms_filter store_valid_table) (use delete in auto)
next
  case (insert name row db db')
  then show ?case by (auto simp: admit_conforms elim!: insert_rowE intro: store_valid_update)
qed

lemma run_ops_valid: "store_valid db \<Longrightarrow> store_valid (run_ops ss db)"
  by (induction ss db rule: run_ops.induct) (auto intro: run_op_valid [OF prod.collapse [symmetric]])

section \<open>Sample operations\<close>

definition sample_policy :: "pydatetime \<Rightarrow> degraded_mode_policy" where
  "sample_policy t =
     \<lparr>dp_policy_id = ''policy'', dp_policy_version = ''v1'',
      dp_unavailable_required_outcome = ''blocked_insufficient_evidence'',
      dp_partial_required_outcome = ''degraded_material_limitation'',
      dp_stale_required_outcome = ''degraded_material_limitation'',
      dp_proxy_for_direct_outcome = ''blocked_insufficient_evidence'',
      dp_optional_missing_outcome = ''degraded_non_blocking'',
      dp_effective_at = t, dp_recorded_at = t, dp_schema_version = ''v1''\<rparr>"

definition sample_row :: sql_row where
  "sample_row = projr (policy_payload (sample_policy noon))"

definition next_noon :: pydatetime where
  "next_noon = utc 63881438400000000"

lemma sample_instants [simp]:
  "instant noon = 63881352000000000" "instant next_noon = 63881438400000000"
  "representable 63881352000000000" "representable 63881438400000000"
  by (simp_all add: noon_def next_noon_def representable_def)

lemma sample_payload: "op_payload (SavePolicy (sample_policy t)) = Some (''degraded_mode_policies'', ''policy_id'', policy_payload (sample_policy t))"
  by simp

lemma sample_row_payload: "policy_payload (sample_policy noon) = Inr sample_row"
  by (simp add: sample_row_def policy_payload_def)

lemma sample_keys_differ:
  "policy_payload (sample_policy next_noon) = Inr p \<Longrightarrow> cols (versioned_key idc) p \<noteq> cols (versioned_key idc) sample_row"
proof
  assume "policy_payload (sample_policy next_noon) = Inr p" "cols (versioned_key idc) p = cols (versioned_key idc) sample_row"
  then have "utc_isoformat next_noon = utc_isoformat noon"
    by (auto simp: policy_payload_def sample_row_def cols_def versioned_key_def sample_policy_def serialize_time_def col_def)
  then show False using iso_order(3) [of next_noon noon] by simp
qed

section \<open>Stored versions stay\<close>

definition versioned_tables :: "(string \<times> string) list" where
  "versioned_tables =
     [(''data_requirements'', ''requirement_id''), (''degraded_mode_policies'', ''policy_id''),
      (''data_availability'', ''availability_id''), (''data_sufficiency_assessments'', ''assessment_id''),
      (''data_source_validation_results'', ''validation_id''), (''data_disagreement_records'', ''disagreement_id'')]"

lemma op_payload_versioned: "op_payload s = Some (name, idc, p) \<Longrightarrow> (name, idc) \<in> set versioned_tables"
  by (cases s) (auto simp: versioned_tables_def)

lemma versioned_not_other:
  "(name, idc) \<in> set versioned_tables \<Longrightarrow> name \<notin> set plain_tables \<and> name \<notin> set value_tables"
  "(name, idc) \<in> set versioned_tables \<Longrightarrow> (name, idc') \<in> set versioned_tables \<Longrightarrow> idc' = idc"
  by (auto simp: versioned_tables_def table_names)

text \<open>An operation changes a versioned table by upserts of its own payload only.\<close>

lemma run_op_versioned [consumes 3, case_names upsert]:
  assumes "run_op s db = (db', e)" and "(name, idc) \<in> set versioned_tables" and "Q (db name)"
    and upsert: "\<And>row t. Q t \<Longrightarrow> op_payload s = Some (name, idc, Inr row) \<Longrightarrow> Q (upsert_rows (versioned_key idc) row t)"
  shows "Q (db' name)"
  using assms(1,3)
proof (induction rule: run_op_induct [where P = "\<lambda>db. Q (db name)"])
  case (versioned n i row db db')
  then have "n = name \<Longrightarrow> i = idc"
    using assms(2) op_payload_versioned versioned_not_other(2) by blast
  then show ?case using versioned upsert by (auto elim!: upsert_payloadE)
next
  case (plain n k row db db')
  then show ?case using versioned_not_other(1) [OF assms(2)] by (auto elim!: upsert_payloadE)
next
  case (delete n F db)
  then show ?case using versioned_not_other(1) [OF assms(2)] by auto
next
  case (insert n row db db')
  then show ?case using versioned_not_other(1) [OF assms(2)] by (auto elim!: insert_rowE)
qed

lemma run_op_keeps:
  assumes "run_op s db = (db', e)" and "(name, idc) \<in> set versioned_tables" and "row \<in> set (db name)"
  shows "cols (versioned_key idc) row \<in> cols (versioned_key idc) ` set (db' name)"
    and "(\<forall>p. op_payload s = Some (name, idc, Inr p) \<longrightarrow> cols (versioned_key idc) p \<noteq> cols (versioned_key idc) row)
      \<Longrightarrow> row \<in> set (db' name)"
proof -
  show "cols (versioned_key idc) row \<in> cols (versioned_key idc) ` set (db' name)"
    using assms(1,2)
  proof (rule run_op_versioned [where Q = "\<lambda>t. cols (versioned_key idc) row \<in> cols (versioned_key idc) ` set t"])
    show "cols (versioned_key idc) row \<in> cols (versioned_key idc) ` set (db name)" using assms(3) by simp
  next
    fix p t assume "cols (versioned_key idc) row \<in> cols (versioned_key idc) ` set t"
    then show "cols (versioned_key idc) row \<in> cols (versioned_key idc) ` set (upsert_rows (versioned_key idc) p t)"
      unfolding upsert_table.put_keys by (rule insertI2)
  qed
  assume other: "\<forall>p. op_payload s = Some (name, idc, Inr p) \<longrightarrow> cols (versioned_key idc) p \<noteq> cols (versioned_key idc) row"
  show "row \<in> set (db' name)"
    using assms by (rule run_op_versioned [where Q = "\<lambda>t. row \<in> set t"]) (metis other upsert_table.put_keeps)
qed

text \<open>C32. Versions are never lost: after any operations every version that was stored is still stored under its key
  (identity, effective time, recording time, schema version), and the row itself is untouched unless an operation
  wrote that very version again.\<close>

theorem store_history:
  assumes "(name, idc) \<in> set versioned_tables" and "row \<in> set (db name)"
  shows "cols (versioned_key idc) row \<in> cols (versioned_key idc) ` set (run_ops ss db name) \<and>
    ((\<forall>s \<in> set ss. \<forall>p. op_payload s = Some (name, idc, Inr p) \<longrightarrow>
        cols (versioned_key idc) p \<noteq> cols (versioned_key idc) row) \<longrightarrow>
     row \<in> set (run_ops ss db name))"
proof -
  have "k \<in> cols (versioned_key idc) ` set (db name) \<Longrightarrow> k \<in> cols (versioned_key idc) ` set (run_ops ss db name)" for k
  proof (induction ss arbitrary: db)
    case (Cons s ss)
    then have "k \<in> cols (versioned_key idc) ` set (fst (run_op s db) name)"
      using run_op_keeps(1) [OF prod.collapse [symmetric] assms(1)] by blast
    then show ?case using Cons.IH by simp
  qed simp
  moreover have "\<forall>s \<in> set ss. \<forall>p. op_payload s = Some (name, idc, Inr p) \<longrightarrow>
      cols (versioned_key idc) p \<noteq> cols (versioned_key idc) row \<Longrightarrow> row \<in> set (db name) \<Longrightarrow>
      row \<in> set (run_ops ss db name)"
  proof (induction ss arbitrary: db)
    case (Cons s ss)
    then have "row \<in> set (fst (run_op s db) name)"
      using run_op_keeps(2) [OF prod.collapse [symmetric] assms(1), of row db s] by simp
    then show ?case using Cons by simp
  qed simp
  ultimately show ?thesis using assms(2) by blast
qed

lemma store_history_witness:
  "sample_row \<in> set (run_ops [SavePolicy (sample_policy next_noon)]
     ((\<lambda>_. [])(''degraded_mode_policies'' := [sample_row])) ''degraded_mode_policies'')"
  using store_history [of "''degraded_mode_policies''" "''policy_id''" sample_row
      "(\<lambda>_. [])(''degraded_mode_policies'' := [sample_row])" "[SavePolicy (sample_policy next_noon)]"]
    sample_keys_differ
  by (auto simp: versioned_tables_def simp del: run_ops.simps)

section \<open>Replay\<close>

text \<open>Text of the columns of a payload.\<close>

lemma col_append: "col (xs @ ys) c = (if c \<in> fst ` set xs then col xs c else col ys c)"
proof (cases "c \<in> fst ` set xs")
  case True
  then obtain v where "map_of xs c = Some v" by (metis map_of_eq_None_iff not_Some_eq)
  with True show ?thesis by (simp add: col_def map_add_def)
next
  case False
  then have "map_of xs c = None" by (simp add: map_of_eq_None_iff)
  with False show ?thesis by (simp add: col_def map_add_def)
qed

lemma with_metadata_col:
  assumes "with_metadata row m = Inr p" and c: "c \<in> fst ` set row"
  shows "col p c = col row c"
proof -
  from assms(1) obtain t where "p = row @ [(''metadata'', t)]"
    by (auto simp: with_metadata_def rbind_Inr_iff)
  then show ?thesis using c by (simp only: col_append if_True)
qed

lemmas payload_defs = requirement_payload_def policy_payload_def availability_payload_def assessment_payload_def
  validation_payload_def disagreement_payload_def

lemma op_payload_effective:
  assumes "op_payload s = Some (name, idc, Inr row)" and "op_times s = Some (e, r)"
  shows "col row ''effective_at'' = SText (utc_isoformat e)"
  using assms
  by (cases s) (auto simp: payload_defs serialize_time_def dest!: with_metadata_col [where c = "''effective_at''"]
      , auto simp: col_def)

lemma op_payload_recording:
  assumes "op_payload s = Some (name, idc, Inr row)" and "op_times s = Some (e, r)"
  shows "col row ''recorded_at'' = SText (utc_isoformat r)"
  using assms
  by (cases s) (auto simp: payload_defs serialize_time_def dest!: with_metadata_col [where c = "''recorded_at''"]
      , auto simp: col_def)

lemma op_payload_timed: "op_payload s = Some p \<Longrightarrow> \<exists>e r. op_times s = Some (e, r)"
  by (cases s) auto

lemma op_payload_times:
  assumes "op_payload s = Some (name, idc, Inr row)"
  shows "\<exists>e r. op_times s = Some (e, r) \<and> col row ''effective_at'' = SText (utc_isoformat e) \<and>
    col row ''recorded_at'' = SText (utc_isoformat r)"
  using op_payload_timed [OF assms] op_payload_effective [OF assms] op_payload_recording [OF assms] by blast

lemma op_payload_recorded:
  assumes "op_payload s = Some (name, idc, Inr row)"
  shows "\<exists>r. op_recorded s = Some r \<and> col row ''recorded_at'' = SText (utc_isoformat r)"
  using op_payload_times [OF assms] by (auto simp: op_recorded_def)

text \<open>An upsert of a row a query does not see changes nothing the query sees.\<close>

lemma filter_upsert:
  assumes "\<not> Q row" and "\<And>r r'. cols key r = cols key r' \<Longrightarrow> Q r = Q r'"
  shows "filter Q (upsert_rows key row t) = filter Q t"
proof (cases "list_ex (\<lambda>r. cols key r = cols key row) t")
  case True
  let ?f = "\<lambda>r. if cols key r = cols key row then merge_row key r row else r"
  have seen: "Q (?f r) = Q r \<and> (Q r \<longrightarrow> ?f r = r)" for r
    using assms(1) assms(2) [of r row] assms(2) [of "merge_row key r row" r] by (simp add: cols_merge_row)
  have "filter Q (map ?f t) = filter Q t"
  proof (induction t)
    case (Cons r t)
    then show ?case using seen [of r] by (cases "Q r") (simp_all only: list.map filter.simps if_True if_False)
  qed simp
  with True show ?thesis by (simp add: upsert_rows_def)
next
  case False
  then show ?thesis using assms(1) by (simp add: upsert_rows_def)
qed

lemma known_by_key: "cols (versioned_key idc) r = cols (versioned_key idc) r' \<Longrightarrow> known_by strict t r = known_by strict t r'"
  by (simp add: known_by_def cols_def versioned_key_def text_col_def)

lemma late_unknown:
  assumes "op_payload s = Some (name, idc, Inr row)" and "op_recorded s = Some r" and "dt_after r t"
    and "representable (instant r)" and "representable (instant t)"
  shows "\<not> known_by True t row"
proof -
  have "text_col row ''recorded_at'' = utc_isoformat r"
    using op_payload_recorded [OF assms(1)] assms(2) by (auto simp: text_col_def)
  then show ?thesis
    using iso_order(1) [OF assms(5,4)] assms(3) by (auto simp: known_by_def dt_after_def not_le)
qed

lemma run_op_late:
  assumes "(name, idc) \<in> set versioned_tables"
    and "\<forall>r. op_recorded s = Some r \<longrightarrow> dt_after r t \<and> representable (instant r)" and "representable (instant t)"
  shows "filter (known_by True t) (fst (run_op s db) name) = filter (known_by True t) (db name)"
  using prod.collapse [symmetric] assms(1) refl
proof (rule run_op_versioned [where Q = "\<lambda>rows. filter (known_by True t) rows = filter (known_by True t) (db name)"])
  fix row rows
  assume op: "op_payload s = Some (name, idc, Inr row)" and eq: "filter (known_by True t) rows = filter (known_by True t) (db name)"
  obtain r where r: "op_recorded s = Some r" using op_payload_recorded [OF op] by blast
  have "\<not> known_by True t row"
    using late_unknown [OF op r] assms(2,3) r by blast
  then show "filter (known_by True t) (upsert_rows (versioned_key idc) row rows) = filter (known_by True t) (db name)"
    using eq filter_upsert [of "known_by True t" row "versioned_key idc" rows] known_by_key by metis
qed

lemma run_ops_late:
  assumes "(name, idc) \<in> set versioned_tables"
    and "\<forall>s \<in> set ss. \<forall>r. op_recorded s = Some r \<longrightarrow> dt_after r t \<and> representable (instant r)"
    and "representable (instant t)"
  shows "filter (known_by True t) (run_ops ss db name) = filter (known_by True t) (db name)"
  using assms(2) by (induction ss db rule: run_ops.induct) (simp_all add: run_op_late [OF assms(1) _ assms(3)])

text \<open>The strict queries read a table only through what was known.\<close>

lemma version_at_known:
  "version_at name idc i t strict db =
   best_version (filter (\<lambda>row. col row idc = SText i) (filter (known_by strict t) (db name)))"
  by (simp add: version_at_def conj_commute)

lemma rows_at_known:
  "rows_at name idc t filters strict oc db =
   order_by oc (filter (wanted filters) (latest_rows idc (known_by strict t) (filter (known_by strict t) (db name))))"
  by (simp add: rows_at_def latest_rows_visible)

text \<open>C4. A strict historical query has no look-ahead: whatever is saved later (whatever records, links, runs and
  checkpoints, in whatever order, failing or not), as long as the versioned records among it were recorded after
  the cutoff, the requirement, availability and assessment read at the cutoff, and a candidate's
  availabilities and assessments at the cutoff, stay the same.\<close>

theorem store_replay_frozen:
  assumes "\<forall>s \<in> set ss. \<forall>r. op_recorded s = Some r \<longrightarrow> dt_after r t \<and> representable (instant r)"
    and "representable (instant t)"
  shows "requirement_at i t True (run_ops ss db) = requirement_at i t True db \<and>
    availability_at i t True (run_ops ss db) = availability_at i t True db \<and>
    assessment_at i t True (run_ops ss db) = assessment_at i t True db \<and>
    availability_for_candidate_at i t True (run_ops ss db) = availability_for_candidate_at i t True db \<and>
    assessments_for_candidate_at i t True (run_ops ss db) = assessments_for_candidate_at i t True db"
proof -
  have "filter (known_by True t) (run_ops ss db name) = filter (known_by True t) (db name)"
    if "(name, idc) \<in> set versioned_tables" for name idc
    using that assms by (rule run_ops_late)
  note known = this [of "''data_requirements''" "''requirement_id''"]
    this [of "''data_availability''" "''availability_id''"]
    this [of "''data_sufficiency_assessments''" "''assessment_id''"]
  show ?thesis
    unfolding requirement_at_def availability_at_def assessment_at_def availability_for_candidate_at_def
      assessments_for_candidate_at_def version_at_known rows_at_known
    using known by (simp add: versioned_tables_def)
qed

lemma store_replay_frozen_witness:
  "availability_for_candidate_at ''cand'' noon True (run_ops [SavePolicy (sample_policy next_noon)] (\<lambda>_. [])) =
   availability_for_candidate_at ''cand'' noon True (\<lambda>_. [])"
  using store_replay_frozen [of "[SavePolicy (sample_policy next_noon)]" noon]
  by (simp add: op_recorded_def sample_policy_def dt_after_def del: run_ops.simps)

text \<open>The SQL filter of a historical query is the replay filter of the evaluator: for the row of a versioned
  record, under a cutoff and outside the mode \<open>current\<close>, the comparison of timestamps as text holds exactly when
  the evaluator's \<open>_visible_at\<close> lets the record through.\<close>

theorem store_filter_visible:
  assumes "op_payload s = Some (name, idc, Inr row)" and "op_times s = Some (e, r)"
    and "representable (instant e)" and "representable (instant r)" and "representable (instant t)"
    and "ec_cutoff_at c = Some t" and "ec_replay_mode c \<noteq> ''current''"
  shows "known_by (ec_replay_mode c = ''historical_strict_known_by_hunter'') t row \<longleftrightarrow> visible_at c e r"
proof -
  have "text_col row ''effective_at'' = utc_isoformat e" "text_col row ''recorded_at'' = utc_isoformat r"
    using op_payload_times [OF assms(1)] assms(2) by (auto simp: text_col_def)
  then show ?thesis
    using assms(6,7) iso_order(2) [OF assms(3,5)] iso_order(2) [OF assms(4,5)]
    by (auto simp: known_by_def visible_at_def dt_after_def not_less)
qed

lemma store_filter_visible_witness:
  "known_by True noon sample_row \<longleftrightarrow> visible_at (sample_context ''direct_observation'') noon noon"
  using store_filter_visible [of "SavePolicy (sample_policy noon)" "''degraded_mode_policies''" "''policy_id''" sample_row
      noon noon noon "sample_context ''direct_observation''"]
  by (simp add: sample_row_payload sample_context_def) (simp add: sample_policy_def)

section \<open>The latest version\<close>

text \<open>The instant of a timestamp column.\<close>

definition row_time :: "string \<Rightarrow> sql_row \<Rightarrow> int" where
  "row_time c row = (case fromisoformat (text_col row c) of Inr d \<Rightarrow> instant d | Inl _ \<Rightarrow> 0)"

definition row_version :: "sql_row \<Rightarrow> int \<times> int" where
  "row_version row = (row_time ''effective_at'' row, row_time ''recorded_at'' row)"

definition stamped :: "sql_row \<Rightarrow> bool" where
  "stamped row = (\<exists>e r. representable (instant e) \<and> representable (instant r) \<and>
     text_col row ''effective_at'' = utc_isoformat e \<and> text_col row ''recorded_at'' = utc_isoformat r)"

lemma stamped_key: "cols (versioned_key idc) r = cols (versioned_key idc) r' \<Longrightarrow> stamped r = stamped r'"
  by (simp add: stamped_def cols_def versioned_key_def text_col_def)

lemma stamped_version_tuple:
  assumes "stamped row" and "stamped row'"
  shows "version_tuple row < version_tuple row' \<longleftrightarrow> row_version row < row_version row'"
    and "(text_col row ''effective_at'', text_col row ''recorded_at'')
      < (text_col row' ''effective_at'', text_col row' ''recorded_at'') \<longleftrightarrow> row_version row < row_version row'"
proof -
  from assms obtain e r e' r' where
    a: "representable (instant e)" "representable (instant r)" "representable (instant e')" "representable (instant r')"
    and b: "text_col row ''effective_at'' = utc_isoformat e" "text_col row ''recorded_at'' = utc_isoformat r"
      "text_col row' ''effective_at'' = utc_isoformat e'" "text_col row' ''recorded_at'' = utc_isoformat r'"
    unfolding stamped_def by blast
  have v: "row_version row = (instant e, instant r)" "row_version row' = (instant e', instant r')"
    using a by (simp_all add: row_version_def row_time_def b fromisoformat_utc)
  show "version_tuple row < version_tuple row' \<longleftrightarrow> row_version row < row_version row'"
    using iso_pair_order [OF a(1,3,2,4)] by (auto simp: version_tuple_def b v)
  show "(text_col row ''effective_at'', text_col row ''recorded_at'')
      < (text_col row' ''effective_at'', text_col row' ''recorded_at'') \<longleftrightarrow> row_version row < row_version row'"
    using iso_order [OF a(1,3)] iso_order [OF a(2,4)] by (auto simp: b v)
qed

definition ops_representable :: "save_op list \<Rightarrow> bool" where
  "ops_representable ss = (\<forall>s \<in> set ss. \<forall>e r. op_times s = Some (e, r) \<longrightarrow>
     representable (instant e) \<and> representable (instant r))"

lemma run_op_stamped:
  assumes "(name, idc) \<in> set versioned_tables" and "\<forall>row \<in> set (db name). stamped row"
    and "\<forall>e r. op_times s = Some (e, r) \<longrightarrow> representable (instant e) \<and> representable (instant r)"
  shows "\<forall>row \<in> set (fst (run_op s db) name). stamped row"
  using prod.collapse [symmetric] assms(1,2)
proof (rule run_op_versioned [where Q = "\<lambda>t. \<forall>row \<in> set t. stamped row"])
  fix row t assume op: "op_payload s = Some (name, idc, Inr row)" and t: "\<forall>row \<in> set t. stamped row"
  have "stamped row"
    using op_payload_times [OF op] assms(3) by (fastforce simp: stamped_def text_col_def)
  then show "\<forall>r \<in> set (upsert_rows (versioned_key idc) row t). stamped r"
    using t upsert_table.put_adds stamped_key by metis
qed

lemma run_ops_stamped:
  assumes "(name, idc) \<in> set versioned_tables" and "ops_representable ss" and "\<forall>row \<in> set (db name). stamped row"
  shows "\<forall>row \<in> set (run_ops ss db name). stamped row"
  using assms(2,3)
proof (induction ss arbitrary: db)
  case (Cons s ss)
  have "\<forall>row \<in> set (fst (run_op s db) name). stamped row"
    using Cons.prems by (intro run_op_stamped [OF assms(1)]) (simp_all add: ops_representable_def)
  moreover have "ops_representable ss" using Cons.prems(1) by (simp add: ops_representable_def)
  ultimately show ?case unfolding run_ops.simps by (intro Cons.IH)
qed simp

text \<open>C33. The current rows are the latest ones in time: of the rows that operations have stored, a query without a cutoff
  returns exactly those that pass its filters and whose identity has no version with a later
  effective time, or with the same effective time and a later recording time. Timestamps are compared by the
  program as text joined with a bar; the order meant is that of the instants.\<close>

theorem store_current_rows:
  assumes "(name, idc) \<in> set versioned_tables" and "ops_representable ss"
  shows "set (current_rows name idc filters oc (run_ops ss (\<lambda>_. []))) =
    {row \<in> set (run_ops ss (\<lambda>_. []) name). wanted filters row \<and>
      (\<forall>newer \<in> set (run_ops ss (\<lambda>_. []) name). col newer idc = col row idc \<longrightarrow> row_version newer \<le> row_version row)}"
proof -
  have st: "\<forall>row \<in> set (run_ops ss (\<lambda>_. []) name). stamped row"
    by (rule run_ops_stamped [OF assms]) simp
  have order: "version_tuple newer \<le> version_tuple row \<longleftrightarrow> row_version newer \<le> row_version row"
    if "row \<in> set (run_ops ss (\<lambda>_. []) name)" "newer \<in> set (run_ops ss (\<lambda>_. []) name)" for row newer
    unfolding not_less [symmetric] using stamped_version_tuple(1) st that by simp
  show ?thesis
  proof (rule set_eqI)
    fix row
    show "row \<in> set (current_rows name idc filters oc (run_ops ss (\<lambda>_. []))) \<longleftrightarrow> row \<in>
      {row \<in> set (run_ops ss (\<lambda>_. []) name). wanted filters row \<and>
        (\<forall>newer \<in> set (run_ops ss (\<lambda>_. []) name). col newer idc = col row idc \<longrightarrow> row_version newer \<le> row_version row)}"
      unfolding current_rows_def set_order_by set_filter mem_Collect_eq latest_rows_mem
      using order by (simp add: conj_ac cong: conj_cong ball_cong)
  qed
qed

lemma store_current_rows_witness:
  "set (current_rows ''degraded_mode_policies'' ''policy_id'' [] [''policy_id''] (run_ops [SavePolicy (sample_policy noon)] (\<lambda>_. []))) =
    {row \<in> set (run_ops [SavePolicy (sample_policy noon)] (\<lambda>_. []) ''degraded_mode_policies''). wanted [] row \<and>
      (\<forall>newer \<in> set (run_ops [SavePolicy (sample_policy noon)] (\<lambda>_. []) ''degraded_mode_policies'').
        col newer ''policy_id'' = col row ''policy_id'' \<longrightarrow> row_version newer \<le> row_version row)}"
  by (rule store_current_rows) (simp_all add: versioned_tables_def ops_representable_def sample_policy_def)

section \<open>What was saved is read\<close>

lemma transaction_None: "transaction f db = (db', None) \<longleftrightarrow> f db = Inr db'"
  by (auto simp: transaction_def split: sum.splits)

lemma upsert_None:
  assumes "upsert name key (Inr p) db = (db', None)"
  shows "db' name = upsert_rows key p (db name)"
  using assms by (auto simp: upsert_def transaction_None elim!: upsert_payloadE)

lemma save_with_lineage_None:
  assumes "save_with_lineage name idc (Inr p) ev sp cl co db = (db', None)" and "name \<notin> set link_tables"
  shows "db' name = upsert_rows (versioned_key idc) p (db name)"
proof -
  from assms(1) obtain t where t: "upsert_payload name (versioned_key idc) p db = Inr t"
    and l: "save_lineage ev sp cl co t = Inr db'"
    by (auto simp: save_with_lineage_def transaction_None rbind_Inr_iff)
  show ?thesis
    using l by (rule save_lineage_induct [where P = "\<lambda>d. d name = upsert_rows (versioned_key idc) p (db name)"])
      (use t assms(2) in \<open>auto elim!: upsert_payloadE\<close>)
qed

lemma replace_rows_other:
  assumes "replace_requirement_rows name i sv e r vc vs db = Inr db'" and "n \<noteq> name"
  shows "db' n = db n"
  using assms(1) by (rule replace_rows_induct [where P = "\<lambda>d. d n = db n"])
    (use assms(2) in \<open>auto elim!: insert_rowE\<close>)

lemma save_requirement_None:
  assumes "save_requirement r db = (db', None)" and "requirement_payload r = Inr p"
  shows "db' ''data_requirements'' = upsert_rows (versioned_key ''requirement_id'') p (db ''data_requirements'')"
  using assms unfolding save_requirement_def transaction_None
  by (auto simp: rbind_Inr_iff dest!: replace_rows_other [where n = "''data_requirements''"] elim!: upsert_payloadE)

lemma run_op_None:
  assumes "run_op s db = (db', None)" and "op_payload s = Some (name, idc, Inr p)"
  shows "db' name = upsert_rows (versioned_key idc) p (db name)"
proof -
  note defs = save_degraded_mode_policy_def save_availability_def save_assessment_def
    save_source_validation_result_def save_disagreement_def save_source_validation_with_lineage_def
    save_disagreement_with_lineage_def save_availability_with_lineage_def save_assessment_with_lineage_def
  show ?thesis
    using assms by (cases s) (auto simp: defs link_tables_def dest: upsert_None save_requirement_None save_with_lineage_None)
qed

text \<open>Every stored row has the columns of its table.\<close>

lemma op_payload_columns:
  "op_payload s = Some (name, idc, Inr row) \<Longrightarrow>
   map_of SUFFICIENCY_TABLES name = Some ts \<Longrightarrow> map fst row = ts_columns ts"
  by (cases s) (auto simp: SUFFICIENCY_TABLES_def payload_defs with_metadata_def rbind_Inr_iff
      requirements_schema_def policies_schema_def availability_schema_def assessments_schema_def
      validations_schema_def disagreements_schema_def)

lemma merge_row_columns: "map fst (merge_row key old new) = map fst old"
  by (simp add: merge_row_def case_prod_unfold comp_def)

lemma upsert_rows_columns:
  "\<forall>r \<in> set t. map fst r = cs \<Longrightarrow> map fst row = cs \<Longrightarrow> \<forall>r \<in> set (upsert_rows key row t). map fst r = cs"
  by (auto simp: upsert_rows_def merge_row_columns)

lemma run_ops_columns:
  assumes "(name, idc) \<in> set versioned_tables" and "map_of SUFFICIENCY_TABLES name = Some ts"
    and "\<forall>row \<in> set (db name). map fst row = ts_columns ts"
  shows "\<forall>row \<in> set (run_ops ss db name). map fst row = ts_columns ts"
  using assms(3)
proof (induction ss arbitrary: db)
  case (Cons s ss)
  have "\<forall>row \<in> set (fst (run_op s db) name). map fst row = ts_columns ts"
    using prod.collapse [symmetric] assms(1) Cons.prems
  proof (rule run_op_versioned [where Q = "\<lambda>t. \<forall>row \<in> set t. map fst row = ts_columns ts"])
    fix row and t :: sql_table
    assume "op_payload s = Some (name, idc, Inr row)" "\<forall>row \<in> set t. map fst row = ts_columns ts"
    then show "\<forall>r \<in> set (upsert_rows (versioned_key idc) row t). map fst r = ts_columns ts"
      by (intro upsert_rows_columns op_payload_columns [OF _ assms(2)])
  qed
  then show ?case unfolding run_ops.simps by (rule Cons.IH)
qed simp

text \<open>A merged row reads as the row merged into it.\<close>

lemma col_merge_row:
  assumes "map fst old = map fst new" and "distinct (map fst new)" and "cols key old = cols key new"
    and "c \<in> set (map fst new)"
  shows "col (merge_row key old new) c = col new c"
proof (cases "c \<in> set key")
  case True
  have "col (merge_row key old new) c = col old c"
    using cols_merge_row [of key old new] True by (simp add: cols_def)
  then show ?thesis using assms(3) True by (simp add: cols_def)
next
  case False
  obtain v where new: "map_of new c = Some v" using assms(4) by (metis map_of_eq_None_iff not_Some_eq set_map)
  have "map_of (merge_row key old new) c = Some v" if "c \<in> set (map fst old)"
    using that by (induction old) (auto simp: merge_row_def new False)
  then show ?thesis using assms(1,4) new by (simp add: col_def)
qed

lemma upsert_rows_reads:
  assumes "\<forall>r \<in> set t. map fst r = map fst row" and "distinct (map fst row)"
    and "r \<in> set (upsert_rows key row t)" and "cols key r = cols key row" and "c \<in> set (map fst row)"
  shows "col r c = col row c"
proof (cases "list_ex (\<lambda>r. cols key r = cols key row) t")
  case True
  then obtain old where old: "old \<in> set t" "r = (if cols key old = cols key row then merge_row key old row else old)"
    using assms(3) by (auto simp: upsert_rows_def)
  then have "cols key old = cols key row" using assms(4) by (auto simp: cols_merge_row split: if_splits)
  then show ?thesis using col_merge_row [OF _ assms(2) _ assms(5)] assms(1) old by auto
next
  case False
  then have "r = row" using assms(3,4) by (auto simp: upsert_rows_def list_ex_iff)
  then show ?thesis by simp
qed

text \<open>The first row with the greatest version.\<close>

lemma best_version_mem: "best_version t = Some x \<Longrightarrow> x \<in> set t"
  by (induction t arbitrary: x) (auto split: option.splits if_splits)

lemma best_version_unique:
  assumes "r \<in> set t" and "\<forall>x \<in> set t. x = r \<or>
    (text_col x ''effective_at'', text_col x ''recorded_at'') < (text_col r ''effective_at'', text_col r ''recorded_at'')"
  shows "best_version t = Some r"
  using assms
proof (induction t)
  case (Cons y t)
  let ?v = "\<lambda>x. (text_col x ''effective_at'', text_col x ''recorded_at'')"
  have y: "y = r \<or> ?v y < ?v r" using Cons.prems(2) by (rule bspec) simp
  show ?case
  proof (cases "r \<in> set t")
    case True
    then have best: "best_version t = Some r" using Cons.prems(2) by (intro Cons.IH) simp_all
    from y show ?thesis
    proof
      assume "?v y < ?v r"
      then show ?thesis unfolding best_version.simps best option.case by (rule if_P)
    qed (simp add: best)
  next
    case False
    then have yr: "y = r" using Cons.prems(1) by simp
    show ?thesis
    proof (cases "best_version t")
      case (Some x)
      then have x: "x \<in> set t" by (rule best_version_mem)
      with False have "x \<noteq> r" by blast
      then have "?v x < ?v r" using Cons.prems(2) x by (meson list.set_intros(2))
      then have "\<not> ?v y < ?v x" unfolding yr by (rule less_not_sym)
      then show ?thesis unfolding best_version.simps Some option.case yr by (rule if_not_P)
    qed (simp add: yr)
  qed
qed simp

lemma versioned_table_schema:
  assumes "(name, idc) \<in> set versioned_tables"
  obtains ts where "map_of SUFFICIENCY_TABLES name = Some ts" and "versioned_key idc \<in> set (ts_unique ts)"
    and "distinct (ts_columns ts)" and "set (versioned_key idc) \<subseteq> set (ts_columns ts)"
proof -
  have "list_all (\<lambda>(name, idc). case map_of SUFFICIENCY_TABLES name of None \<Rightarrow> False
      | Some ts \<Rightarrow> versioned_key idc \<in> set (ts_unique ts) \<and> distinct (ts_columns ts) \<and>
          list_all (\<lambda>c. c \<in> set (ts_columns ts)) (versioned_key idc)) versioned_tables"
    by code_simp
  then show ?thesis
    using assms that by (fastforce simp: list_all_iff split: option.splits)
qed

lemma store_valid_empty [simp]: "store_valid (\<lambda>_. [])"
  by (auto simp: store_valid_def list_all_iff)

text \<open>What is saved is read: when an operation saves a versioned record without raising, a query at a cutoff that
  knows the record, and knows no other version of the same identity that is as late, returns a row
  with the value of the record in every column.\<close>

theorem store_save_read:
  assumes "ops_representable (ss @ [s])" and "run_op s (run_ops ss (\<lambda>_. [])) = (db', None)"
    and "op_payload s = Some (name, idc, Inr p)" and "col p idc = SText i" and "known_by strict t p"
    and "\<forall>row \<in> set (run_ops ss (\<lambda>_. []) name). col row idc = SText i \<and> known_by strict t row \<longrightarrow>
      cols (versioned_key idc) row = cols (versioned_key idc) p \<or> row_version row < row_version p"
  shows "\<exists>row. version_at name idc i t strict db' = Some row \<and> map fst row = map fst p \<and>
    (\<forall>c \<in> set (map fst p). col row c = col p c)"
proof -
  let ?db = "run_ops ss (\<lambda>_. [])" and ?k = "cols (versioned_key idc)"
  have vt: "(name, idc) \<in> set versioned_tables" by (rule op_payload_versioned [OF assms(3)])
  obtain ts where ts: "map_of SUFFICIENCY_TABLES name = Some ts" "versioned_key idc \<in> set (ts_unique ts)"
    "distinct (ts_columns ts)" "set (versioned_key idc) \<subseteq> set (ts_columns ts)" by (rule versioned_table_schema [OF vt])
  have db': "db' name = upsert_rows (versioned_key idc) p (?db name)" by (rule run_op_None [OF assms(2,3)])
  have pc: "map fst p = ts_columns ts" by (rule op_payload_columns [OF assms(3) ts(1)])
  have shape: "\<forall>r \<in> set (?db name). map fst r = map fst p" unfolding pc by (rule run_ops_columns [OF vt ts(1)]) simp
  have ends: "run_ops (ss @ [s]) db = fst (run_op s (run_ops ss db))" for db by (induction ss arbitrary: db) simp_all
  then have end': "run_ops (ss @ [s]) (\<lambda>_. []) = db'" using assms(2) by simp
  have st': "\<forall>r \<in> set (db' name). stamped r" unfolding end' [symmetric] by (rule run_ops_stamped [OF vt assms(1)]) simp
  have uniq: "distinct (map ?k (db' name))"
    using store_valid_table [OF run_op_valid [OF assms(2) run_ops_valid [OF store_valid_empty]] ts(1)] ts(2)
    by (simp add: conforms_def list_all_iff)
  have "?k p \<in> ?k ` set (db' name)" unfolding db' by (rule upsert_table.put_present)
  then obtain r where r: "r \<in> set (db' name)" and kr: "?k p = ?k r" by (rule imageE)
  note r = r kr [symmetric]
  have reads: "\<forall>c \<in> set (map fst p). col r c = col p c"
    using upsert_rows_reads [OF shape _ r(1) [unfolded db'] r(2)] ts(3) by (simp add: pc)
  have rp: "col r idc = SText i" "known_by strict t r"
    using r(2) assms(4) known_by_key [OF r(2), of strict t] assms(5) by (simp_all only: cols_def versioned_key_def list.map list.inject)
  have rv: "row_version r = row_version p"
    using r(2) by (simp add: row_version_def row_time_def text_col_def cols_def versioned_key_def)
  have later: "x = r \<or> row_version x < row_version r" if x: "x \<in> set (db' name)" "col x idc = SText i" "known_by strict t x" for x
  proof (cases "?k x = ?k p")
    case True
    then show ?thesis using r uniq x(1) by (metis distinct_map inj_onD)
  next
    case False
    then have "x \<in> set (?db name)" using x(1) upsert_table.put_adds [of x "versioned_key idc" p "?db name"] unfolding db' by blast
    then have "row_version x < row_version p" using assms(6) x(2,3) False by blast
    then show ?thesis unfolding rv by (rule disjI2)
  qed
  have "version_at name idc i t strict db' = Some r"
    unfolding version_at_def
  proof (rule best_version_unique)
    show "r \<in> set (filter (\<lambda>row. col row idc = SText i \<and> known_by strict t row) (db' name))" using r(1) rp by simp
    show "\<forall>x \<in> set (filter (\<lambda>row. col row idc = SText i \<and> known_by strict t row) (db' name)). x = r \<or>
      (text_col x ''effective_at'', text_col x ''recorded_at'') < (text_col r ''effective_at'', text_col r ''recorded_at'')"
    proof
      fix x assume "x \<in> set (filter (\<lambda>row. col row idc = SText i \<and> known_by strict t row) (db' name))"
      then have x: "x \<in> set (db' name)" "col x idc = SText i" "known_by strict t x" by simp_all
      from st' x(1) r(1) have "stamped x" "stamped r" by blast+
      then show "x = r \<or>
        (text_col x ''effective_at'', text_col x ''recorded_at'') < (text_col r ''effective_at'', text_col r ''recorded_at'')"
        using later [OF x] unfolding stamped_version_tuple(2) [OF \<open>stamped x\<close> \<open>stamped r\<close>] by blast
    qed
  qed
  moreover have "map fst r = map fst p"
    using upsert_rows_columns [OF shape refl, of "versioned_key idc"] r(1) unfolding db' by blast
  ultimately show ?thesis using reads by blast
qed

lemma sample_save: "run_op (SavePolicy (sample_policy noon)) (\<lambda>_. []) = ((\<lambda>_. [])(''degraded_mode_policies'' := [sample_row]), None)"
  by (simp add: save_degraded_mode_policy_def upsert_def transaction_def sample_row_payload upsert_payload_def
      bind_params_def ensure_table_def SUFFICIENCY_TABLES_def upsert_rows_def admit_def policies_schema_def)
    (simp add: sample_row_def policy_payload_def col_def sample_policy_def serialize_time_def bindable_def)

lemma store_save_read_witness:
  "\<exists>row. version_at ''degraded_mode_policies'' ''policy_id'' ''policy'' noon True
     ((\<lambda>_. [])(''degraded_mode_policies'' := [sample_row])) = Some row \<and> map fst row = map fst sample_row \<and>
    (\<forall>c \<in> set (map fst sample_row). col row c = col sample_row c)"
proof (rule store_save_read [where ss = "[]" and s = "SavePolicy (sample_policy noon)"])
  show "ops_representable ([] @ [SavePolicy (sample_policy noon)])"
    by (simp add: ops_representable_def sample_policy_def)
  show "run_op (SavePolicy (sample_policy noon)) (run_ops [] (\<lambda>_. [])) =
      ((\<lambda>_. [])(''degraded_mode_policies'' := [sample_row]), None)" unfolding run_ops.simps by (rule sample_save)
qed (simp_all add: sample_row_payload, simp_all add: sample_row_def policy_payload_def sample_policy_def col_def
      known_by_def text_col_def serialize_time_def)

end
