(* ===== verification/SuffSelection.thy ===== *)
theory SuffSelection
  imports SuffHistory
begin

text \<open>
  Requirements through the repository: \<open>_requirement_from_row\<close> and
  \<open>RepositoryBackedRequirementSelector\<close> of \<open>hunter.sufficiency.evaluator\<close>, and what a requirement is after it was
  saved and selected again.
\<close>

section \<open>Reading a row\<close>

text \<open>\<open>str\<close>, \<open>bool\<close>, \<open>int\<close> and \<open>float\<close> of a value that a query returned.\<close>

definition str_col :: "sql_row \<Rightarrow> string \<Rightarrow> string" where
  "str_col row c = (case col row c of SText s \<Rightarrow> s | SInt i \<Rightarrow> int_text i | SReal x \<Rightarrow> float_repr x | SNull \<Rightarrow> ''None'')"

definition bool_col :: "sql_row \<Rightarrow> string \<Rightarrow> bool" where
  "bool_col row c = (case col row c of SText s \<Rightarrow> s \<noteq> '''' | SInt i \<Rightarrow> i \<noteq> 0
     | SReal x \<Rightarrow> x \<noteq> PFin 0 \<and> x \<noteq> PNegZero | SNull \<Rightarrow> False)"

text \<open>A number column holds an integer or a float; of other values \<open>int\<close> and \<open>float\<close> raise. Text that reads as a
  number is converted by the column when it is stored.\<close>

definition int_col :: "sql_row \<Rightarrow> string \<Rightarrow> int result" where
  "int_col row c = (case col row c of SInt i \<Rightarrow> Inr i
     | SReal (PFin r) \<Rightarrow> Inr (if r < 0 then - \<lfloor>- r\<rfloor> else \<lfloor>r\<rfloor>)
     | SReal PNegZero \<Rightarrow> Inr 0
     | SReal PNaN \<Rightarrow> Inl (ValueError ''cannot convert float NaN to integer'')
     | SReal _ \<Rightarrow> Inl (OverflowError ''cannot convert float infinity to integer'')
     | SText s \<Rightarrow> Inl (ValueError ''invalid literal for int()'')
     | SNull \<Rightarrow> Inl (TypeError ''int() argument must not be None''))"

definition float_col :: "sql_row \<Rightarrow> string \<Rightarrow> pyfloat result" where
  "float_col row c = (case col row c of SReal x \<Rightarrow> Inr x
     | SInt i \<Rightarrow> Inr (PFin (if i < 0 then - float_div (nat (- i)) 1 else float_div (nat i) 1))
     | SText s \<Rightarrow> Inl (ValueError ''could not convert string to float'')
     | SNull \<Rightarrow> Inl (TypeError ''float() argument must not be None''))"

definition requirement_from_row :: "sql_row \<Rightarrow> string list \<Rightarrow> string list \<Rightarrow> data_requirement result" where
  "requirement_from_row row required_source_types accepted_proxy_types =
     rbind (int_col row ''minimum_freshness_seconds'') (\<lambda>freshness.
     rbind (int_col row ''minimum_lineage_depth'') (\<lambda>depth.
     rbind (float_col row ''minimum_confidence'') (\<lambda>confidence.
     rbind (fromisoformat (str_col row ''effective_at'')) (\<lambda>effective.
     rbind (fromisoformat (str_col row ''recorded_at'')) (\<lambda>recorded.
     mk_data_requirement
       \<lparr>dr_requirement_id = str_col row ''requirement_id'', dr_engine_id = str_col row ''engine_id'',
        dr_analysis_purpose = str_col row ''analysis_purpose'', dr_output_field = str_col row ''output_field'',
        dr_requirement_kind = str_col row ''requirement_kind'', dr_evidence_domain = str_col row ''evidence_domain'',
        dr_required_entity_type = str_col row ''required_entity_type'',
        dr_required_source_types = required_source_types,
        dr_direct_observation_required = bool_col row ''direct_observation_required'',
        dr_proxy_allowed = bool_col row ''proxy_allowed'', dr_accepted_proxy_types = accepted_proxy_types,
        dr_minimum_freshness_seconds = freshness,
        dr_minimum_source_authority = str_col row ''minimum_source_authority'',
        dr_minimum_lineage_depth = depth, dr_minimum_confidence = confidence,
        dr_historical_required = bool_col row ''historical_required'',
        dr_blocking_level = str_col row ''blocking_level'', dr_policy_id = str_col row ''policy_id'',
        dr_policy_version = str_col row ''policy_version'', dr_effective_at = effective, dr_recorded_at = recorded,
        dr_schema_version = str_col row ''schema_version'', dr_metadata = []\<rparr>)))))"

section \<open>The selector\<close>

definition repository_select ::
  "string option \<Rightarrow> string option \<Rightarrow> string option \<Rightarrow> string list \<Rightarrow> string option \<Rightarrow> string option \<Rightarrow>
   sql_db \<Rightarrow> requirement_selection result" where
  "repository_select engine_id analysis_purpose fld candidate_ids checkpoint_processor checkpoint_target db =
     (if candidate_ids = [] then Inl (ValueError ''candidate_ids are required for availability evaluation'')
      else
        let checkpoint = (case (checkpoint_processor, checkpoint_target) of
               (Some p, Some t) \<Rightarrow> repository_checkpoint p t db | _ \<Rightarrow> None)
        in rbind (mapM (\<lambda>row. requirement_from_row row
                 (requirement_source_types (str_col row ''requirement_id'') (str_col row ''schema_version'') None db)
                 (requirement_proxy_types (str_col row ''requirement_id'') (str_col row ''schema_version'') None db))
               (repository_requirements engine_id analysis_purpose fld None db))
             (\<lambda>requirements. Inr \<lparr>rs_requirements = requirements, rs_candidate_ids = uniq candidate_ids,
                rs_checkpoint_cursor = map_option (\<lambda>row. str_col row ''cursor'') checkpoint\<rparr>))"

section \<open>The value rows of a requirement\<close>

definition value_row :: "string \<Rightarrow> string \<Rightarrow> string \<Rightarrow> pydatetime \<Rightarrow> pydatetime \<Rightarrow> nat \<times> string \<Rightarrow> sql_row" where
  "value_row i sv vc e r = (\<lambda>(position, v).
     [(''requirement_id'', SText i), (vc, SText v), (''position'', SInt (int position)),
      (''schema_version'', SText sv), (''effective_at'', serialize_time e), (''recorded_at'', serialize_time r)])"

definition of_version :: "string \<Rightarrow> string \<Rightarrow> pydatetime \<Rightarrow> pydatetime \<Rightarrow> sql_row \<Rightarrow> bool" where
  "of_version i sv e r row = (cols [''requirement_id'', ''schema_version'', ''effective_at'', ''recorded_at''] row =
     [SText i, SText sv, serialize_time e, serialize_time r])"

lemma each_insert:
  assumes "each (\<lambda>x. insert_row name (f x)) xs db = Inr db'"
  shows "db' = db(name := db name @ map f xs)"
  using assms
proof (induction xs arbitrary: db)
  case (Cons x xs)
  then obtain t where t: "insert_row name (f x) db = Inr t" and rest: "each (\<lambda>x. insert_row name (f x)) xs t = Inr db'"
    by (auto simp: rbind_Inr_iff)
  from t have t: "t = db(name := db name @ [f x])" by (rule insert_rowE)
  have "db' = t(name := t name @ map f xs)" using rest by (rule Cons.IH)
  then show ?case unfolding t by simp
qed simp

lemma replace_rows_Inr:
  assumes "replace_requirement_rows name i sv e r vc vs db = Inr db'"
  shows "db' = db(name := filter (\<lambda>row. \<not> of_version i sv e r row) (db name) @ map (value_row i sv vc e r) (enumerate 0 vs))"
proof -
  have eq: "(\<lambda>(position, v). insert_row name
       [(''requirement_id'', SText i), (vc, SText v), (''position'', SInt (int position)),
        (''schema_version'', SText sv), (''effective_at'', serialize_time e), (''recorded_at'', serialize_time r)])
     = (\<lambda>x. insert_row name (value_row i sv vc e r x))"
    by (auto simp: value_row_def)
  show ?thesis
    using assms each_insert [of name "value_row i sv vc e r" "enumerate 0 vs"]
    unfolding replace_requirement_rows_def Let_def eq of_version_def by fastforce
qed

text \<open>The rows of one version, read back in the order of their positions.\<close>

lemma order_by_values:
  assumes "vc = ''source_type'' \<or> vc = ''proxy_type''"
  shows "order_by [''position'', vc] (map (value_row i sv vc e r) (enumerate n vs)) = map (value_row i sv vc e r) (enumerate n vs)"
proof -
  let ?key = "\<lambda>row. map sql_rank (cols [''position'', vc] row)"
  have key: "?key (value_row i sv vc e r (k, v)) = [sql_rank (SInt (int k)), sql_rank (SText v)]" for k v
    using assms by (auto simp: value_row_def cols_def col_def)
  have "sorted (map ?key (map (value_row i sv vc e r) (enumerate n vs)))"
  proof (induction vs arbitrary: n)
    case (Cons v vs)
    have "?key (value_row i sv vc e r (n, v)) \<le> ?key row"
      if "row \<in> set (map (value_row i sv vc e r) (enumerate (Suc n) vs))" for row
    proof -
      from that obtain k w where row: "row = value_row i sv vc e r (k, w)" and "(k, w) \<in> set (enumerate (Suc n) vs)" by auto
      then have "n < k" by (auto simp: enumerate_nth)
      then have "sql_rank (SInt (int n)) < sql_rank (SInt (int k))" by (simp add: sql_rank_def)
      then show ?thesis unfolding row key by simp
    qed
    with Cons.IH [of "Suc n"] show ?case by simp
  qed simp
  then show ?thesis unfolding order_by_def by (simp add: sorted_sort_id sort_key_id_if_sorted)
qed

lemma value_row_facts:
  assumes "vc = ''source_type'' \<or> vc = ''proxy_type''"
  shows "text_col (value_row i sv vc e r (k, v)) vc = v" "of_version i sv e r (value_row i sv vc e r x)"
    "col (value_row i sv vc e r x) ''requirement_id'' = SText i" "col (value_row i sv vc e r x) ''schema_version'' = SText sv"
  using assms by (auto simp: value_row_def text_col_def col_def of_version_def cols_def split: prod.splits)

lemma wanted_version:
  "wanted [(''requirement_id'', Some i), (''schema_version'', Some sv), (''effective_at'', Some (utc_isoformat e)),
     (''recorded_at'', Some (utc_isoformat r))] = of_version i sv e r"
  by (auto simp: fun_eq_iff wanted_def of_version_def cols_def serialize_time_def)

lemma value_row_values:
  assumes "vc = ''source_type'' \<or> vc = ''proxy_type''"
  shows "map (\<lambda>row. text_col row vc) (map (value_row i sv vc e r) (enumerate n vs)) = vs"
  by (induction vs arbitrary: n) (simp_all add: value_row_facts(1) [OF assms])

lemma type_rows_version:
  assumes "vc = ''source_type'' \<or> vc = ''proxy_type''"
    and t: "db name = filter (\<lambda>row. \<not> of_version i sv e r row) old @ map (value_row i sv vc e r) (enumerate 0 vs)"
  shows "type_rows name vc i sv (Some (e, r)) db = vs"
proof -
  have "filter (of_version i sv e r) (db name) = map (value_row i sv vc e r) (enumerate 0 vs)"
    using value_row_facts(2) [OF assms(1)] by (auto simp: t filter_id_conv)
  then have "type_rows name vc i sv (Some (e, r)) db =
    map (\<lambda>row. text_col row vc) (map (value_row i sv vc e r) (enumerate 0 vs))"
    by (simp add: type_rows_def wanted_version order_by_values [OF assms(1)] del: map_map)
  also have "\<dots> = vs" by (rule value_row_values [OF assms(1)])
  finally show ?thesis .
qed

lemma type_rows_all:
  assumes "vc = ''source_type'' \<or> vc = ''proxy_type''"
    and t: "db name = filter (\<lambda>row. \<not> of_version i sv e r row) old @ map (value_row i sv vc e r) (enumerate 0 vs)"
  shows "mset (type_rows name vc i sv None db) = mset (map (\<lambda>row. text_col row vc)
      (filter (\<lambda>row. wanted [(''requirement_id'', Some i), (''schema_version'', Some sv)] row \<and> \<not> of_version i sv e r row) old)) +
    mset vs"
proof -
  let ?w = "wanted [(''requirement_id'', Some i), (''schema_version'', Some sv)]"
  have new: "filter ?w (map (value_row i sv vc e r) (enumerate 0 vs)) = map (value_row i sv vc e r) (enumerate 0 vs)"
    using value_row_facts(3,4) [OF assms(1)] by (auto simp: filter_id_conv wanted_def)
  have "mset (type_rows name vc i sv None db) = mset (map (\<lambda>row. text_col row vc) (filter ?w (db name)))"
    unfolding type_rows_def mset_map order_by_def by (simp add: wanted_def)
  also have "\<dots> = mset (map (\<lambda>row. text_col row vc) (filter (\<lambda>row. ?w row \<and> \<not> of_version i sv e r row) old)) +
      mset vs"
    unfolding t filter_append new map_append mset_append value_row_values [OF assms(1)] by (simp add: conj_commute)
  finally show ?thesis .
qed

lemma save_requirement_tables:
  assumes "save_requirement r db = (db', None)"
  obtains p where "requirement_payload r = Inr p"
    and "db' ''data_requirements'' = upsert_rows (versioned_key ''requirement_id'') p (db ''data_requirements'')"
    and "db' ''data_requirement_source_types'' =
      filter (\<lambda>row. \<not> of_version (dr_requirement_id r) (dr_schema_version r) (dr_effective_at r) (dr_recorded_at r) row)
        (db ''data_requirement_source_types'') @
      map (value_row (dr_requirement_id r) (dr_schema_version r) ''source_type'' (dr_effective_at r) (dr_recorded_at r))
        (enumerate 0 (dr_required_source_types r))"
    and "db' ''data_requirement_proxy_types'' =
      filter (\<lambda>row. \<not> of_version (dr_requirement_id r) (dr_schema_version r) (dr_effective_at r) (dr_recorded_at r) row)
        (db ''data_requirement_proxy_types'') @
      map (value_row (dr_requirement_id r) (dr_schema_version r) ''proxy_type'' (dr_effective_at r) (dr_recorded_at r))
        (enumerate 0 (dr_accepted_proxy_types r))"
proof -
  from assms obtain p t1 t2 where p: "requirement_payload r = Inr p"
    and 1: "upsert_payload ''data_requirements'' (versioned_key ''requirement_id'') p db = Inr t1"
    and 2: "replace_requirement_rows ''data_requirement_source_types'' (dr_requirement_id r) (dr_schema_version r)
              (dr_effective_at r) (dr_recorded_at r) ''source_type'' (dr_required_source_types r) t1 = Inr t2"
    and 3: "replace_requirement_rows ''data_requirement_proxy_types'' (dr_requirement_id r) (dr_schema_version r)
       (dr_effective_at r) (dr_recorded_at r) ''proxy_type'' (dr_accepted_proxy_types r) t2 = Inr db'"
    unfolding save_requirement_def transaction_None by (auto simp: rbind_Inr_iff)
  from 1 have t1: "t1 = db(''data_requirements'' :=
      upsert_rows (versioned_key ''requirement_id'') p (db ''data_requirements''))" by (rule upsert_payloadE)
  note t2 = replace_rows_Inr [OF 2] and t3 = replace_rows_Inr [OF 3]
  show ?thesis by (rule that [OF p]) (simp_all add: t1 t2 t3)
qed

lemma save_requirement_values:
  assumes "save_requirement r db = (db', None)"
  shows "db' ''data_requirement_source_types'' =
      filter (\<lambda>row. \<not> of_version (dr_requirement_id r) (dr_schema_version r) (dr_effective_at r) (dr_recorded_at r) row)
        (db ''data_requirement_source_types'') @
      map (value_row (dr_requirement_id r) (dr_schema_version r) ''source_type'' (dr_effective_at r) (dr_recorded_at r))
        (enumerate 0 (dr_required_source_types r))"
    and "db' ''data_requirement_proxy_types'' =
      filter (\<lambda>row. \<not> of_version (dr_requirement_id r) (dr_schema_version r) (dr_effective_at r) (dr_recorded_at r) row)
        (db ''data_requirement_proxy_types'') @
      map (value_row (dr_requirement_id r) (dr_schema_version r) ''proxy_type'' (dr_effective_at r) (dr_recorded_at r))
        (enumerate 0 (dr_accepted_proxy_types r))"
  by (rule save_requirement_tables [OF assms], assumption)+

section \<open>Saving succeeds\<close>

lemma conforms_append: "conforms ts (xs @ ys) \<Longrightarrow> conforms ts xs"
  by (simp add: conforms_def list_all_iff)

lemma insert_row_ok:
  "map_of SUFFICIENCY_TABLES name = Some ts \<Longrightarrow> conforms ts (db name @ [row]) \<Longrightarrow>
   insert_row name row db = Inr (db(name := db name @ [row]))"
  using admit_conforms [of ts "db name @ [row]" "db name @ [row]"] by (simp add: insert_row_def ensure_table_def)

lemma each_insert_ok:
  assumes "map_of SUFFICIENCY_TABLES name = Some ts" and "conforms ts (db name @ map f xs)"
  shows "each (\<lambda>x. insert_row name (f x)) xs db = Inr (db(name := db name @ map f xs))"
  using assms(2)
proof (induction xs arbitrary: db)
  case (Cons x xs)
  have c: "conforms ts ((db name @ [f x]) @ map f xs)" using Cons.prems by simp
  have "insert_row name (f x) db = Inr (db(name := db name @ [f x]))"
    using assms(1) conforms_append [OF c] by (rule insert_row_ok)
  moreover have "each (\<lambda>x. insert_row name (f x)) xs (db(name := db name @ [f x])) =
      Inr ((db(name := db name @ [f x]))(name := (db(name := db name @ [f x])) name @ map f xs))"
    by (rule Cons.IH) (use c in simp)
  moreover have "(db(name := db name @ [f x]))(name := (db(name := db name @ [f x])) name @ map f xs) =
      db(name := db name @ map f (x # xs))" by simp
  ultimately show ?case by (simp only: each.simps rbind_simps)
qed simp

lemma replace_rows_ok:
  assumes "map_of SUFFICIENCY_TABLES name = Some ts"
    and "conforms ts (filter (\<lambda>row. \<not> of_version i sv e r row) (db name) @ map (value_row i sv vc e r) (enumerate 0 vs))"
  shows "\<exists>db'. replace_requirement_rows name i sv e r vc vs db = Inr db'"
proof -
  have eq: "(\<lambda>(position, v). insert_row name
       [(''requirement_id'', SText i), (vc, SText v), (''position'', SInt (int position)),
        (''schema_version'', SText sv), (''effective_at'', serialize_time e), (''recorded_at'', serialize_time r)])
     = (\<lambda>x. insert_row name (value_row i sv vc e r x))"
    by (auto simp: value_row_def)
  let ?kept = "filter (\<lambda>row. \<not> of_version i sv e r row) (db name)"
  have "each (\<lambda>x. insert_row name (value_row i sv vc e r x)) (enumerate 0 vs) (db(name := ?kept)) =
      Inr ((db(name := ?kept))(name := (db(name := ?kept)) name @ map (value_row i sv vc e r) (enumerate 0 vs)))"
    by (rule each_insert_ok [OF assms(1)]) (use assms(2) in simp)
  then show ?thesis
    unfolding replace_requirement_rows_def Let_def eq of_version_def by blast
qed

lemma save_requirement_ok:
  assumes "requirement_payload r = Inr p" and "bind_params p = Inr p"
    and "conforms requirements_schema (upsert_rows (versioned_key ''requirement_id'') p (db ''data_requirements''))"
    and "conforms source_types_schema
      (filter (\<lambda>row. \<not> of_version (dr_requirement_id r) (dr_schema_version r) (dr_effective_at r) (dr_recorded_at r) row)
        (db ''data_requirement_source_types'') @
      map (value_row (dr_requirement_id r) (dr_schema_version r) ''source_type'' (dr_effective_at r) (dr_recorded_at r))
        (enumerate 0 (dr_required_source_types r)))"
    and "conforms proxy_types_schema
      (filter (\<lambda>row. \<not> of_version (dr_requirement_id r) (dr_schema_version r) (dr_effective_at r) (dr_recorded_at r) row)
        (db ''data_requirement_proxy_types'') @
      map (value_row (dr_requirement_id r) (dr_schema_version r) ''proxy_type'' (dr_effective_at r) (dr_recorded_at r))
        (enumerate 0 (dr_accepted_proxy_types r)))"
  shows "\<exists>db'. save_requirement r db = (db', None)"
proof -
  have tables: "map_of SUFFICIENCY_TABLES ''data_requirements'' = Some requirements_schema"
    "map_of SUFFICIENCY_TABLES ''data_requirement_source_types'' = Some source_types_schema"
    "map_of SUFFICIENCY_TABLES ''data_requirement_proxy_types'' = Some proxy_types_schema"
    by (simp_all add: SUFFICIENCY_TABLES_def)
  define t1 where "t1 = db(''data_requirements'' := upsert_rows (versioned_key ''requirement_id'') p (db ''data_requirements''))"
  have 1: "upsert_payload ''data_requirements'' (versioned_key ''requirement_id'') p db = Inr t1"
    using assms(2,3) by (simp add: upsert_payload_def ensure_table_def tables admit_conforms [THEN iffD2] t1_def)
  obtain t2 where 2: "replace_requirement_rows ''data_requirement_source_types'' (dr_requirement_id r) (dr_schema_version r)
              (dr_effective_at r) (dr_recorded_at r) ''source_type'' (dr_required_source_types r) t1 = Inr t2"
    using replace_rows_ok [OF tables(2), where db = t1] assms(4) by (fastforce simp: t1_def)
  have "t2 ''data_requirement_proxy_types'' = db ''data_requirement_proxy_types''"
    using replace_rows_other [OF 2] by (simp add: t1_def)
  then obtain t3 where 3: "replace_requirement_rows ''data_requirement_proxy_types'' (dr_requirement_id r) (dr_schema_version r)
       (dr_effective_at r) (dr_recorded_at r) ''proxy_type'' (dr_accepted_proxy_types r) t2 = Inr t3"
    using replace_rows_ok [OF tables(3), where db = t2] assms(5) by fastforce
  show ?thesis by (rule exI [of _ t3]) (simp add: save_requirement_def transaction_None assms(1) 1 2 3)
qed

text \<open>The value rows of one version are a table of their own.\<close>

lemma value_rows_conform:
  assumes "distinct vs"
  shows "conforms source_types_schema (map (value_row i sv ''source_type'' e r) (enumerate n vs))"
    and "conforms proxy_types_schema (map (value_row i sv ''proxy_type'' e r) (enumerate n vs))"
proof -
  have "map (cols [''requirement_id'', ''source_type'', ''schema_version'', ''effective_at'', ''recorded_at''])
      (map (value_row i sv ''source_type'' e r) (enumerate n vs)) =
    map (\<lambda>v. [SText i, SText v, SText sv, serialize_time e, serialize_time r]) vs"
    by (induction vs arbitrary: n) (simp_all add: value_row_def cols_def col_def)
  then have "distinct (map (cols [''requirement_id'', ''source_type'', ''schema_version'', ''effective_at'', ''recorded_at''])
      (map (value_row i sv ''source_type'' e r) (enumerate n vs)))"
    using assms by (simp add: distinct_map inj_on_def del: map_map)
  then show "conforms source_types_schema (map (value_row i sv ''source_type'' e r) (enumerate n vs))"
    by (auto simp: conforms_def source_types_schema_def list_all_iff value_row_def col_def serialize_time_def split: prod.splits)
  have "map (cols [''requirement_id'', ''proxy_type'', ''schema_version'', ''effective_at'', ''recorded_at''])
      (map (value_row i sv ''proxy_type'' e r) (enumerate n vs)) =
    map (\<lambda>v. [SText i, SText v, SText sv, serialize_time e, serialize_time r]) vs"
    by (induction vs arbitrary: n) (simp_all add: value_row_def cols_def col_def)
  then have "distinct (map (cols [''requirement_id'', ''proxy_type'', ''schema_version'', ''effective_at'', ''recorded_at''])
      (map (value_row i sv ''proxy_type'' e r) (enumerate n vs)))"
    using assms by (simp add: distinct_map inj_on_def del: map_map)
  then show "conforms proxy_types_schema (map (value_row i sv ''proxy_type'' e r) (enumerate n vs))"
    by (auto simp: conforms_def proxy_types_schema_def list_all_iff value_row_def col_def serialize_time_def split: prod.splits)
qed

text \<open>The columns of a requirement's row, and the requirement they read as.\<close>

lemma requirement_payload_cols:
  assumes "requirement_payload r = Inr p"
  shows "col p ''requirement_id'' = SText (dr_requirement_id r)" "col p ''engine_id'' = SText (dr_engine_id r)"
    "col p ''analysis_purpose'' = SText (dr_analysis_purpose r)" "col p ''output_field'' = SText (dr_output_field r)"
    "col p ''requirement_kind'' = SText (dr_requirement_kind r)" "col p ''evidence_domain'' = SText (dr_evidence_domain r)"
    "col p ''required_entity_type'' = SText (dr_required_entity_type r)"
    "col p ''direct_observation_required'' = serialize_bool (dr_direct_observation_required r)"
    "col p ''proxy_allowed'' = serialize_bool (dr_proxy_allowed r)"
    "col p ''minimum_freshness_seconds'' = SInt (dr_minimum_freshness_seconds r)"
    "col p ''minimum_source_authority'' = SText (dr_minimum_source_authority r)"
    "col p ''minimum_lineage_depth'' = SInt (dr_minimum_lineage_depth r)"
    "col p ''minimum_confidence'' = serialize_real (dr_minimum_confidence r)"
    "col p ''historical_required'' = serialize_bool (dr_historical_required r)"
    "col p ''blocking_level'' = SText (dr_blocking_level r)" "col p ''policy_id'' = SText (dr_policy_id r)"
    "col p ''policy_version'' = SText (dr_policy_version r)"
    "col p ''effective_at'' = SText (utc_isoformat (dr_effective_at r))"
    "col p ''recorded_at'' = SText (utc_isoformat (dr_recorded_at r))"
    "col p ''schema_version'' = SText (dr_schema_version r)"
  using assms unfolding requirement_payload_def with_metadata_def serialize_time_def
  by (auto simp: rbind_Inr_iff) (simp_all add: col_def)

text \<open>A negative zero is read back as zero.\<close>

definition stored_float :: "pyfloat \<Rightarrow> pyfloat" where
  "stored_float x = (if x = PNegZero then PFin 0 else x)"

lemma serialize_real: "x \<noteq> PNaN \<Longrightarrow> serialize_real x = SReal (stored_float x)"
  by (cases x) (simp_all add: serialize_real_def stored_float_def)

lemma in_unit_stored: "in_unit x \<Longrightarrow> x \<noteq> PNaN \<and> in_unit (stored_float x)"
  by (cases x) (simp_all add: stored_float_def)

definition reread :: "data_requirement \<Rightarrow> string list \<Rightarrow> string list \<Rightarrow> data_requirement" where
  "reread r sources proxies = r\<lparr>dr_required_source_types := sources, dr_accepted_proxy_types := proxies,
     dr_effective_at := utc (instant (dr_effective_at r)), dr_recorded_at := utc (instant (dr_recorded_at r)),
     dr_minimum_confidence := stored_float (dr_minimum_confidence r), dr_metadata := []\<rparr>"

lemma bool_serialized: "col row c = serialize_bool b \<Longrightarrow> bool_col row c = b"
  by (simp add: bool_col_def serialize_bool_def)

lemma requirement_from_payload:
  assumes "requirement_payload r = Inr p"
    and "representable (instant (dr_effective_at r))" "representable (instant (dr_recorded_at r))"
    and "dr_minimum_confidence r \<noteq> PNaN"
  shows "requirement_from_row p sources proxies = mk_data_requirement (reread r sources proxies)"
proof -
  note c = requirement_payload_cols [OF assms(1)]
  have b: "bool_col p ''direct_observation_required'' = dr_direct_observation_required r"
    "bool_col p ''proxy_allowed'' = dr_proxy_allowed r" "bool_col p ''historical_required'' = dr_historical_required r"
    by (rule bool_serialized, rule c)+
  show ?thesis
    unfolding reread_def
    by (cases r) (use b c [unfolded serialize_real [OF assms(4)]] assms(2,3) in
      \<open>simp add: requirement_from_row_def str_col_def int_col_def float_col_def fromisoformat_utc\<close>)
qed

lemma requirement_columns:
  assumes "requirement_payload r = Inr p" and "dr_minimum_confidence r \<noteq> PNaN"
  shows "\<forall>c \<in> set (ts_columns requirements_schema). col p c \<noteq> SNull"
  using requirement_payload_cols [OF assms(1), unfolded serialize_real [OF assms(2)]] assms(1)
  by (auto simp: requirements_schema_def serialize_bool_def requirement_payload_def with_metadata_def serialize_metadata_def
      rbind_Inr_iff) (simp add: col_def)

text \<open>The two integers of a requirement that the database has to hold.\<close>

definition fits :: "data_requirement \<Rightarrow> bool" where
  "fits r = (bindable (SInt (dr_minimum_freshness_seconds r)) \<and> bindable (SInt (dr_minimum_lineage_depth r)))"

lemma requirement_binds:
  assumes "requirement_payload r = Inr p"
  shows "bind_params p = (if fits r then Inr p else Inl (OverflowError ''Python int too large to convert to SQLite INTEGER''))"
proof -
  have other: "bindable (SText s)" "bindable (serialize_time d)" "bindable (serialize_bool b)" "bindable (serialize_real x)"
    for s d b x
    by (simp_all add: bindable_def serialize_time_def serialize_bool_def serialize_real_def split: pyfloat.split)
  from assms show ?thesis
    unfolding requirement_payload_def with_metadata_def serialize_metadata_def
    by (auto simp: rbind_Inr_iff bind_params_def fits_def other)
qed

lemma save_requirement_fresh:
  assumes "distinct (dr_required_source_types r)" and "distinct (dr_accepted_proxy_types r)"
    and "requirement_payload r = Inr p" and "dr_minimum_confidence r \<noteq> PNaN" and "fits r"
  obtains db where "save_requirement r (\<lambda>_. []) = (db, None)" and "db ''data_requirements'' = [p]"
proof -
  have bound: "bind_params p = Inr p" by (simp add: requirement_binds [OF assms(3)] assms(5))
  have "conforms requirements_schema [p]"
    using requirement_columns [OF assms(3,4)] by (simp add: conforms_def list_all_iff requirements_schema_def)
  then obtain db where db: "save_requirement r (\<lambda>_. []) = (db, None)"
    using save_requirement_ok [OF assms(3) bound, where db = "\<lambda>_. []"] value_rows_conform assms(1,2) by (auto simp: upsert_rows_def)
  moreover have "db ''data_requirements'' = [p]"
    using save_requirement_None [OF db assms(3)] by (simp add: upsert_rows_def)
  ultimately show ?thesis by (rule that)
qed

section \<open>Saving fails\<close>

lemma each_insert_conforms:
  assumes "map_of SUFFICIENCY_TABLES name = Some ts"
  shows "each (\<lambda>x. insert_row name (f x)) xs db = Inr db' \<Longrightarrow> xs \<noteq> [] \<Longrightarrow> conforms ts (db' name)"
proof (induction xs arbitrary: db)
  case (Cons x xs)
  from Cons.prems(1) obtain t where t: "insert_row name (f x) db = Inr t" and rest: "each (\<lambda>x. insert_row name (f x)) xs t = Inr db'"
    by (auto simp: rbind_Inr_iff)
  show ?case
  proof (cases "xs = []")
    case True
    then have "t = db'" using rest by simp
    then show ?thesis using t assms by (auto simp: admit_conforms elim!: insert_rowE)
  qed (rule Cons.IH [OF rest])
qed simp

lemma replace_rows_conforms:
  assumes "replace_requirement_rows name i sv e r vc vs db = Inr db'" and "vs \<noteq> []"
    and "map_of SUFFICIENCY_TABLES name = Some ts"
  shows "conforms ts (db' name)"
proof -
  have eq: "(\<lambda>(position, v). insert_row name
       [(''requirement_id'', SText i), (vc, SText v), (''position'', SInt (int position)),
        (''schema_version'', SText sv), (''effective_at'', serialize_time e), (''recorded_at'', serialize_time r)])
     = (\<lambda>x. insert_row name (value_row i sv vc e r x))"
    by (auto simp: value_row_def)
  have "enumerate 0 vs \<noteq> []" using assms(2) by (metis length_0_conv length_enumerate)
  with assms(1) show ?thesis
    unfolding replace_requirement_rows_def Let_def eq by (rule each_insert_conforms [OF assms(3)])
qed

lemma value_rows_distinct:
  assumes "distinct (map (cols [''requirement_id'', ''source_type'', ''schema_version'', ''effective_at'', ''recorded_at''])
      (map (value_row i sv ''source_type'' e r) (enumerate n vs)))"
  shows "distinct vs"
proof -
  have "map (cols [''requirement_id'', ''source_type'', ''schema_version'', ''effective_at'', ''recorded_at''])
      (map (value_row i sv ''source_type'' e r) (enumerate n vs)) =
    map (\<lambda>v. [SText i, SText v, SText sv, serialize_time e, serialize_time r]) vs"
    by (induction vs arbitrary: n) (simp_all add: value_row_def cols_def col_def)
  then show ?thesis using assms by (simp add: distinct_map del: map_map)
qed

lemma save_requirement_cases:
  "(\<exists>e. save_requirement r db = (db, Some e)) \<or> (\<exists>db'. save_requirement r db = (db', None))"
  by (auto simp: save_requirement_def transaction_def split: sum.splits)

section \<open>Properties\<close>

text \<open>The source and proxy types of a requirement are stored per version: after a requirement was saved, over
  whatever the store held before, asking for the types of that version gives exactly its types, in their order.\<close>

theorem save_requirement_types:
  assumes "save_requirement r db = (db', None)"
  shows "requirement_source_types (dr_requirement_id r) (dr_schema_version r)
      (Some (dr_effective_at r, dr_recorded_at r)) db' = dr_required_source_types r \<and>
    requirement_proxy_types (dr_requirement_id r) (dr_schema_version r)
      (Some (dr_effective_at r, dr_recorded_at r)) db' = dr_accepted_proxy_types r"
  unfolding requirement_source_types_def requirement_proxy_types_def
  using type_rows_version [where db = db', OF _ save_requirement_values(1) [OF assms]]
    type_rows_version [where db = db', OF _ save_requirement_values(2) [OF assms]] by simp

lemma selected_types:
  assumes "repository_select e ap fld cands cp ct db = Inr sel" and "q \<in> set (rs_requirements sel)"
  shows "dr_required_source_types q = requirement_source_types (dr_requirement_id q) (dr_schema_version q) None db"
    and "dr_accepted_proxy_types q = requirement_proxy_types (dr_requirement_id q) (dr_schema_version q) None db"
proof -
  from assms obtain row where "requirement_from_row row
      (requirement_source_types (str_col row ''requirement_id'') (str_col row ''schema_version'') None db)
      (requirement_proxy_types (str_col row ''requirement_id'') (str_col row ''schema_version'') None db) = Inr q"
    unfolding repository_select_def Let_def
    by (auto simp: rbind_Inr_iff split: if_splits dest!: mapM_mem)
  then show "dr_required_source_types q = requirement_source_types (dr_requirement_id q) (dr_schema_version q) None db"
    and "dr_accepted_proxy_types q = requirement_proxy_types (dr_requirement_id q) (dr_schema_version q) None db"
    by (auto simp: requirement_from_row_def rbind_Inr_iff mk_data_requirement_Inr)
qed

lemma versions_mix:
  assumes "save_requirement r (\<lambda>_. []) = (db, None)" and "save_requirement r' db = (db', None)"
    and "dr_requirement_id r' = dr_requirement_id r" and "dr_schema_version r' = dr_schema_version r"
    and "utc_isoformat (dr_effective_at r') \<noteq> utc_isoformat (dr_effective_at r) \<or>
      utc_isoformat (dr_recorded_at r') \<noteq> utc_isoformat (dr_recorded_at r)"
  shows "mset (requirement_source_types (dr_requirement_id r) (dr_schema_version r) None db') =
      mset (dr_required_source_types r) + mset (dr_required_source_types r')"
    and "mset (requirement_proxy_types (dr_requirement_id r) (dr_schema_version r) None db') =
      mset (dr_accepted_proxy_types r) + mset (dr_accepted_proxy_types r')"
proof -
  let ?i = "dr_requirement_id r" and ?sv = "dr_schema_version r" and ?e = "dr_effective_at r" and ?t = "dr_recorded_at r"
  let ?new = "of_version ?i ?sv (dr_effective_at r') (dr_recorded_at r')"
  have keep: "filter (\<lambda>row. wanted [(''requirement_id'', Some ?i), (''schema_version'', Some ?sv)] row \<and> \<not> ?new row)
      (map (value_row ?i ?sv vc ?e ?t) (enumerate 0 vs)) = map (value_row ?i ?sv vc ?e ?t) (enumerate 0 vs)"
    if "vc = ''source_type'' \<or> vc = ''proxy_type''" for vc vs
  proof -
    have "\<not> ?new (value_row ?i ?sv vc ?e ?t x)" for x
      using value_row_facts(2) [OF that, of ?i ?sv ?e ?t x] assms(5) unfolding of_version_def
      by (simp add: serialize_time_def) metis
    then show ?thesis using value_row_facts(3,4) [OF that] by (auto simp: filter_id_conv wanted_def)
  qed
  have types: "mset (type_rows name vc ?i ?sv None db') = mset vs + mset vs'"
    if vc: "vc = ''source_type'' \<or> vc = ''proxy_type''"
      and 1: "db name = filter (\<lambda>row. \<not> of_version ?i ?sv ?e ?t row) [] @ map (value_row ?i ?sv vc ?e ?t) (enumerate 0 vs)"
      and 2: "db' name = filter (\<lambda>row. \<not> ?new row) (db name) @
        map (value_row ?i ?sv vc (dr_effective_at r') (dr_recorded_at r')) (enumerate 0 vs')" for name vc vs vs'
    using type_rows_all [where db = db', OF vc 2] 1 by (simp add: keep [OF vc] value_row_values [OF vc] del: map_map)
  note s = save_requirement_values(1) [OF assms(1)] save_requirement_values(1) [OF assms(2), unfolded assms(3,4)]
  note p = save_requirement_values(2) [OF assms(1)] save_requirement_values(2) [OF assms(2), unfolded assms(3,4)]
  show "mset (requirement_source_types (dr_requirement_id r) (dr_schema_version r) None db') =
      mset (dr_required_source_types r) + mset (dr_required_source_types r')"
    unfolding requirement_source_types_def using types [OF _ s] by simp
  show "mset (requirement_proxy_types (dr_requirement_id r) (dr_schema_version r) None db') =
      mset (dr_accepted_proxy_types r) + mset (dr_accepted_proxy_types r')"
    unfolding requirement_proxy_types_def using types [OF _ p] by simp
qed

text \<open>C38. The selector mixes the versions of a requirement: after two versions of one requirement were saved (same
  identifier and schema version, different times), a requirement that the selector returns under that
  identifier has the source types and the proxy types of both versions together, because it asks for them
  without saying which version it means.\<close>

theorem selector_mixes_versions:
  assumes "save_requirement r (\<lambda>_. []) = (db, None)" and "save_requirement r' db = (db', None)"
    and "dr_requirement_id r' = dr_requirement_id r" and "dr_schema_version r' = dr_schema_version r"
    and "utc_isoformat (dr_effective_at r') \<noteq> utc_isoformat (dr_effective_at r) \<or>
      utc_isoformat (dr_recorded_at r') \<noteq> utc_isoformat (dr_recorded_at r)"
    and "repository_select e ap fld cands cp ct db' = Inr sel" and "q \<in> set (rs_requirements sel)"
    and "dr_requirement_id q = dr_requirement_id r" and "dr_schema_version q = dr_schema_version r"
  shows "mset (dr_required_source_types q) = mset (dr_required_source_types r) + mset (dr_required_source_types r') \<and>
    mset (dr_accepted_proxy_types q) = mset (dr_accepted_proxy_types r) + mset (dr_accepted_proxy_types r')"
  unfolding selected_types [OF assms(6,7)] assms(8,9) using versions_mix [OF assms(1-5)] by simp

lemma reread_valid:
  assumes "valid_requirement r" and "sources \<noteq> []" and "list_all (\<lambda>v. \<not> blank v) sources"
    and "list_all (\<lambda>v. v \<in> set PROXY_SIGNAL_TYPES \<and> v \<noteq> ''none'') proxies"
    and "proxies = [] \<longleftrightarrow> dr_accepted_proxy_types r = []"
  shows "valid_requirement (reread r sources proxies)"
  using assms
  unfolding valid_requirement_def data_requirement_checks_def list_all_append check_texts_None check_text_tuple_None
    check_proxy_tuple_None
  by (simp add: reread_def in_unit_stored)

text \<open>Two versions of the sample requirement.\<close>

definition later_requirement :: data_requirement where
  "later_requirement = sample_requirement\<lparr>dr_required_source_types := [''claim'', ''price''], dr_effective_at := next_noon,
     dr_recorded_at := next_noon\<rparr>"

lemma later_requirement_valid: "valid_requirement later_requirement"
  by (simp add: valid_requirement_def data_requirement_checks_def later_requirement_def sample_requirement_def
      check_texts_def check_text_tuple_def check_proxy_tuple_def vocabulary_defs is_space_def noon_def next_noon_def)

lemma sample_requirement_payload:
  "requirement_payload sample_requirement = Inr (projr (requirement_payload sample_requirement))"
  "requirement_payload later_requirement = Inr (projr (requirement_payload later_requirement))"
  by (simp_all add: requirement_payload_def with_metadata_def serialize_metadata_def payload_dict_def sample_requirement_def
      later_requirement_def)

lemma sample_times_differ: "utc_isoformat next_noon \<noteq> utc_isoformat noon"
  using iso_order(3) [of next_noon noon] by simp

lemma later_fields:
  "dr_requirement_id later_requirement = dr_requirement_id sample_requirement"
  "dr_schema_version later_requirement = dr_schema_version sample_requirement"
  "dr_effective_at sample_requirement = noon" "dr_recorded_at sample_requirement = noon"
  "dr_effective_at later_requirement = next_noon" "dr_recorded_at later_requirement = next_noon"
  by (simp_all add: later_requirement_def sample_requirement_def)

lemma two_versions:
  obtains db db' where "save_requirement sample_requirement (\<lambda>_. []) = (db, None)"
    and "save_requirement later_requirement db = (db', None)"
    and "db' ''data_requirements'' = [projr (requirement_payload sample_requirement), projr (requirement_payload later_requirement)]"
proof -
  let ?p = "projr (requirement_payload sample_requirement)" and ?p' = "projr (requirement_payload later_requirement)"
    and ?r' = later_requirement
  note pay = sample_requirement_payload and differ = sample_times_differ sample_times_differ [symmetric]
  note c = requirement_payload_cols [OF pay(1)] requirement_payload_cols [OF pay(2)]
  have numbers: "dr_minimum_confidence sample_requirement \<noteq> PNaN" "dr_minimum_confidence later_requirement \<noteq> PNaN"
    by (simp_all add: sample_requirement_def later_requirement_def)
  have bound: "bind_params ?p' = Inr ?p'"
    by (simp add: requirement_binds [OF pay(2)]) (simp add: fits_def bindable_def sample_requirement_def later_requirement_def)
  obtain db where db: "save_requirement sample_requirement (\<lambda>_. []) = (db, None)" and row: "db ''data_requirements'' = [?p]"
    by (rule save_requirement_fresh [OF _ _ pay(1)]) (simp_all add: sample_requirement_def fits_def bindable_def)
  have key: "cols (versioned_key ''requirement_id'') ?p \<noteq> cols (versioned_key ''requirement_id'') ?p'"
    using sample_times_differ by (auto simp: cols_def versioned_key_def c later_fields)
  then have up: "upsert_rows (versioned_key ''requirement_id'') ?p' (db ''data_requirements'') = [?p, ?p']"
    by (simp add: upsert_rows_def row)
  have conf: "conforms requirements_schema [?p, ?p']"
    using requirement_columns [OF pay(1) numbers(1)] requirement_columns [OF pay(2) numbers(2)] key
    by (simp add: conforms_def list_all_iff requirements_schema_def versioned_key_def)
  note new = save_requirement_values [OF db]
  have "\<exists>db'. save_requirement later_requirement db = (db', None)"
  proof (rule save_requirement_ok [OF pay(2) bound])
    show "conforms requirements_schema (upsert_rows (versioned_key ''requirement_id'') ?p' (db ''data_requirements''))"
      unfolding up by (rule conf)
  next
    show "conforms source_types_schema
      (filter (\<lambda>row. \<not> of_version (dr_requirement_id ?r') (dr_schema_version ?r') (dr_effective_at ?r') (dr_recorded_at ?r') row)
        (db ''data_requirement_source_types'') @
      map (value_row (dr_requirement_id ?r') (dr_schema_version ?r') ''source_type'' (dr_effective_at ?r') (dr_recorded_at ?r'))
        (enumerate 0 (dr_required_source_types ?r')))"
      unfolding new by (simp add: later_requirement_def sample_requirement_def value_row_def of_version_def cols_def col_def
          serialize_time_def differ)
        (simp add: conforms_def source_types_schema_def cols_def col_def differ)
    show "conforms proxy_types_schema
      (filter (\<lambda>row. \<not> of_version (dr_requirement_id ?r') (dr_schema_version ?r') (dr_effective_at ?r') (dr_recorded_at ?r') row)
        (db ''data_requirement_proxy_types'') @
      map (value_row (dr_requirement_id ?r') (dr_schema_version ?r') ''proxy_type'' (dr_effective_at ?r') (dr_recorded_at ?r'))
        (enumerate 0 (dr_accepted_proxy_types ?r')))"
      unfolding new by (simp add: later_requirement_def sample_requirement_def value_row_def of_version_def cols_def col_def
          serialize_time_def differ)
        (simp add: conforms_def proxy_types_schema_def cols_def col_def differ)
  qed
  then obtain db' where db': "save_requirement later_requirement db = (db', None)" ..
  have "db' ''data_requirements'' = [?p, ?p']"
    using save_requirement_None [OF db' pay(2)] up by simp
  then show ?thesis by (rule that [OF db db'])
qed

lemma save_requirement_types_witness:
  "\<exists>db. save_requirement sample_requirement (\<lambda>_. []) = (db, None) \<and>
    requirement_source_types ''req-1'' ''v1'' (Some (noon, noon)) db = [''relationship'', ''claim'']"
proof (rule two_versions)
  fix db assume db: "save_requirement sample_requirement (\<lambda>_. []) = (db, None)"
  show ?thesis
    by (rule exI [of _ db], rule conjI [OF db])
      (use save_requirement_types [OF db] in \<open>simp add: sample_requirement_def\<close>)
qed

lemma selector_mixes_versions_witness:
  "\<exists>db sel q. repository_select None None None [''cand''] None None db = Inr sel \<and> q \<in> set (rs_requirements sel) \<and>
    mset (dr_required_source_types q) = {#''relationship'', ''claim'', ''claim'', ''price''#}"
proof (rule two_versions)
  fix db db'
  let ?r = sample_requirement and ?r' = later_requirement
  let ?p = "projr (requirement_payload ?r)" and ?p' = "projr (requirement_payload ?r')"
  assume s: "save_requirement ?r (\<lambda>_. []) = (db, None)" "save_requirement ?r' db = (db', None)"
    and rows: "db' ''data_requirements'' = [?p, ?p']"
  note pay = sample_requirement_payload
  note c = requirement_payload_cols [OF pay(1)] requirement_payload_cols [OF pay(2)]
  have differ: "utc_isoformat (dr_effective_at ?r') \<noteq> utc_isoformat (dr_effective_at ?r) \<or>
      utc_isoformat (dr_recorded_at ?r') \<noteq> utc_isoformat (dr_recorded_at ?r)"
    using sample_times_differ by (simp add: later_fields)
  define T where "T = requirement_source_types (dr_requirement_id ?r) (dr_schema_version ?r) None db'"
  define P where "P = requirement_proxy_types (dr_requirement_id ?r) (dr_schema_version ?r) None db'"
  note mix = versions_mix [OF s later_fields(1,2) differ, folded T_def P_def]
  have T: "set T = {''relationship'', ''claim'', ''price''}" "set P = {''competitive_proxy''}"
    using mix [THEN arg_cong [where f = set_mset]] by (auto simp: sample_requirement_def later_requirement_def)
  have "T \<noteq> []" by (rule notI, use T(1) in simp)
  have "P \<noteq> []" by (rule notI, use T(2) in simp)
  have T': "list_all (\<lambda>v. \<not> blank v) T" using T(1) by (simp add: list_all_iff is_space_def)
  have P': "list_all (\<lambda>v. v \<in> set PROXY_SIGNAL_TYPES \<and> v \<noteq> ''none'') P"
    using T(2) by (simp add: list_all_iff PROXY_SIGNAL_TYPES_def)
  have some: "P = [] \<longleftrightarrow> dr_accepted_proxy_types ?r = []" "P = [] \<longleftrightarrow> dr_accepted_proxy_types ?r' = []"
    using \<open>P \<noteq> []\<close> by (simp_all add: later_requirement_def sample_requirement_def)
  note valid = reread_valid [OF sample_requirement_valid \<open>T \<noteq> []\<close> T' P' some(1)]
    reread_valid [OF later_requirement_valid \<open>T \<noteq> []\<close> T' P' some(2)]
  let ?read = "\<lambda>row. requirement_from_row row
      (requirement_source_types (str_col row ''requirement_id'') (str_col row ''schema_version'') None db')
      (requirement_proxy_types (str_col row ''requirement_id'') (str_col row ''schema_version'') None db')"
  have numbers: "dr_minimum_confidence sample_requirement \<noteq> PNaN" "dr_minimum_confidence later_requirement \<noteq> PNaN"
    by (simp_all add: sample_requirement_def later_requirement_def)
  have read: "\<exists>q. ?read row = Inr q \<and> dr_requirement_id q = dr_requirement_id ?r \<and> dr_schema_version q = dr_schema_version ?r"
    if "row = ?p \<or> row = ?p'" for row
  proof -
    have ids: "str_col row ''requirement_id'' = dr_requirement_id ?r" "str_col row ''schema_version'' = dr_schema_version ?r"
      using that by (auto simp: str_col_def c later_fields)
    from that show ?thesis
      unfolding ids T_def [symmetric] P_def [symmetric]
      using requirement_from_payload [OF pay(1) _ _ numbers(1), of T P] requirement_from_payload [OF pay(2) _ _ numbers(2), of T P] valid
      by (auto simp: later_fields mk_data_requirement_Inr reread_def)
  qed
  let ?rows = "repository_requirements None None None None db'"
  have sub: "set ?rows \<subseteq> {?p, ?p'}"
    by (auto simp: repository_requirements_def current_rows_def latest_rows_mem rows)
  have "\<exists>best \<in> set (latest_rows ''requirement_id'' (\<lambda>row. True) (db' ''data_requirements'')). col best ''requirement_id'' = col ?p ''requirement_id''"
    by (rule latest_rows_exist) (simp_all add: rows)
  then obtain row where row: "row \<in> set ?rows"
    by (auto simp: repository_requirements_def current_rows_def wanted_def)
  have each: "\<exists>q. ?read row = Inr q \<and> dr_requirement_id q = dr_requirement_id ?r \<and> dr_schema_version q = dr_schema_version ?r"
    if "row \<in> set ?rows" for row
  proof (rule read)
    show "row = ?p \<or> row = ?p'" using subsetD [OF sub that] by blast
  qed
  have "\<exists>qs. mapM ?read ?rows = Inr qs"
    by (rule mapM_total) (drule each, blast)
  then obtain qs where qs: "mapM ?read ?rows = Inr qs" ..
  have "qs \<noteq> []" using row mapM_length [OF qs] by auto
  then have q: "hd qs \<in> set qs" by simp
  from mapM_mem [OF qs q] obtain row' where "row' \<in> set ?rows" "?read row' = Inr (hd qs)" by blast
  with each have ids: "dr_requirement_id (hd qs) = dr_requirement_id ?r" "dr_schema_version (hd qs) = dr_schema_version ?r"
    by (metis sum.inject(2))+
  have sel: "repository_select None None None [''cand''] None None db' =
      Inr \<lparr>rs_requirements = qs, rs_candidate_ids = [''cand''], rs_checkpoint_cursor = None\<rparr>"
    by (simp add: repository_select_def qs)
  have "mset (dr_required_source_types (hd qs)) = mset (dr_required_source_types ?r) + mset (dr_required_source_types ?r')"
    using selector_mixes_versions [OF s later_fields(1,2) differ sel _ ids] q by simp
  also have "\<dots> = {#''relationship'', ''claim'', ''claim'', ''price''#}"
    by (simp add: sample_requirement_def later_requirement_def)
  finally have m: "mset (dr_required_source_types (hd qs)) = {#''relationship'', ''claim'', ''claim'', ''price''#}" .
  have "hd qs \<in> set (rs_requirements \<lparr>rs_requirements = qs, rs_candidate_ids = [''cand''], rs_checkpoint_cursor = None\<rparr>)"
    using q by simp
  with sel m show ?thesis by blast
qed

text \<open>A saved requirement that fits into the database, read back; and one that does not fit.\<close>

lemma requirement_reread:
  assumes "valid_requirement r" and "distinct (dr_required_source_types r)" and "distinct (dr_accepted_proxy_types r)"
    and "\<exists>t. serialize_metadata (dr_metadata r) = Inr t"
    and "representable (instant (dr_effective_at r))" and "representable (instant (dr_recorded_at r))" and "cands \<noteq> []"
    and p: "requirement_payload r = Inr p" and "fits r"
  shows "\<exists>db. save_requirement r (\<lambda>_. []) = (db, None) \<and>
    repository_select e ap fld cands None None db = Inr
      \<lparr>rs_requirements =
         (if matches e (dr_engine_id r) \<and> matches ap (dr_analysis_purpose r) \<and> matches fld (dr_output_field r)
          then [(reread r (dr_required_source_types r) (dr_accepted_proxy_types r))
                  \<lparr>dr_minimum_confidence := round4 (stored_float (dr_minimum_confidence r))\<rparr>] else []),
       rs_candidate_ids = uniq cands, rs_checkpoint_cursor = None\<rparr>"
proof -
  have number: "dr_minimum_confidence r \<noteq> PNaN" using valid_requirementD(15) [OF assms(1)] in_unit_stored by blast
  obtain db where db: "save_requirement r (\<lambda>_. []) = (db, None)" and row: "db ''data_requirements'' = [p]"
    by (rule save_requirement_fresh [OF assms(2,3) p number assms(9)])
  have types: "requirement_source_types (dr_requirement_id r) (dr_schema_version r) None db = dr_required_source_types r"
    "requirement_proxy_types (dr_requirement_id r) (dr_schema_version r) None db = dr_accepted_proxy_types r"
    using save_requirement_values [OF db] value_row_values value_row_facts(3,4)
    by (simp_all add: requirement_source_types_def requirement_proxy_types_def type_rows_def wanted_def order_by_values del: map_map)
  note c = requirement_payload_cols [OF p]
  have "wanted [(''engine_id'', e), (''analysis_purpose'', ap), (''output_field'', fld), (''policy_version'', None)] p \<longleftrightarrow>
      matches e (dr_engine_id r) \<and> matches ap (dr_analysis_purpose r) \<and> matches fld (dr_output_field r)"
    by (auto simp: wanted_def matches_def c split: option.splits)
  then have rows: "repository_requirements e ap fld None db =
      (if matches e (dr_engine_id r) \<and> matches ap (dr_analysis_purpose r) \<and> matches fld (dr_output_field r) then [p] else [])"
    by (simp add: repository_requirements_def current_rows_def row latest_rows_def order_by_def)
  have "valid_requirement (reread r (dr_required_source_types r) (dr_accepted_proxy_types r))"
    using assms(1) by (simp add: valid_requirement_def data_requirement_checks_def reread_def in_unit_stored)
  then have read: "requirement_from_row p (dr_required_source_types r) (dr_accepted_proxy_types r) =
      Inr ((reread r (dr_required_source_types r) (dr_accepted_proxy_types r))
        \<lparr>dr_minimum_confidence := round4 (stored_float (dr_minimum_confidence r))\<rparr>)"
    unfolding requirement_from_payload [OF p assms(5,6) number] by (simp add: mk_data_requirement_Inr reread_def)
  have ids: "str_col p ''requirement_id'' = dr_requirement_id r" "str_col p ''schema_version'' = dr_schema_version r"
    by (simp_all add: str_col_def c)
  show ?thesis
    by (rule exI [of _ db]) (use assms(7) in \<open>simp add: db repository_select_def rows ids types read\<close>)
qed

lemma save_requirement_overflow:
  assumes "requirement_payload r = Inr p" and "\<not> fits r"
  shows "save_requirement r store = (store, Some (OverflowError ''Python int too large to convert to SQLite INTEGER''))"
  using assms(2)
  by (simp add: save_requirement_def transaction_def assms(1) upsert_payload_def requirement_binds [OF assms(1)] ensure_table_def
      SUFFICIENCY_TABLES_def)

text \<open>C37. A requirement survives the store: a constructed requirement with distinct source and proxy types, representable times,
  serializable metadata and thresholds below 2^63 can be saved in an empty store, and the selector then returns exactly this
  requirement when its filters match it (and no requirement otherwise), with its times in UTC, its confidence rounded to four
  digits (a negative zero is stored as zero) and its metadata dropped. A threshold from 2^63 on, which the constructor accepts,
  cannot be saved: the driver raises \<open>OverflowError\<close>, whatever the store holds, and the store stays as it was.\<close>

theorem requirement_roundtrip:
  assumes "valid_requirement r" and "distinct (dr_required_source_types r)" and "distinct (dr_accepted_proxy_types r)"
    and "\<exists>t. serialize_metadata (dr_metadata r) = Inr t"
    and "representable (instant (dr_effective_at r))" and "representable (instant (dr_recorded_at r))" and "cands \<noteq> []"
  shows "if dr_minimum_freshness_seconds r < 2 ^ 63 \<and> dr_minimum_lineage_depth r < 2 ^ 63
    then \<exists>db. save_requirement r (\<lambda>_. []) = (db, None) \<and>
      repository_select e ap fld cands None None db = Inr
        \<lparr>rs_requirements =
           (if matches e (dr_engine_id r) \<and> matches ap (dr_analysis_purpose r) \<and> matches fld (dr_output_field r)
            then [(reread r (dr_required_source_types r) (dr_accepted_proxy_types r))
                    \<lparr>dr_minimum_confidence := round4 (stored_float (dr_minimum_confidence r))\<rparr>] else []),
         rs_candidate_ids = uniq cands, rs_checkpoint_cursor = None\<rparr>
    else save_requirement r store = (store, Some (OverflowError ''Python int too large to convert to SQLite INTEGER''))"
proof -
  obtain p where p: "requirement_payload r = Inr p"
    using assms(4) by (auto simp: requirement_payload_def with_metadata_def)
  have bounds: "fits r \<longleftrightarrow> dr_minimum_freshness_seconds r < 2 ^ 63 \<and> dr_minimum_lineage_depth r < 2 ^ 63"
    using valid_requirementD(13,14) [OF assms(1)] by (simp add: fits_def bindable_def)
  show ?thesis
  proof (cases "fits r")
    case True
    then show ?thesis using requirement_reread [OF assms p True] by (simp add: bounds)
  next
    case False
    show ?thesis using save_requirement_overflow [OF p False, of store] False unfolding bounds by (simp only: if_False)
  qed
qed

definition slow_requirement :: data_requirement where
  "slow_requirement = sample_requirement\<lparr>dr_minimum_freshness_seconds := 2 ^ 63\<rparr>"

lemma requirement_roundtrip_witness:
  "(\<exists>db. save_requirement sample_requirement (\<lambda>_. []) = (db, None) \<and>
    repository_select (Some ''competitive'') None None [''cand''] None None db = Inr
      \<lparr>rs_requirements = [(reread sample_requirement [''relationship'', ''claim''] [''competitive_proxy''])
          \<lparr>dr_minimum_confidence := round4 (PFin (1/2))\<rparr>],
       rs_candidate_ids = [''cand''], rs_checkpoint_cursor = None\<rparr>) \<and>
   save_requirement slow_requirement (\<lambda>_. []) =
     ((\<lambda>_. []), Some (OverflowError ''Python int too large to convert to SQLite INTEGER''))"
proof
  have slow: "valid_requirement slow_requirement"
    using sample_requirement_valid by (simp add: slow_requirement_def valid_requirement_def data_requirement_checks_def)
  show "save_requirement slow_requirement (\<lambda>_. []) =
     ((\<lambda>_. []), Some (OverflowError ''Python int too large to convert to SQLite INTEGER''))"
    using requirement_roundtrip [OF slow, where cands = "[''cand'']" and store = "\<lambda>_. []"]
    by (simp add: slow_requirement_def sample_requirement_def serialize_metadata_def payload_dict_def)
qed (use requirement_roundtrip [of sample_requirement "[''cand'']" "Some ''competitive''" None None] sample_requirement_valid in
  \<open>simp add: sample_requirement_def matches_def serialize_metadata_def payload_dict_def stored_float_def\<close>)

text \<open>The store refuses what the constructor accepts: a requirement that names a source type twice passes the checks of
  \<open>DataRequirement\<close> but can never be saved, whatever the store holds; the save raises and leaves the store as it
  was.\<close>

theorem save_repeated_source_type:
  assumes "\<not> distinct (dr_required_source_types r)"
  shows "\<exists>e. save_requirement r db = (db, Some e)"
proof (rule ccontr)
  assume "\<not> ?thesis"
  then obtain db' where db': "save_requirement r db = (db', None)" using save_requirement_cases by blast
  then obtain t1 t2 where 2: "replace_requirement_rows ''data_requirement_source_types'' (dr_requirement_id r) (dr_schema_version r)
              (dr_effective_at r) (dr_recorded_at r) ''source_type'' (dr_required_source_types r) t1 = Inr t2"
    and 3: "replace_requirement_rows ''data_requirement_proxy_types'' (dr_requirement_id r) (dr_schema_version r)
       (dr_effective_at r) (dr_recorded_at r) ''proxy_type'' (dr_accepted_proxy_types r) t2 = Inr db'"
    unfolding save_requirement_def transaction_None by (auto simp: rbind_Inr_iff)
  have "dr_required_source_types r \<noteq> []" using assms by auto
  then have "conforms source_types_schema (t2 ''data_requirement_source_types'')"
    using replace_rows_conforms [OF 2] by (simp add: SUFFICIENCY_TABLES_def)
  then have "conforms source_types_schema (map (value_row (dr_requirement_id r) (dr_schema_version r) ''source_type''
      (dr_effective_at r) (dr_recorded_at r)) (enumerate 0 (dr_required_source_types r)))"
    using replace_rows_Inr [OF 2] by (auto simp: conforms_def list_all_iff)
  then have "distinct (map (cols [''requirement_id'', ''source_type'', ''schema_version'', ''effective_at'', ''recorded_at''])
      (map (value_row (dr_requirement_id r) (dr_schema_version r) ''source_type'' (dr_effective_at r) (dr_recorded_at r))
        (enumerate 0 (dr_required_source_types r))))"
    by (simp add: conforms_def source_types_schema_def)
  then have "distinct (dr_required_source_types r)" by (rule value_rows_distinct)
  with assms show False ..
qed

lemma save_repeated_source_type_witness:
  "valid_requirement (sample_requirement\<lparr>dr_required_source_types := [''claim'', ''claim'']\<rparr>) \<and>
   (\<exists>e. save_requirement (sample_requirement\<lparr>dr_required_source_types := [''claim'', ''claim'']\<rparr>) (\<lambda>_. []) = (\<lambda>_. [], Some e))"
proof
  show "valid_requirement (sample_requirement\<lparr>dr_required_source_types := [''claim'', ''claim'']\<rparr>)"
    by (simp add: valid_requirement_def data_requirement_checks_def sample_requirement_def
      check_texts_def check_text_tuple_def check_proxy_tuple_def vocabulary_defs is_space_def noon_def)
qed (rule save_repeated_source_type, simp)

section \<open>Saving an evaluation\<close>

lemma lineage_links_uniform:
  assumes "lineage_links mk kind owner_key id_key role target owner_type owner obs v = Inr links"
    and mk: "\<And>l l'. mk l = Inr l' \<Longrightarrow> l' = l"
  shows "\<forall>l \<in> set links. ll_owner_type l = owner_type \<and> ll_owner_id l = owner \<and> ll_role l = role \<and> ll_schema_version l = v"
proof -
  have "list_all2 (\<lambda>(n, s, t) l. ll_owner_type l = owner_type \<and> ll_owner_id l = owner \<and> ll_role l = role \<and>
      ll_schema_version l = v) (linked target obs) links"
    using assms(1) unfolding lineage_links_def mapM_Inr_iff
    by (rule list_all2_mono) (auto dest!: mk simp: rbind_Inr_iff)
  then show ?thesis by induction auto
qed

lemma evaluate_evidence_links:
  assumes "evaluate ap r c = Inr res"
  obtains i obs where "evaluator_evidence_links i obs (dr_schema_version r) = Inr (er_evidence_links res)"
proof -
  obtain st d p m obs where "evaluation_outcome r c st d p m obs = Inr res"
    using evaluate_branch [of ap r c] assms by auto
  then show ?thesis
    using that unfolding evaluation_outcome_def by (elim rbind_InrE) auto
qed

text \<open>Links with different identifiers are appended one by one to an empty table.\<close>

lemma link_key: "cols [''link_id''] (link_payload target l) = [SText (ll_link_id l)]"
  by (simp add: cols_def link_payload_def col_def)

lemma each_upsert_links:
  assumes "each (\<lambda>l. upsert_payload name [''link_id''] (link_payload target l)) ls db = Inr db'"
    and "distinct (map ll_link_id ls)" and "\<forall>l \<in> set ls. [SText (ll_link_id l)] \<notin> cols [''link_id''] ` set (db name)"
  shows "db' name = db name @ map (link_payload target) ls"
  using assms
proof (induction ls arbitrary: db)
  case (Cons l ls)
  from Cons.prems(1) obtain t where t: "upsert_payload name [''link_id''] (link_payload target l) db = Inr t"
    and rest: "each (\<lambda>l. upsert_payload name [''link_id''] (link_payload target l)) ls t = Inr db'"
    by (auto simp: rbind_Inr_iff)
  have new: "upsert_rows [''link_id''] (link_payload target l) (db name) = db name @ [link_payload target l]"
    using Cons.prems(3) by (auto simp: upsert_rows_def list_ex_iff link_key image_iff)
  have tn: "t name = db name @ [link_payload target l]" using t by (rule upsert_payloadE) (simp add: new)
  have "db' name = t name @ map (link_payload target) ls"
    using rest
  proof (rule Cons.IH)
    show "distinct (map ll_link_id ls)" using Cons.prems(2) by simp
    show "\<forall>l \<in> set ls. [SText (ll_link_id l)] \<notin> cols [''link_id''] ` set (t name)"
      using Cons.prems(2,3) by (auto simp: tn link_key) (metis image_eqI)
  qed
  then show ?case by (simp add: tn)
qed simp

lemma each_upsert_conforms:
  assumes "map_of SUFFICIENCY_TABLES name = Some ts" and "conforms ts (db name)"
    and "each (\<lambda>l. upsert_payload name key (f l)) ls db = Inr db'"
  shows "conforms ts (db' name)"
  using assms(3,2)
  by (rule each_induct [where P = "\<lambda>d. conforms ts (d name)"])
    (use assms(1) in \<open>auto simp: admit_conforms elim!: upsert_payloadE\<close>)

lemma save_with_lineage_cases:
  "(\<exists>e. save_with_lineage name idc payload ev sp cl co db = (db, Some e)) \<or>
   (\<exists>db'. save_with_lineage name idc payload ev sp cl co db = (db', None))"
  by (auto simp: save_with_lineage_def transaction_def split: sum.splits)

text \<open>An evaluation that cannot be saved: when two of the observations that an evaluation used carry the same evidence
  identifier, the evaluation itself succeeds, but (its link identifiers being distinct, as their positions
  are) its two evidence links have the same owner, target, role and schema version, so saving the availability with its
  lineage violates the uniqueness constraint of the link table: the save raises and stores nothing.\<close>

theorem evaluation_with_shared_evidence_not_saved:
  assumes "evaluate allow_proxy r c = Inr res" and "\<not> distinct (map ll_target_id (er_evidence_links res))"
    and "db ''data_sufficiency_evidence_links'' = []"
  shows "\<not> distinct (map ll_link_id (er_evidence_links res)) \<or>
    (\<exists>e. save_availability_with_lineage (er_availability res) (er_evidence_links res) (er_span_links res)
       (er_claim_links res) (er_conflict_links res) db = (db, Some e))"
proof (rule ccontr)
  let ?n = "''data_sufficiency_evidence_links''" and ?ls = "er_evidence_links res"
  let ?u = "[''owner_type'', ''owner_id'', ''source_evidence_id'', ''role'', ''schema_version'']"
  assume "\<not> ?thesis"
  then have ids: "distinct (map ll_link_id ?ls)"
    and "\<nexists>e. save_availability_with_lineage (er_availability res) ?ls (er_span_links res)
       (er_claim_links res) (er_conflict_links res) db = (db, Some e)" by simp_all
  then obtain db' where "save_availability_with_lineage (er_availability res) ?ls (er_span_links res)
       (er_claim_links res) (er_conflict_links res) db = (db', None)"
    unfolding save_availability_with_lineage_def using save_with_lineage_cases by blast
  then obtain p t1 t2 where 1: "upsert_payload ''data_availability'' (versioned_key ''availability_id'') p db = Inr t1"
    and 2: "each (\<lambda>l. upsert_payload ?n [''link_id''] (link_payload ''source_evidence_id'' l)) ?ls t1 = Inr t2"
    unfolding save_availability_with_lineage_def save_with_lineage_def transaction_None save_lineage_def
    by (auto simp: rbind_Inr_iff)
  have t1: "t1 ?n = []" using 1 assms(3) by (auto elim!: upsert_payloadE)
  have rows: "t2 ?n = map (link_payload ''source_evidence_id'') ?ls"
    using each_upsert_links [OF 2 ids] t1 by simp
  have "conforms (links_schema ''source_evidence_id'') (t2 ?n)"
    by (rule each_upsert_conforms [OF _ _ 2]) (simp_all add: SUFFICIENCY_TABLES_def t1)
  then have dist: "distinct (map (cols ?u) (map (link_payload ''source_evidence_id'') ?ls))"
    by (simp add: conforms_def links_schema_def rows)
  obtain i obs where "evaluator_evidence_links i obs (dr_schema_version r) = Inr ?ls"
    by (rule evaluate_evidence_links [OF assms(1)])
  then have u: "\<forall>l \<in> set ?ls. ll_owner_type l = ''availability'' \<and> ll_owner_id l = i \<and> ll_role l = ''supporting_evidence'' \<and>
      ll_schema_version l = dr_schema_version r"
    unfolding evaluator_evidence_links_def by (rule lineage_links_uniform) simp
  have "map (cols ?u) (map (link_payload ''source_evidence_id'') ?ls) =
    map (\<lambda>t. [SText ''availability'', SText i, SText t, SText ''supporting_evidence'', SText (dr_schema_version r)])
      (map ll_target_id ?ls)"
    unfolding map_map by (rule map_cong [OF refl]) (use u in \<open>simp add: cols_def link_payload_def col_def\<close>)
  with dist assms(2) show False by (metis distinct_map)
qed

text \<open>The sample observations with one evidence identifier.\<close>

definition shared_context :: evaluation_context where
  "shared_context = sample_context ''direct_observation''\<lparr>ec_observations :=
     [(sample_observation ''1'' ''relationship'' ''direct_observation'')\<lparr>so_evidence_id := Some ''ev''\<rparr>,
      (sample_observation ''2'' ''claim'' ''direct_observation'')\<lparr>so_evidence_id := Some ''ev''\<rparr>]\<rparr>"

lemma shared_context_valid: "valid_context shared_context"
  using sample_context_valid [of "''direct_observation''"]
  by (simp add: valid_context_def shared_context_def sample_context_def evaluation_context_checks_def
      valid_observation_def observation_checks_def targets_present_def sample_observation_def is_space_def)

lemma shared_evaluation:
  obtains res where "evaluate False sample_requirement shared_context = Inr res"
    and "map ll_target_id (er_evidence_links res) = [''ev'', ''ev'']"
proof -
  let ?c = shared_context and ?obs = "ec_observations shared_context"
  have el: "eligible_observations sample_requirement ?c = ?obs" "direct_observations ?obs = ?obs" "eligible_trust ?c \<noteq> None"
    "?obs \<noteq> []"
    by (auto simp: eligible_observations_def sample_requirement_def shared_context_def sample_context_def sample_observation_def
        observation_active_def ACTIVE_LIFECYCLE_STATES_def visible_at_def dt_after_def direct_observations_def
        eligible_trust_def trust_eligible_def TRUSTED_IDENTITY_STATES_def)
  have s: "satisfying sample_requirement ?c = ?obs"
    using el by (simp add: satisfying_def Let_def)
  have p: "partial_reasons sample_requirement ?c ?obs = []"
    unfolding partial_reasons_Nil
    by (simp add: shared_context_def sample_context_def sample_requirement_def sample_observation_def freshness_seconds_def
        as_of_def seconds_between_def trunc_div_def source_quality_satisfies_def rank_get_def SOURCE_QUALITY_RANK_def
        pyfloat_less_def)
  have ev: "evaluate False sample_requirement ?c =
    evaluation_outcome sample_requirement ?c ''available'' (dominant_directness ?obs) (dominant_proxy_type ?obs) '''' ?obs"
    by (intro evaluate_full el(3) impI s el(4) p) (simp add: el)
  obtain res where res: "evaluate False sample_requirement ?c = Inr res"
    using evaluate_Inr_exists [OF sample_requirement_valid shared_context_valid] by blast
  have "\<exists>i. mirrors so_evidence_id ''availability'' i ?obs (er_evidence_links res)"
    using res unfolding ev by (rule evaluation_outcome_Inr) blast
  then have "map (\<lambda>l. (ll_position l, ll_target_id l)) (er_evidence_links res) = [(0, ''ev''), (1, ''ev'')]"
    by (auto simp: mirrors_def linked_def shared_context_def)
  then have "map snd (map (\<lambda>l. (ll_position l, ll_target_id l)) (er_evidence_links res)) = [''ev'', ''ev'']" by simp
  then have "map ll_target_id (er_evidence_links res) = [''ev'', ''ev'']" by (simp add: comp_def)
  with res show ?thesis by (rule that)
qed

lemma evaluation_with_shared_evidence_not_saved_witness:
  "\<exists>res. evaluate False sample_requirement shared_context = Inr res \<and>
    (\<not> distinct (map ll_link_id (er_evidence_links res)) \<or>
     (\<exists>e. save_availability_with_lineage (er_availability res) (er_evidence_links res) (er_span_links res)
       (er_claim_links res) (er_conflict_links res) (\<lambda>_. []) = (\<lambda>_. [], Some e)))"
proof (rule shared_evaluation)
  fix res assume res: "evaluate False sample_requirement shared_context = Inr res"
    and "map ll_target_id (er_evidence_links res) = [''ev'', ''ev'']"
  then have "\<not> distinct (map ll_target_id (er_evidence_links res))" by simp
  from evaluation_with_shared_evidence_not_saved [OF res this, of "\<lambda>_. []"] res show ?thesis by blast
qed

end
