(* ===== verification/JsonText.thy ===== *)
theory JsonText
  imports Json "HOL-Library.Multiset"
begin

text \<open>
  Reading back the text of a JSON value. A reader for the compact texts that \<^const>\<open>dumps\<close> writes, and the round
  trip: what is read is the value with the keys of its objects in order. The text of a value without
  floats therefore determines the value up to the order of keys.
\<close>

section \<open>Strings\<close>

definition unhex :: "char \<Rightarrow> nat" where
  "unhex c = (let n = of_char c :: nat in if n < 58 then n - 48 else n - 87)"

definition unescape :: "char \<Rightarrow> char" where
  "unescape c = (if c = CHR ''n'' then char_of (10::nat) else if c = CHR ''r'' then char_of (13::nat)
     else if c = CHR ''t'' then char_of (9::nat) else if c = CHR ''f'' then char_of (12::nat)
     else if c = CHR ''b'' then char_of (8::nat) else c)"

fun read_string :: "string \<Rightarrow> (string \<times> string) option" where
  "read_string [] = None"
| "read_string (c # cs) =
     (if c = CHR 0x22 then Some ([], cs)
      else if c = CHR 0x5C then
        (case cs of
           [] \<Rightarrow> None
         | e # ds \<Rightarrow>
             if e = CHR ''u'' then
               (case ds of
                  _ # _ # x # y # rest \<Rightarrow> map_option (\<lambda>(s, r). (char_of (16 * unhex x + unhex y) # s, r)) (read_string rest)
                | _ \<Rightarrow> None)
             else map_option (\<lambda>(s, r). (unescape e # s, r)) (read_string ds))
      else map_option (\<lambda>(s, r). (c # s, r)) (read_string cs))"

declare read_string.simps(2) [simp del]

lemma unhex_hex_digit: "n < 16 \<Longrightarrow> unhex (hex_digit n) = n"
  by (auto simp: unhex_def hex_digit_def Let_def)

lemma char_code: "(of_char c :: nat) = n \<Longrightarrow> c = char_of n"
  by auto

lemma quote_codes: "char_of (34::nat) = CHR 0x22" "char_of (92::nat) = CHR 0x5C"
  by code_simp+

lemma read_escaped: "read_string (escape_char a c @ s) = map_option (\<lambda>(t, r). (c # t, r)) (read_string s)"
proof -
  let ?n = "of_char c :: nat"
  have code: "c = char_of ?n" by simp
  consider "?n = 34" | "?n = 92" | "?n = 10" | "?n = 13" | "?n = 9" | "?n = 12" | "?n = 8"
    | (hex) "?n \<notin> {34, 92, 10, 13, 9, 12, 8}" "?n < 32 \<or> a \<and> 127 \<le> ?n"
    | (plain) "?n \<notin> {34, 92, 10, 13, 9, 12, 8}" "\<not> (?n < 32 \<or> a \<and> 127 \<le> ?n)" by blast
  then show ?thesis
  proof cases
    case hex
    have b: "?n < 256" by (rule nat_of_char_less_256)
    have "16 * (?n div 16) + ?n mod 16 = ?n" by simp
    moreover have "?n div 16 < 16" using b by (simp add: less_mult_imp_div_less)
    ultimately show ?thesis
      using hex unhex_hex_digit [of "?n div 16"] unhex_hex_digit [of "?n mod 16"]
      by (simp add: escape_char_def Let_def read_string.simps(2))
  next
    case plain
    then have "c \<noteq> CHR 0x22" "c \<noteq> CHR 0x5C" "escape_char a c = [c]"
      by (auto simp: escape_char_def Let_def)
    then show ?thesis by (simp add: read_string.simps(2))
  qed (drule char_code, simp add: escape_char_def read_string.simps(2) unescape_def quote_codes)+
qed

lemma read_quoted: "read_string (concat (map (escape_char a) s) @ CHR 0x22 # rest) = Some (s, rest)"
proof (induction s)
  case Nil
  then show ?case by (simp add: read_string.simps(2))
next
  case (Cons c s)
  then show ?case using read_escaped [of a c] by simp
qed

section \<open>Integers\<close>

definition is_digit :: "char \<Rightarrow> bool" where
  "is_digit c = (let n = of_char c :: nat in 48 \<le> n \<and> n < 58)"

fun read_digits :: "nat \<Rightarrow> string \<Rightarrow> nat \<times> string" where
  "read_digits n [] = (n, [])"
| "read_digits n (c # cs) = (if is_digit c then read_digits (10 * n + (of_char c - 48)) cs else (n, c # cs))"

text \<open>What may follow a value inside a text: nothing, a comma or a closing bracket.\<close>

definition stops :: "string \<Rightarrow> bool" where
  "stops s = (s = [] \<or> \<not> is_digit (hd s))"

lemma is_digit_digit_char: "d < 10 \<Longrightarrow> is_digit (digit_char d) \<and> of_char (digit_char d) - 48 = d"
  by (simp add: is_digit_def digit_char_def)

lemma read_nat_text: "read_digits 0 (nat_text n @ rest) = read_digits n rest"
proof (induction n arbitrary: rest rule: nat_text.induct)
  case (1 n)
  show ?case
  proof (cases "n < 10")
    case True
    then show ?thesis using is_digit_digit_char [OF True] by (simp add: nat_text.simps [of n])
  next
    case False
    have "n mod 10 < 10" by simp
    from is_digit_digit_char [OF this] show ?thesis
      using False 1 [OF False] by (simp add: nat_text.simps [of n])
  qed
qed

lemma read_digits_stop: "stops rest \<Longrightarrow> read_digits n rest = (n, rest)"
  by (cases rest) (auto simp: stops_def)

lemma nat_text_first: "\<exists>c cs. nat_text n = c # cs \<and> is_digit c"
proof -
  have "nat_text n \<noteq> []" by (simp add: nat_text.simps [of n])
  then obtain c cs where "nat_text n = c # cs" by (cases "nat_text n") auto
  moreover from this obtain d where "d < 10" "c = digit_char d" using nat_text_digits [of c n] by auto
  ultimately show ?thesis using is_digit_digit_char by auto
qed

section \<open>Values\<close>

text \<open>Reading a value with a bound on the number of nested steps.\<close>

fun read_value :: "nat \<Rightarrow> string \<Rightarrow> (json \<times> string) option"
  and read_items :: "nat \<Rightarrow> string \<Rightarrow> (json list \<times> string) option"
  and read_fields :: "nat \<Rightarrow> string \<Rightarrow> ((string \<times> json) list \<times> string) option" where
  "read_value 0 s = None"
| "read_value (Suc n) s =
     (case s of
        [] \<Rightarrow> None
      | c # cs \<Rightarrow>
          if c = CHR ''n'' then Some (JNull, drop 3 cs)
          else if c = CHR ''t'' then Some (JBool True, drop 3 cs)
          else if c = CHR ''f'' then Some (JBool False, drop 4 cs)
          else if c = CHR 0x22 then map_option (\<lambda>(t, r). (JStr t, r)) (read_string cs)
          else if c = CHR ''['' then
            (case cs of
               [] \<Rightarrow> None
             | d # ds \<Rightarrow> if d = CHR '']'' then Some (JArr [], ds)
                 else map_option (\<lambda>(vs, r). (JArr vs, r)) (read_items n cs))
          else if c = CHR ''{'' then
            (case cs of
               [] \<Rightarrow> None
             | d # ds \<Rightarrow> if d = CHR ''}'' then Some (JObj [], ds)
                 else map_option (\<lambda>(kvs, r). (JObj kvs, r)) (read_fields n cs))
          else if c = CHR ''-'' then (case read_digits 0 cs of (m, r) \<Rightarrow> Some (JInt (- int m), r))
          else (case read_digits 0 s of (m, r) \<Rightarrow> Some (JInt (int m), r)))"
| "read_items 0 s = None"
| "read_items (Suc n) s =
     (case read_value n s of
        None \<Rightarrow> None
      | Some (v, []) \<Rightarrow> None
      | Some (v, c # rest) \<Rightarrow>
          if c = CHR '','' then map_option (\<lambda>(vs, r). (v # vs, r)) (read_items n rest) else Some ([v], rest))"
| "read_fields 0 s = None"
| "read_fields (Suc n) s =
     (case s of
        [] \<Rightarrow> None
      | _ # cs \<Rightarrow>
        (case read_string cs of
           None \<Rightarrow> None
         | Some (k, []) \<Rightarrow> None
         | Some (k, _ # text) \<Rightarrow>
             (case read_value n text of
                None \<Rightarrow> None
              | Some (v, []) \<Rightarrow> None
              | Some (v, c # rest) \<Rightarrow>
                  if c = CHR '','' then map_option (\<lambda>(kvs, r). ((k, v) # kvs, r)) (read_fields n rest)
                  else Some ([(k, v)], rest))))"

declare read_value.simps(2) [simp del] read_items.simps(2) [simp del] read_fields.simps(2) [simp del]

text \<open>Values without floats, and the steps their texts take.\<close>

fun float_free :: "json \<Rightarrow> bool" where
  "float_free (JFloat t) = False"
| "float_free (JArr vs) = list_all float_free vs"
| "float_free (JObj kvs) = list_all (\<lambda>kv. float_free (snd kv)) kvs"
| "float_free _ = True"

fun json_size :: "json \<Rightarrow> nat" where
  "json_size (JArr vs) = Suc (sum_list (map (\<lambda>v. Suc (json_size v)) vs))"
| "json_size (JObj kvs) = Suc (sum_list (map (\<lambda>kv. Suc (json_size (snd kv))) kvs))"
| "json_size _ = 1"

lemma json_size_pos: "0 < json_size v"
  by (cases v) simp_all

lemma dumps_first: "float_free v \<Longrightarrow> \<exists>c cs. dumps a v = c # cs \<and> c \<noteq> CHR '']'' \<and> c \<noteq> CHR ''}''"
proof (cases v)
  case (JInt i)
  obtain c cs where "nat_text (nat i) = c # cs" "is_digit c" using nat_text_first by blast
  moreover from this have "c \<noteq> CHR '']''" "c \<noteq> CHR ''}''" by (auto simp: is_digit_def)
  ultimately show ?thesis using JInt by (simp add: int_text_def)
qed (auto simp: quote_def)

lemma read_int: "stops rest \<Longrightarrow> 0 < n \<Longrightarrow> read_value n (int_text i @ rest) = Some (JInt i, rest)"
proof -
  assume rest: "stops rest" and "0 < n"
  then obtain m where n: "n = Suc m" by (cases n) auto
  show ?thesis
  proof (cases "i < 0")
    case True
    then show ?thesis
      using rest by (simp add: n int_text_def read_value.simps(2) read_nat_text read_digits_stop)
  next
    case False
    obtain c cs where c: "nat_text (nat i) = c # cs" "is_digit c" using nat_text_first by blast
    then have "c \<noteq> CHR ''n''" "c \<noteq> CHR ''t''" "c \<noteq> CHR ''f''" "c \<noteq> CHR 0x22" "c \<noteq> CHR ''[''" "c \<noteq> CHR ''{''" "c \<noteq> CHR ''-''"
      by (auto simp: is_digit_def)
    moreover have "read_digits 0 (c # cs @ rest) = (nat i, rest)"
      using read_nat_text [of "nat i" rest] read_digits_stop [OF rest] by (simp add: c(1) del: read_digits.simps)
    ultimately show ?thesis
      using False c(1) by (simp add: n int_text_def read_value.simps(2) del: read_digits.simps)
  qed
qed

lemma stops_close: "stops (CHR '']'' # rest)" "stops (CHR ''}'' # rest)" "stops (CHR '','' # rest)"
  by (simp_all add: stops_def is_digit_def)

lemma join_Cons: "join sep (s # ss) = s @ (if ss = [] then [] else sep @ join sep ss)"
  by (cases ss) simp_all

lemma read_array_items:
  assumes "vs \<noteq> []" and "\<forall>v \<in> set vs. \<forall>n rest. json_size v \<le> n \<longrightarrow> stops rest \<longrightarrow> read_value n (dumps a v @ rest) = Some (f v, rest)"
    and "sum_list (map (\<lambda>v. Suc (json_size v)) vs) \<le> n"
  shows "read_items n (join '','' (map (dumps a) vs) @ CHR '']'' # rest) = Some (map f vs, rest)"
  using assms
proof (induction vs arbitrary: n)
  case (Cons v vs)
  from Cons.prems(3) obtain m where n: "n = Suc m" by (cases n) auto
  have size: "json_size v \<le> m" "sum_list (map (\<lambda>v. Suc (json_size v)) vs) \<le> m" using Cons.prems(3) n by simp_all
  show ?case
  proof (cases "vs = []")
    case True
    have "read_value m (dumps a v @ CHR '']'' # rest) = Some (f v, CHR '']'' # rest)"
      using Cons.prems(2) size(1) stops_close(1) by simp
    then show ?thesis using True by (simp add: n read_items.simps(2))
  next
    case False
    let ?tail = "join '','' (map (dumps a) vs) @ CHR '']'' # rest"
    have "read_value m (dumps a v @ CHR '','' # ?tail) = Some (f v, CHR '','' # ?tail)"
      using Cons.prems(2) size(1) stops_close(3) by simp
    moreover have "read_items m ?tail = Some (map f vs, rest)"
      using Cons.IH [OF False _ size(2)] Cons.prems(2) by simp
    ultimately show ?thesis using False by (simp add: n read_items.simps(2) join_Cons)
  qed
qed simp

lemma read_object_fields:
  assumes "kvs \<noteq> []" and "\<forall>kv \<in> set kvs. \<forall>n rest. json_size (snd kv) \<le> n \<longrightarrow> stops rest \<longrightarrow>
      read_value n (dumps a (snd kv) @ rest) = Some (f (snd kv), rest)"
    and "sum_list (map (\<lambda>kv. Suc (json_size (snd kv))) kvs) \<le> n"
  shows "read_fields n (join '','' (map (\<lambda>kv. quote a (fst kv) @ '':'' @ dumps a (snd kv)) kvs) @ CHR ''}'' # rest) =
    Some (map (\<lambda>kv. (fst kv, f (snd kv))) kvs, rest)"
  using assms
proof (induction kvs arbitrary: n)
  case (Cons kv kvs)
  from Cons.prems(3) obtain m where n: "n = Suc m" by (cases n) auto
  have size: "json_size (snd kv) \<le> m" "sum_list (map (\<lambda>kv. Suc (json_size (snd kv))) kvs) \<le> m"
    using Cons.prems(3) n by simp_all
  have head: "read_string (concat (map (escape_char a) (fst kv)) @ CHR 0x22 # CHR '':'' # t) = Some (fst kv, CHR '':'' # t)" for t
    by (rule read_quoted)
  show ?case
  proof (cases "kvs = []")
    case True
    have "read_value m (dumps a (snd kv) @ CHR ''}'' # rest) = Some (f (snd kv), CHR ''}'' # rest)"
      using Cons.prems(2) size(1) stops_close(2) by simp
    then show ?thesis using True head by (simp add: n quote_def read_fields.simps(2))
  next
    case False
    let ?tail = "join '','' (map (\<lambda>kv. quote a (fst kv) @ '':'' @ dumps a (snd kv)) kvs) @ CHR ''}'' # rest"
    have "read_value m (dumps a (snd kv) @ CHR '','' # ?tail) = Some (f (snd kv), CHR '','' # ?tail)"
      using Cons.prems(2) size(1) stops_close(3) by simp
    moreover have "read_fields m ?tail = Some (map (\<lambda>kv. (fst kv, f (snd kv))) kvs, rest)"
      using Cons.IH [OF False _ size(2)] Cons.prems(2) by simp
    ultimately show ?thesis using False head by (simp add: n quote_def read_fields.simps(2) join_Cons)
  qed
qed simp

lemma read_dumps:
  "float_free v \<Longrightarrow> json_size v \<le> n \<Longrightarrow> stops rest \<Longrightarrow> read_value n (dumps a v @ rest) = Some (json_sorted v, rest)"
proof (induction v arbitrary: n rest)
  case (JArr vs)
  from JArr.prems(2) obtain m where n: "n = Suc m" by (cases n) auto
  show ?case
  proof (cases "vs = []")
    case False
    then obtain v ws where vs: "vs = v # ws" by (cases vs) auto
    then obtain c cs where c: "dumps a v = c # cs" "c \<noteq> CHR '']''" using dumps_first [of v a] JArr.prems(1) by auto
    have "read_items m (join '','' (map (dumps a) vs) @ CHR '']'' # rest) = Some (map json_sorted vs, rest)"
      using False by (rule read_array_items) (use JArr n in \<open>auto simp: list_all_iff\<close>)
    then show ?thesis using c by (simp add: n read_value.simps(2) vs join_Cons)
  qed (simp add: n read_value.simps(2))
next
  case (JObj kvs)
  from JObj.prems(2) obtain m where n: "n = Suc m" by (cases n) auto
  let ?kvs = "sort_key fst kvs"
  show ?case
  proof (cases "kvs = []")
    case False
    then have ne: "?kvs \<noteq> []" by (metis set_empty set_sort)
    have "mset (map (\<lambda>kv. Suc (json_size (snd kv))) ?kvs) = mset (map (\<lambda>kv. Suc (json_size (snd kv))) kvs)" by simp
    then have size: "sum_list (map (\<lambda>kv. Suc (json_size (snd kv))) ?kvs) \<le> m"
      using JObj.prems(2) n by (metis Suc_le_mono json_size.simps(2) sum_mset_sum_list)
    have "read_fields m (join '','' (map (\<lambda>kv. quote a (fst kv) @ '':'' @ dumps a (snd kv)) ?kvs) @ CHR ''}'' # rest) =
        Some (map (\<lambda>kv. (fst kv, json_sorted (snd kv))) ?kvs, rest)"
      using ne by (rule read_object_fields [OF _ _ size])
        (use JObj in \<open>auto simp: list_all_iff snds.simps\<close>)
    moreover obtain k v rest' where kvs: "?kvs = (k, v) # rest'" using ne by (cases ?kvs) auto
    ultimately show ?thesis
      unfolding dumps_JObj json_sorted_JObj by (simp add: n read_value.simps(2) join_Cons quote_def)
  qed (simp add: n read_value.simps(2))
next
  case (JStr s)
  then obtain m where n: "n = Suc m" by (cases n) auto
  then show ?case using read_quoted [of a s rest] by (simp add: read_value.simps(2) quote_def)
next
  case (JInt i)
  then show ?case using read_int by simp
next
  case JNull
  then obtain m where n: "n = Suc m" by (cases n) auto
  then show ?case by (simp add: read_value.simps(2))
next
  case (JBool b)
  then obtain m where n: "n = Suc m" by (cases n) auto
  then show ?case by (simp add: read_value.simps(2))
qed simp

text \<open>The text of a float-free value determines it, up to the order of keys.\<close>

lemma dumps_inject:
  assumes "float_free v" and "float_free w"
  shows "dumps a v = dumps a w \<longleftrightarrow> json_sorted v = json_sorted w"
proof
  assume eq: "dumps a v = dumps a w"
  let ?n = "max (json_size v) (json_size w)"
  have "read_value ?n (dumps a v @ []) = Some (json_sorted v, [])"
    using assms(1) by (rule read_dumps) (simp_all add: stops_def)
  moreover have "read_value ?n (dumps a w @ []) = Some (json_sorted w, [])"
    using assms(2) by (rule read_dumps) (simp_all add: stops_def)
  ultimately show "json_sorted v = json_sorted w" using eq by simp
next
  assume "json_sorted v = json_sorted w"
  then show "dumps a v = dumps a w" by (metis dumps_json_sorted)
qed

section \<open>Bytes\<close>

lemma utf8_inject: "utf8 s = utf8 t \<longleftrightarrow> s = t"
proof
  show "utf8 s = utf8 t \<Longrightarrow> s = t"
  proof (induction s arbitrary: t)
    case Nil
    then show ?case by (cases t) (auto simp: utf8_def utf8_char_def Let_def split: if_splits)
  next
    case (Cons c s)
    then obtain d t' where t: "t = d # t'" by (cases t) (auto simp: utf8_def utf8_char_def Let_def split: if_splits)
    let ?c = "of_char c :: nat" and ?d = "of_char d :: nat"
    have b: "?c < 256" "?d < 256" by simp_all
    have w: "(word_of_nat m :: 8 word) = word_of_nat n \<longleftrightarrow> m = n" if "m < 256" "n < 256" for m n
      using that by (simp add: word_of_nat_eq_iff take_bit_eq_mod)
    have bc: "?c div 64 < 4" "?d div 64 < 4" "?c mod 64 < 64" "?d mod 64 < 64"
      using b by (simp_all add: less_mult_imp_div_less)
    have eq: "utf8_char c @ utf8 s = utf8_char d @ utf8 t'" using Cons.prems by (simp add: utf8_def t)
    note eq = eq [unfolded utf8_char_def Let_def]
    have "?c = ?d \<and> utf8 s = utf8 t'"
    proof (cases "?c < 128"; cases "?d < 128")
      assume a: "?c < 128" "?d < 128"
      show ?thesis using eq [unfolded if_P [OF a(1)] if_P [OF a(2)]] w [OF b] by simp
    next
      assume a: "?c < 128" "\<not> ?d < 128"
      have "192 + ?d div 64 < 256" using bc by simp
      from w [OF b(1) this] a show ?thesis
        using eq [unfolded if_P [OF a(1)] if_not_P [OF a(2)]] by (simp del: of_nat_add)
    next
      assume a: "\<not> ?c < 128" "?d < 128"
      have "192 + ?c div 64 < 256" using bc by simp
      from w [OF this b(2)] a show ?thesis
        using eq [unfolded if_not_P [OF a(1)] if_P [OF a(2)]] by (simp del: of_nat_add)
    next
      assume a: "\<not> ?c < 128" "\<not> ?d < 128"
      have l: "192 + ?c div 64 < 256" "192 + ?d div 64 < 256" "128 + ?c mod 64 < 256" "128 + ?d mod 64 < 256"
        using bc by simp_all
      have "192 + ?c div 64 = 192 + ?d div 64 \<and> 128 + ?c mod 64 = 128 + ?d mod 64 \<and> utf8 s = utf8 t'"
        using eq [unfolded if_not_P [OF a(1)] if_not_P [OF a(2)]] w [OF l(1,2)] w [OF l(3,4)]
        by (simp del: of_nat_add)
      then show ?thesis by (metis add_left_cancel div_mult_mod_eq)
    qed
    then show ?case using Cons.IH t by (metis of_char_eq_iff)
  qed
qed simp

end
