(* ===== verification/Identity.thy ===== *)
theory Identity
  imports SuffPolicies JsonText PyCalendar
begin

text \<open>
  What an analytical identity identifies. The canonical bytes of a value are computed from its
  normal form, so two inputs have the same bytes exactly when they differ in nothing but the
  insertion order of dictionaries and the time zones of timestamps. The identifiers of
  \<open>hunter.execution.hashing\<close> are digests of these bytes.
\<close>

section \<open>Normal forms without floats\<close>

lemma decimal_float_free: "decimal_result why d = Inr j \<Longrightarrow> float_free j"
  by (auto simp: decimal_result_def split: pydecimal.splits)

lemma normalize_float_free: "normalize v = Inr j \<Longrightarrow> float_free j"
proof (induction v arbitrary: j)
  case (PDict kvs)
  then obtain items where items: "mapM (\<lambda>kv. rbind (normalize (fst kv)) (\<lambda>k. rbind (normalize (snd kv)) (\<lambda>v.
              Inr (key_sort k, k, v)))) kvs = Inr items"
    and j: "j = JObj [(''__type__'', JStr ''mapping''),
          (''items'', JArr (map (\<lambda>row. JArr [fst (snd row), snd (snd row)]) (sort_key fst items)))]"
    by (auto simp: rbind_Inr_iff)
  have "float_free (fst (snd row)) \<and> float_free (snd (snd row))" if "row \<in> set items" for row
    using mapM_mem [OF items that] PDict.IH by (fastforce simp: rbind_Inr_iff fsts.simps snds.simps)
  then show ?case by (auto simp: j list_all_iff)
next
  case (PSeq vs)
  then obtain js where js: "mapM normalize vs = Inr js"
    and j: "j = JObj [(''__type__'', JStr ''sequence''), (''items'', JArr js)]" by (auto simp: rbind_Inr_iff)
  have "\<forall>x \<in> set js. float_free x" using mapM_mem [OF js] PSeq.IH by blast
  then show ?case by (simp add: j list_all_iff)
next
  case (PSet vs)
  then obtain js where js: "mapM normalize vs = Inr js"
    and j: "j = JObj [(''__type__'', JStr ''set''), (''items'', JArr (sort_key (dumps True) js))]" by (auto simp: rbind_Inr_iff)
  have "\<forall>x \<in> set js. float_free x" using mapM_mem [OF js] PSet.IH by blast
  then show ?case by (simp add: j list_all_iff)
next
  case (PDataclass c fs)
  then obtain js where js: "mapM (\<lambda>f. rbind (normalize (snd f)) (\<lambda>j. Inr (fst f, j))) fs = Inr js"
    and j: "j = JObj [(''__type__'', JStr ''dataclass''), (''class'', JStr c), (''fields'', JObj js)]"
    by (auto simp: rbind_Inr_iff)
  have "float_free (snd x)" if "x \<in> set js" for x
  proof -
    from mapM_mem [OF js that] obtain f y where "f \<in> set fs" "normalize (snd f) = Inr y" "x = (fst f, y)"
      by (auto simp: rbind_Inr_iff)
    then show ?thesis using PDataclass.IH [of f "snd f"] by (simp add: snds.simps)
  qed
  then show ?case by (simp add: j list_all_iff)
qed (auto simp: rbind_Inr_iff decimal_float_free)

lemma canonicalize_texts:
  assumes "normalize v = Inr j" and "normalize w = Inr k"
  shows "canonicalize v = canonicalize w \<longleftrightarrow> json_sorted j = json_sorted k"
  using dumps_inject [OF normalize_float_free [OF assms(1)] normalize_float_free [OF assms(2)]]
  by (simp add: canonicalize_def assms utf8_inject)

section \<open>Plain values\<close>

text \<open>Values whose identity is decided by their structure: no floats, decimals, sets or dataclasses, and dictionaries with
  text keys.\<close>

fun key_of :: "pyvalue \<times> pyvalue \<Rightarrow> string" where
  "key_of (PStr s, v) = s"
| "key_of _ = ''''"

fun plain :: "pyvalue \<Rightarrow> bool" where
  "plain PMissing = True"
| "plain PNone = True"
| "plain (PBool b) = True"
| "plain (PStr s) = True"
| "plain (PInt i) = True"
| "plain (PPath s) = True"
| "plain (PDatetime t) = (aware t \<and> representable (instant t))"
| "plain (PEnum c v) = plain v"
| "plain (PSeq vs) = list_all plain vs"
| "plain (PDict kvs) =
     (list_all (\<lambda>kv. fst kv = PStr (key_of kv) \<and> plain (snd kv)) kvs \<and> distinct (map key_of kvs))"
| "plain _ = False"

text \<open>The same value with its dictionaries ordered by key and its timestamps in UTC.\<close>

fun ordered :: "pyvalue \<Rightarrow> pyvalue" where
  "ordered (PDatetime t) = PDatetime (utc (instant t))"
| "ordered (PEnum c v) = PEnum c (ordered v)"
| "ordered (PSeq vs) = PSeq (map ordered vs)"
| "ordered (PDict kvs) = PDict (sort_key key_of (map (\<lambda>kv. (fst kv, ordered (snd kv))) kvs))"
| "ordered v = v"

text \<open>The normal form of a plain value, with its entries in order.\<close>

fun plain_form :: "pyvalue \<Rightarrow> json" where
  "plain_form PMissing = JObj [(''__type__'', JStr ''missing'')]"
| "plain_form (PBool b) = JBool b"
| "plain_form (PStr s) = JStr s"
| "plain_form (PInt i) = JObj [(''__type__'', JStr ''int''), (''value'', JStr (int_text i))]"
| "plain_form (PPath p) = JObj [(''__type__'', JStr ''path''), (''value'', JStr p)]"
| "plain_form (PDatetime t) = JObj [(''__type__'', JStr ''datetime''), (''value'', JStr (projr (datetime_text t)))]"
| "plain_form (PEnum c v) = JObj [(''__type__'', JStr ''enum''), (''class'', JStr c), (''value'', plain_form v)]"
| "plain_form (PSeq vs) = JObj [(''__type__'', JStr ''sequence''), (''items'', JArr (map plain_form vs))]"
| "plain_form (PDict kvs) = JObj [(''__type__'', JStr ''mapping''),
     (''items'', JArr (map (\<lambda>kt. JArr [JStr (fst kt), snd kt])
        (sort_key fst (map (\<lambda>kv. (key_of kv, plain_form (snd kv))) kvs))))]"
| "plain_form _ = JNull"

lemma normalize_plain: "plain v \<Longrightarrow> normalize v = Inr (plain_form v)"
proof (induction v)
  case (PSeq vs)
  then have "mapM normalize vs = Inr (map plain_form vs)"
    by (intro mapM_pure) (auto simp: list_all_iff)
  then show ?case by simp
next
  case (PDict kvs)
  have "mapM (\<lambda>kv. rbind (normalize (fst kv)) (\<lambda>k. rbind (normalize (snd kv)) (\<lambda>v. Inr (key_sort k, k, v)))) kvs =
      Inr (map (\<lambda>kv. (key_of kv, JStr (key_of kv), plain_form (snd kv))) kvs)"
  proof (rule mapM_pure)
    fix kv assume kv: "kv \<in> set kvs"
    then have k: "fst kv = PStr (key_of kv)" and p: "plain (snd kv)" using PDict.prems by (auto simp: list_all_iff)
    have "normalize (snd kv) = Inr (plain_form (snd kv))" using PDict.IH(2) [OF kv _ p] by (simp add: snds.simps)
    then show "rbind (normalize (fst kv)) (\<lambda>k. rbind (normalize (snd kv)) (\<lambda>v. Inr (key_sort k, k, v))) =
        Inr (key_of kv, JStr (key_of kv), plain_form (snd kv))"
      unfolding k by (simp add: key_sort_def)
  qed
  moreover have "sort_key fst (map (\<lambda>kv. (key_of kv, JStr (key_of kv), plain_form (snd kv))) kvs) =
      map (\<lambda>kt. (fst kt, JStr (fst kt), snd kt)) (sort_key fst (map (\<lambda>kv. (key_of kv, plain_form (snd kv))) kvs))"
  proof (induction kvs)
    case (Cons kv kvs)
    have "insort_key fst (key_of kv, JStr (key_of kv), plain_form (snd kv)) (map (\<lambda>kt. (fst kt, JStr (fst kt), snd kt)) xs) =
        map (\<lambda>kt. (fst kt, JStr (fst kt), snd kt)) (insort_key fst (key_of kv, plain_form (snd kv)) xs)" for xs
      by (induction xs) auto
    with Cons show ?case by simp
  qed simp
  ultimately show ?case by (simp add: comp_def)
qed (auto simp: datetime_text_def Let_def)

section \<open>Equal bytes mean equal values\<close>

lemma int_text_inject: "int_text i = int_text j \<longleftrightarrow> i = j"
proof
  assume eq: "int_text i = int_text j"
  have "stops []" by (simp add: stops_def)
  then have "read_value 1 (int_text i @ []) = Some (JInt i, [])" "read_value 1 (int_text j @ []) = Some (JInt j, [])"
    by (intro read_int; simp)+
  then show "i = j" unfolding eq by simp
qed simp

lemma datetime_text_inject:
  assumes "aware a" "aware b" "representable (instant a)" "representable (instant b)"
  shows "datetime_text a = datetime_text b \<longleftrightarrow> instant a = instant b"
proof
  obtain p where p: "utc_isoformat a = p @ ''+00:00''" using iso_shape [of a] by blast
  obtain q where q: "utc_isoformat b = q @ ''+00:00''" using iso_shape [of b] by blast
  assume "datetime_text a = datetime_text b"
  then have "p = q" using assms(1,2) by (simp add: datetime_text_def p q Let_def)
  then show "instant a = instant b" using iso_order(3) [OF assms(3,4)] p q by simp
next
  assume "instant a = instant b"
  then show "datetime_text a = datetime_text b"
    using assms(1,2) utc_isoformat_instant [of a b] by (simp add: datetime_text_def)
qed

lemma sorted_tags:
  "json_sorted (JObj [(''__type__'', a)]) = JObj [(''__type__'', json_sorted a)]"
  "json_sorted (JObj [(''__type__'', a), (''value'', b)]) = JObj [(''__type__'', json_sorted a), (''value'', json_sorted b)]"
  "json_sorted (JObj [(''__type__'', a), (''items'', b)]) = JObj [(''__type__'', json_sorted a), (''items'', json_sorted b)]"
  "json_sorted (JObj [(''__type__'', a), (''class'', b), (''value'', d)]) =
     JObj [(''__type__'', json_sorted a), (''class'', json_sorted b), (''value'', json_sorted d)]"
  by (simp_all add: less_char_def)

lemma map_inject_elements:
  "map f xs = map g ys \<Longrightarrow> (\<And>x y. x \<in> set xs \<Longrightarrow> y \<in> set ys \<Longrightarrow> f x = g y \<Longrightarrow> h x = k y) \<Longrightarrow> map h xs = map k ys"
proof (induction xs arbitrary: ys)
  case (Cons x xs)
  then obtain y ys' where "ys = y # ys'" by (cases ys) auto
  with Cons show ?case by auto
qed simp

lemma sort_key_entries:
  "sort_key fst (map (\<lambda>kv. (key_of kv, f (snd kv))) kvs) = map (\<lambda>kv. (key_of kv, f (snd kv))) (sort_key key_of kvs)"
proof (induction kvs)
  case (Cons kv kvs)
  have "insort_key fst (key_of kv, f (snd kv)) (map (\<lambda>kv. (key_of kv, f (snd kv))) xs) =
      map (\<lambda>kv. (key_of kv, f (snd kv))) (insort_key key_of kv xs)" for xs
    by (induction xs) auto
  with Cons show ?case by simp
qed simp

lemma key_of_snd: "fst kv = PStr (key_of kv) \<Longrightarrow> key_of (fst kv, x) = key_of kv"
  by (cases kv rule: key_of.cases) auto

lemma sort_key_ordered:
  assumes "\<forall>kv \<in> set kvs. fst kv = PStr (key_of kv)"
  shows "sort_key key_of (map (\<lambda>kv. (fst kv, f (snd kv))) kvs) = map (\<lambda>kv. (PStr (key_of kv), f (snd kv))) (sort_key key_of kvs)"
  using assms
proof (induction kvs)
  case (Cons kv kvs)
  have "insort_key key_of (PStr (key_of kv), f (snd kv)) (map (\<lambda>kv. (PStr (key_of kv), f (snd kv))) xs) =
      map (\<lambda>kv. (PStr (key_of kv), f (snd kv))) (insort_key key_of kv xs)" for xs
    by (induction xs) auto
  with Cons show ?case by simp
qed simp

lemma plain_form_dict:
  "plain_form (PDict kvs) = JObj [(''__type__'', JStr ''mapping''),
     (''items'', JArr (map (\<lambda>kv. JArr [JStr (key_of kv), plain_form (snd kv)]) (sort_key key_of kvs)))]"
  by (simp add: sort_key_entries comp_def)

text \<open>The tag of a normal form says which constructor it comes from.\<close>

fun form_tag :: "json \<Rightarrow> string" where
  "form_tag (JObj ((k, JStr t) # _)) = t"
| "form_tag (JStr s) = ''str''"
| "form_tag (JBool b) = ''bool''"
| "form_tag _ = ''''"

definition value_tag :: "pyvalue \<Rightarrow> string" where
  "value_tag w = (case w of PMissing \<Rightarrow> ''missing'' | PBool b \<Rightarrow> ''bool'' | PStr s \<Rightarrow> ''str''
     | PInt i \<Rightarrow> ''int'' | PPath p \<Rightarrow> ''path'' | PDatetime t \<Rightarrow> ''datetime'' | PEnum c v \<Rightarrow> ''enum'' | PSeq vs \<Rightarrow> ''sequence''
     | PDict kvs \<Rightarrow> ''mapping'' | _ \<Rightarrow> '''')"

lemma form_tag_plain: "plain w \<Longrightarrow> form_tag (json_sorted (plain_form w)) = value_tag w"
  unfolding value_tag_def
  by (cases w) (simp_all only: plain.simps plain_form.simps(1-8,10) plain_form_dict sorted_tags json_sorted.simps(1,3-) form_tag.simps
      pyvalue.case)

lemma same_tag:
  assumes "plain v" and "plain w" and "json_sorted (plain_form v) = json_sorted (plain_form w)"
  shows "value_tag v = value_tag w"
  unfolding form_tag_plain [OF assms(1), symmetric] form_tag_plain [OF assms(2), symmetric] assms(3) ..

lemma plain_form_inject:
  "plain v \<Longrightarrow> plain w \<Longrightarrow> json_sorted (plain_form v) = json_sorted (plain_form w) \<Longrightarrow> ordered v = ordered w"
proof (induction v arbitrary: w)
  case (PDatetime t)
  from same_tag [OF PDatetime] obtain u where w: "w = PDatetime u" using PDatetime(2) by (cases w) (simp_all add: value_tag_def)
  have "datetime_text t = datetime_text u"
    using PDatetime w by (auto simp: sorted_tags datetime_text_def Let_def simp del: json_sorted.simps(2))
  then show ?case using datetime_text_inject [of t u] PDatetime w by simp
next
  case (PEnum c v)
  from same_tag [OF PEnum.prems] obtain c' v' where w: "w = PEnum c' v'"
    using PEnum.prems(2) by (cases w) (simp_all add: value_tag_def)
  have eq: "c = c'" "json_sorted (plain_form v) = json_sorted (plain_form v')"
    using PEnum.prems(3) by (simp_all add: w sorted_tags del: json_sorted.simps(2))
  have "plain v" "plain v'" using PEnum.prems(1,2) w by simp_all
  from PEnum.IH [OF this eq(2)] eq(1) show ?case by (simp add: w)
next
  case (PSeq vs)
  from same_tag [OF PSeq.prems] obtain ws where w: "w = PSeq ws" using PSeq.prems(2) by (cases w) (simp_all add: value_tag_def)
  have "map (\<lambda>v. json_sorted (plain_form v)) vs = map (\<lambda>v. json_sorted (plain_form v)) ws"
    using PSeq.prems w by (simp add: sorted_tags comp_def del: json_sorted.simps(2))
  then have "map ordered vs = map ordered ws"
  proof (rule map_inject_elements)
    fix x y assume x: "x \<in> set vs" and y: "y \<in> set ws" and eq: "json_sorted (plain_form x) = json_sorted (plain_form y)"
    have "plain x" "plain y" using x y PSeq.prems(1,2) w by (simp_all add: list_all_iff)
    from PSeq.IH [OF x this eq] show "ordered x = ordered y" .
  qed
  then show ?case by (simp add: w)
next
  case (PDict kvs)
  from same_tag [OF PDict.prems] obtain kws where w: "w = PDict kws"
    using PDict.prems(2) by (cases w) (simp_all add: value_tag_def)
  let ?s = "sort_key key_of kvs" and ?t = "sort_key key_of kws"
  have "map (\<lambda>kv. JArr [JStr (key_of kv), json_sorted (plain_form (snd kv))]) ?s =
      map (\<lambda>kv. JArr [JStr (key_of kv), json_sorted (plain_form (snd kv))]) ?t"
    using PDict.prems(3) unfolding w plain_form_dict by (simp add: sorted_tags comp_def del: json_sorted.simps(2))
  then have "map (\<lambda>kv. (PStr (key_of kv), ordered (snd kv))) ?s = map (\<lambda>kv. (PStr (key_of kv), ordered (snd kv))) ?t"
  proof (rule map_inject_elements)
    fix x y assume x: "x \<in> set ?s" and y: "y \<in> set ?t"
      and eq: "JArr [JStr (key_of x), json_sorted (plain_form (snd x))] = JArr [JStr (key_of y), json_sorted (plain_form (snd y))]"
    have "plain (snd x)" "plain (snd y)" using x y PDict.prems(1,2) w by (auto simp: list_all_iff)
    then have "ordered (snd x) = ordered (snd y)"
      using PDict.IH(2) [of x "snd x" "snd y"] x eq by (simp add: snds.simps)
    with eq show "(PStr (key_of x), ordered (snd x)) = (PStr (key_of y), ordered (snd y))" by simp
  qed
  moreover have "\<forall>kv \<in> set kvs. fst kv = PStr (key_of kv)" "\<forall>kv \<in> set kws. fst kv = PStr (key_of kv)"
    using PDict.prems(1,2) w by (auto simp: list_all_iff)
  ultimately show ?case by (simp add: w sort_key_ordered)
next
  case (PInt a)
  from same_tag [OF PInt] obtain b where w: "w = PInt b" using PInt(2) by (cases w) (simp_all add: value_tag_def)
  then show ?case using PInt by (simp add: sorted_tags int_text_inject del: json_sorted.simps(2))
next
  case (PStr a)
  from same_tag [OF PStr] obtain b where w: "w = PStr b" using PStr(2) by (cases w) (simp_all add: value_tag_def)
  then show ?case using PStr by (simp add: sorted_tags int_text_inject del: json_sorted.simps(2))
next
  case (PBool a)
  from same_tag [OF PBool] obtain b where w: "w = PBool b" using PBool(2) by (cases w) (simp_all add: value_tag_def)
  then show ?case using PBool by (simp add: sorted_tags int_text_inject del: json_sorted.simps(2))
next
  case (PPath a)
  from same_tag [OF PPath] obtain b where w: "w = PPath b" using PPath(2) by (cases w) (simp_all add: value_tag_def)
  then show ?case using PPath by (simp add: sorted_tags int_text_inject del: json_sorted.simps(2))
next
  case PNone
  from same_tag [OF PNone] show ?case using PNone(2) by (cases w) (simp_all add: value_tag_def)
next
  case PMissing
  from same_tag [OF PMissing] show ?case using PMissing(2) by (cases w) (simp_all add: value_tag_def)
qed simp_all

lemma plain_form_ordered: "plain v \<Longrightarrow> plain_form (ordered v) = plain_form v"
proof (induction v)
  case (PDatetime t)
  then show ?case
    using datetime_text_inject [of "utc (instant t)" t] by simp
next
  case (PDict kvs)
  let ?s = "sort_key key_of kvs"
  have k: "\<forall>kv \<in> set kvs. fst kv = PStr (key_of kv)" using PDict.prems by (auto simp: list_all_iff)
  have "plain_form (ordered (snd kv)) = plain_form (snd kv)" if "kv \<in> set ?s" for kv
    using PDict.IH(2) [of kv "snd kv"] PDict.prems that by (simp add: snds.simps list_all_iff)
  then have vals: "map (\<lambda>kv. JArr [JStr (key_of kv), plain_form (ordered (snd kv))]) ?s =
      map (\<lambda>kv. JArr [JStr (key_of kv), plain_form (snd kv)]) ?s" by simp
  have "sort_key key_of (map (\<lambda>kv. (PStr (key_of kv), ordered (snd kv))) ?s) = map (\<lambda>kv. (PStr (key_of kv), ordered (snd kv))) ?s"
    by (rule sort_key_id_if_sorted) (simp add: comp_def)
  then have "plain_form (ordered (PDict kvs)) = JObj [(''__type__'', JStr ''mapping''),
     (''items'', JArr (map (\<lambda>kv. JArr [JStr (key_of kv), plain_form (ordered (snd kv))]) ?s))]"
    unfolding ordered.simps sort_key_ordered [OF k] plain_form_dict by (simp add: comp_def)
  then show ?case unfolding vals plain_form_dict .
qed (auto simp: list_all_iff)

lemma mapM_Inl: "mapM f xs = Inl e \<Longrightarrow> \<exists>x \<in> set xs. f x = Inl e"
  by (induction xs) (auto split: sum.splits)

lemma normalize_error: "normalize v = Inl e \<Longrightarrow> \<exists>m. e = CanonicalizationError m"
proof (induction v arbitrary: e)
  case (PDict kvs)
  then obtain kv where "kv \<in> set kvs" "normalize (fst kv) = Inl e \<or> normalize (snd kv) = Inl e"
    by (auto simp: rbind_Inl_iff dest!: mapM_Inl)
  then show ?case using PDict.IH by (metis fsts.intros snds.intros)
next
  case (PSeq vs)
  then show ?case by (auto simp: rbind_Inl_iff dest!: mapM_Inl)
next
  case (PSet vs)
  then show ?case by (auto simp: rbind_Inl_iff dest!: mapM_Inl)
next
  case (PDataclass c fs)
  then obtain f where "f \<in> set fs" "normalize (snd f) = Inl e"
    by (auto simp: rbind_Inl_iff dest!: mapM_Inl)
  then show ?case using PDataclass.IH by (metis snds.intros)
qed (auto simp: rbind_Inl_iff decimal_result_def datetime_text_def Let_def split: pydecimal.splits if_splits)

section \<open>Properties\<close>

text \<open>C31. What the bytes identify: two plain values (text, integers, booleans, null, missing, paths, enumerations, aware timestamps,
  sequences, and dictionaries with text keys) have the same canonical bytes if and only if they are equal up to the
  insertion order of dictionaries and the time zone in which a timestamp is written. In particular no two values of different
  types, and no two different texts or numbers, share an identity input.\<close>

theorem identity_equal_iff:
  assumes "plain v" and "plain w"
  shows "canonicalize v = canonicalize w \<longleftrightarrow> ordered v = ordered w"
proof -
  note texts = canonicalize_texts [OF normalize_plain [OF assms(1)] normalize_plain [OF assms(2)]]
  show ?thesis
    unfolding texts
  proof
    assume "ordered v = ordered w"
    then show "json_sorted (plain_form v) = json_sorted (plain_form w)"
      using plain_form_ordered [OF assms(1)] plain_form_ordered [OF assms(2)] by simp
  qed (rule plain_form_inject [OF assms])
qed

lemma identity_equal_iff_witness:
  "canonicalize (PDict [(PStr ''a'', PInt 1), (PStr ''b'', PDatetime (PyDateTime 3600000000 (Some 3600000000)))]) =
   canonicalize (PDict [(PStr ''b'', PDatetime (utc 0)), (PStr ''a'', PInt 1)]) \<and>
   canonicalize (PSeq [PInt 1]) \<noteq> canonicalize (PSeq [PStr ''1''])"
proof
  show "canonicalize (PDict [(PStr ''a'', PInt 1), (PStr ''b'', PDatetime (PyDateTime 3600000000 (Some 3600000000)))]) =
      canonicalize (PDict [(PStr ''b'', PDatetime (utc 0)), (PStr ''a'', PInt 1)])"
    by (subst identity_equal_iff) (simp_all add: aware_def instant_def utc_def representable_def less_char_def)
  show "canonicalize (PSeq [PInt 1]) \<noteq> canonicalize (PSeq [PStr ''1''])"
    by (subst identity_equal_iff) simp_all
qed

text \<open>Canonicalization accepts a value exactly when it holds no non-finite number, no naive timestamp and
  nothing unsupported, at any depth, and otherwise refuses it with a \<open>CanonicalizationError\<close> and no other
  exception.\<close>

theorem canonicalize_accepts:
  "(\<exists>b. canonicalize v = Inr b) = canonical v \<and>
   (\<exists>m. canonicalize v = Inl (CanonicalizationError m)) = (\<not> canonical v)"
proof -
  have "canonicalize v = Inl e \<Longrightarrow> \<exists>m. e = CanonicalizationError m" for e
    using normalize_error [of v e] by (auto simp: canonicalize_def rbind_Inl_iff)
  moreover have "(\<exists>b. canonicalize v = Inr b) \<or> (\<exists>e. canonicalize v = Inl e)" by (cases "canonicalize v") auto
  ultimately show ?thesis using canonicalize_total [of v] by fastforce
qed

text \<open>Identity does not depend on iteration order: reordering the entries of a dictionary whose keys have different
  sort texts, or the elements of a set, whatever else the value holds (floats and decimals included), changes neither the
  canonical bytes nor an identifier derived from them.\<close>

theorem identity_order_independent:
  assumes "mset kvs = mset kvs'" and "distinct (key_texts kvs)" and "canonical (PDict kvs)"
    and "mset vs = mset vs'" and "canonical (PSet vs)"
  shows "canonicalize (PDict kvs) = canonicalize (PDict kvs') \<and> canonicalize (PSet vs) = canonicalize (PSet vs') \<and>
    identity_of ns (PDict kvs) = identity_of ns (PDict kvs')"
proof -
  have n: "normalize (PDict kvs) = normalize (PDict kvs')" by (rule normalize_dict_order [OF assms(1-3)])
  have row: "dict_row (k, PDict kvs) = dict_row (k, PDict kvs')" for k
    unfolding dict_row_def fst_conv snd_conv n ..
  have "stable_digest ns (PDict kvs) v = stable_digest ns (PDict kvs') v" for v
    unfolding stable_digest_def canonicalize_def normalize_PDict mapM.simps row [of "PStr ''payload''"] ..
  then show ?thesis
    using n canonicalize_set_order [OF assms(4,5)]
    by (simp add: canonicalize_def identity_of_def stable_identifier_def del: normalize.simps)
qed

lemma identity_order_independent_witness:
  "canonicalize (PDict [(PStr ''a'', PFloat (PFin (1/2))), (PNone, PInt 2)]) = canonicalize (PDict [(PNone, PInt 2), (PStr ''a'', PFloat (PFin (1/2)))]) \<and>
   canonicalize (PSet [PInt 1, PInt 2]) = canonicalize (PSet [PInt 2, PInt 1])"
  using identity_order_independent [of "[(PStr ''a'', PFloat (PFin (1/2))), (PNone, PInt 2)]"
      "[(PNone, PInt 2), (PStr ''a'', PFloat (PFin (1/2)))]" "[PInt 1, PInt 2]" "[PInt 2, PInt 1]" "''n''"]
  by (simp add: key_texts_def key_sort_def add_mset_commute)

text \<open>Every accepted payload has an identifier, and it has the promised shape: the namespace, the schema version and 64
  lower-case hexadecimal digits, joined by colons.\<close>

theorem identifier_shape:
  assumes "canonical payload"
  shows "\<exists>d. identity_of ns payload = Inr (ns @ '':analytical-identity-v1:'' @ d) \<and> length d = 64 \<and> list_all is_hex d"
proof (rule identity_of_total [OF assms])
  fix b assume "identity_of ns payload = Inr (ns @ '':'' @ IDENTITY_SCHEMA_VERSION @ '':'' @ sha256_hex b)"
  then show ?thesis
    by (intro exI [of _ "sha256_hex b"]) (simp add: IDENTITY_SCHEMA_VERSION_def sha256_hex_length sha256_hex_digits)
qed

lemma identifier_shape_witness:
  "\<exists>d. identity_of ''sufficiency'' (PSeq [PInt 1, PNone]) = Inr (''sufficiency:analytical-identity-v1:'' @ d) \<and> length d = 64"
  using identifier_shape [of "PSeq [PInt 1, PNone]" "''sufficiency''"] by auto

text \<open>Where order does matter: a dictionary that has both \<open>None\<close> and the string \<open>null\<close> as keys has no canonical form, because
  both keys sort under the same text; its bytes, and so its identity, depend on which key was
  inserted first.\<close>

theorem null_key_order_matters:
  assumes "canonicalize (PDict [(PNone, v), (PStr ''null'', w)]) = Inr b"
    and "canonicalize (PDict [(PStr ''null'', w), (PNone, v)]) = Inr b'"
  shows "b \<noteq> b'"
proof -
  from assms(1) obtain x y where xy: "normalize v = Inr x" "normalize w = Inr y"
    by (auto simp: canonicalize_def rbind_Inr_iff split: sum.splits)
  have k: "key_sort JNull = ''null''" "key_sort (JStr ''null'') = ''null''" by (simp_all add: key_sort_def)
  let ?rows = "\<lambda>rows. JObj [(''__type__'', JStr ''mapping''), (''items'', JArr rows)]"
  have n: "normalize (PDict [(PNone, v), (PStr ''null'', w)]) = Inr (?rows [JArr [JNull, x], JArr [JStr ''null'', y]])"
    "normalize (PDict [(PStr ''null'', w), (PNone, v)]) = Inr (?rows [JArr [JStr ''null'', y], JArr [JNull, x]])"
    using xy by (simp_all add: k)
  have "json_sorted (?rows [JArr [JNull, x], JArr [JStr ''null'', y]]) \<noteq> json_sorted (?rows [JArr [JStr ''null'', y], JArr [JNull, x]])"
    unfolding sorted_tags by simp
  then show ?thesis using assms canonicalize_texts [OF n] by metis
qed

lemma null_key_order_matters_witness:
  "canonicalize (PDict [(PNone, PInt 1), (PStr ''null'', PInt 2)]) \<noteq> canonicalize (PDict [(PStr ''null'', PInt 2), (PNone, PInt 1)])"
proof -
  obtain b b' where "canonicalize (PDict [(PNone, PInt 1), (PStr ''null'', PInt 2)]) = Inr b"
    "canonicalize (PDict [(PStr ''null'', PInt 2), (PNone, PInt 1)]) = Inr b'"
    by (simp add: canonicalize_def key_sort_def)
  with null_key_order_matters [OF this] show ?thesis by simp
qed

text \<open>Decimals lose digits: a decimal whose coefficient has 29 digits is rounded to 28 before it is written, so it has the
  same canonical bytes as the decimal without its last digit, although the two are different numbers.\<close>

theorem long_decimals_collide:
  assumes "length (nat_text c) = 28" and "d < 5"
  shows "canonicalize (PDecimal (DFin s (10 * c + d) e)) = canonicalize (PDecimal (DFin s c (e + 1)))"
proof -
  have "c \<noteq> 0" using assms(1) by (cases "c = 0") (simp_all only: nat_text.simps [of 0], simp_all)
  then have "nat_text (10 * c + d) = nat_text c @ [digit_char d]" using assms(2) by (simp add: nat_text.simps [of "10 * c + d"])
  then have "dec_round28 (10 * c + d) e = (c, e + 1)"
    using assms by (simp add: dec_round28_def rhe_def Let_def)
  moreover have "dec_round28 c (e + 1) = (c, e + 1)" using assms(1) by (simp add: dec_round28_def)
  ultimately show ?thesis
    by (simp add: canonicalize_def decimal_result_def decimal_text_def dec_normalize_def)
qed

lemma long_decimals_collide_witness:
  "canonicalize (PDecimal (DFin False 12345678901234567890123456784 0)) =
   canonicalize (PDecimal (DFin False 1234567890123456789012345678 1))"
  using long_decimals_collide [of 1234567890123456789012345678 4 False 0] by (simp add: nat_text.simps)

end
