(* ===== verification/Regex.thy ===== *)
theory Regex
  imports Prelude
begin

text \<open>
  The regular expressions of the ledger schema and \<open>re.fullmatch\<close> on them: a run of characters of a class
  with bounds on its length, literal text, sequences and optional groups. The matcher returns what is left
  of the text after each way of matching a prefix; it agrees with the language of the expression.
\<close>

datatype rx =
    RChars "char \<Rightarrow> bool" nat "nat option" \<comment> \<open>\<open>[...]{m,n}\<close>, \<open>[...]{m,}\<close>\<close>
  | RLit string
  | RSeq rx rx
  | ROpt rx \<comment> \<open>\<open>(?:...)?\<close>\<close>

fun rests :: "rx \<Rightarrow> string \<Rightarrow> string list" where
  "rests (RChars P m n) s =
     (let longest = length (takeWhile P s)
      in map (\<lambda>k. drop k s) [m ..< Suc (case n of None \<Rightarrow> longest | Some k \<Rightarrow> min k longest)])"
| "rests (RLit t) s = (if take (length t) s = t then [drop (length t) s] else [])"
| "rests (RSeq a b) s = concat (map (rests b) (rests a s))"
| "rests (ROpt r) s = rests r s @ [s]"

definition fullmatch :: "rx \<Rightarrow> string \<Rightarrow> bool" where
  "fullmatch r s = list_ex (\<lambda>rest. rest = []) (rests r s)"

text \<open>A sequence of expressions.\<close>

fun rseq :: "rx list \<Rightarrow> rx" where
  "rseq [] = RLit ''''"
| "rseq [r] = r"
| "rseq (r # q # rs) = RSeq r (rseq (q # rs))"

section \<open>The language of an expression\<close>

fun lang :: "rx \<Rightarrow> string set" where
  "lang (RChars P m n) = {s. list_all P s \<and> m \<le> length s \<and> (case n of None \<Rightarrow> True | Some k \<Rightarrow> length s \<le> k)}"
| "lang (RLit t) = {t}"
| "lang (RSeq a b) = {s @ t |s t. s \<in> lang a \<and> t \<in> lang b}"
| "lang (ROpt r) = insert [] (lang r)"

lemma takeWhile_prefix: "list_all P p \<Longrightarrow> length p \<le> length (takeWhile P (p @ t))"
  by (simp add: takeWhile_append list_all_iff)

lemma take_takeWhile: "k \<le> length (takeWhile P s) \<Longrightarrow> list_all P (take k s)"
  by (metis list_all_iff set_takeWhileD set_take_subset subsetD takeWhile_eq_take take_take min_absorb1)

lemma rests_iff: "t \<in> set (rests r s) \<longleftrightarrow> (\<exists>p \<in> lang r. s = p @ t)"
proof (induction r arbitrary: s t)
  case (RChars P m n)
  let ?top = "case n of None \<Rightarrow> length (takeWhile P s) | Some k \<Rightarrow> min k (length (takeWhile P s))"
  show ?case
  proof
    assume "t \<in> set (rests (RChars P m n) s)"
    then obtain k where k: "m \<le> k" "k \<le> ?top" "t = drop k s" by (auto simp: Let_def)
    then have "k \<le> length (takeWhile P s)" by (auto split: option.splits)
    then have "list_all P (take k s)" "k \<le> length s"
      using take_takeWhile length_takeWhile_le le_trans by blast+
    then show "\<exists>p \<in> lang (RChars P m n). s = p @ t"
      using k by (intro bexI [of _ "take k s"]) (auto split: option.splits)
  next
    assume "\<exists>p \<in> lang (RChars P m n). s = p @ t"
    then obtain p where p: "p \<in> lang (RChars P m n)" "s = p @ t" by blast
    then have "length p \<le> ?top" using takeWhile_prefix [of P p t] by (auto split: option.splits)
    then show "t \<in> set (rests (RChars P m n) s)"
      using p by (auto simp: Let_def intro!: image_eqI [of _ _ "length p"])
  qed
next
  case (RLit u)
  then show ?case by (auto simp: append_eq_conv_conj) (metis append_take_drop_id)
next
  case (RSeq a b)
  show ?case by (auto simp: RSeq) metis+
next
  case (ROpt r)
  then show ?case by auto
qed

lemma fullmatch_iff: "fullmatch r s \<longleftrightarrow> s \<in> lang r"
  by (auto simp: fullmatch_def list_ex_iff rests_iff)

lemma fullmatch_chars:
  "fullmatch (RChars P n (Some n)) s \<longleftrightarrow> list_all P s \<and> length s = n"
  by (auto simp: fullmatch_iff)

end
