(* ===== verification/LedgerSchema.thy ===== *)
theory LedgerSchema
  imports Regex JsonText Sha256
begin

text \<open>
  The closed schema of the issue ledger (\<open>automation/issue_agent_state.py\<close>): its vocabularies, the canonical
  encoding and the identities derived from it, and the validators. A validator is a function of a JSON value and the
  place where it stands, as in the code, and either raises or falls through; the schemas are built from the
  combinators \<open>_pattern\<close>, \<open>_int\<close>, \<open>_exact\<close>, \<open>_enum\<close>, \<open>_optional\<close>, \<open>_list\<close> and \<open>_object\<close>.
  Non-finite floats, which the canonical encoding refuses, are not values of the model.
\<close>

section \<open>Vocabularies\<close>

abbreviation AUTHORIZED :: string where "AUTHORIZED \<equiv> ''AUTHORIZED''"
abbreviation FALLBACK_AUTHORIZED :: string where "FALLBACK_AUTHORIZED \<equiv> ''FALLBACK_AUTHORIZED''"
abbreviation RESULT_BOUND :: string where "RESULT_BOUND \<equiv> ''RESULT_BOUND''"
abbreviation VALIDATED :: string where "VALIDATED \<equiv> ''VALIDATED''"
abbreviation PUBLISHED :: string where "PUBLISHED \<equiv> ''PUBLISHED''"
abbreviation COMPLETED :: string where "COMPLETED \<equiv> ''COMPLETED''"
abbreviation FAILED :: string where "FAILED \<equiv> ''FAILED''"

definition STATES :: "string list" where
  "STATES = [AUTHORIZED, FALLBACK_AUTHORIZED, RESULT_BOUND, VALIDATED, PUBLISHED, COMPLETED, FAILED]"

definition TERMINAL_STATES :: "string list" where
  "TERMINAL_STATES = [COMPLETED, FAILED]"

definition LEGAL_TRANSITIONS :: "(string option \<times> string list) list" where
  "LEGAL_TRANSITIONS =
     [(None, [AUTHORIZED]),
      (Some AUTHORIZED, [RESULT_BOUND, FALLBACK_AUTHORIZED, FAILED]),
      (Some FALLBACK_AUTHORIZED, [RESULT_BOUND, FAILED]),
      (Some RESULT_BOUND, [VALIDATED, FAILED]),
      (Some VALIDATED, [PUBLISHED, FAILED]),
      (Some PUBLISHED, [COMPLETED, FAILED])]"

definition WRITER_ROLES :: "(string \<times> string list) list" where
  "WRITER_ROLES =
     [(AUTHORIZED, [''authorize'']),
      (FALLBACK_AUTHORIZED, [''bind'']),
      (RESULT_BOUND, [''bind'', ''reconcile'']),
      (VALIDATED, [''record-validation'', ''reconcile'']),
      (PUBLISHED, [''finalize'', ''reconcile'']),
      (COMPLETED, [''candidate-pr-record'', ''reconcile'']),
      (FAILED, [''authorize'', ''bind'', ''record-validation'', ''finalize'', ''reconcile'', ''candidate-pr-record'',
                ''owner-decision''])]"

definition RESUME_ROLES :: "string list" where
  "RESUME_ROLES = [''bind'', ''record-validation'', ''finalize'', ''reconcile'', ''owner-decision'']"

definition RESUME_STAGES :: "(string \<times> string \<times> nat option) list" where
  "RESUME_STAGES =
     [(''validation'', RESULT_BOUND, Some 2), (''publication'', VALIDATED, Some 3),
      (''fallback'', FALLBACK_AUTHORIZED, None)]"

definition FAILURE_CODES :: "string list" where
  "FAILURE_CODES =
     [''BASE_NOT_ON_MAIN'', ''REMOTE_BRANCH_CONFLICT'', ''EXECUTOR_RESULT_TIMEOUT'', ''EXECUTOR_RESULT_REJECTED'',
      ''EXECUTION_NOT_STARTED'', ''EXECUTION_NOT_COMPLETED'', ''SECRET_IN_RESULT'', ''TRANSPORT_INTEGRITY_FAILED'',
      ''PRE_PUSH_SAFETY_FAILED'', ''VALIDATION_UNAVAILABLE'', ''RESULT_TRANSPORT_EXPIRED'', ''PUBLICATION_UNAVAILABLE'',
      ''PUBLICATION_CONTRACT_REFUSED'', ''PUBLICATION_REJECTED_BY_PLATFORM'', ''OWNER_WITHDREW'', ''ISSUE_CLOSED'',
      ''ISSUE_CHANGED_AFTER_AUTHORIZATION'', ''LIFECYCLE_DEADLINE_EXCEEDED'', ''CANDIDATE_PREFLIGHT_FAILED'',
      ''CANDIDATE_PREFLIGHT_TIMEOUT'', ''CONTROL_SHA_NOT_ON_MAIN'']"

definition FREEZE_CODES :: "string list" where
  "FREEZE_CODES = [''STATE_CORRUPT'', ''STATE_ROLLBACK_SUSPECTED'', ''ANCHOR_INTEGRITY_FAILED'']"

definition ADVISORY_CODES :: "string list" where
  "ADVISORY_CODES =
     [''PROVIDER_UNAVAILABLE'', ''PROVIDER_QUOTA'', ''MODEL_TIMEOUT'', ''NO_CHANGES'', ''MISSING_CONFIGURATION'',
      ''SECRET_IN_RESULT'', ''EXECUTOR_RESULT_REJECTED'', ''FALLBACK_SESSION_NOT_STARTED'']"

definition EXECUTOR_CONCLUSIONS :: "string list" where
  "EXECUTOR_CONCLUSIONS = [''success'', ''failure'', ''cancelled'', ''timed_out'', ''skipped'']"

definition FALLBACK_CAUSES :: "string list" where
  "FALLBACK_CAUSES = [''RATE_LIMIT'', ''QUOTA_EXCEEDED'', ''NETWORK'']"

definition CANARY_FALLBACK_CAUSE :: string where
  "CANARY_FALLBACK_CAUSE = ''CANARY_NETWORK''"

definition FALLBACK_PRIMARY_CAUSES :: "string list" where
  "FALLBACK_PRIMARY_CAUSES = FALLBACK_CAUSES @ [CANARY_FALLBACK_CAUSE]"

definition CANARY_PROVIDER_HOST :: string where
  "CANARY_PROVIDER_HOST = ''ai-gateway.kilo.ai''"

definition FALLBACK_SIGNAL_CATEGORIES :: "string list" where
  "FALLBACK_SIGNAL_CATEGORIES = FALLBACK_CAUSES @
     [''MODEL_NOT_FOUND'', ''AUTHENTICATION'', ''PERMISSION'', ''PROVIDER_UNAVAILABLE'', ''PROVIDER_OVERLOADED'',
      ''PROVIDER_CALL_FAILED'', ''PROVIDER_ERROR'', ''NOT_FOUND'', ''UNCLASSIFIED'']"

definition FALLBACK_EXECUTORS :: "string list" where
  "FALLBACK_EXECUTORS = [''codex'']"

definition VALIDATION_REFUSAL_CODES :: "string list" where
  "VALIDATION_REFUSAL_CODES =
     [''TRANSPORT_INTEGRITY_FAILED'', ''EXECUTOR_RESULT_REJECTED'', ''SECRET_IN_RESULT'', ''PRE_PUSH_SAFETY_FAILED'']"

definition PUBLICATION_REFUSAL_CODES :: "string list" where
  "PUBLICATION_REFUSAL_CODES =
     [''ISSUE_CLOSED'', ''OWNER_WITHDREW'', ''ISSUE_CHANGED_AFTER_AUTHORIZATION'', ''PUBLICATION_REJECTED_BY_PLATFORM'',
      ''PUBLICATION_CONTRACT_REFUSED'', ''TRANSPORT_INTEGRITY_FAILED'']"

section \<open>Canonical encoding and identities\<close>

definition canonical_json :: "json \<Rightarrow> 8 word list" where
  "canonical_json v = utf8 (dumps False v)"

definition record_digest :: "json \<Rightarrow> string" where
  "record_digest r = sha256_hex (canonical_json r)"

definition execution_identity :: "string \<Rightarrow> int \<Rightarrow> string \<Rightarrow> string \<Rightarrow> int \<Rightarrow> string result" where
  "execution_identity authorization_id authorize_run_id control_sha handoff_sha256 execution_attempt =
     (if execution_attempt \<noteq> 1 \<and> execution_attempt \<noteq> 2
      then Inl (LedgerSchemaError ''an authorization has at most one primary and one fallback execution'')
      else Inr (sha256_hex (canonical_json (JObj
        ([(''authorization_id'', JStr authorization_id), (''authorize_run_id'', JInt authorize_run_id),
          (''run_attempt'', JInt 1), (''control_sha'', JStr control_sha), (''handoff_sha256'', JStr handoff_sha256)] @
         (if execution_attempt = 2 then [(''execution_attempt'', JInt 2)] else []))))))"

record publication =
  pb_repository_id :: int
  pb_issue_number :: int
  pb_authorization_id :: string
  pb_base_sha :: string
  pb_task_scope_sha256 :: string
  pb_execution_id :: string
  pb_result_sha256 :: string
  pb_tree_sha :: string
  pb_unsigned_commit_sha :: string
  pb_control_sha :: string
  pb_writer_login :: string

definition publication_material :: "publication \<Rightarrow> json" where
  "publication_material p = JObj
     [(''repository_id'', JInt (pb_repository_id p)), (''issue_number'', JInt (pb_issue_number p)),
      (''authorization_id'', JStr (pb_authorization_id p)), (''base_sha'', JStr (pb_base_sha p)),
      (''task_scope_sha256'', JStr (pb_task_scope_sha256 p)), (''execution_id'', JStr (pb_execution_id p)),
      (''result_sha256'', JStr (pb_result_sha256 p)), (''tree_sha'', JStr (pb_tree_sha p)),
      (''unsigned_commit_sha'', JStr (pb_unsigned_commit_sha p)), (''control_sha'', JStr (pb_control_sha p)),
      (''writer_login'', JStr (pb_writer_login p))]"

definition publication_identity :: "publication \<Rightarrow> string" where
  "publication_identity p = sha256_hex (canonical_json (publication_material p))"

section \<open>Patterns\<close>

definition is_digit_char :: "char \<Rightarrow> bool" where
  "is_digit_char c = (let n = of_char c :: nat in 48 \<le> n \<and> n \<le> 57)"

definition is_lower :: "char \<Rightarrow> bool" where
  "is_lower c = (let n = of_char c :: nat in 97 \<le> n \<and> n \<le> 122)"

definition is_alnum :: "char \<Rightarrow> bool" where
  "is_alnum c = (let n = of_char c :: nat in 48 \<le> n \<and> n \<le> 57 \<or> 65 \<le> n \<and> n \<le> 90 \<or> 97 \<le> n \<and> n \<le> 122)"

text \<open>A class \<open>[A-Za-z0-9...]\<close> and \<open>[a-z0-9...]\<close> with further characters.\<close>

definition alnum_or :: "string \<Rightarrow> char \<Rightarrow> bool" where
  "alnum_or extra c = (is_alnum c \<or> c \<in> set extra)"

definition lower_or :: "string \<Rightarrow> char \<Rightarrow> bool" where
  "lower_or extra c = (is_lower c \<or> is_digit_char c \<or> c \<in> set extra)"

abbreviation exactly :: "(char \<Rightarrow> bool) \<Rightarrow> nat \<Rightarrow> rx" where
  "exactly P n \<equiv> RChars P n (Some n)"

abbreviation between :: "(char \<Rightarrow> bool) \<Rightarrow> nat \<Rightarrow> nat \<Rightarrow> rx" where
  "between P m n \<equiv> RChars P m (Some n)"

definition rx_sha40 :: rx where "rx_sha40 = exactly is_hex 40"
definition rx_sha64 :: rx where "rx_sha64 = exactly is_hex 64"
definition rx_sig :: rx where "rx_sig = exactly is_hex 128"

definition AUTHORIZATION_PREFIX :: string where
  "AUTHORIZATION_PREFIX = ''hunter-issue-agent-authorization:''"

definition rx_authorization_id :: rx where
  "rx_authorization_id = RSeq (RLit AUTHORIZATION_PREFIX) (exactly is_hex 64)"

definition rx_timestamp :: rx where
  "rx_timestamp = rseq [exactly is_digit_char 4, RLit ''-'', exactly is_digit_char 2, RLit ''-'', exactly is_digit_char 2,
     RLit ''T'', exactly is_digit_char 2, RLit '':'', exactly is_digit_char 2, RLit '':'', exactly is_digit_char 2,
     ROpt (RSeq (RLit ''.'') (between is_digit_char 1 6)), RLit ''Z'']"

definition rx_login :: rx where
  "rx_login = rseq [exactly is_alnum 1, between (alnum_or ''-'') 0 38, ROpt (RLit ''[bot]'')]"

definition rx_ident :: rx where
  "rx_ident = RSeq (exactly is_alnum 1) (between (alnum_or ''._:/#+@=-'') 0 199)"

definition rx_node_id :: rx where "rx_node_id = between (alnum_or ''_=-'') 1 128"

definition rx_workflow :: rx where
  "rx_workflow = rseq [RLit ''.github/workflows/'', between (alnum_or ''._-'') 1 100, RLit ''.y'', ROpt (RLit ''a''), RLit ''ml'']"

definition rx_job :: rx where
  "rx_job = RSeq (exactly is_lower 1) (between (lower_or ''-'') 0 63)"

definition rx_branch :: rx where
  "rx_branch = rseq [RLit ''issue-'', exactly (\<lambda>c. is_digit_char c \<and> c \<noteq> CHR ''0'') 1, between is_digit_char 0 9,
     RLit ''-'', exactly is_hex 16]"

definition rx_artifact_digest :: rx where "rx_artifact_digest = RSeq (RLit ''sha256:'') (exactly is_hex 64)"
definition rx_scope_path :: rx where "rx_scope_path = between (alnum_or ''._@+*/-'') 1 512"
definition rx_branch_glob :: rx where "rx_branch_glob = between (alnum_or ''._/*-'') 1 200"

definition rx_label :: rx where
  "rx_label = RSeq (exactly (lower_or '''') 1) (between (lower_or ''-'') 0 49)"

definition rx_model_slug :: rx where
  "rx_model_slug = RSeq (exactly is_alnum 1) (between (alnum_or ''._-'') 0 63)"

definition rx_test_id :: rx where
  "rx_test_id = rseq [RLit ''tests/'', between (alnum_or ''_./-'') 1 200, RLit ''.py::'', between (alnum_or ''_[]-'') 1 200]"

definition rx_family_id :: rx where "rx_family_id = RSeq (RLit ''DFF-'') (exactly is_digit_char 3)"

definition rx_family_title :: rx where
  "rx_family_title = RSeq (exactly (lower_or '''') 1) (between (lower_or ''-'') 2 99)"

definition rx_family_text :: rx where
  "rx_family_text = between (\<lambda>c. let n = of_char c :: nat in 32 \<le> n \<and> n \<le> 126) 12 1000"


section \<open>Validators\<close>

type_synonym validator = "json \<Rightarrow> string \<Rightarrow> check"

text \<open>\<open>_fail\<close>\<close>

definition schema_error :: "string \<Rightarrow> string \<Rightarrow> pyexc" where
  "schema_error location why = LedgerSchemaError (location @ '': '' @ why)"

definition v_pattern :: "rx \<Rightarrow> validator" where
  "v_pattern r v location =
     raise_if (\<not> (case v of JStr s \<Rightarrow> fullmatch r s | _ \<Rightarrow> False)) (schema_error location ''malformed value'')"

definition v_int :: "int \<Rightarrow> validator" where
  "v_int minimum v location =
     raise_if (\<not> (case v of JInt i \<Rightarrow> minimum \<le> i | _ \<Rightarrow> False))
       (schema_error location (''must be an integer >= '' @ int_text minimum))"

text \<open>\<open>repr\<close> of the expected constants: plain text, integers and booleans.\<close>

fun const_repr :: "json \<Rightarrow> string" where
  "const_repr (JStr s) = CHR 0x27 # s @ [CHR 0x27]"
| "const_repr (JInt i) = int_text i"
| "const_repr (JBool b) = (if b then ''True'' else ''False'')"
| "const_repr v = ''None''"

definition v_exact :: "json \<Rightarrow> validator" where
  "v_exact expected v location =
     raise_if (v \<noteq> expected) (schema_error location (''must be exactly '' @ const_repr expected))"

definition v_enum :: "string list \<Rightarrow> validator" where
  "v_enum allowed v location =
     raise_if (\<not> (case v of JStr s \<Rightarrow> s \<in> set allowed | _ \<Rightarrow> False))
       (schema_error location ''value outside the closed vocabulary'')"

definition v_bool :: validator where
  "v_bool v location = raise_if (\<not> (case v of JBool b \<Rightarrow> True | _ \<Rightarrow> False)) (schema_error location ''must be a boolean'')"

definition v_optional :: "validator \<Rightarrow> validator" where
  "v_optional inner v location = (if v = JNull then None else inner v location)"

definition v_list :: "validator \<Rightarrow> nat \<Rightarrow> validator" where
  "v_list inner maximum v location =
     (case v of
        JArr vs \<Rightarrow>
          if maximum < length vs
          then Some (schema_error location (''must be a list of at most '' @ nat_text maximum))
          else first_failure (map (\<lambda>(i, item). inner item (location @ ''['' @ nat_text i @ '']'')) (enumerate 0 vs) @
            [raise_if (\<not> distinct (map canonical_json vs)) (schema_error location ''duplicate entries'')])
      | _ \<Rightarrow> Some (schema_error location (''must be a list of at most '' @ nat_text maximum)))"

definition v_object :: "(string \<times> validator) list \<Rightarrow> (string \<times> validator) list \<Rightarrow> validator" where
  "v_object spec extra v location =
     (case v of
        JObj kvs \<Rightarrow>
          let keys = map fst kvs
          in if \<not> (list_all (\<lambda>k. k \<in> set keys) (map fst spec) \<and>
                  list_all (\<lambda>k. k \<in> set (map fst spec) \<or> k \<in> set (map fst extra)) keys)
             then Some (schema_error location ''fields differ from the closed schema'')
             else first_failure (map (\<lambda>(k, f). case map_of kvs k of None \<Rightarrow> None | Some x \<Rightarrow> f x (location @ ''.'' @ k))
                    (spec @ extra))
      | _ \<Rightarrow> Some (schema_error location ''must be an object''))"

definition FALLBACK_MODEL_PROVENANCE :: "string list" where
  "FALLBACK_MODEL_PROVENANCE = [''REPORTED'', ''REROUTED'', ''REROUTED_UNIDENTIFIED'', ''NOT_OBSERVED'', ''STREAM_INVALID'']"

definition FALLBACK_OBSERVING :: "string list" where
  "FALLBACK_OBSERVING = [''REPORTED'', ''REROUTED'']"

text \<open>A field of an object whose presence has been checked.\<close>

definition jfield :: "string \<Rightarrow> json \<Rightarrow> json" where
  "jfield k v = (case jget k v of Some x \<Rightarrow> x | None \<Rightarrow> JNull)"

definition is_slug :: "json \<Rightarrow> bool" where
  "is_slug v = (case v of JStr s \<Rightarrow> fullmatch rx_model_slug s | _ \<Rightarrow> False)"

definition has_keys :: "string list \<Rightarrow> json \<Rightarrow> bool" where
  "has_keys ks v = (case v of JObj kvs \<Rightarrow>
     list_all (\<lambda>k. k \<in> set ks) (map fst kvs) \<and> list_all (\<lambda>k. k \<in> set (map fst kvs)) ks | _ \<Rightarrow> False)"

definition fallback_model :: validator where
  "fallback_model v location =
     (if \<not> has_keys [''requested'', ''requested_listed'', ''observed'', ''provenance''] v
      then Some (schema_error location ''fields differ from the closed schema'')
      else
        let observed = jfield ''observed'' v; requested = jfield ''requested'' v; names = is_slug observed;
            observing = (case jfield ''provenance'' v of JStr p \<Rightarrow> p \<in> set FALLBACK_OBSERVING | _ \<Rightarrow> False)
        in first_failure
          [raise_if (\<not> is_slug requested) (schema_error location ''malformed requested model''),
           raise_if (\<not> (case jfield ''requested_listed'' v of JBool b \<Rightarrow> True | _ \<Rightarrow> False))
             (schema_error location ''requested_listed must be a boolean''),
           raise_if (\<not> (case jfield ''provenance'' v of JStr p \<Rightarrow> p \<in> set FALLBACK_MODEL_PROVENANCE | _ \<Rightarrow> False))
             (schema_error location ''provenance outside the closed vocabulary''),
           raise_if (observing \<noteq> names \<or> \<not> names \<and> observed \<noteq> JNull)
             (schema_error location ''an observed model is recorded only when the CLI reported one''),
           raise_if (jfield ''provenance'' v = JStr ''REPORTED'' \<and> observed \<noteq> requested)
             (schema_error location ''a reported model that differs from the request is a reroute'')])"

definition fallback_model_conforms :: "json \<Rightarrow> bool" where
  "fallback_model_conforms v = (fallback_model v ''fallback.model'' = None)"

text \<open>\<open>text.split("/")\<close>\<close>

fun split_slash :: "string \<Rightarrow> string list" where
  "split_slash [] = [[]]"
| "split_slash (c # s) =
     (if c = CHR ''/'' then [] # split_slash s
      else case split_slash s of [] \<Rightarrow> [[c]] | p # ps \<Rightarrow> (c # p) # ps)"

definition rstrip_slash :: "string \<Rightarrow> string" where
  "rstrip_slash s = rev (dropWhile (\<lambda>c. c = CHR ''/'') (rev s))"

definition scope_path :: validator where
  "scope_path v location =
     (case v of
        JStr s \<Rightarrow>
          if \<not> fullmatch rx_scope_path s \<or> take 1 s = ''/''
          then Some (schema_error location ''not a canonical repository path'')
          else raise_if (list_ex (\<lambda>part. part \<in> set ['''', ''.'', ''..'']) (split_slash (rstrip_slash s)))
                 (schema_error location ''not a canonical repository path'')
      | _ \<Rightarrow> Some (schema_error location ''not a canonical repository path''))"

abbreviation "SHA40 \<equiv> v_pattern rx_sha40"
abbreviation "SHA64 \<equiv> v_pattern rx_sha64"
abbreviation "AUTHORIZATION_ID \<equiv> v_pattern rx_authorization_id"
abbreviation "TIMESTAMP \<equiv> v_pattern rx_timestamp"
abbreviation "IDENT \<equiv> v_pattern rx_ident"
abbreviation "POSITIVE \<equiv> v_int 1"

definition disposition :: validator where
  "disposition v location =
     (if \<not> has_keys [''family_id''] v \<and> \<not> has_keys [''new_family''] v
      then Some (LedgerSchemaError (location @ '': disposition must be exactly one family_id or new_family''))
      else case jget ''family_id'' v of
             Some f \<Rightarrow> v_pattern rx_family_id f (location @ ''.family_id'')
           | None \<Rightarrow> v_object [(''title'', v_pattern rx_family_title), (''invariant'', v_pattern rx_family_text)] []
               (jfield ''new_family'' v) (location @ ''.new_family''))"

definition authorization_digest :: "string \<Rightarrow> string result" where
  "authorization_digest authorization_id =
     (if fullmatch rx_authorization_id authorization_id
      then Inr (drop (length AUTHORIZATION_PREFIX) authorization_id)
      else Inl (LedgerSchemaError ''not a canonical authorization identity''))"

definition result_artifact_name :: "string \<Rightarrow> string result" where
  "result_artifact_name a = rbind (authorization_digest a) (\<lambda>d. Inr (''hunter-ia-result-'' @ d))"

definition handoff_artifact_name :: "string \<Rightarrow> string result" where
  "handoff_artifact_name a = rbind (authorization_digest a) (\<lambda>d. Inr (''hunter-ia-handoff-'' @ d))"

definition fallback_result_artifact_name :: "string \<Rightarrow> string result" where
  "fallback_result_artifact_name a = rbind (authorization_digest a) (\<lambda>d. Inr (''hunter-ia-result-fb-'' @ d))"

definition fallback_handoff_artifact_name :: "string \<Rightarrow> string result" where
  "fallback_handoff_artifact_name a = rbind (authorization_digest a) (\<lambda>d. Inr (''hunter-ia-handoff-fb-'' @ d))"

section \<open>Schemas\<close>

definition canary_refusal_schema :: validator where
  "canary_refusal_schema = v_object
     [(''provider_host'', v_exact (JStr CANARY_PROVIDER_HOST)), (''primary_refusals'', v_int 1),
      (''probe_refusals'', v_exact (JInt 1)), (''refusal_digest'', SHA64)] []"

definition artifact_schema :: validator where
  "artifact_schema = v_object
     [(''run_id'', POSITIVE), (''artifact_id'', POSITIVE), (''artifact_digest'', v_pattern rx_artifact_digest),
      (''ciphertext_sha256'', SHA64), (''aad_sha256'', SHA64), (''recipient_key_id'', SHA64)] []"

definition LEDGER_ROLES :: "string list" where
  "LEDGER_ROLES = [''authorize'', ''bind'', ''record-validation'', ''finalize'', ''reconcile'', ''candidate-pr-record'',
     ''source-handling-bootstrap'', ''knowledge-ingest'', ''owner-decision'']"

definition recorded_by_schema :: validator where
  "recorded_by_schema = v_object
     [(''workflow_path'', v_pattern rx_workflow), (''job'', v_pattern rx_job), (''role'', v_enum LEDGER_ROLES),
      (''run_id'', POSITIVE), (''run_attempt'', POSITIVE), (''head_sha'', SHA40)] []"

definition STATE_SIGNATURE_DOMAIN :: string where
  "STATE_SIGNATURE_DOMAIN = ''hunter-issue-agent-state-v1''"

definition signature_schema :: validator where
  "signature_schema = v_object
     [(''alg'', v_exact (JStr ''ed25519'')), (''key_id'', SHA64), (''domain'', v_exact (JStr STATE_SIGNATURE_DOMAIN)),
      (''value'', v_pattern rx_sig)] []"

definition authorized_schema :: validator where
  "authorized_schema = v_object
     [(''authorization_envelope_sha256'', SHA64),
      (''claims'', v_object
         [(''owner_login'', v_pattern rx_login), (''label'', v_pattern rx_label), (''issue_updated_at'', TIMESTAMP),
          (''schema_version'', IDENT), (''title_sha256'', SHA64), (''body_sha256'', SHA64)] []),
      (''task_scope'', v_object
         [(''task_id'', IDENT), (''branch_pattern'', v_pattern rx_branch_glob), (''base_ref'', v_exact (JStr ''main'')),
          (''base_sha'', SHA40), (''allowed_paths'', v_list scope_path 256), (''prohibited_paths'', v_list scope_path 256)] []),
      (''task_scope_sha256'', SHA64),
      (''execution_branch'', v_pattern rx_branch),
      (''base_sha'', SHA40),
      (''control_sha'', SHA40),
      (''authorize_run_id'', POSITIVE),
      (''execution_id'', SHA64),
      (''prompt_input_manifest_sha256'', SHA64),
      (''compiler_identity_sha256'', SHA64),
      (''deadline_published_at'', TIMESTAMP),
      (''lineage'', v_object
         [(''document_id'', IDENT), (''build_record_id'', IDENT), (''envelope_id'', IDENT), (''prompt_artifact_id'', IDENT),
          (''prompt_sha256'', SHA64), (''handoff_sha256'', SHA64), (''dpm_context_sha256'', SHA64),
          (''source_handling_record_ids'', v_list IDENT 64),
          (''reconstruction'', v_exact (JStr ''EXACT_RECONSTRUCTION_UNAVAILABLE'')),
          (''reconstruction_reason'', v_exact (JStr ''NO_CONFIDENTIAL_DURABLE_STORE''))] []),
      (''handoff_artifact'', artifact_schema)]
     [(''fallback'', v_object [(''execution_id'', SHA64), (''handoff_artifact'', artifact_schema)] []),
      (''fallback_canary'', v_bool),
      (''remediation'', v_object
         [(''parent_authorization_id'', AUTHORIZATION_ID), (''pull_request_number'', POSITIVE), (''bound_head_sha'', SHA40),
          (''finding_ids'', v_list SHA64 16), (''attempt'', POSITIVE)] [])]"

definition fallback_authorized_schema :: validator where
  "fallback_authorized_schema = v_object
     [(''primary_executor_job_id'', POSITIVE), (''primary_executor_conclusion'', v_enum EXECUTOR_CONCLUSIONS),
      (''primary_cause'', v_enum FALLBACK_PRIMARY_CAUSES), (''stderr_category'', v_enum FALLBACK_CAUSES),
      (''probe_category'', v_enum FALLBACK_CAUSES), (''primary_result_artifacts'', v_exact (JInt 0)),
      (''fallback_executor'', v_enum FALLBACK_EXECUTORS), (''fallback_execution_id'', SHA64)]
     [(''canary_refusal'', canary_refusal_schema)]"

definition result_bound_schema :: validator where
  "result_bound_schema = v_object
     [(''result_artifact'', artifact_schema), (''result_plaintext_sha256'', SHA64), (''executor_job_id'', POSITIVE),
      (''executor_conclusion'', v_enum EXECUTOR_CONCLUSIONS),
      (''executor_advisory_code'', v_optional (v_enum ADVISORY_CODES))]
     [(''fallback'', v_object
         [(''execution_attempt'', v_exact (JInt 2)), (''executor'', v_enum FALLBACK_EXECUTORS),
          (''attestation_sha256'', SHA64), (''deadline_published_at'', TIMESTAMP)]
         [(''model'', fallback_model)])]"

definition validated_schema :: validator where
  "validated_schema = v_object
     [(''receipt_sha256'', SHA64), (''result_sha256'', SHA64), (''tree_sha'', SHA40), (''unsigned_commit_sha'', SHA40),
      (''validation_definition'', SHA64), (''toolchain_sha256'', SHA64), (''validator_run_id'', POSITIVE),
      (''validation_attempts'', POSITIVE)]
     [(''remediation'', v_object
         [(''bound_head_sha'', SHA40), (''finding_ids'', v_list SHA64 16), (''proven_finding_ids'', v_list SHA64 16),
          (''regression_tests'', v_list (v_pattern rx_test_id) 32), (''disposition'', v_optional disposition),
          (''promotion_sha256'', SHA64)] [])]"

definition published_schema :: validator where
  "published_schema = v_object
     [(''writer_login'', v_pattern rx_login), (''publication_identity'', SHA64), (''head_sha'', SHA40),
      (''commit_verified'', v_exact (JBool True)), (''publish_attempts'', POSITIVE), (''deadline_completed_at'', TIMESTAMP)] []"

definition completed_schema :: validator where
  "completed_schema = v_object
     [(''pull_request_number'', POSITIVE), (''pull_request_node_id'', v_pattern rx_node_id),
      (''pull_request_head_sha'', SHA40), (''draft'', v_exact (JBool True)), (''preflight_run_id'', POSITIVE),
      (''preflight_conclusion'', v_exact (JStr ''success''))] []"

definition failed_schema :: validator where
  "failed_schema = v_object
     [(''code'', v_enum FAILURE_CODES),
      (''failed_from_state'', v_enum [AUTHORIZED, FALLBACK_AUTHORIZED, RESULT_BOUND, VALIDATED, PUBLISHED])] []"

definition EVIDENCE_SCHEMAS :: "(string \<times> validator) list" where
  "EVIDENCE_SCHEMAS =
     [(AUTHORIZED, authorized_schema), (FALLBACK_AUTHORIZED, fallback_authorized_schema),
      (RESULT_BOUND, result_bound_schema), (VALIDATED, validated_schema), (PUBLISHED, published_schema),
      (COMPLETED, completed_schema), (FAILED, failed_schema)]"

definition resume_requested_schema :: validator where
  "resume_requested_schema = v_object
     [(''stage'', v_enum (map fst RESUME_STAGES)), (''nonce'', SHA64), (''attempt'', POSITIVE), (''dispatched_at'', TIMESTAMP)] []"

definition resume_bound_schema :: validator where
  "resume_bound_schema = v_object [(''nonce'', SHA64), (''run_id'', POSITIVE)] []"

definition resume_abandoned_schema :: validator where
  "resume_abandoned_schema = v_object [(''nonce'', SHA64), (''reason'', v_enum [''run_concluded_without_output''])] []"

definition INDEX_SCHEMA_VERSION :: string where
  "INDEX_SCHEMA_VERSION = ''hunter-issue-agent-index-v1''"

definition index_schema :: validator where
  "index_schema = v_object
     [(''schema_version'', v_exact (JStr INDEX_SCHEMA_VERSION)), (''repository_id'', POSITIVE), (''issue_number'', POSITIVE),
      (''claimed_authorization_ids'', v_list AUTHORIZATION_ID 10000),
      (''active_authorization_id'', v_optional AUTHORIZATION_ID),
      (''pending_resume'', v_optional (v_object
         [(''authorization_id'', AUTHORIZATION_ID), (''stage'', v_enum (map fst RESUME_STAGES)), (''nonce'', SHA64),
          (''attempt'', POSITIVE), (''dispatched_at'', TIMESTAMP), (''bound_run_id'', v_optional POSITIVE)] []))] []"

definition RECORD_SCHEMA_VERSION :: string where
  "RECORD_SCHEMA_VERSION = ''hunter-issue-agent-execution-record-v1''"

definition record_base :: "(string \<times> validator) list" where
  "record_base =
     [(''schema_version'', v_exact (JStr RECORD_SCHEMA_VERSION)),
      (''kind'', v_enum [''transition'', ''resume_requested'', ''resume_bound'', ''resume_abandoned'']),
      (''record_seq'', v_int 0),
      (''prev_record_sha256'', v_optional SHA64),
      (''recorded_at'', TIMESTAMP),
      (''recorded_by'', recorded_by_schema),
      (''repository_id'', POSITIVE),
      (''issue_number'', POSITIVE),
      (''authorization_id'', AUTHORIZATION_ID),
      (''state'', v_enum STATES),
      (''evidence'', \<lambda>v location. None),
      (''signature'', signature_schema)]"

fun jdepth :: "nat \<Rightarrow> json \<Rightarrow> nat" where
  "jdepth level (JObj kvs) = foldr max (map (\<lambda>kv. jdepth (Suc level) (snd kv)) kvs) level"
| "jdepth level (JArr vs) = foldr max (map (jdepth (Suc level)) vs) level"
| "jdepth level v = level"

definition MAX_RECORD_BYTES :: nat where
  "MAX_RECORD_BYTES = 65536"

definition is_object :: "json \<Rightarrow> bool" where
  "is_object v = (case v of JObj kvs \<Rightarrow> True | _ \<Rightarrow> False)"

definition sfield :: "string \<Rightarrow> json \<Rightarrow> string" where
  "sfield k v = (case jget k v of Some (JStr s) \<Rightarrow> s | _ \<Rightarrow> '''')"

definition evidence_check :: "json \<Rightarrow> check" where
  "evidence_check r =
     (let kind = sfield ''kind'' r; state = sfield ''state'' r; evidence = jfield ''evidence'' r
      in if kind = ''transition''
         then (case map_of EVIDENCE_SCHEMAS state of
                 None \<Rightarrow> Some (KeyError state)
               | Some f \<Rightarrow> f evidence (''record.evidence['' @ state @ '']''))
         else if kind = ''resume_requested'' then resume_requested_schema evidence ''record.evidence[resume_requested]''
         else if kind = ''resume_bound'' then resume_bound_schema evidence ''record.evidence[resume_bound]''
         else resume_abandoned_schema evidence ''record.evidence[resume_abandoned]'')"

definition validate_record_schema :: "json \<Rightarrow> json result" where
  "validate_record_schema r =
     (if \<not> is_object r then Inl (LedgerSchemaError ''record must be an object'')
      else if MAX_RECORD_BYTES < length (canonical_json r) \<or> 6 < jdepth 0 r
      then Inl (LedgerSchemaError ''record exceeds the size or depth bound'')
      else checked [v_object record_base [] r ''record'', evidence_check r] r)"

definition validate_index_schema :: "json \<Rightarrow> json result" where
  "validate_index_schema i =
     (if \<not> is_object i then Inl (LedgerSchemaError ''index must be an object'') else checked [index_schema i ''index''] i)"


section \<open>What a passed validator says\<close>

lemma v_pattern_None [ledger_simps]: "v_pattern r v l = None \<longleftrightarrow> (\<exists>s. v = JStr s \<and> fullmatch r s)"
  by (cases v) (auto simp: v_pattern_def)

lemma v_int_None [ledger_simps]: "v_int m v l = None \<longleftrightarrow> (\<exists>i. v = JInt i \<and> m \<le> i)"
  by (cases v) (auto simp: v_int_def)

lemma v_exact_None [ledger_simps]: "v_exact e v l = None \<longleftrightarrow> v = e"
  by (simp add: v_exact_def)

lemma v_enum_None [ledger_simps]: "v_enum vs v l = None \<longleftrightarrow> (\<exists>s. v = JStr s \<and> s \<in> set vs)"
  by (cases v) (auto simp: v_enum_def)

lemma v_bool_None [ledger_simps]: "v_bool v l = None \<longleftrightarrow> (\<exists>b. v = JBool b)"
  by (cases v) (auto simp: v_bool_def)

lemma v_optional_None [ledger_simps]: "v_optional f v l = None \<longleftrightarrow> v = JNull \<or> f v l = None"
  by (simp add: v_optional_def)

lemma v_list_None [ledger_simps]:
  "v_list f n v l = None \<longleftrightarrow> (\<exists>vs. v = JArr vs \<and> length vs \<le> n \<and> distinct (map canonical_json vs) \<and>
     (\<forall>(i, x) \<in> set (enumerate 0 vs). f x (l @ ''['' @ nat_text i @ '']'') = None))"
  by (cases v) (auto simp: v_list_def first_failure_None list_all_iff not_less split: prod.splits)

lemma field_check: "(case m of None \<Rightarrow> None | Some x \<Rightarrow> f x) = None \<longleftrightarrow> (\<forall>x. m = Some x \<longrightarrow> f x = None)"
  by (cases m) auto

lemma v_object_None:
  "v_object spec extra v l = None \<longleftrightarrow> (\<exists>kvs. v = JObj kvs \<and> set (map fst spec) \<subseteq> set (map fst kvs) \<and>
     set (map fst kvs) \<subseteq> set (map fst spec) \<union> set (map fst extra) \<and>
     (\<forall>(k, f) \<in> set (spec @ extra). \<forall>x. map_of kvs k = Some x \<longrightarrow> f x (l @ ''.'' @ k) = None))"
proof (cases v)
  case (JObj kvs)
  have "first_failure (map (\<lambda>(k, f). case map_of kvs k of None \<Rightarrow> None | Some x \<Rightarrow> f x (l @ ''.'' @ k)) (spec @ extra)) = None \<longleftrightarrow>
      (\<forall>(k, f) \<in> set (spec @ extra). \<forall>x. map_of kvs k = Some x \<longrightarrow> f x (l @ ''.'' @ k) = None)"
    unfolding first_failure_None list_all_iff set_map ball_simps split_def field_check ..
  moreover have "list_all (\<lambda>k. k \<in> set (map fst kvs)) (map fst spec) \<longleftrightarrow> set (map fst spec) \<subseteq> set (map fst kvs)"
    by (auto simp: list_all_iff)
  moreover have "list_all (\<lambda>k. k \<in> set (map fst spec) \<or> k \<in> set (map fst extra)) (map fst kvs) \<longleftrightarrow>
      set (map fst kvs) \<subseteq> set (map fst spec) \<union> set (map fst extra)"
    by (auto simp: list_all_iff)
  ultimately show ?thesis
    unfolding JObj v_object_def json.case Let_def by (simp only: json.inject ex_simps split: if_split) blast
qed (auto simp: v_object_def)

lemma v_objectE:
  assumes "v_object spec extra v l = None"
  obtains kvs where "v = JObj kvs" "set (map fst spec) \<subseteq> set (map fst kvs)"
    "set (map fst kvs) \<subseteq> set (map fst spec) \<union> set (map fst extra)"
    "\<forall>k f x. (k, f) \<in> set (spec @ extra) \<longrightarrow> map_of kvs k = Some x \<longrightarrow> f x (l @ ''.'' @ k) = None"
proof -
  obtain kvs where "v = JObj kvs" "set (map fst spec) \<subseteq> set (map fst kvs)"
    "set (map fst kvs) \<subseteq> set (map fst spec) \<union> set (map fst extra)"
    "\<forall>(k, f) \<in> set (spec @ extra). \<forall>x. map_of kvs k = Some x \<longrightarrow> f x (l @ ''.'' @ k) = None"
    using assms unfolding v_object_None by (elim exE conjE)
  then show thesis by (intro that [of kvs]) blast+
qed

lemma required_field:
  assumes "v_object spec extra v l = None" and "(k, f) \<in> set spec"
  shows "\<exists>x. jget k v = Some x \<and> f x (l @ ''.'' @ k) = None"
proof -
  obtain kvs where v: "v = JObj kvs" and req: "set (map fst spec) \<subseteq> set (map fst kvs)"
    and sub: "set (map fst kvs) \<subseteq> set (map fst spec) \<union> set (map fst extra)"
    and f: "\<forall>k f x. (k, f) \<in> set (spec @ extra) \<longrightarrow> map_of kvs k = Some x \<longrightarrow> f x (l @ ''.'' @ k) = None"
    using assms(1) by (rule v_objectE)
  have "k \<in> set (map fst spec)" using assms(2) by force
  with req have "k \<in> fst ` set kvs" by auto
  then obtain x where x: "map_of kvs k = Some x" by (metis map_of_eq_None_iff not_None_eq)
  have "(k, f) \<in> set (spec @ extra)" using assms(2) by simp
  from f [rule_format, OF this x] x show ?thesis by (simp add: v)
qed

lemma extra_field:
  assumes "v_object spec extra v l = None" and "(k, f) \<in> set extra" and "jget k v = Some x"
  shows "f x (l @ ''.'' @ k) = None"
proof -
  obtain kvs where v: "v = JObj kvs" and req: "set (map fst spec) \<subseteq> set (map fst kvs)"
    and sub: "set (map fst kvs) \<subseteq> set (map fst spec) \<union> set (map fst extra)"
    and f: "\<forall>k f x. (k, f) \<in> set (spec @ extra) \<longrightarrow> map_of kvs k = Some x \<longrightarrow> f x (l @ ''.'' @ k) = None"
    using assms(1) by (rule v_objectE)
  have "(k, f) \<in> set (spec @ extra)" using assms(2) by simp
  from f [rule_format, OF this] show ?thesis using assms(3) by (simp add: v)
qed

section \<open>Validated values have no floats\<close>

text \<open>No object of the value has a key twice, as after \<open>json.loads\<close>.\<close>

definition safe :: "validator \<Rightarrow> bool" where
  "safe f = (\<forall>v l. json_wf v \<longrightarrow> f v l = None \<longrightarrow> float_free v)"

lemma safeI: "(\<And>v l. json_wf v \<Longrightarrow> f v l = None \<Longrightarrow> float_free v) \<Longrightarrow> safe f"
  by (simp add: safe_def)

lemma safeD: "safe f \<Longrightarrow> f v l = None \<Longrightarrow> json_wf v \<Longrightarrow> float_free v"
  by (auto simp: safe_def)

named_theorems safe_rules \<open>validators that accept float-free values only\<close>

lemma safe_basic [safe_rules]:
  "safe (v_pattern r)" "safe (v_int m)" "safe (v_enum vs)" "safe v_bool"
  by (auto intro!: safeI simp: ledger_simps)

lemma safe_exact [safe_rules]: "float_free e \<Longrightarrow> safe (v_exact e)"
  by (auto intro!: safeI simp: ledger_simps)

lemma safe_optional [safe_rules]: "safe f \<Longrightarrow> safe (v_optional f)"
  by (auto intro!: safeI simp: ledger_simps dest: safeD)

lemma safe_list [safe_rules]: "safe f \<Longrightarrow> safe (v_list f n)"
proof (rule safeI)
  fix v l
  assume f: "safe f" and wf: "json_wf v" and "v_list f n v l = None"
  then obtain vs where v: "v = JArr vs"
    and ok: "\<forall>(i, x) \<in> set (enumerate 0 vs). f x (l @ ''['' @ nat_text i @ '']'') = None"
    unfolding v_list_None by blast
  have "float_free x" if x: "x \<in> set vs" for x
  proof -
    from x obtain i where "i < length vs" "vs ! i = x" by (auto simp: in_set_conv_nth)
    then have "(i, x) \<in> set (enumerate 0 vs)" by (auto simp: enumerate_nth)
    then have "f x (l @ ''['' @ nat_text i @ '']'') = None" using ok by blast
    then show ?thesis using f wf x by (auto dest: safeD simp: v list_all_iff)
  qed
  then show "float_free v" by (simp add: v list_all_iff)
qed

lemma object_float_free:
  assumes "v_object spec extra v l = None" and "json_wf v"
    and "\<And>k f x. (k, f) \<in> set (spec @ extra) \<Longrightarrow> jget k v = Some x \<Longrightarrow> f x (l @ ''.'' @ k) = None \<Longrightarrow> json_wf x \<Longrightarrow> float_free x"
  shows "float_free v"
proof -
  obtain kvs where v: "v = JObj kvs" and req: "set (map fst spec) \<subseteq> set (map fst kvs)"
    and sub: "set (map fst kvs) \<subseteq> set (map fst spec) \<union> set (map fst extra)"
    and f: "\<forall>k f x. (k, f) \<in> set (spec @ extra) \<longrightarrow> map_of kvs k = Some x \<longrightarrow> f x (l @ ''.'' @ k) = None"
    using assms(1) by (rule v_objectE)
  have "float_free x" if kx: "(k, x) \<in> set kvs" for k x
  proof -
    have x: "map_of kvs k = Some x" using kx assms(2) by (simp add: v)
    have "k \<in> set (map fst kvs)" using kx by force
    then have "k \<in> set (map fst (spec @ extra))" using sub by auto
    then obtain q where "k = fst q" "q \<in> set (spec @ extra)" unfolding set_map by (rule imageE)
    then have g: "(k, snd q) \<in> set (spec @ extra)" by simp
    have "json_wf x" using kx assms(2) by (auto simp: v list_all_iff)
    then show ?thesis using assms(3) [OF g _ f [rule_format, OF g x]] x by (simp add: v)
  qed
  then show ?thesis by (auto simp: v list_all_iff)
qed

lemma safe_object [safe_rules]: "\<forall>(k, f) \<in> set (spec @ extra). safe f \<Longrightarrow> safe (v_object spec extra)"
proof (rule safeI)
  fix v l assume "\<forall>(k, f) \<in> set (spec @ extra). safe f" "json_wf v" "v_object spec extra v l = None"
  then show "float_free v" by (intro object_float_free [of spec extra v l]) (auto dest: safeD)
qed

lemma safe_scope_path [safe_rules]: "safe scope_path"
  by (rule safeI) (simp add: scope_path_def split: json.splits)

lemma has_keys_object: "has_keys ks v \<Longrightarrow> \<exists>kvs. v = JObj kvs \<and> (\<forall>(k, x) \<in> set kvs. k \<in> set ks)"
  by (cases v) (auto simp: has_keys_def list_all_iff)


lemma jfield_mem: "json_wf (JObj kvs) \<Longrightarrow> (k, x) \<in> set kvs \<Longrightarrow> jfield k (JObj kvs) = x"
  by (simp add: jfield_def)

lemma has_keys_float_free:
  assumes "has_keys ks v" and "json_wf v" and "list_all (\<lambda>k. float_free (jfield k v)) ks"
  shows "float_free v"
proof -
  obtain kvs where v: "v = JObj kvs" and k: "\<forall>(k, x) \<in> set kvs. k \<in> set ks" using has_keys_object [OF assms(1)] by blast
  have "float_free x" if "(k, x) \<in> set kvs" for k x
    using k that assms(3) jfield_mem [OF assms(2) [unfolded v] that] by (auto simp: list_all_iff v)
  then show ?thesis by (auto simp: v list_all_iff)
qed

lemma safe_fallback_model [safe_rules]: "safe fallback_model"
proof (rule safeI)
  fix v l assume wf: "json_wf v" and ok: "fallback_model v l = None"
  then have keys: "has_keys [''requested'', ''requested_listed'', ''observed'', ''provenance''] v"
    by (auto simp: fallback_model_def split: if_splits)
  have "is_slug (jfield ''requested'' v)" "\<exists>b. jfield ''requested_listed'' v = JBool b" "\<exists>p. jfield ''provenance'' v = JStr p"
    "is_slug (jfield ''observed'' v) \<or> jfield ''observed'' v = JNull"
    using ok keys by (auto simp: fallback_model_def Let_def first_failure_None split: json.splits)
  then have "list_all (\<lambda>k. float_free (jfield k v)) [''requested'', ''requested_listed'', ''observed'', ''provenance'']"
    by (auto simp: is_slug_def split: json.splits)
  then show "float_free v" by (rule has_keys_float_free [OF keys wf])
qed

lemma safe_disposition [safe_rules]: "safe disposition"
proof (rule safeI)
  fix v l assume wf: "json_wf v" and ok: "disposition v l = None"
  then consider "has_keys [''family_id''] v" | "has_keys [''new_family''] v" "jget ''family_id'' v = None"
    by (cases "jget ''family_id'' v") (auto simp: disposition_def has_keys_def list_all_iff split: if_splits json.splits)
  then show "float_free v"
  proof cases
    case 1
    then obtain f where f: "jget ''family_id'' v = Some f"
      by (auto simp: has_keys_def list_all_iff jget_def split: json.splits) (metis map_of_eq_None_iff not_Some_eq image_eqI fst_conv)
    with ok 1 have "float_free f" by (auto simp: disposition_def ledger_simps split: if_splits)
    then show ?thesis by (intro has_keys_float_free [OF 1 wf]) (simp add: jfield_def f)
  next
    case 2
    then obtain kvs where v: "v = JObj kvs" by (auto simp: has_keys_def split: json.splits)
    have inner: "v_object [(''title'', v_pattern rx_family_title), (''invariant'', v_pattern rx_family_text)] []
        (jfield ''new_family'' v) (l @ ''.new_family'') = None" using ok 2 by (simp add: disposition_def)
    have "json_wf (jfield ''new_family'' v)"
      using wf by (auto simp: jfield_def v list_all_iff split: option.splits dest: map_of_SomeD)
    moreover have "safe (v_object [(''title'', v_pattern rx_family_title), (''invariant'', v_pattern rx_family_text)] [])"
      by (simp add: safe_rules)
    ultimately have "float_free (jfield ''new_family'' v)" using inner unfolding safe_def by blast
    then show ?thesis by (intro has_keys_float_free [OF 2(1) wf]) simp
  qed
qed

lemma safe_schemas [safe_rules]:
  "safe canary_refusal_schema" "safe artifact_schema" "safe recorded_by_schema" "safe signature_schema"
  "safe failed_schema" "safe completed_schema" "safe published_schema" "safe resume_requested_schema"
  "safe resume_bound_schema" "safe resume_abandoned_schema"
  by (simp_all add: safe_rules canary_refusal_schema_def artifact_schema_def recorded_by_schema_def signature_schema_def
      failed_schema_def completed_schema_def published_schema_def resume_requested_schema_def resume_bound_schema_def
      resume_abandoned_schema_def)

lemma safe_evidence_schemas [safe_rules]:
  "safe authorized_schema" "safe fallback_authorized_schema" "safe result_bound_schema" "safe validated_schema"
  by (simp_all add: safe_rules authorized_schema_def fallback_authorized_schema_def result_bound_schema_def validated_schema_def)

lemma safe_evidence: "map_of EVIDENCE_SCHEMAS state = Some f \<Longrightarrow> safe f"
  by (auto simp: EVIDENCE_SCHEMAS_def safe_rules split: if_splits)

text \<open>The schema that applies to the evidence of a record.\<close>

definition evidence_schema :: "json \<Rightarrow> validator option" where
  "evidence_schema r =
     (let kind = sfield ''kind'' r
      in if kind = ''transition'' then map_of EVIDENCE_SCHEMAS (sfield ''state'' r)
         else if kind = ''resume_requested'' then Some resume_requested_schema
         else if kind = ''resume_bound'' then Some resume_bound_schema else Some resume_abandoned_schema)"

lemma evidence_check_schema:
  assumes "evidence_check r = None"
  shows "\<exists>f l. evidence_schema r = Some f \<and> f (jfield ''evidence'' r) l = None"
  using assms by (auto simp: evidence_check_def evidence_schema_def Let_def split: if_splits option.splits)

lemma evidence_schema_safe: "evidence_schema r = Some f \<Longrightarrow> safe f"
  by (auto simp: evidence_schema_def Let_def safe_rules split: if_splits dest: safe_evidence)

lemma evidence_float_free:
  assumes "evidence_check r = None" and "json_wf (jfield ''evidence'' r)"
  shows "float_free (jfield ''evidence'' r)"
  using evidence_check_schema [OF assms(1)] evidence_schema_safe assms(2) unfolding safe_def by blast

section \<open>A validated record\<close>

lemma validate_record_Inr:
  assumes "validate_record_schema r = Inr r'"
  shows "r' = r" and "v_object record_base [] r ''record'' = None" and "evidence_check r = None"
  using assms by (auto simp: validate_record_schema_def checked_Inr split: if_splits)

lemma record_float_free:
  assumes "validate_record_schema r = Inr r'" and "json_wf r"
  shows "float_free r"
proof (rule object_float_free [OF validate_record_Inr(2) [OF assms(1)] assms(2)])
  fix k f x
  assume k: "(k, f) \<in> set (record_base @ [])" and x: "jget k r = Some x" and f: "f x (''record'' @ ''.'' @ k) = None"
    and wf: "json_wf x"
  have "safe f \<or> k = ''evidence''" using k by (auto simp: record_base_def safe_rules)
  then show "float_free x"
  proof
    assume "k = ''evidence''"
    then have "x = jfield ''evidence'' r" using x by (simp add: jfield_def)
    then show ?thesis using evidence_float_free [OF validate_record_Inr(3) [OF assms(1)]] wf by simp
  qed (use f wf safe_def in blast)
qed

text \<open>The fields of a validated record.\<close>

lemma record_fields:
  assumes "validate_record_schema r = Inr r'"
  shows "\<exists>n \<ge> 0. jget ''record_seq'' r = Some (JInt n)"
    and "jget ''prev_record_sha256'' r = Some JNull \<or> (\<exists>h. jget ''prev_record_sha256'' r = Some (JStr h) \<and> fullmatch rx_sha64 h)"
    and "\<exists>a. jget ''authorization_id'' r = Some (JStr a) \<and> fullmatch rx_authorization_id a"
    and "\<exists>s \<in> set STATES. jget ''state'' r = Some (JStr s)"
    and "\<exists>k \<in> {''transition'', ''resume_requested'', ''resume_bound'', ''resume_abandoned''}. jget ''kind'' r = Some (JStr k)"
    and "\<exists>v l. jget ''recorded_by'' r = Some v \<and> recorded_by_schema v l = None"
    and "\<exists>n \<ge> 1. jget ''repository_id'' r = Some (JInt n)"
    and "\<exists>n \<ge> 1. jget ''issue_number'' r = Some (JInt n)"
    and "\<exists>v. jget ''evidence'' r = Some v"
  using required_field [OF validate_record_Inr(2) [OF assms], of "''record_seq''" "v_int 0"]
    required_field [OF validate_record_Inr(2) [OF assms], of "''prev_record_sha256''" "v_optional SHA64"]
    required_field [OF validate_record_Inr(2) [OF assms], of "''authorization_id''" AUTHORIZATION_ID]
    required_field [OF validate_record_Inr(2) [OF assms], of "''state''" "v_enum STATES"]
    required_field [OF validate_record_Inr(2) [OF assms], of "''kind''"
      "v_enum [''transition'', ''resume_requested'', ''resume_bound'', ''resume_abandoned'']"]
    required_field [OF validate_record_Inr(2) [OF assms], of "''recorded_by''" recorded_by_schema]
    required_field [OF validate_record_Inr(2) [OF assms], of "''repository_id''" POSITIVE]
    required_field [OF validate_record_Inr(2) [OF assms], of "''issue_number''" POSITIVE]
    required_field [OF validate_record_Inr(2) [OF assms], of "''evidence''" "\<lambda>v l. None"]
  by (auto simp: record_base_def ledger_simps)

end
