(* ===== verification/LedgerChain.thy ===== *)
theory LedgerChain
  imports LedgerSchema
begin

text \<open>
  Verification of a ledger (\<open>apply_record\<close> and \<open>verify_chain\<close> of \<open>automation/issue_agent_state.py\<close>): the views a
  verified prefix folds into, the signature check, the bindings of an authorization to its run and of every later state to the evidence
  before it, and the fold itself. Ed25519 is third-party code: its verification is the parameter \<open>verify\<close>, a
  function of the key, the signature and the message; the provenance callback is the parameter \<open>provenance\<close>.
  A record is read back from its canonical text before it is checked, which leaves the same value with the keys of its
  objects in order (\<^const>\<open>json_sorted\<close>).
\<close>

section \<open>Signatures\<close>

definition is_ascii_space :: "char \<Rightarrow> bool" where
  "is_ascii_space c = (let n = of_char c :: nat in n = 32 \<or> 9 \<le> n \<and> n \<le> 13)"

definition hex_value :: "char \<Rightarrow> nat option" where
  "hex_value c = (let n = of_char c :: nat in
     if 48 \<le> n \<and> n \<le> 57 then Some (n - 48)
     else if 97 \<le> n \<and> n \<le> 102 then Some (n - 87)
     else if 65 \<le> n \<and> n \<le> 70 then Some (n - 55) else None)"

text \<open>\<open>bytes.fromhex\<close> (none for \<open>ValueError\<close>) and \<open>bytes.hex\<close>\<close>

fun fromhex :: "string \<Rightarrow> 8 word list option" where
  "fromhex [] = Some []"
| "fromhex [c] = (if is_ascii_space c then Some [] else None)"
| "fromhex (c # d # s) =
     (if is_ascii_space c then fromhex (d # s)
      else case (hex_value c, hex_value d) of
             (Some h, Some l) \<Rightarrow> map_option ((#) (of_nat (16 * h + l))) (fromhex s)
           | _ \<Rightarrow> None)"

definition bytes_hex :: "8 word list \<Rightarrow> string" where
  "bytes_hex bs = concat (map (\<lambda>b. [hex_digit (unat b div 16), hex_digit (unat b mod 16)]) bs)"

definition unsigned_record :: "json \<Rightarrow> json" where
  "unsigned_record r = (case r of JObj kvs \<Rightarrow> JObj (filter (\<lambda>kv. fst kv \<noteq> ''signature'') kvs) | _ \<Rightarrow> r)"

definition signature_prefix :: "string \<Rightarrow> 8 word list" where
  "signature_prefix domain = utf8 (domain @ [CHR 0x00])"

definition signed_bytes :: "string \<Rightarrow> json \<Rightarrow> 8 word list" where
  "signed_bytes domain r = signature_prefix domain @ canonical_json (unsigned_record r)"

text \<open>Signing with a private key is a function of the message; \<open>key_id\<close> is the digest of its public key.\<close>

definition sign_record :: "(8 word list \<Rightarrow> 8 word list) \<Rightarrow> string \<Rightarrow> (string \<times> json) list \<Rightarrow> string \<Rightarrow> json" where
  "sign_record sign key_id payload domain =
     (let body = filter (\<lambda>kv. fst kv \<noteq> ''signature'') payload
      in JObj (body @ [(''signature'', JObj
           [(''alg'', JStr ''ed25519''), (''key_id'', JStr key_id), (''domain'', JStr domain),
            (''value'', JStr (bytes_hex (sign (signature_prefix domain @ canonical_json (JObj body)))))])]))"

definition corrupt :: "string \<Rightarrow> 'a result" where
  "corrupt why = Inl (LedgerCorruptError why)"

text \<open>\<open>if not b: raise LedgerCorruptError(why)\<close>\<close>

definition require :: "bool \<Rightarrow> string \<Rightarrow> 'a result \<Rightarrow> 'a result" where
  "require b why k = (if b then k else corrupt why)"

text \<open>Keys and signature values are text: other values, whose \<open>str\<close> is no digest and no hexadecimal text, are refused.\<close>

definition verify_record_signature ::
  "('k \<Rightarrow> 8 word list \<Rightarrow> 8 word list \<Rightarrow> bool) \<Rightarrow> json \<Rightarrow> (string \<rightharpoonup> 'k) \<Rightarrow> string \<Rightarrow> unit result" where
  "verify_record_signature verify r pinned_keys domain =
     (let signature = jfield ''signature'' r
      in require (is_object signature) ''record is unsigned''
        (require (jget ''domain'' signature = Some (JStr domain)) ''record is signed for another ledger domain''
          (case (case jget ''key_id'' signature of Some (JStr i) \<Rightarrow> pinned_keys i | _ \<Rightarrow> None) of
             None \<Rightarrow> corrupt ''record signer key is not pinned''
           | Some key \<Rightarrow>
               require (case jget ''value'' signature of
                          Some (JStr s) \<Rightarrow> (case fromhex s of Some bs \<Rightarrow> verify key bs (signed_bytes domain r) | None \<Rightarrow> False)
                        | _ \<Rightarrow> False)
                 ''record signature does not verify'' (Inr ()))))"

record 'k trust_roots =
  tr_state_keys :: "string \<rightharpoonup> 'k"
  tr_repository_id :: int

section \<open>Views\<close>

record pending_resume =
  pr_stage :: string
  pr_nonce :: string
  pr_attempt :: int
  pr_dispatched_at :: string
  pr_bound_run_id :: "int option"

record authorization_view =
  av_authorization_id :: string
  av_state :: string
  av_records :: "json list"
  av_evidence :: "string \<rightharpoonup> json"
  av_pending_resume :: "pending_resume option"
  av_resume_attempts :: "string \<Rightarrow> int" \<comment> \<open>\<open>(resume_attempts or {}).get(stage, 0)\<close>\<close>

record ledger_view =
  lv_repository_id :: int
  lv_issue_number :: int
  lv_authorizations :: "string \<rightharpoonup> authorization_view"
  lv_claimed :: "string list"
  lv_active :: "string option"
  lv_head_record_digest :: "string option"
  lv_next_seq :: int

definition empty_view :: "int \<Rightarrow> int \<Rightarrow> ledger_view" where
  "empty_view repository_id issue_number =
     \<lparr>lv_repository_id = repository_id, lv_issue_number = issue_number, lv_authorizations = Map.empty, lv_claimed = [],
      lv_active = None, lv_head_record_digest = None, lv_next_seq = 0\<rparr>"

definition av_terminal :: "authorization_view \<Rightarrow> bool" where
  "av_terminal v = (av_state v \<in> set TERMINAL_STATES)"

text \<open>\<open>view.evidence[state]\<close> and \<open>value[key]\<close>, which raise when the key is missing.\<close>

definition evidence_at :: "authorization_view \<Rightarrow> string \<Rightarrow> json result" where
  "evidence_at v state = (case av_evidence v state of Some e \<Rightarrow> Inr e | None \<Rightarrow> Inl (KeyError state))"

definition getitem :: "json \<Rightarrow> string \<Rightarrow> json result" where
  "getitem v k = (case jget k v of Some x \<Rightarrow> Inr x | None \<Rightarrow> Inl (KeyError k))"

definition binding :: "authorization_view \<Rightarrow> string \<Rightarrow> json result" where
  "binding v k = rbind (evidence_at v AUTHORIZED) (\<lambda>e. getitem e k)"

text \<open>\<open>str\<close> of a scalar\<close>

definition str_of :: "json \<Rightarrow> string" where
  "str_of v = (case v of JStr s \<Rightarrow> s | JInt i \<Rightarrow> int_text i | JBool b \<Rightarrow> if b then ''True'' else ''False''
     | JFloat t \<Rightarrow> t | _ \<Rightarrow> ''None'')"

definition view_execution_id :: "authorization_view \<Rightarrow> string result" where
  "view_execution_id v =
     (case av_evidence v FALLBACK_AUTHORIZED of
        Some admitted \<Rightarrow> rbind (getitem admitted ''fallback_execution_id'') (\<lambda>i. Inr (str_of i))
      | None \<Rightarrow> rbind (binding v ''execution_id'') (\<lambda>i. Inr (str_of i)))"

definition publish_deadline :: "authorization_view \<Rightarrow> string result" where
  "publish_deadline v =
     (case (case av_evidence v RESULT_BOUND of Some e \<Rightarrow> jget ''fallback'' e | None \<Rightarrow> None) of
        Some (JObj (kv # kvs)) \<Rightarrow> rbind (getitem (JObj (kv # kvs)) ''deadline_published_at'') (\<lambda>d. Inr (str_of d))
      | _ \<Rightarrow> rbind (binding v ''deadline_published_at'') (\<lambda>d. Inr (str_of d)))"

definition opt_json :: "('a \<Rightarrow> json) \<Rightarrow> 'a option \<Rightarrow> json" where
  "opt_json f x = (case x of None \<Rightarrow> JNull | Some y \<Rightarrow> f y)"

definition pending_json :: "string \<Rightarrow> pending_resume \<Rightarrow> json" where
  "pending_json authorization_id p = JObj
     [(''authorization_id'', JStr authorization_id), (''stage'', JStr (pr_stage p)), (''nonce'', JStr (pr_nonce p)),
      (''attempt'', JInt (pr_attempt p)), (''dispatched_at'', JStr (pr_dispatched_at p)),
      (''bound_run_id'', opt_json JInt (pr_bound_run_id p))]"

definition ledger_index :: "ledger_view \<Rightarrow> json result" where
  "ledger_index view =
     rbind (case lv_active view of
              None \<Rightarrow> Inr JNull
            | Some a \<Rightarrow> (case lv_authorizations view a of
                None \<Rightarrow> Inl (KeyError a)
              | Some v \<Rightarrow> Inr (opt_json (pending_json a) (av_pending_resume v))))
       (\<lambda>pending. Inr (JObj
          [(''schema_version'', JStr INDEX_SCHEMA_VERSION), (''repository_id'', JInt (lv_repository_id view)),
           (''issue_number'', JInt (lv_issue_number view)), (''claimed_authorization_ids'', JArr (map JStr (lv_claimed view))),
           (''active_authorization_id'', opt_json JStr (lv_active view)), (''pending_resume'', pending)]))"

section \<open>Bindings\<close>

definition ifield :: "string \<Rightarrow> json \<Rightarrow> int" where
  "ifield k v = (case jget k v of Some (JInt i) \<Rightarrow> i | _ \<Rightarrow> 0)"

definition jstrings :: "json \<Rightarrow> string list" where
  "jstrings v = (case v of JArr vs \<Rightarrow> map str_of vs | _ \<Rightarrow> [])"

text \<open>The branch of an authorization: its parent's when it remediates, its own otherwise.\<close>

definition check_branch :: "json \<Rightarrow> ledger_view option \<Rightarrow> unit result" where
  "check_branch r view =
     (let evidence = jfield ''evidence'' r; branch = jfield ''execution_branch'' evidence
      in case jget ''remediation'' evidence of
           Some remediation \<Rightarrow>
             (case Option.bind view (\<lambda>w. lv_authorizations w (sfield ''parent_authorization_id'' remediation)) of
                None \<Rightarrow> corrupt ''a remediation's parent is not a completed authorization of this Issue''
              | Some parent \<Rightarrow>
                  require (av_state parent = COMPLETED) ''a remediation's parent is not a completed authorization of this Issue''
                    (rbind (binding parent ''execution_branch'') (\<lambda>b.
                      require (branch = b) ''a remediation runs only on its parent authorization's branch''
                        (require (jfield ''base_sha'' evidence = jfield ''bound_head_sha'' remediation)
                            ''a remediation's base is not the exact PR head it remediates''
                          (let ids = jstrings (jfield ''finding_ids'' remediation)
                           in require (ids \<noteq> [] \<and> ids = sorted_text ids) ''a remediation names its findings, sorted'' (Inr ()))))))
         | None \<Rightarrow>
             rbind (authorization_digest (sfield ''authorization_id'' r)) (\<lambda>d.
               require (branch = JStr (''issue-'' @ int_text (ifield ''issue_number'' r) @ ''-'' @ take 16 d))
                 ''execution branch is not derived from the Issue and authorization identity'' (Inr ())))"

definition check_fallback_offer :: "json \<Rightarrow> unit result" where
  "check_fallback_offer r =
     (let evidence = jfield ''evidence'' r; fallback = jget ''fallback'' evidence
      in require (\<not> (jget ''fallback_canary'' evidence \<noteq> None \<and> fallback = None))
           ''a fallback canary was armed for an authorization that bound no fallback''
           (case fallback of
              None \<Rightarrow> Inr ()
            | Some f \<Rightarrow>
                rbind (execution_identity (sfield ''authorization_id'' r) (ifield ''authorize_run_id'' evidence)
                    (sfield ''control_sha'' evidence) (sfield ''handoff_sha256'' (jfield ''lineage'' evidence)) 2) (\<lambda>e.
                let primary = jfield ''handoff_artifact'' evidence; second = jfield ''handoff_artifact'' f
                in require (jfield ''execution_id'' f = JStr e)
                     ''fallback execution identity does not derive from the bound run and handoff''
                     (require (jfield ''recipient_key_id'' second \<noteq> jfield ''recipient_key_id'' primary)
                       ''the fallback handoff is not sealed to a distinct recipient''
                       (require (jfield ''run_id'' second = jfield ''run_id'' primary \<and>
                                 jfield ''artifact_id'' second \<noteq> jfield ''artifact_id'' primary)
                         ''the fallback handoff is not a distinct artifact of the authorize run'' (Inr ()))))))"

definition check_authorized_bindings :: "json \<Rightarrow> ledger_view option \<Rightarrow> unit result" where
  "check_authorized_bindings r view =
     (let evidence = jfield ''evidence'' r; writer = jfield ''recorded_by'' r
      in rbind (check_branch r view) (\<lambda>u.
         require (jfield ''base_sha'' evidence = jfield ''base_sha'' (jfield ''task_scope'' evidence))
           ''bound base differs from the signed TaskScope base''
           (require (jfield ''run_id'' writer = jfield ''authorize_run_id'' evidence \<and> jfield ''run_attempt'' writer = JInt 1)
             ''AUTHORIZED is not bound to attempt 1 of its own authorize run''
             (require (jfield ''head_sha'' writer = jfield ''control_sha'' evidence)
               ''AUTHORIZED was not written by the bound control commit''
               (rbind (execution_identity (sfield ''authorization_id'' r) (ifield ''authorize_run_id'' evidence)
                    (sfield ''control_sha'' evidence) (sfield ''handoff_sha256'' (jfield ''lineage'' evidence)) 1) (\<lambda>expected.
                require (jfield ''execution_id'' evidence = JStr expected)
                  ''execution identity does not derive from the bound run and handoff'' (check_fallback_offer r)))))))"


text \<open>The evidence of a new state against the evidence before it.\<close>

definition check_fallback_admission :: "authorization_view \<Rightarrow> json \<Rightarrow> unit result" where
  "check_fallback_admission view evidence =
     rbind (evidence_at view AUTHORIZED) (\<lambda>bound.
       case jget ''fallback'' bound of
         None \<Rightarrow> corrupt ''a fallback was admitted for an authorization that bound none''
       | Some offered \<Rightarrow>
           require (jfield ''fallback_execution_id'' evidence = jfield ''execution_id'' offered)
             ''admitted fallback identity is not the bound fallback identity''
             (let cause = jfield ''primary_cause'' evidence; stderr = jfield ''stderr_category'' evidence;
                  probe = jfield ''probe_category'' evidence; refusal = (jget ''canary_refusal'' evidence \<noteq> None)
              in if jget ''fallback_canary'' bound = Some (JBool True)
                 then require (cause = JStr CANARY_FALLBACK_CAUSE \<and> stderr = probe \<and> probe = JStr ''NETWORK'' \<and> refusal)
                        ''a canary authorization admitted something other than its armed canary'' (Inr ())
                 else require (\<not> (cause = JStr CANARY_FALLBACK_CAUSE \<or> refusal))
                        ''a canary cause was admitted without the signed canary flag''
                        (require (cause = stderr \<and> stderr = probe)
                          ''a fallback cause is not agreed by the untrusted hint and the trusted probe'' (Inr ()))))"

definition check_publication :: "authorization_view \<Rightarrow> json \<Rightarrow> unit result" where
  "check_publication view r =
     rbind (evidence_at view AUTHORIZED) (\<lambda>bound.
     rbind (evidence_at view VALIDATED) (\<lambda>validated.
     rbind (view_execution_id view) (\<lambda>execution_id.
       require (jfield ''publication_identity'' (jfield ''evidence'' r) = JStr (publication_identity
           \<lparr>pb_repository_id = ifield ''repository_id'' r, pb_issue_number = ifield ''issue_number'' r,
            pb_authorization_id = av_authorization_id view, pb_base_sha = sfield ''base_sha'' bound,
            pb_task_scope_sha256 = sfield ''task_scope_sha256'' bound, pb_execution_id = execution_id,
            pb_result_sha256 = sfield ''result_sha256'' validated, pb_tree_sha = sfield ''tree_sha'' validated,
            pb_unsigned_commit_sha = sfield ''unsigned_commit_sha'' validated,
            pb_control_sha = sfield ''control_sha'' bound,
            pb_writer_login = sfield ''writer_login'' (jfield ''evidence'' r)\<rparr>))
         ''publication identity does not derive from the bound evidence'' (Inr ()))))"

definition check_cross_bindings :: "authorization_view \<Rightarrow> json \<Rightarrow> unit result" where
  "check_cross_bindings view r =
     (let state = sfield ''state'' r; evidence = jfield ''evidence'' r
      in if state = FALLBACK_AUTHORIZED then check_fallback_admission view evidence
         else if state = RESULT_BOUND
         then require ((av_state view = FALLBACK_AUTHORIZED) = (jget ''fallback'' evidence \<noteq> None))
                ''a bound result does not match the execution attempt it left'' (Inr ())
         else if state = PUBLISHED then check_publication view r
         else if state = VALIDATED
         then rbind (evidence_at view RESULT_BOUND) (\<lambda>bound.
                require (jfield ''result_sha256'' evidence = jfield ''result_plaintext_sha256'' bound)
                  ''validated result digest is not the bound result'' (Inr ()))
         else if state = COMPLETED
         then rbind (evidence_at view PUBLISHED) (\<lambda>published.
                require (jfield ''pull_request_head_sha'' evidence = jfield ''head_sha'' published)
                  ''completed pull request is not at the published head'' (Inr ()))
         else Inr ())"

section \<open>The fold\<close>

definition legal_targets :: "string option \<Rightarrow> string list" where
  "legal_targets previous = (case map_of LEGAL_TRANSITIONS previous of Some ts \<Rightarrow> ts | None \<Rightarrow> [])"

definition writers_of :: "string \<Rightarrow> string list" where
  "writers_of state = (case map_of WRITER_ROLES state of Some rs \<Rightarrow> rs | None \<Rightarrow> [])"

definition writer_role :: "json \<Rightarrow> string" where
  "writer_role r = sfield ''role'' (jfield ''recorded_by'' r)"

definition set_authorization :: "string \<Rightarrow> authorization_view \<Rightarrow> ledger_view \<Rightarrow> ledger_view" where
  "set_authorization a v view = view\<lparr>lv_authorizations := (lv_authorizations view)(a \<mapsto> v)\<rparr>"

definition apply_transition :: "ledger_view \<Rightarrow> json \<Rightarrow> ledger_view result" where
  "apply_transition view r =
     (let a = sfield ''authorization_id'' r; state = sfield ''state'' r; role = writer_role r; evidence = jfield ''evidence'' r;
          current = lv_authorizations view a; previous = map_option av_state current
      in require (state \<in> set (legal_targets previous))
           (''illegal transition '' @ (case previous of None \<Rightarrow> ''None'' | Some s \<Rightarrow> s) @ '' -> '' @ state)
           (require (role \<in> set (writers_of state)) (''role '' @ role @ '' may not write '' @ state)
             (if state = AUTHORIZED
              then require (a \<notin> set (lv_claimed view)) ''authorization replayed''
                     (require (lv_active view = None) ''a second authorization became active for one Issue''
                       (rbind (check_authorized_bindings r (Some view)) (\<lambda>u.
                         Inr (set_authorization a
                           \<lparr>av_authorization_id = a, av_state = state, av_records = [], av_evidence = [state \<mapsto> evidence],
                            av_pending_resume = None, av_resume_attempts = \<lambda>stage. 0\<rparr>
                           (view\<lparr>lv_claimed := lv_claimed view @ [a], lv_active := Some a\<rparr>)))))
              else case current of
                     None \<Rightarrow> Inl (AssertionError '''')
                   | Some v \<Rightarrow>
                       require (\<not> (state = FAILED \<and> jfield ''failed_from_state'' evidence \<noteq> JStr (av_state v)))
                         ''failure does not name the state it left''
                         (rbind (if state \<noteq> FAILED then check_cross_bindings v r else Inr ()) (\<lambda>u.
                           Inr (set_authorization a
                             (v\<lparr>av_state := state, av_pending_resume := None, av_evidence := (av_evidence v)(state \<mapsto> evidence)\<rparr>)
                             (if state \<in> set TERMINAL_STATES then view\<lparr>lv_active := None\<rparr> else view)))))))"

definition apply_resume_requested :: "authorization_view \<Rightarrow> json \<Rightarrow> authorization_view result" where
  "apply_resume_requested v evidence =
     (let stage = sfield ''stage'' evidence; attempt = ifield ''attempt'' evidence
      in case map_of RESUME_STAGES stage of
           None \<Rightarrow> Inl (KeyError stage)
         | Some (stage_state, cap) \<Rightarrow>
             let attempts = av_resume_attempts v stage + 1
             in require (av_state v = stage_state \<and> av_pending_resume v = None)
                  ''resume requested outside its stage or while one is pending''
                  (require (attempt = attempts \<and> (case cap of None \<Rightarrow> True | Some n \<Rightarrow> attempts \<le> int n - 1))
                    ''resume attempt is not the next attempt within the cap''
                    (Inr (v\<lparr>av_resume_attempts := (av_resume_attempts v)(stage := attempts),
                        av_pending_resume := Some \<lparr>pr_stage = stage, pr_nonce = sfield ''nonce'' evidence, pr_attempt = attempt,
                          pr_dispatched_at = sfield ''dispatched_at'' evidence, pr_bound_run_id = None\<rparr>\<rparr>))))"

definition apply_resume_abandoned :: "authorization_view \<Rightarrow> json \<Rightarrow> authorization_view result" where
  "apply_resume_abandoned v evidence =
     require (case av_pending_resume v of None \<Rightarrow> False | Some p \<Rightarrow> pr_nonce p = sfield ''nonce'' evidence)
       ''resume abandonment does not name the pending nonce'' (Inr (v\<lparr>av_pending_resume := None\<rparr>))"

definition apply_resume_bound :: "authorization_view \<Rightarrow> json \<Rightarrow> authorization_view result" where
  "apply_resume_bound v r =
     (let evidence = jfield ''evidence'' r; run = ifield ''run_id'' evidence
      in case av_pending_resume v of
           None \<Rightarrow> corrupt ''resume bind does not match one unbound pending nonce''
         | Some p \<Rightarrow>
             require (pr_nonce p = sfield ''nonce'' evidence \<and> pr_bound_run_id p = None)
               ''resume bind does not match one unbound pending nonce''
               (require (jfield ''run_id'' evidence = jfield ''run_id'' (jfield ''recorded_by'' r))
                 ''resume bound by a different run''
                 (Inr (v\<lparr>av_pending_resume := Some (p\<lparr>pr_bound_run_id := Some run\<rparr>)\<rparr>))))"

definition apply_resume :: "ledger_view \<Rightarrow> json \<Rightarrow> ledger_view result" where
  "apply_resume view r =
     (let a = sfield ''authorization_id'' r; kind = sfield ''kind'' r; evidence = jfield ''evidence'' r
      in case lv_authorizations view a of
           None \<Rightarrow> corrupt ''resume record for an inactive authorization''
         | Some v \<Rightarrow>
             require (\<not> av_terminal v \<and> lv_active view = Some a) ''resume record for an inactive authorization''
               (require (writer_role r \<in> set RESUME_ROLES \<and> sfield ''state'' r = av_state v)
                 ''resume record does not match the current state or role''
                 (rbind (if kind = ''resume_requested'' then apply_resume_requested v evidence
                         else if kind = ''resume_abandoned'' then apply_resume_abandoned v evidence
                         else apply_resume_bound v r)
                   (\<lambda>v'. Inr (set_authorization a v' view)))))"

text \<open>The record joins its authorization and becomes the head of the chain.\<close>

definition record_applied :: "json \<Rightarrow> ledger_view \<Rightarrow> ledger_view" where
  "record_applied r view =
     (let a = sfield ''authorization_id'' r
      in view\<lparr>lv_authorizations := (lv_authorizations view)
               (a := map_option (\<lambda>v. v\<lparr>av_records := av_records v @ [r]\<rparr>) (lv_authorizations view a)),
              lv_head_record_digest := Some (record_digest r), lv_next_seq := lv_next_seq view + 1\<rparr>)"

definition check_index :: "(string \<times> json) list option \<Rightarrow> ledger_view \<Rightarrow> ledger_view result" where
  "check_index index view =
     (case index of
        None \<Rightarrow> Inr view
      | Some kvs \<Rightarrow>
          rbind (validate_index_schema (JObj kvs)) (\<lambda>stored.
          rbind (ledger_index view) (\<lambda>derived.
            require (canonical_json stored = canonical_json derived) ''stored index differs from the verified chain'' (Inr view))))"

definition apply_validated ::
  "('k \<Rightarrow> 8 word list \<Rightarrow> 8 word list \<Rightarrow> bool) \<Rightarrow> 'k trust_roots \<Rightarrow> (json \<Rightarrow> json \<Rightarrow> bool) \<Rightarrow> ledger_view \<Rightarrow> json \<Rightarrow>
   ledger_view result" where
  "apply_validated verify trust provenance view r =
     rbind (verify_record_signature verify r (tr_state_keys trust) STATE_SIGNATURE_DOMAIN) (\<lambda>u.
       require (jfield ''record_seq'' r = JInt (lv_next_seq view)) ''record sequence is not contiguous''
         (require (jfield ''prev_record_sha256'' r = opt_json JStr (lv_head_record_digest view))
             ''record does not chain to the previous record''
           (require (ifield ''repository_id'' r = lv_repository_id view \<and> ifield ''issue_number'' r = lv_issue_number view)
               ''record binds a different repository or Issue''
             (require (ifield ''repository_id'' r = tr_repository_id trust) ''record binds a foreign repository''
               (require (provenance (jfield ''recorded_by'' r) r) ''record was not written by a trusted lifecycle run''
                 (rbind (if sfield ''kind'' r = ''transition'' then apply_transition view r else apply_resume view r)
                   (\<lambda>view'. Inr (record_applied r view'))))))))"

text \<open>\<open>json.loads\<close> accepts \<open>NaN\<close> and \<open>Infinity\<close>, \<open>canonical_json\<close> (with \<open>allow_nan=False\<close>) raises \<open>ValueError\<close> for them.\<close>

fun json_encodes :: "json \<Rightarrow> bool" where
  "json_encodes (JFloat t) = (t \<notin> {''nan'', ''inf'', ''-inf''})"
| "json_encodes (JArr vs) = (\<forall>v \<in> set vs. json_encodes v)"
| "json_encodes (JObj kvs) = (\<forall>kv \<in> set kvs. json_encodes (snd kv))"
| "json_encodes v = True"

lemma json_encodes_sorted [simp]: "json_encodes (json_sorted v) = json_encodes v"
  by (induction v rule: json_sorted.induct) auto

definition apply_record ::
  "('k \<Rightarrow> 8 word list \<Rightarrow> 8 word list \<Rightarrow> bool) \<Rightarrow> 'k trust_roots \<Rightarrow> (json \<Rightarrow> json \<Rightarrow> bool) \<Rightarrow> ledger_view \<Rightarrow> json \<Rightarrow>
   (string \<times> json) list option \<Rightarrow> ledger_view result" where
  "apply_record verify trust provenance view r index =
     (if \<not> json_encodes r then Inl (ValueError ''Out of range float values are not JSON compliant'')
      else (case validate_record_schema (json_sorted r) of
        Inl (LedgerSchemaError why) \<Rightarrow> corrupt (''schema: '' @ why)
      | Inl e \<Rightarrow> Inl e
      | Inr r' \<Rightarrow> rbind (apply_validated verify trust provenance view r') (check_index index)))"

fun verify_from ::
  "('k \<Rightarrow> 8 word list \<Rightarrow> 8 word list \<Rightarrow> bool) \<Rightarrow> 'k trust_roots \<Rightarrow> (json \<Rightarrow> json \<Rightarrow> bool) \<Rightarrow> ledger_view \<Rightarrow>
   (json \<times> (string \<times> json) list option) list \<Rightarrow> ledger_view result" where
  "verify_from verify trust provenance view [] = Inr view"
| "verify_from verify trust provenance view ((r, index) # entries) =
     rbind (apply_record verify trust provenance view r index) (\<lambda>view'. verify_from verify trust provenance view' entries)"

text \<open>Each record comes with the stored index of its commit, or without one.\<close>

definition verify_chain ::
  "('k \<Rightarrow> 8 word list \<Rightarrow> 8 word list \<Rightarrow> bool) \<Rightarrow> 'k trust_roots \<Rightarrow> (json \<Rightarrow> json \<Rightarrow> bool) \<Rightarrow> int \<Rightarrow> int \<Rightarrow>
   (json \<times> (string \<times> json) list option) list \<Rightarrow> ledger_view result" where
  "verify_chain verify trust provenance repository_id issue_number entries =
     verify_from verify trust provenance (empty_view repository_id issue_number) entries"

end
