(* ===== verification/LedgerAdvance.thy ===== *)
theory LedgerAdvance
  imports LedgerChain PyCalendar
begin

text \<open>
  The decision function of the control plane (\<open>advance\<close> of \<open>automation/issue_agent_state.py\<close> and
  \<open>permit_codex_fallback\<close> of \<open>automation/issue_agent_fallback_policy.py\<close>): from the view of one
  authorization and what was observed of its runs, artifacts and branches it decides at most one step. An observation that could not be
  made is \<open>UNKNOWN\<close>. Every lookup in the evidence and every time that is read may raise, so each decision is a result.
\<close>

section \<open>Observations and decisions\<close>

datatype 'a fact = UNKNOWN | Known (known: 'a)

record artifact_fact =
  af_artifact_id :: int
  af_name :: string
  af_digest :: string
  af_size :: int
  af_expired :: bool

type_synonym mapping = "(string \<times> json) list"

record facts =
  fa_stage_run_active :: "bool fact"
  fa_executor_conclusion :: "string option fact"
  fa_executor_advisory_code :: "string option"
  fa_executor_stderr_category :: "string option"
  fa_executor_probe_category :: "string option"
  fa_executor_canary_refusal :: "mapping option"
  fa_result_artifacts :: "artifact_fact list fact"
  fa_receipt :: "mapping option fact"
  fa_remote_branch_head :: "string option fact"
  fa_remote_head_conforms :: "bool fact"
  fa_open_draft_pr :: "mapping option fact"
  fa_preflight_conclusion :: "string option fact"
  fa_resume_run_status :: "string option fact"
  fa_publication_refusal_code :: "string option"
  fa_now :: string

definition no_facts :: facts where
  "no_facts =
     \<lparr>fa_stage_run_active = UNKNOWN, fa_executor_conclusion = UNKNOWN, fa_executor_advisory_code = None,
      fa_executor_stderr_category = None, fa_executor_probe_category = None, fa_executor_canary_refusal = None,
      fa_result_artifacts = UNKNOWN, fa_receipt = UNKNOWN, fa_remote_branch_head = UNKNOWN, fa_remote_head_conforms = UNKNOWN,
      fa_open_draft_pr = UNKNOWN, fa_preflight_conclusion = UNKNOWN, fa_resume_run_status = UNKNOWN,
      fa_publication_refusal_code = None, fa_now = ''1970-01-01T00:00:00Z''\<rparr>"

record step_decision =
  de_action :: string
  de_target_state :: "string option"
  de_code :: "string option"
  de_stage :: "string option"
  de_reason :: string
  de_evidence_hint :: "mapping option"

text \<open>The calls of the \<open>Decision\<close> constructor, by the arguments they give.\<close>

definition decide :: "string \<Rightarrow> string option \<Rightarrow> string option \<Rightarrow> string option \<Rightarrow> string \<Rightarrow> step_decision" where
  "decide action target code stage reason =
     \<lparr>de_action = action, de_target_state = target, de_code = code, de_stage = stage, de_reason = reason, de_evidence_hint = None\<rparr>"

abbreviation noop :: "string \<Rightarrow> step_decision result" where
  "noop reason \<equiv> Inr (decide ''noop'' None None None reason)"

abbreviation fail :: "string \<Rightarrow> string \<Rightarrow> step_decision result" where
  "fail code reason \<equiv> Inr (decide ''fail'' None (Some code) None reason)"

abbreviation freeze :: "string \<Rightarrow> string \<Rightarrow> step_decision result" where
  "freeze code reason \<equiv> Inr (decide ''freeze'' None (Some code) None reason)"

abbreviation transition :: "string \<Rightarrow> mapping option \<Rightarrow> step_decision result" where
  "transition target hint \<equiv> Inr ((decide ''transition'' (Some target) None None '''')\<lparr>de_evidence_hint := hint\<rparr>)"

abbreviation on_stage :: "string \<Rightarrow> string \<Rightarrow> string \<Rightarrow> step_decision result" where
  "on_stage action stage reason \<equiv> Inr (decide action None None (Some stage) reason)"

section \<open>Times\<close>

definition RESUME_DISPATCH_GRACE_SECONDS :: int where
  "RESUME_DISPATCH_GRACE_SECONDS = 600"

text \<open>\<open>fromisoformat\<close> takes a fraction of one to six digits; the reader of this development takes six.\<close>

definition six_digits :: "string \<Rightarrow> string" where
  "six_digits s = (if length s \<le> 19 then s else s @ replicate (26 - length s) (CHR ''0''))"

definition instant_of :: "string \<Rightarrow> pydatetime result" where
  "instant_of s =
     (if fullmatch rx_timestamp s then fromisoformat (six_digits (butlast s) @ ''+00:00'')
      else Inl (LedgerSchemaError ''malformed UTC timestamp''))"

definition deadline_passed :: "string \<Rightarrow> string \<Rightarrow> bool result" where
  "deadline_passed deadline now =
     rbind (instant_of now) (\<lambda>n. rbind (instant_of deadline) (\<lambda>d. Inr (instant d \<le> instant n)))"

text \<open>\<open>(_instant(now) - _instant(dispatched_at)).total_seconds() < RESUME_DISPATCH_GRACE_SECONDS\<close>\<close>

definition within_grace :: "string \<Rightarrow> string \<Rightarrow> bool result" where
  "within_grace now dispatched_at =
     rbind (instant_of now) (\<lambda>n. rbind (instant_of dispatched_at) (\<lambda>d.
       Inr (instant n - instant d < 1000000 * RESUME_DISPATCH_GRACE_SECONDS)))"

section \<open>Fallback policy\<close>

definition RECOVERABLE_PROVIDER_FAILURES :: "string list" where
  "RECOVERABLE_PROVIDER_FAILURES = [''RATE_LIMIT'', ''QUOTA_EXCEEDED'', ''NETWORK'']"

record fallback_evidence =
  fe_primary :: string
  fe_secondary :: string
  fe_stderr_category :: string
  fe_probe_category :: string
  fe_primary_result_artifacts :: nat
  fe_authorization_valid :: bool
  fe_proof_published :: bool
  fe_isolation_verified :: bool
  fe_workspace_exclusive :: bool
  fe_attempts_started :: nat

definition permit_codex_fallback :: "fallback_evidence \<Rightarrow> bool" where
  "permit_codex_fallback e =
     (fe_primary e = ''kilo'' \<and> fe_secondary e = ''codex'' \<and>
      fe_probe_category e \<in> set RECOVERABLE_PROVIDER_FAILURES \<and> fe_stderr_category e = fe_probe_category e \<and>
      fe_primary_result_artifacts e = 0 \<and> fe_authorization_valid e \<and> \<not> fe_proof_published e \<and>
      fe_isolation_verified e \<and> fe_workspace_exclusive e \<and> fe_attempts_started e = 1)"

definition canary_refusal_conforms :: "mapping option \<Rightarrow> bool result" where
  "canary_refusal_conforms refusal =
     (case refusal of
        None \<Rightarrow> Inr False
      | Some kvs \<Rightarrow> (case canary_refusal_schema (JObj kvs) ''canary_refusal'' of
          None \<Rightarrow> Inr True
        | Some (LedgerSchemaError why) \<Rightarrow> Inr False
        | Some e \<Rightarrow> Inl e))"

text \<open>\<open>value.get(key) is None\<close>\<close>

definition absent :: "json option \<Rightarrow> bool" where
  "absent v = (v = None \<or> v = Some JNull)"

definition text_value :: "json \<Rightarrow> string result" where
  "text_value v = (case v of JStr s \<Rightarrow> Inr s | _ \<Rightarrow> Inl (TypeError ''expected string or bytes-like object''))"

definition str_opt :: "string option \<Rightarrow> string" where
  "str_opt s = (case s of None \<Rightarrow> ''None'' | Some t \<Rightarrow> t)"

definition is_signal :: "string option \<Rightarrow> bool" where
  "is_signal c = (case c of None \<Rightarrow> False | Some s \<Rightarrow> s \<in> set FALLBACK_SIGNAL_CATEGORIES)"

definition fallback_admissible :: "authorization_view \<Rightarrow> facts \<Rightarrow> nat \<Rightarrow> bool result" where
  "fallback_admissible view facts primary_result_artifacts =
     rbind (evidence_at view AUTHORIZED) (\<lambda>bound.
     if absent (jget ''fallback'' bound) \<or> av_evidence view FALLBACK_AUTHORIZED \<noteq> None then Inr False
     else
       rbind (binding view ''deadline_published_at'') (\<lambda>d. rbind (text_value d) (\<lambda>deadline.
       rbind (deadline_passed deadline (fa_now facts)) (\<lambda>passed.
       let stderr = fa_executor_stderr_category facts; probe = fa_executor_probe_category facts
       in if passed \<or> \<not> is_signal stderr \<or> \<not> is_signal probe then Inr False
          else
            rbind (if jget ''fallback_canary'' bound = Some (JBool True)
                   then if stderr = probe \<and> probe = Some ''NETWORK''
                        then canary_refusal_conforms (fa_executor_canary_refusal facts) else Inr False
                   else Inr True) (\<lambda>armed.
            Inr (armed \<and> permit_codex_fallback
              \<lparr>fe_primary = ''kilo'', fe_secondary = ''codex'', fe_stderr_category = str_opt stderr, fe_probe_category = str_opt probe,
               fe_primary_result_artifacts = primary_result_artifacts,
               fe_authorization_valid = (av_state view = AUTHORIZED \<and> \<not> av_terminal view), fe_proof_published = False,
               fe_isolation_verified = (probe \<noteq> None), fe_workspace_exclusive = True, fe_attempts_started = 1\<rparr>))))))"

section \<open>Decisions shared by the states\<close>

definition executor_failure :: "facts \<Rightarrow> step_decision result" where
  "executor_failure facts =
     fail (case map_of [(''SECRET_IN_RESULT'', ''SECRET_IN_RESULT''), (''MODEL_TIMEOUT'', ''EXECUTOR_RESULT_TIMEOUT'')]
             (str_opt (fa_executor_advisory_code facts)) of Some c \<Rightarrow> c | None \<Rightarrow> ''EXECUTION_NOT_COMPLETED'') ''''"

definition terminal_refusal :: "json option \<Rightarrow> string list \<Rightarrow> string result" where
  "terminal_refusal code allowed =
     (case code of
        Some (JStr c) \<Rightarrow>
          (if c \<in> set allowed then Inr c
           else Inl (LedgerSchemaError ''stage refusal code is outside the stage's closed vocabulary''))
      | _ \<Rightarrow> Inl (LedgerSchemaError ''stage refusal code is outside the stage's closed vocabulary''))"

text \<open>A pending run that no workflow run carries: within the grace period nothing is done, then it is dispatched again.\<close>

definition unobserved_dispatch :: "pending_resume \<Rightarrow> facts \<Rightarrow> string \<Rightarrow> string \<Rightarrow> string \<Rightarrow> step_decision result" where
  "unobserved_dispatch p facts stage waiting again =
     rbind (within_grace (fa_now facts) (pr_dispatched_at p)) (\<lambda>grace.
       if grace then noop waiting else on_stage ''redispatch'' stage again)"

definition resume_or_fail :: "authorization_view \<Rightarrow> string \<Rightarrow> facts \<Rightarrow> string \<Rightarrow> step_decision result" where
  "resume_or_fail view stage facts exhausted_code =
     (case fa_result_artifacts facts of
        UNKNOWN \<Rightarrow> noop ''transport facts unknown''
      | Known result_artifacts \<Rightarrow>
          rbind (evidence_at view RESULT_BOUND) (\<lambda>evidence.
          rbind (getitem evidence ''result_artifact'') (\<lambda>artifact.
          rbind (getitem artifact ''artifact_id'') (\<lambda>bound_id.
            case filter (\<lambda>a. JInt (af_artifact_id a) = bound_id) result_artifacts of
              [] \<Rightarrow> fail ''RESULT_TRANSPORT_EXPIRED'' ''''
            | first # others \<Rightarrow>
                if af_expired first then fail ''RESULT_TRANSPORT_EXPIRED'' ''''
                else (case map_of RESUME_STAGES stage of
                  None \<Rightarrow> Inl (KeyError stage)
                | Some (stage_state, cap) \<Rightarrow>
                    (case av_pending_resume view of
                       Some p \<Rightarrow>
                         if fa_resume_run_status facts = UNKNOWN \<or> fa_resume_run_status facts = Known (Some ''active'')
                         then noop ''pending resume run unknown or still active''
                         else if fa_resume_run_status facts = Known (Some ''concluded'')
                         then on_stage ''abandon_resume'' stage ''run_concluded_without_output''
                         else if pr_bound_run_id p \<noteq> None then noop ''bound resume run not observable yet''
                         else unobserved_dispatch p facts stage ''resume dispatch within its grace period''
                                ''dispatch produced no run; same nonce, no attempt consumed''
                     | None \<Rightarrow>
                         (case cap of
                            None \<Rightarrow> Inl (TypeError ''int >= None'')
                          | Some n \<Rightarrow>
                              if av_resume_attempts view stage + 1 \<ge> int n then fail exhausted_code ''''
                              else on_stage ''resume'' stage '''')))))))"

text \<open>The artifacts of a given name; the name is only computed when there is an artifact to compare it with.\<close>

definition named_artifacts :: "string result \<Rightarrow> artifact_fact list \<Rightarrow> artifact_fact list result" where
  "named_artifacts name artifacts =
     (if artifacts = [] then Inr [] else rbind name (\<lambda>n. Inr (filter (\<lambda>a. af_name a = n) artifacts)))"

definition bind_artifact :: "artifact_fact \<Rightarrow> step_decision result" where
  "bind_artifact a =
     (if af_expired a then fail ''RESULT_TRANSPORT_EXPIRED'' ''''
      else transition RESULT_BOUND (Some [(''artifact_id'', JInt (af_artifact_id a))]))"

definition not_started :: "string option \<Rightarrow> bool" where
  "not_started conclusion = (conclusion = None \<or> conclusion = Some ''skipped'')"

section \<open>One step\<close>

definition fallback_decision :: "authorization_view \<Rightarrow> facts \<Rightarrow> step_decision result" where
  "fallback_decision view facts =
     (case av_pending_resume view of
        None \<Rightarrow> noop ''fallback awaits the owner's explicit approval or rejection''
      | Some p \<Rightarrow>
          if fa_resume_run_status facts = UNKNOWN \<or> fa_resume_run_status facts = Known (Some ''active'')
          then noop ''owner-approved fallback run unknown or still active''
          else if pr_bound_run_id p = None
          then if fa_resume_run_status facts = Known (Some ''concluded'')
               then on_stage ''abandon_resume'' ''fallback'' ''run_concluded_without_output''
               else unobserved_dispatch p facts ''fallback'' ''fallback dispatch within its grace period''
                      ''dispatch produced no run; same nonce''
          else (case (fa_result_artifacts facts, fa_executor_conclusion facts) of
            (Known artifacts, Known conclusion) \<Rightarrow>
              rbind (named_artifacts (result_artifact_name (av_authorization_id view)) artifacts) (\<lambda>primary.
              rbind (named_artifacts (fallback_result_artifact_name (av_authorization_id view)) artifacts) (\<lambda>second.
                if primary \<noteq> [] \<or> length second > 1
                then fail ''TRANSPORT_INTEGRITY_FAILED'' ''a result other than one fallback result''
                else case second of
                       a # as \<Rightarrow> bind_artifact a
                     | [] \<Rightarrow>
                         if fa_executor_advisory_code facts = Some ''FALLBACK_SESSION_NOT_STARTED'' \<or> not_started conclusion
                         then on_stage ''abandon_resume'' ''fallback'' ''run_concluded_without_output''
                         else executor_failure facts))
          | _ \<Rightarrow> noop ''fallback executor facts unknown''))"

definition fallback_cause :: "json \<Rightarrow> facts \<Rightarrow> json" where
  "fallback_cause bound facts =
     (if jget ''fallback_canary'' bound = Some (JBool True) then JStr CANARY_FALLBACK_CAUSE
      else opt_json JStr (fa_executor_probe_category facts))"

definition advance_authorized :: "authorization_view \<Rightarrow> facts \<Rightarrow> step_decision result" where
  "advance_authorized view facts =
     (case (fa_result_artifacts facts, fa_executor_conclusion facts) of
        (Known found, Known conclusion) \<Rightarrow>
          rbind (named_artifacts (result_artifact_name (av_authorization_id view)) found) (\<lambda>artifacts.
            if length artifacts > 1 then fail ''TRANSPORT_INTEGRITY_FAILED'' ''duplicate result artifacts at bind''
            else case artifacts of
                   a # as \<Rightarrow> bind_artifact a
                 | [] \<Rightarrow>
                     if not_started conclusion then fail ''EXECUTION_NOT_STARTED'' ''''
                     else rbind (fallback_admissible view facts (length artifacts)) (\<lambda>admissible.
                       if admissible
                       then rbind (evidence_at view AUTHORIZED) (\<lambda>bound.
                              transition FALLBACK_AUTHORIZED (Some [(''cause'', fallback_cause bound facts)]))
                       else executor_failure facts))
      | _ \<Rightarrow> noop ''executor facts unknown'')"

definition advance_result_bound :: "authorization_view \<Rightarrow> facts \<Rightarrow> step_decision result" where
  "advance_result_bound view facts =
     (case fa_receipt facts of
        UNKNOWN \<Rightarrow> noop ''receipt unknown''
      | Known (Some receipt) \<Rightarrow>
          if jget ''verdict'' (JObj receipt) = Some (JStr ''REFUSED'')
          then rbind (terminal_refusal (jget ''code'' (JObj receipt)) VALIDATION_REFUSAL_CODES) (\<lambda>code. fail code '''')
          else transition VALIDATED None
      | Known None \<Rightarrow> resume_or_fail view ''validation'' facts ''VALIDATION_UNAVAILABLE'')"

definition advance_validated :: "authorization_view \<Rightarrow> facts \<Rightarrow> step_decision result" where
  "advance_validated view facts =
     (case fa_remote_branch_head facts of
        UNKNOWN \<Rightarrow> noop ''remote branch unknown''
      | Known (Some head) \<Rightarrow>
          (case fa_remote_head_conforms facts of
             UNKNOWN \<Rightarrow> noop ''remote head conformance unknown''
           | Known conforms \<Rightarrow> if conforms then transition PUBLISHED None else fail ''REMOTE_BRANCH_CONFLICT'' '''')
      | Known None \<Rightarrow>
          (case fa_publication_refusal_code facts of
             Some refusal \<Rightarrow> rbind (terminal_refusal (Some (JStr refusal)) PUBLICATION_REFUSAL_CODES) (\<lambda>code. fail code '''')
           | None \<Rightarrow>
               rbind (publish_deadline view) (\<lambda>deadline. rbind (deadline_passed deadline (fa_now facts)) (\<lambda>passed.
                 if passed then fail ''LIFECYCLE_DEADLINE_EXCEEDED'' ''''
                 else resume_or_fail view ''publication'' facts ''PUBLICATION_UNAVAILABLE''))))"

definition advance_published :: "authorization_view \<Rightarrow> facts \<Rightarrow> step_decision result" where
  "advance_published view facts =
     (case (fa_open_draft_pr facts, fa_preflight_conclusion facts) of
        (Known pr, Known preflight) \<Rightarrow>
          if preflight \<noteq> None \<and> preflight \<noteq> Some ''success'' then fail ''CANDIDATE_PREFLIGHT_FAILED'' ''''
          else if pr \<noteq> None \<and> preflight = Some ''success'' then transition COMPLETED None
          else rbind (evidence_at view PUBLISHED) (\<lambda>published. rbind (getitem published ''deadline_completed_at'') (\<lambda>d.
               rbind (text_value d) (\<lambda>deadline. rbind (deadline_passed deadline (fa_now facts)) (\<lambda>passed.
                 if passed then fail ''CANDIDATE_PREFLIGHT_TIMEOUT'' ''''
                 else noop ''awaiting exact-head Pre-PR Preflight and Draft PR''))))
      | _ \<Rightarrow> noop ''pull request or preflight facts unknown'')"

definition observed :: "'a option fact \<Rightarrow> bool" where
  "observed f = (f \<noteq> UNKNOWN \<and> f \<noteq> Known None)"

definition advance :: "authorization_view \<Rightarrow> facts \<Rightarrow> step_decision result" where
  "advance view facts =
     (let state = av_state view
      in if av_terminal view then noop ''terminal''
         else if fa_stage_run_active facts = UNKNOWN then noop ''stage run status unknown''
         else if fa_stage_run_active facts = Known True then noop ''owning run still active''
         else rbind (binding view ''execution_branch'') (\<lambda>branch.
           if state \<in> {AUTHORIZED, FALLBACK_AUTHORIZED, RESULT_BOUND} \<and> observed (fa_remote_branch_head facts)
           then freeze ''STATE_ROLLBACK_SUSPECTED'' (str_of branch @ '' exists before VALIDATED'')
           else if state \<in> {AUTHORIZED, FALLBACK_AUTHORIZED, RESULT_BOUND, VALIDATED} \<and> observed (fa_open_draft_pr facts)
           then freeze ''STATE_ROLLBACK_SUSPECTED'' ''a Draft PR exists before PUBLISHED''
           else if state = AUTHORIZED then advance_authorized view facts
           else if state = FALLBACK_AUTHORIZED then fallback_decision view facts
           else if state = RESULT_BOUND then advance_result_bound view facts
           else if state = VALIDATED then advance_validated view facts
           else advance_published view facts))"

end
