(* ===== verification/LedgerProtocol.thy ===== *)
theory LedgerProtocol
  imports LedgerChain
begin

text \<open>
  What the ledger of one issue promises, without records, signatures and digests: the phases of an authorization and their order,
  the legal steps, and the protocol of an issue as a step relation on the phases of its authorizations.
  The section on refinement shows that a record which \<open>apply_record\<close> accepts is a step of this protocol.
\<close>

section \<open>Phases\<close>

datatype phase = Authorized | FallbackAuthorized | ResultBound | Validated | Published | Completed | Failed

fun phase_name :: "phase \<Rightarrow> string" where
  "phase_name Authorized = AUTHORIZED"
| "phase_name FallbackAuthorized = FALLBACK_AUTHORIZED"
| "phase_name ResultBound = RESULT_BOUND"
| "phase_name Validated = VALIDATED"
| "phase_name Published = PUBLISHED"
| "phase_name Completed = COMPLETED"
| "phase_name Failed = FAILED"

fun rank :: "phase \<Rightarrow> nat" where
  "rank Authorized = 0"
| "rank FallbackAuthorized = 1"
| "rank ResultBound = 2"
| "rank Validated = 3"
| "rank Published = 4"
| "rank Completed = 5"
| "rank Failed = 6"

lemma rank_inject: "rank p = rank q \<longleftrightarrow> p = q"
  by (cases p; cases q) simp_all

lemma rank_le: "rank p \<le> 6"
  by (cases p) simp_all

text \<open>Phases are ordered by how far a lifecycle has come.\<close>

instantiation phase :: linorder
begin

definition less_eq_phase :: "phase \<Rightarrow> phase \<Rightarrow> bool" where
  "less_eq_phase p q = (rank p \<le> rank q)"

definition less_phase :: "phase \<Rightarrow> phase \<Rightarrow> bool" where
  "less_phase p q = (rank p < rank q)"

instance
  by standard (auto simp: less_eq_phase_def less_phase_def rank_inject)

end

definition phase_of :: "string \<Rightarrow> phase" where
  "phase_of s =
     (if s = AUTHORIZED then Authorized else if s = FALLBACK_AUTHORIZED then FallbackAuthorized
      else if s = RESULT_BOUND then ResultBound else if s = VALIDATED then Validated
      else if s = PUBLISHED then Published else if s = COMPLETED then Completed else Failed)"

lemma phase_of_name [simp]: "phase_of (phase_name p) = p"
  by (cases p) (simp_all add: phase_of_def)

lemma phase_name_of: "s \<in> set STATES \<Longrightarrow> phase_name (phase_of s) = s"
  by (auto simp: STATES_def phase_of_def)

lemma phase_of_inject: "s \<in> set STATES \<Longrightarrow> t \<in> set STATES \<Longrightarrow> phase_of s = phase_of t \<longleftrightarrow> s = t"
  by (metis phase_name_of)

definition ended :: "phase \<Rightarrow> bool" where
  "ended p = (p = Completed \<or> p = Failed)"

lemma ended_terminal: "s \<in> set STATES \<Longrightarrow> ended (phase_of s) \<longleftrightarrow> s \<in> set TERMINAL_STATES"
  by (auto simp: STATES_def TERMINAL_STATES_def ended_def phase_of_def)

section \<open>Legal steps\<close>

inductive legal_step :: "phase option \<Rightarrow> phase \<Rightarrow> bool" where
  authorize: "legal_step None Authorized"
| bind: "legal_step (Some Authorized) ResultBound"
| admit: "legal_step (Some Authorized) FallbackAuthorized"
| bind_fallback: "legal_step (Some FallbackAuthorized) ResultBound"
| validate: "legal_step (Some ResultBound) Validated"
| publish: "legal_step (Some Validated) Published"
| complete: "legal_step (Some Published) Completed"
| fail: "p \<noteq> Completed \<Longrightarrow> p \<noteq> Failed \<Longrightarrow> legal_step (Some p) Failed"

code_pred legal_step .

inductive_cases legal_first [elim!]: "legal_step None p"
inductive_cases legal_from: "legal_step (Some p) q"
inductive_simps legal_to_failed: "legal_step (Some p) Failed"

lemma legal_less: "legal_step (Some p) q \<Longrightarrow> p < q"
  by (erule legal_from) (simp_all add: less_phase_def, cases p, simp_all)

lemma legal_ended: "legal_step (Some p) q \<Longrightarrow> \<not> ended p"
  by (erule legal_from) (simp_all add: ended_def)

text \<open>The table of the code is this relation.\<close>

lemma legal_targets_table:
  "list_all (\<lambda>p. list_all (\<lambda>s. (s \<in> set (legal_targets p)) = legal_step (map_option phase_of p) (phase_of s)) STATES)
     (None # map Some STATES)"
  by code_simp

lemma legal_targets_iff:
  assumes "s \<in> set STATES" and "previous = None \<or> previous \<in> Some ` set STATES"
  shows "s \<in> set (legal_targets previous) \<longleftrightarrow> legal_step (map_option phase_of previous) (phase_of s)"
proof -
  have "previous \<in> set (None # map Some STATES)" using assms(2) by auto
  then show ?thesis using legal_targets_table assms(1) unfolding list_all_iff by blast
qed

section \<open>The protocol of an issue\<close>

record protocol =
  p_phase :: "string \<rightharpoonup> phase"
  p_active :: "string option"

datatype event = Enter string phase | Resume string

fun event_of :: "event \<Rightarrow> string" where
  "event_of (Enter a p) = a"
| "event_of (Resume a) = a"

inductive protocol_step :: "protocol \<Rightarrow> event \<Rightarrow> protocol \<Rightarrow> bool" where
  claim: "p_phase s a = None \<Longrightarrow> p_active s = None \<Longrightarrow>
    protocol_step s (Enter a Authorized) (s\<lparr>p_phase := (p_phase s)(a \<mapsto> Authorized), p_active := Some a\<rparr>)"
| go_on: "p_active s = Some a \<Longrightarrow> p_phase s a = Some p \<Longrightarrow> legal_step (Some p) q \<Longrightarrow> \<not> ended q \<Longrightarrow>
    protocol_step s (Enter a q) (s\<lparr>p_phase := (p_phase s)(a \<mapsto> q)\<rparr>)"
| finish: "p_active s = Some a \<Longrightarrow> p_phase s a = Some p \<Longrightarrow> legal_step (Some p) q \<Longrightarrow> ended q \<Longrightarrow>
    protocol_step s (Enter a q) (s\<lparr>p_phase := (p_phase s)(a \<mapsto> q), p_active := None\<rparr>)"
| resume: "p_active s = Some a \<Longrightarrow> protocol_step s (Resume a) s"

inductive_cases protocol_stepE: "protocol_step s e s'"
inductive_cases resumeE [elim!]: "protocol_step s (Resume a) s'"

inductive protocol_run :: "protocol \<Rightarrow> event list \<Rightarrow> protocol \<Rightarrow> bool" where
  idle: "protocol_run s [] s"
| more: "protocol_step s e s' \<Longrightarrow> protocol_run s' es s'' \<Longrightarrow> protocol_run s (e # es) s''"

definition initial :: protocol where
  "initial = \<lparr>p_phase = Map.empty, p_active = None\<rparr>"

text \<open>Exactly the active authorization is under way.\<close>

definition protocol_ok :: "protocol \<Rightarrow> bool" where
  "protocol_ok s = (\<forall>a. p_active s = Some a \<longleftrightarrow> (\<exists>p. p_phase s a = Some p \<and> \<not> ended p))"

lemma protocol_ok_initial [simp]: "protocol_ok initial"
  by (simp add: protocol_ok_def initial_def)

lemma protocol_step_ok: "protocol_step s e s' \<Longrightarrow> protocol_ok s \<Longrightarrow> protocol_ok s'"
proof (induction rule: protocol_step.induct)
  case (claim s a)
  then show ?case by (auto simp: protocol_ok_def ended_def)
next
  case (go_on s a p q)
  then show ?case by (auto simp: protocol_ok_def dest: legal_ended)
next
  case (finish s a p q)
  then show ?case by (simp add: protocol_ok_def) metis
qed

lemma protocol_run_ok: "protocol_run s es s' \<Longrightarrow> protocol_ok s \<Longrightarrow> protocol_ok s'"
  by (induction rule: protocol_run.induct) (simp_all add: protocol_step_ok)

text \<open>What has ended stays as it is, and no event concerns it.\<close>

lemma protocol_step_ended:
  "protocol_step s e s' \<Longrightarrow> protocol_ok s \<Longrightarrow> p_phase s a = Some p \<Longrightarrow> ended p \<Longrightarrow> p_phase s' a = Some p \<and> event_of e \<noteq> a"
  by (induction rule: protocol_step.induct) (auto simp: protocol_ok_def dest: legal_ended)

lemma protocol_run_ended:
  "protocol_run s es s' \<Longrightarrow> protocol_ok s \<Longrightarrow> p_phase s a = Some p \<Longrightarrow> ended p \<Longrightarrow>
   p_phase s' a = Some p \<and> (\<forall>e \<in> set es. event_of e \<noteq> a)"
proof (induction rule: protocol_run.induct)
  case (more s e s' es s'')
  have "p_phase s' a = Some p \<and> event_of e \<noteq> a" by (rule protocol_step_ended [OF more(1) more.prems])
  with more.IH more.prems(2,3) protocol_step_ok [OF more(1) more.prems(1)] show ?case by simp
qed simp

text \<open>The phases that an authorization enters, in order.\<close>

fun entered :: "string \<Rightarrow> event list \<Rightarrow> phase list" where
  "entered a [] = []"
| "entered a (Enter b p # es) = (if a = b then p # entered a es else entered a es)"
| "entered a (Resume b # es) = entered a es"

lemma protocol_step_phase:
  "protocol_step s e s' \<Longrightarrow>
   p_phase s' a = (case entered a [e] of [] \<Rightarrow> p_phase s a | p # _ \<Rightarrow> Some p) \<and>
   (\<forall>p \<in> set (entered a [e]). legal_step (p_phase s a) p)"
  by (induction rule: protocol_step.induct) (auto intro: legal_step.intros)

lemma entered_Cons: "entered a (e # es) = entered a [e] @ entered a es"
  by (cases e) simp_all

text \<open>A path of legal steps.\<close>

fun legal_path :: "phase option \<Rightarrow> phase list \<Rightarrow> bool" where
  "legal_path p [] = True"
| "legal_path p (q # qs) = (legal_step p q \<and> legal_path (Some q) qs)"

lemma protocol_run_path: "protocol_run s es s' \<Longrightarrow> legal_path (p_phase s a) (entered a es)"
proof (induction rule: protocol_run.induct)
  case (more s e s' es s'')
  have step: "p_phase s' a = (case entered a [e] of [] \<Rightarrow> p_phase s a | p # _ \<Rightarrow> Some p)"
    "\<forall>p \<in> set (entered a [e]). legal_step (p_phase s a) p" using protocol_step_phase [OF more(1), of a] by blast+
  show ?case using step more.IH by (cases e) (auto split: if_splits)
qed simp

lemma legal_path_sorted: "legal_path p qs \<Longrightarrow> sorted_wrt (<) qs \<and> (\<forall>q. p = Some q \<longrightarrow> (\<forall>x \<in> set qs. q < x))"
proof (induction qs arbitrary: p)
  case (Cons q qs)
  then have "legal_step p q" and "sorted_wrt (<) qs \<and> (\<forall>x \<in> set qs. q < x)" by auto
  then show ?case by (auto dest: legal_less intro: less_trans)
qed simp

lemma legal_path_length: "legal_path p qs \<Longrightarrow> length qs \<le> 6"
proof -
  assume path: "legal_path p qs"
  have s: "sorted_wrt (<) qs" using legal_path_sorted [OF path] by blast
  have "\<not> (Completed \<in> set qs \<and> Failed \<in> set qs)"
  proof
    assume both: "Completed \<in> set qs \<and> Failed \<in> set qs"
    have "\<exists>r. legal_path r (Completed # xs) " if "legal_path p (ys @ Completed # xs)" for ys xs
      using that by (induction ys arbitrary: p) auto
    moreover obtain ys xs where q: "qs = ys @ Completed # xs" using both by (meson split_list)
    ultimately have "legal_path (Some Completed) xs" using path by auto
    then have "xs = []" by (cases xs) (auto dest: legal_ended simp: ended_def)
    then have "Failed \<in> set ys" using both q by simp
    then show False using s q by (auto simp: sorted_wrt_append less_phase_def)
  qed
  then have "set qs \<subseteq> {Authorized, FallbackAuthorized, ResultBound, Validated, Published, Completed} \<or>
      set qs \<subseteq> {Authorized, FallbackAuthorized, ResultBound, Validated, Published, Failed}"
    using phase.exhaust by (cases "Completed \<in> set qs") blast+
  moreover have "distinct qs" using s by (induction qs) auto
  moreover have "card {Authorized, FallbackAuthorized, ResultBound, Validated, Published, Completed} = 6"
    "card {Authorized, FallbackAuthorized, ResultBound, Validated, Published, Failed} = 6" by simp_all
  ultimately show ?thesis by (metis card_mono distinct_card finite.intros)
qed

end
