(* ===== verification/LedgerInvariant.thy ===== *)
theory LedgerInvariant
  imports LedgerProtocol
begin

text \<open>
  The invariant of a verified ledger and its refinement of the issue protocol. Every accepted record keeps the
  invariant: the states and the evidence of an authorization follow a legal path, its pending resume belongs to its state, its
  attempts are within their caps, the bindings between its evidence hold, and exactly the active
  authorization is under way.
\<close>

section \<open>Inverting an accepted record\<close>

lemma require_Inr [ledger_simps]: "require b why k = Inr x \<longleftrightarrow> b \<and> k = Inr x"
  by (simp add: require_def corrupt_def)

lemma corrupt_Inr [simp]: "corrupt why \<noteq> Inr x"
  by (simp add: corrupt_def)

lemma apply_record_encodes: "apply_record verify trust provenance view r index = Inr view' \<Longrightarrow> json_encodes r"
  by (simp add: apply_record_def split: if_splits)

lemma apply_record_sorted:
  assumes "json_sorted r = json_sorted r'"
  shows "apply_record verify trust provenance view r index = apply_record verify trust provenance view r' index"
proof -
  have "json_encodes r = json_encodes r'" using json_encodes_sorted [of r] json_encodes_sorted [of r'] assms by simp
  then show ?thesis by (simp add: apply_record_def assms)
qed

lemma apply_record_valid:
  assumes "json_encodes r" and "validate_record_schema (json_sorted r) = Inr r'"
  shows "apply_record verify trust provenance view r index =
    rbind (apply_validated verify trust provenance view r') (check_index index)"
  using assms by (simp add: apply_record_def)

lemma apply_recordE:
  assumes "apply_record verify trust provenance view r index = Inr view'"
  obtains v1 where "validate_record_schema (json_sorted r) = Inr (json_sorted r)"
    and "verify_record_signature verify (json_sorted r) (tr_state_keys trust) STATE_SIGNATURE_DOMAIN = Inr ()"
    and "jfield ''record_seq'' (json_sorted r) = JInt (lv_next_seq view)"
    and "jfield ''prev_record_sha256'' (json_sorted r) = opt_json JStr (lv_head_record_digest view)"
    and "ifield ''repository_id'' (json_sorted r) = lv_repository_id view"
    and "ifield ''issue_number'' (json_sorted r) = lv_issue_number view"
    and "provenance (jfield ''recorded_by'' (json_sorted r)) (json_sorted r)"
    and "(if sfield ''kind'' (json_sorted r) = ''transition'' then apply_transition view (json_sorted r)
          else apply_resume view (json_sorted r)) = Inr v1"
    and "view' = record_applied (json_sorted r) v1"
proof -
  note encodes = apply_record_encodes [OF assms]
  from assms obtain r' where valid: "validate_record_schema (json_sorted r) = Inr r'"
    by (auto simp: apply_record_def split: sum.splits pyexc.splits if_splits)
  have r': "r' = json_sorted r" by (rule validate_record_Inr(1) [OF valid])
  from assms have "rbind (apply_validated verify trust provenance view (json_sorted r)) (check_index index) = Inr view'"
    unfolding apply_record_valid [OF encodes valid] r' .
  then obtain w where w: "apply_validated verify trust provenance view (json_sorted r) = Inr w" "check_index index w = Inr view'"
    by (rule rbind_InrE)
  have "view' = w"
    using w(2) by (auto simp: check_index_def rbind_Inr_iff ledger_simps split: option.splits)
  with w(1) valid r' show thesis
    by (auto simp: apply_validated_def rbind_Inr_iff ledger_simps intro: that)
qed

lemma apply_transitionE:
  assumes "apply_transition view r = Inr v1"
  obtains (claim) "sfield ''state'' r = AUTHORIZED" and "lv_authorizations view (sfield ''authorization_id'' r) = None"
      and "sfield ''authorization_id'' r \<notin> set (lv_claimed view)" and "lv_active view = None"
      and "check_authorized_bindings r (Some view) = Inr ()" and "writer_role r \<in> set (writers_of AUTHORIZED)"
      and "v1 = set_authorization (sfield ''authorization_id'' r)
         \<lparr>av_authorization_id = sfield ''authorization_id'' r, av_state = AUTHORIZED, av_records = [],
          av_evidence = [AUTHORIZED \<mapsto> jfield ''evidence'' r], av_pending_resume = None, av_resume_attempts = \<lambda>stage. 0\<rparr>
         (view\<lparr>lv_claimed := lv_claimed view @ [sfield ''authorization_id'' r], lv_active := Some (sfield ''authorization_id'' r)\<rparr>)"
    | (move) v where "lv_authorizations view (sfield ''authorization_id'' r) = Some v" and "sfield ''state'' r \<noteq> AUTHORIZED"
      and "sfield ''state'' r \<in> set (legal_targets (Some (av_state v)))"
      and "writer_role r \<in> set (writers_of (sfield ''state'' r))"
      and "sfield ''state'' r = FAILED \<longrightarrow> jfield ''failed_from_state'' (jfield ''evidence'' r) = JStr (av_state v)"
      and "sfield ''state'' r \<noteq> FAILED \<longrightarrow> check_cross_bindings v r = Inr ()"
      and "v1 = set_authorization (sfield ''authorization_id'' r)
         (v\<lparr>av_state := sfield ''state'' r, av_pending_resume := None,
            av_evidence := (av_evidence v)(sfield ''state'' r \<mapsto> jfield ''evidence'' r)\<rparr>)
         (if sfield ''state'' r \<in> set TERMINAL_STATES then view\<lparr>lv_active := None\<rparr> else view)"
proof (cases "sfield ''state'' r = AUTHORIZED")
  case True
  have "AUTHORIZED \<notin> set (legal_targets (Some p))" for p
    by (simp add: legal_targets_def LEGAL_TRANSITIONS_def)
  then have "lv_authorizations view (sfield ''authorization_id'' r) = None"
    using assms True by (cases "lv_authorizations view (sfield ''authorization_id'' r)")
      (auto simp: apply_transition_def Let_def ledger_simps)
  with True assms show thesis
    by (intro claim) (auto simp: apply_transition_def Let_def ledger_simps rbind_Inr_iff)
next
  case False
  then obtain v where v: "lv_authorizations view (sfield ''authorization_id'' r) = Some v"
    using assms by (cases "lv_authorizations view (sfield ''authorization_id'' r)")
      (auto simp: apply_transition_def Let_def ledger_simps)
  from False v assms show thesis
    by (intro move [OF v])
      (auto simp: apply_transition_def Let_def ledger_simps rbind_Inr_iff split: if_splits)
qed

text \<open>A resume record changes only the pending resume and the attempts of the active authorization.\<close>

lemma apply_resumeE:
  assumes "apply_resume view r = Inr v1"
  obtains v v' where "lv_authorizations view (sfield ''authorization_id'' r) = Some v" and "\<not> av_terminal v"
    and "lv_active view = Some (sfield ''authorization_id'' r)" and "sfield ''state'' r = av_state v"
    and "writer_role r \<in> set RESUME_ROLES"
    and "(if sfield ''kind'' r = ''resume_requested'' then apply_resume_requested v (jfield ''evidence'' r)
          else if sfield ''kind'' r = ''resume_abandoned'' then apply_resume_abandoned v (jfield ''evidence'' r)
          else apply_resume_bound v r) = Inr v'"
    and "v1 = set_authorization (sfield ''authorization_id'' r) v' view"
  using assms by (auto simp: apply_resume_def Let_def ledger_simps rbind_Inr_iff split: option.splits intro: that)

lemma apply_resume_requestedE:
  assumes "apply_resume_requested v evidence = Inr v'"
  obtains cap where "map_of RESUME_STAGES (sfield ''stage'' evidence) = Some (av_state v, cap)"
    and "av_pending_resume v = None" and "ifield ''attempt'' evidence = av_resume_attempts v (sfield ''stage'' evidence) + 1"
    and "\<forall>n. cap = Some n \<longrightarrow> ifield ''attempt'' evidence \<le> int n - 1"
    and "v' = v\<lparr>av_resume_attempts := (av_resume_attempts v)(sfield ''stage'' evidence := ifield ''attempt'' evidence),
        av_pending_resume := Some \<lparr>pr_stage = sfield ''stage'' evidence, pr_nonce = sfield ''nonce'' evidence,
          pr_attempt = ifield ''attempt'' evidence, pr_dispatched_at = sfield ''dispatched_at'' evidence,
          pr_bound_run_id = None\<rparr>\<rparr>"
  using assms
  by (auto simp: apply_resume_requested_def Let_def ledger_simps split: option.splits intro: that)

lemma apply_resume_abandonedE:
  assumes "apply_resume_abandoned v evidence = Inr v'"
  obtains p where "av_pending_resume v = Some p" and "pr_nonce p = sfield ''nonce'' evidence" and "v' = v\<lparr>av_pending_resume := None\<rparr>"
  using assms by (auto simp: apply_resume_abandoned_def ledger_simps split: option.splits intro: that)

lemma apply_resume_boundE:
  assumes "apply_resume_bound v r = Inr v'"
  obtains p where "av_pending_resume v = Some p" and "pr_bound_run_id p = None"
    and "pr_nonce p = sfield ''nonce'' (jfield ''evidence'' r)"
    and "v' = v\<lparr>av_pending_resume := Some (p\<lparr>pr_bound_run_id := Some (ifield ''run_id'' (jfield ''evidence'' r))\<rparr>)\<rparr>"
  using assms by (auto simp: apply_resume_bound_def Let_def ledger_simps split: option.splits intro: that)

lemma resume_keeps:
  assumes "(if k = ''resume_requested'' then apply_resume_requested v e
          else if k = ''resume_abandoned'' then apply_resume_abandoned v e else apply_resume_bound v r) = Inr v'"
  shows "av_authorization_id v' = av_authorization_id v \<and> av_state v' = av_state v \<and> av_evidence v' = av_evidence v \<and>
    av_records v' = av_records v"
  using assms
  by (auto split: if_splits elim!: apply_resume_requestedE apply_resume_abandonedE apply_resume_boundE)


section \<open>The invariant\<close>

definition has :: "authorization_view \<Rightarrow> string \<Rightarrow> bool" where
  "has v s = (av_evidence v s \<noteq> None)"

text \<open>The evidence of an authorization follows a legal path to its state, and passes the schema of its states.\<close>

definition path_ok :: "authorization_view \<Rightarrow> bool" where
  "path_ok v = (has v AUTHORIZED \<and> has v (av_state v) \<and> av_state v \<in> set STATES \<and>
     (\<forall>s. has v s \<longrightarrow> s \<in> set STATES \<and> phase_of s \<le> phase_of (av_state v)) \<and>
     (has v VALIDATED \<longrightarrow> has v RESULT_BOUND) \<and> (has v PUBLISHED \<longrightarrow> has v VALIDATED) \<and> (has v COMPLETED \<longrightarrow> has v PUBLISHED))"

definition evidence_ok :: "authorization_view \<Rightarrow> bool" where
  "evidence_ok v = (\<forall>s e. av_evidence v s = Some e \<longrightarrow> (\<exists>f l. map_of EVIDENCE_SCHEMAS s = Some f \<and> f e l = None))"

definition resume_ok :: "authorization_view \<Rightarrow> bool" where
  "resume_ok v =
     ((\<forall>p. av_pending_resume v = Some p \<longrightarrow>
         (\<exists>cap. map_of RESUME_STAGES (pr_stage p) = Some (av_state v, cap)) \<and>
         pr_attempt p = av_resume_attempts v (pr_stage p) \<and> fullmatch rx_timestamp (pr_dispatched_at p) \<and>
         fullmatch rx_sha64 (pr_nonce p) \<and> 1 \<le> pr_attempt p \<and> (\<forall>run. pr_bound_run_id p = Some run \<longrightarrow> 1 \<le> run)) \<and>
      (\<forall>stage. 0 \<le> av_resume_attempts v stage \<and>
         (\<forall>st n. map_of RESUME_STAGES stage = Some (st, Some n) \<longrightarrow> av_resume_attempts v stage \<le> int n - 1)))"

text \<open>The bindings between the evidence of different states.\<close>

definition published_identity :: "ledger_view \<Rightarrow> authorization_view \<Rightarrow> string result" where
  "published_identity view v =
     rbind (evidence_at v AUTHORIZED) (\<lambda>bound.
     rbind (evidence_at v VALIDATED) (\<lambda>validated.
     rbind (evidence_at v PUBLISHED) (\<lambda>published.
     rbind (view_execution_id v) (\<lambda>execution_id.
       Inr (publication_identity
           \<lparr>pb_repository_id = lv_repository_id view, pb_issue_number = lv_issue_number view,
            pb_authorization_id = av_authorization_id v, pb_base_sha = sfield ''base_sha'' bound,
            pb_task_scope_sha256 = sfield ''task_scope_sha256'' bound, pb_execution_id = execution_id,
            pb_result_sha256 = sfield ''result_sha256'' validated, pb_tree_sha = sfield ''tree_sha'' validated,
            pb_unsigned_commit_sha = sfield ''unsigned_commit_sha'' validated,
            pb_control_sha = sfield ''control_sha'' bound, pb_writer_login = sfield ''writer_login'' published\<rparr>)))))"

definition evidence_of :: "authorization_view \<Rightarrow> string \<Rightarrow> json" where
  "evidence_of v s = (case av_evidence v s of Some e \<Rightarrow> e | None \<Rightarrow> JNull)"

definition bound_ok :: "ledger_view \<Rightarrow> authorization_view \<Rightarrow> bool" where
  "bound_ok view v =
     ((has v FALLBACK_AUTHORIZED \<longrightarrow> check_fallback_admission v (evidence_of v FALLBACK_AUTHORIZED) = Inr ()) \<and>
      (has v RESULT_BOUND \<longrightarrow> (has v FALLBACK_AUTHORIZED \<longleftrightarrow> jget ''fallback'' (evidence_of v RESULT_BOUND) \<noteq> None)) \<and>
      (has v VALIDATED \<longrightarrow>
         jfield ''result_sha256'' (evidence_of v VALIDATED) = jfield ''result_plaintext_sha256'' (evidence_of v RESULT_BOUND)) \<and>
      (has v PUBLISHED \<longrightarrow> (\<exists>i. published_identity view v = Inr i \<and>
         jfield ''publication_identity'' (evidence_of v PUBLISHED) = JStr i)) \<and>
      (has v COMPLETED \<longrightarrow>
         jfield ''pull_request_head_sha'' (evidence_of v COMPLETED) = jfield ''head_sha'' (evidence_of v PUBLISHED)))"

definition view_ok :: "ledger_view \<Rightarrow> bool" where
  "view_ok view =
     ((\<forall>a v. lv_authorizations view a = Some v \<longrightarrow>
         av_authorization_id v = a \<and> fullmatch rx_authorization_id a \<and> path_ok v \<and> evidence_ok v \<and> resume_ok v \<and> bound_ok view v) \<and>
      set (lv_claimed view) = dom (lv_authorizations view) \<and> distinct (lv_claimed view) \<and>
      (\<forall>a. lv_active view = Some a \<longleftrightarrow> (\<exists>v. lv_authorizations view a = Some v \<and> \<not> av_terminal v)))"

lemma view_ok_empty [simp]: "view_ok (empty_view repo issue)"
  by (simp add: view_ok_def empty_view_def)

lemma view_okD:
  assumes "view_ok view" and "lv_authorizations view a = Some v"
  shows "av_authorization_id v = a" "fullmatch rx_authorization_id a" "path_ok v" "evidence_ok v" "resume_ok v" "bound_ok view v"
  using assms unfolding view_ok_def by blast+

lemma view_ok_active: "view_ok view \<Longrightarrow> lv_active view = Some a \<longleftrightarrow> (\<exists>v. lv_authorizations view a = Some v \<and> \<not> av_terminal v)"
  by (simp add: view_ok_def)

lemma active_only:
  assumes "view_ok view" and "lv_active view = Some a" and "lv_authorizations view b = Some u" and "\<not> av_terminal u"
  shows "b = a"
proof -
  have "lv_active view = Some b" using view_ok_active [OF assms(1), of b] assms(3,4) by blast
  with assms(2) show ?thesis by simp
qed

section \<open>A new authorization\<close>

lemma record_evidence:
  assumes "validate_record_schema r = Inr r'"
  shows "\<exists>f l. evidence_schema r = Some f \<and> f (jfield ''evidence'' r) l = None"
  by (rule evidence_check_schema [OF validate_record_Inr(3) [OF assms]])

lemma transition_evidence:
  assumes "validate_record_schema r = Inr r'" and "sfield ''kind'' r = ''transition''"
  shows "\<exists>f l. map_of EVIDENCE_SCHEMAS (sfield ''state'' r) = Some f \<and> f (jfield ''evidence'' r) l = None"
  using record_evidence [OF assms(1)] assms(2) by (simp add: evidence_schema_def)

lemma sfield_str: "jget k r = Some (JStr s) \<Longrightarrow> sfield k r = s"
  by (simp add: sfield_def)

lemma record_texts:
  assumes "validate_record_schema r = Inr r'"
  shows "fullmatch rx_authorization_id (sfield ''authorization_id'' r)" and "sfield ''state'' r \<in> set STATES"
  using record_fields(3,4) [OF assms] by (auto dest: sfield_str)

lemma claimed_ok:
  assumes "fullmatch rx_authorization_id a" and "\<exists>f l. map_of EVIDENCE_SCHEMAS AUTHORIZED = Some f \<and> f e l = None"
    and "v = \<lparr>av_authorization_id = a, av_state = AUTHORIZED, av_records = rs, av_evidence = [AUTHORIZED \<mapsto> e],
            av_pending_resume = None, av_resume_attempts = \<lambda>stage. 0\<rparr>"
  shows "path_ok v" "evidence_ok v" "resume_ok v" "bound_ok view v"
proof -
  show "path_ok v" by (simp add: assms(3) path_ok_def has_def STATES_def)
  show "evidence_ok v" using assms(2) by (simp add: assms(3) evidence_ok_def)
  show "resume_ok v" by (simp add: assms(3) resume_ok_def RESUME_STAGES_def)
  show "bound_ok view v" by (simp add: assms(3) bound_ok_def has_def)
qed

section \<open>A further state\<close>

text \<open>The evidence of earlier states stays: a new state is a later phase than all of them.\<close>

definition moved :: "string \<Rightarrow> json \<Rightarrow> authorization_view \<Rightarrow> authorization_view" where
  "moved s e v = v\<lparr>av_state := s, av_pending_resume := None, av_evidence := (av_evidence v)(s \<mapsto> e)\<rparr>"

lemma moved_simps [simp]:
  "av_authorization_id (moved s e v) = av_authorization_id v" "av_state (moved s e v) = s"
  "av_pending_resume (moved s e v) = None" "av_evidence (moved s e v) = (av_evidence v)(s \<mapsto> e)"
  "av_resume_attempts (moved s e v) = av_resume_attempts v" "av_records (moved s e v) = av_records v"
  by (simp_all add: moved_def)

lemma new_state:
  assumes "path_ok v" and "s \<in> set (legal_targets (Some (av_state v)))" and "s \<in> set STATES"
  shows "legal_step (Some (phase_of (av_state v))) (phase_of s)" and "phase_of (av_state v) < phase_of s" and "\<not> has v s"
proof -
  show step: "legal_step (Some (phase_of (av_state v))) (phase_of s)"
    using assms legal_targets_iff [OF assms(3), of "Some (av_state v)"] by (simp add: path_ok_def)
  then show less: "phase_of (av_state v) < phase_of s" by (rule legal_less)
  then show "\<not> has v s" using assms(1) unfolding path_ok_def by (meson leD)
qed

lemma moved_path:
  assumes "path_ok v" and "s \<in> set (legal_targets (Some (av_state v)))" and "s \<in> set STATES"
  shows "path_ok (moved s e v)"
proof -
  note n = new_state [OF assms]
  have h: "has (moved s e v) x \<longleftrightarrow> x = s \<or> has v x" for x by (simp add: has_def)
  have "s = VALIDATED \<Longrightarrow> has v RESULT_BOUND" "s = PUBLISHED \<Longrightarrow> has v VALIDATED" "s = COMPLETED \<Longrightarrow> has v PUBLISHED"
    using assms(1,2) by (auto simp: path_ok_def legal_targets_def LEGAL_TRANSITIONS_def split: if_splits)
  moreover have "phase_of x \<le> phase_of s" if "has v x" for x
    using assms(1) that n(2) unfolding path_ok_def by (meson le_less_trans less_imp_le)
  ultimately show ?thesis
    using assms(1,3) unfolding path_ok_def h by auto
qed

lemma moved_evidence_of:
  "\<not> has v s \<Longrightarrow> has v x \<Longrightarrow> evidence_of (moved s e v) x = evidence_of v x" "evidence_of (moved s e v) s = e"
  by (auto simp: evidence_of_def has_def)

lemma has_evidence: "has v s \<longleftrightarrow> av_evidence v s = Some (evidence_of v s)"
  by (auto simp: has_def evidence_of_def)


lemma earlier_evidence:
  assumes "path_ok v" and "s \<in> set (legal_targets (Some (av_state v)))" and "s \<in> set STATES" and "has v x"
  shows "rank (phase_of x) < rank (phase_of s)"
proof -
  have "phase_of x \<le> phase_of (av_state v)" using assms(1,4) by (simp add: path_ok_def)
  with new_state(2) [OF assms(1-3)] show ?thesis by (simp add: less_phase_def less_eq_phase_def)
qed

lemma ranks [simp]:
  "rank (phase_of AUTHORIZED) = 0" "rank (phase_of FALLBACK_AUTHORIZED) = 1" "rank (phase_of RESULT_BOUND) = 2"
  "rank (phase_of VALIDATED) = 3" "rank (phase_of PUBLISHED) = 4" "rank (phase_of COMPLETED) = 5" "rank (phase_of FAILED) = 6"
  by (simp_all add: phase_of_def)

lemma moved_admission: "s \<noteq> AUTHORIZED \<Longrightarrow> check_fallback_admission (moved s e v) x = check_fallback_admission v x"
  by (simp add: check_fallback_admission_def evidence_at_def)

lemma moved_binding: "s \<noteq> AUTHORIZED \<Longrightarrow> binding (moved s e v) k = binding v k"
  by (simp add: binding_def evidence_at_def)

lemma moved_execution_id:
  "s \<noteq> AUTHORIZED \<Longrightarrow> s \<noteq> FALLBACK_AUTHORIZED \<Longrightarrow> view_execution_id (moved s e v) = view_execution_id v"
  by (cases "av_evidence v FALLBACK_AUTHORIZED") (simp_all add: view_execution_id_def moved_binding)

lemma moved_published_identity:
  "s \<noteq> AUTHORIZED \<Longrightarrow> s \<noteq> FALLBACK_AUTHORIZED \<Longrightarrow> s \<noteq> VALIDATED \<Longrightarrow> s \<noteq> PUBLISHED \<Longrightarrow>
   published_identity view (moved s e v) = published_identity view v"
  by (simp add: published_identity_def evidence_at_def moved_execution_id)

lemma check_publication_identity:
  assumes "check_publication v r = Inr ()" and "ifield ''repository_id'' r = lv_repository_id view"
    and "ifield ''issue_number'' r = lv_issue_number view"
  shows "\<exists>i. published_identity view (moved PUBLISHED (jfield ''evidence'' r) v) = Inr i \<and>
    jfield ''publication_identity'' (jfield ''evidence'' r) = JStr i"
  using assms
  by (auto simp: check_publication_def published_identity_def evidence_at_def moved_execution_id rbind_Inr_iff ledger_simps
      split: option.splits)

lemma later_states:
  "s \<in> set STATES \<Longrightarrow> s \<noteq> AUTHORIZED \<Longrightarrow>
   s = FALLBACK_AUTHORIZED \<or> s = RESULT_BOUND \<or> s = VALIDATED \<or> s = PUBLISHED \<or> s = COMPLETED \<or> s = FAILED"
  by (simp add: STATES_def)

lemma moved_bound:
  assumes path: "path_ok v" and legal: "s \<in> set (legal_targets (Some (av_state v)))" "s \<in> set STATES"
    and bound: "bound_ok view v" and check: "s \<noteq> FAILED \<longrightarrow> check_cross_bindings v r = Inr ()"
    and r: "sfield ''state'' r = s" "jfield ''evidence'' r = e" "ifield ''repository_id'' r = lv_repository_id view"
      "ifield ''issue_number'' r = lv_issue_number view"
  shows "bound_ok view (moved s e v)"
proof -
  note new = new_state(3) [OF path legal]
  have "has v AUTHORIZED" using path by (simp add: path_ok_def)
  then have not_first: "s \<noteq> AUTHORIZED" using new by blast
  have h: "has (moved s e v) x \<longleftrightarrow> x = s \<or> has v x" for x by (simp add: has_def)
  have old: "evidence_of (moved s e v) x = evidence_of v x" if "x \<noteq> s" for x using that by (simp add: evidence_of_def)
  have current: "evidence_of (moved s e v) s = e" by (simp add: evidence_of_def)
  note before = earlier_evidence [OF path legal]
  note b = bound [unfolded bound_ok_def]
  have has_state: "has v (av_state v)" using path by (simp add: path_ok_def)
  from later_states [OF legal(2) not_first] show ?thesis
  proof (elim disjE)
    assume 1: "s = FALLBACK_AUTHORIZED"
    have "\<not> has v RESULT_BOUND" "\<not> has v VALIDATED" "\<not> has v PUBLISHED" "\<not> has v COMPLETED"
      using before by (fastforce simp: 1)+
    moreover have "check_fallback_admission v e = Inr ()" using check r(1,2) by (simp add: 1 check_cross_bindings_def)
    ultimately show ?thesis
      unfolding bound_ok_def h using current by (simp add: 1 moved_admission)
  next
    assume 2: "s = RESULT_BOUND"
    have "\<not> has v VALIDATED" "\<not> has v PUBLISHED" "\<not> has v COMPLETED" using before by (fastforce simp: 2)+
    moreover have "(av_state v = FALLBACK_AUTHORIZED) = (jget ''fallback'' e \<noteq> None)"
      using check r(1,2) by (simp add: 2 check_cross_bindings_def ledger_simps)
    moreover have "has v FALLBACK_AUTHORIZED \<longleftrightarrow> av_state v = FALLBACK_AUTHORIZED"
    proof -
      have "av_state v = AUTHORIZED \<or> av_state v = FALLBACK_AUTHORIZED"
        using legal(1) by (auto simp: 2 legal_targets_def LEGAL_TRANSITIONS_def split: if_splits)
      moreover have "has v FALLBACK_AUTHORIZED \<Longrightarrow> phase_of FALLBACK_AUTHORIZED \<le> phase_of (av_state v)"
        using path by (simp add: path_ok_def)
      ultimately show ?thesis using has_state by (auto simp: less_eq_phase_def)
    qed
    moreover have "has v FALLBACK_AUTHORIZED \<longrightarrow> check_fallback_admission v (evidence_of v FALLBACK_AUTHORIZED) = Inr ()"
      using b by blast
    ultimately show ?thesis
      unfolding bound_ok_def h using current old [of FALLBACK_AUTHORIZED] by (simp add: 2 moved_admission)
  next
    assume 3: "s = VALIDATED"
    have "\<not> has v PUBLISHED" "\<not> has v COMPLETED" using before by (fastforce simp: 3)+
    moreover have "jfield ''result_sha256'' e = jfield ''result_plaintext_sha256'' (evidence_of v RESULT_BOUND)"
      using check r(1,2)
      by (auto simp: 3 check_cross_bindings_def evidence_at_def evidence_of_def rbind_Inr_iff ledger_simps split: option.splits)
    ultimately show ?thesis
      unfolding bound_ok_def h using b current old [of FALLBACK_AUTHORIZED] old [of RESULT_BOUND]
      by (simp add: 3 moved_admission)
  next
    assume 4: "s = PUBLISHED"
    have "\<not> has v COMPLETED" using before by (fastforce simp: 4)
    moreover have "check_publication v r = Inr ()"
      using check r(1,2) by (simp add: 4 check_cross_bindings_def)
    note check_publication_identity [OF this r(3,4), unfolded r(2)]
    ultimately show ?thesis
      unfolding bound_ok_def h using b current old [of FALLBACK_AUTHORIZED] old [of RESULT_BOUND] old [of VALIDATED]
      by (simp add: 4 moved_admission)
  next
    assume 5: "s = COMPLETED"
    have "jfield ''pull_request_head_sha'' e = jfield ''head_sha'' (evidence_of v PUBLISHED)"
      using check r(1,2)
      by (auto simp: 5 check_cross_bindings_def evidence_at_def evidence_of_def rbind_Inr_iff ledger_simps split: option.splits)
    then show ?thesis
      unfolding bound_ok_def h using b current old [of FALLBACK_AUTHORIZED] old [of RESULT_BOUND] old [of VALIDATED] old [of PUBLISHED]
      by (simp add: 5 moved_admission moved_published_identity)
  next
    assume 6: "s = FAILED"
    show ?thesis
      unfolding bound_ok_def h using b old by (simp add: 6 moved_admission moved_published_identity)
  qed
qed


lemma moved_resume: "resume_ok v \<Longrightarrow> resume_ok (moved s e v)"
  by (simp add: resume_ok_def)

lemma moved_evidence: "evidence_ok v \<Longrightarrow> \<exists>f l. map_of EVIDENCE_SCHEMAS s = Some f \<and> f e l = None \<Longrightarrow> evidence_ok (moved s e v)"
  by (simp add: evidence_ok_def)

section \<open>Resumes\<close>

lemma same_view_ok:
  assumes "av_state v' = av_state v" "av_evidence v' = av_evidence v" "av_authorization_id v' = av_authorization_id v"
  shows "path_ok v' = path_ok v" "evidence_ok v' = evidence_ok v" "bound_ok view v' = bound_ok view v"
proof -
  have h: "has v' = has v" by (simp add: has_def fun_eq_iff assms)
  have e: "evidence_of v' = evidence_of v" by (simp add: evidence_of_def fun_eq_iff assms)
  have a: "evidence_at v' = evidence_at v" by (simp add: evidence_at_def fun_eq_iff assms)
  show "path_ok v' = path_ok v" "evidence_ok v' = evidence_ok v" by (simp_all add: path_ok_def evidence_ok_def h assms)
  have "binding v' = binding v" by (simp add: binding_def fun_eq_iff a)
  then have x: "view_execution_id v' = view_execution_id v" unfolding view_execution_id_def assms by (simp only:)
  show "bound_ok view v' = bound_ok view v"
    by (simp add: bound_ok_def check_fallback_admission_def published_identity_def h e a x assms)
qed

lemma requested_ok:
  assumes "apply_resume_requested v e = Inr v'" and "resume_ok v" and "fullmatch rx_timestamp (sfield ''dispatched_at'' e)"
    and "fullmatch rx_sha64 (sfield ''nonce'' e)"
  shows "resume_ok v'"
proof -
  from assms(1) obtain cap where stage: "map_of RESUME_STAGES (sfield ''stage'' e) = Some (av_state v, cap)"
    and attempt: "ifield ''attempt'' e = av_resume_attempts v (sfield ''stage'' e) + 1"
    "\<forall>n. cap = Some n \<longrightarrow> ifield ''attempt'' e \<le> int n - 1"
    and v': "v' = v\<lparr>av_resume_attempts := (av_resume_attempts v)(sfield ''stage'' e := ifield ''attempt'' e),
        av_pending_resume := Some \<lparr>pr_stage = sfield ''stage'' e, pr_nonce = sfield ''nonce'' e,
          pr_attempt = ifield ''attempt'' e, pr_dispatched_at = sfield ''dispatched_at'' e, pr_bound_run_id = None\<rparr>\<rparr>"
    by (rule apply_resume_requestedE)
  have "0 \<le> av_resume_attempts v (sfield ''stage'' e)" using assms(2) by (simp add: resume_ok_def)
  with stage attempt assms(2-4) show ?thesis by (simp add: v' resume_ok_def)
qed

lemma abandoned_ok: "apply_resume_abandoned v e = Inr v' \<Longrightarrow> resume_ok v \<Longrightarrow> resume_ok v'"
  by (erule apply_resume_abandonedE) (simp add: resume_ok_def)

lemma bound_run_ok:
  "apply_resume_bound v r = Inr v' \<Longrightarrow> resume_ok v \<Longrightarrow> 1 \<le> ifield ''run_id'' (jfield ''evidence'' r) \<Longrightarrow> resume_ok v'"
  by (erule apply_resume_boundE) (simp add: resume_ok_def)

lemma requested_time:
  assumes "validate_record_schema r = Inr r'" and "sfield ''kind'' r = ''resume_requested''"
  shows "fullmatch rx_timestamp (sfield ''dispatched_at'' (jfield ''evidence'' r))"
    and "fullmatch rx_sha64 (sfield ''nonce'' (jfield ''evidence'' r))"
proof -
  obtain l where "resume_requested_schema (jfield ''evidence'' r) l = None"
    using record_evidence [OF assms(1)] assms(2) by (auto simp: evidence_schema_def)
  note e = required_field [OF this [unfolded resume_requested_schema_def]]
  show "fullmatch rx_timestamp (sfield ''dispatched_at'' (jfield ''evidence'' r))"
    "fullmatch rx_sha64 (sfield ''nonce'' (jfield ''evidence'' r))"
    using e [of "''dispatched_at''" TIMESTAMP] e [of "''nonce''" SHA64] by (auto simp: ledger_simps dest: sfield_str)
qed

lemma bound_run_positive:
  assumes "validate_record_schema r = Inr r'" and "sfield ''kind'' r = ''resume_bound''"
  shows "1 \<le> ifield ''run_id'' (jfield ''evidence'' r)"
proof -
  obtain l where "resume_bound_schema (jfield ''evidence'' r) l = None"
    using record_evidence [OF assms(1)] assms(2) by (auto simp: evidence_schema_def)
  from required_field [OF this [unfolded resume_bound_schema_def], of "''run_id''" POSITIVE] show ?thesis
    by (auto simp: ledger_simps ifield_def)
qed

lemma record_kind:
  assumes "validate_record_schema r = Inr r'"
  shows "sfield ''kind'' r \<in> {''transition'', ''resume_requested'', ''resume_bound'', ''resume_abandoned''}"
  using record_fields(5) [OF assms] by (auto dest: sfield_str)

section \<open>Every accepted record keeps the invariant\<close>

lemma same_bindings: "lv_repository_id w = lv_repository_id view \<Longrightarrow> lv_issue_number w = lv_issue_number view \<Longrightarrow>
    bound_ok w v = bound_ok view v"
  by (simp add: bound_ok_def published_identity_def)

lemma view_ok_set:
  assumes "view_ok view" and "av_authorization_id v = a" "fullmatch rx_authorization_id a" "path_ok v" "evidence_ok v"
    "resume_ok v" "bound_ok view v"
    and "lv_authorizations w = lv_authorizations view" "lv_repository_id w = lv_repository_id view"
      "lv_issue_number w = lv_issue_number view"
    and "set (lv_claimed w) = insert a (set (lv_claimed view))" "distinct (lv_claimed w)"
    and "\<forall>b. lv_active w = Some b \<longleftrightarrow> (if b = a then \<not> av_terminal v
           else \<exists>u. lv_authorizations view b = Some u \<and> \<not> av_terminal u)"
  shows "view_ok (set_authorization a v w)"
proof -
  have b: "bound_ok (set_authorization a v w) = bound_ok view"
    by (intro ext same_bindings) (simp_all add: set_authorization_def assms)
  have au: "lv_authorizations (set_authorization a v w) = (lv_authorizations view)(a \<mapsto> v)"
    "lv_claimed (set_authorization a v w) = lv_claimed w" "lv_active (set_authorization a v w) = lv_active w"
    by (simp_all add: set_authorization_def assms)
  show ?thesis
    unfolding view_ok_def b au
  proof (intro conjI allI impI)
    show "set (lv_claimed w) = dom ((lv_authorizations view)(a \<mapsto> v))"
      using assms(1,11) by (simp add: view_ok_def)
  qed (use assms(2-7,12,13) view_okD [OF assms(1)] in \<open>auto split: if_splits\<close>)
qed

lemma transition_ok:
  assumes "view_ok view" and "validate_record_schema r = Inr r'" and "sfield ''kind'' r = ''transition''"
    and "ifield ''repository_id'' r = lv_repository_id view" "ifield ''issue_number'' r = lv_issue_number view"
    and "apply_transition view r = Inr v1"
  shows "view_ok v1"
  using assms(6)
proof (cases rule: apply_transitionE)
  case claim
  let ?a = "sfield ''authorization_id'' r"
  let ?v = "\<lparr>av_authorization_id = ?a, av_state = AUTHORIZED, av_records = [], av_evidence = [AUTHORIZED \<mapsto> jfield ''evidence'' r],
     av_pending_resume = None, av_resume_attempts = \<lambda>stage. 0\<rparr>"
  note ok = claimed_ok [OF record_texts(1) [OF assms(2)] transition_evidence [OF assms(2,3), unfolded claim(1)] refl]
  have none: "\<forall>b u. lv_authorizations view b = Some u \<longrightarrow> av_terminal u"
    using assms(1) claim(4) unfolding view_ok_def by (metis option.distinct(1))
  have "view_ok (set_authorization ?a ?v (view\<lparr>lv_claimed := lv_claimed view @ [?a], lv_active := Some ?a\<rparr>))"
    using assms(1) claim(3) none record_texts(1) [OF assms(2)] ok
    by (intro view_ok_set [OF assms(1)]) (auto simp: view_ok_def av_terminal_def TERMINAL_STATES_def)
  then show ?thesis unfolding claim(7) .
next
  case (move v)
  let ?a = "sfield ''authorization_id'' r" and ?s = "sfield ''state'' r"
  note o = view_okD [OF assms(1) move(1)]
  have states: "?s \<in> set STATES" by (rule record_texts(2) [OF assms(2)])
  note new = new_state [OF o(3) move(3) states]
  have "\<not> av_terminal v"
    using legal_ended [OF new(1)] ended_terminal [of "av_state v"] o(3) by (simp add: av_terminal_def path_ok_def)
  then have active: "lv_active view = Some ?a" using assms(1) move(1) unfolding view_ok_def by blast
  let ?w = "if ?s \<in> set TERMINAL_STATES then view\<lparr>lv_active := None\<rparr> else view"
  have claimed: "?a \<in> set (lv_claimed view)" using assms(1) move(1) by (auto simp: view_ok_def)
  have act: "\<forall>b. b \<noteq> ?a \<longrightarrow> \<not> (\<exists>u. lv_authorizations view b = Some u \<and> \<not> av_terminal u)"
    using active_only [OF assms(1) active] by blast
  have "view_ok (set_authorization ?a (moved ?s (jfield ''evidence'' r) v) ?w)"
  proof (rule view_ok_set [OF assms(1)])
    show "bound_ok view (moved ?s (jfield ''evidence'' r) v)"
      by (rule moved_bound [OF o(3) move(3) states o(6) move(6) refl refl assms(4,5)])
    show "path_ok (moved ?s (jfield ''evidence'' r) v)" by (rule moved_path [OF o(3) move(3) states])
    show "evidence_ok (moved ?s (jfield ''evidence'' r) v)" by (rule moved_evidence [OF o(4) transition_evidence [OF assms(2,3)]])
    show "resume_ok (moved ?s (jfield ''evidence'' r) v)" by (rule moved_resume [OF o(5)])
    show "\<forall>b. lv_active ?w = Some b \<longleftrightarrow> (if b = ?a then \<not> av_terminal (moved ?s (jfield ''evidence'' r) v)
         else \<exists>u. lv_authorizations view b = Some u \<and> \<not> av_terminal u)"
      using act active by (simp add: av_terminal_def)
    show "set (lv_claimed ?w) = insert ?a (set (lv_claimed view))" using claimed by auto
    show "distinct (lv_claimed ?w)" using assms(1) by (simp add: view_ok_def)
  qed (simp_all add: o(1,2))
  then show ?thesis unfolding move(7) moved_def .
qed

lemma resume_record_ok:
  assumes "view_ok view" and "validate_record_schema r = Inr r'" and "apply_resume view r = Inr v1"
    and "sfield ''kind'' r \<noteq> ''transition''"
  shows "view_ok v1"
  using assms(3)
proof (cases rule: apply_resumeE)
  case (1 v v')
  let ?a = "sfield ''authorization_id'' r"
  note o = view_okD [OF assms(1) 1(1)]
  note same = resume_keeps [OF 1(6)]
  have resume: "resume_ok v'"
    using 1(6) o(5) requested_time [OF assms(2)] bound_run_positive [OF assms(2)] record_kind [OF assms(2)] assms(4)
    by (auto split: if_splits dest: requested_ok abandoned_ok bound_run_ok)
  have "view_ok (set_authorization ?a v' view)"
  proof (rule view_ok_set [OF assms(1) _ o(2) _ _ resume])
    show "av_authorization_id v' = ?a" using same o(1) by simp
    show "path_ok v'" "evidence_ok v'" "bound_ok view v'" using same_view_ok [of v' v] same o(3,4,6) by simp_all
    have "?a \<in> set (lv_claimed view)" using assms(1) 1(1) by (auto simp: view_ok_def)
    then show "set (lv_claimed view) = insert ?a (set (lv_claimed view))" by (rule insert_absorb [symmetric])
    show "distinct (lv_claimed view)" using assms(1) by (simp add: view_ok_def)
    have "av_terminal v' = av_terminal v" using same by (simp add: av_terminal_def)
    then show "\<forall>b. lv_active view = Some b \<longleftrightarrow> (if b = ?a then \<not> av_terminal v'
         else \<exists>u. lv_authorizations view b = Some u \<and> \<not> av_terminal u)"
      using assms(1) 1(1) by (simp add: view_ok_def)
  qed simp_all
  then show ?thesis unfolding 1(7) .
qed


lemma record_applied_ok: "view_ok view \<Longrightarrow> view_ok (record_applied r view)"
proof -
  assume ok: "view_ok view"
  let ?a = "sfield ''authorization_id'' r"
  have b: "bound_ok (record_applied r view) = bound_ok view"
    by (intro ext same_bindings) (simp_all add: record_applied_def Let_def)
  have fields: "lv_claimed (record_applied r view) = lv_claimed view" "lv_active (record_applied r view) = lv_active view"
    "lv_authorizations (record_applied r view) = (lv_authorizations view)
       (?a := map_option (\<lambda>v. v\<lparr>av_records := av_records v @ [r]\<rparr>) (lv_authorizations view ?a))"
    by (simp_all add: record_applied_def Let_def)
  have same: "path_ok (v\<lparr>av_records := rs\<rparr>) = path_ok v" "evidence_ok (v\<lparr>av_records := rs\<rparr>) = evidence_ok v"
    "bound_ok view (v\<lparr>av_records := rs\<rparr>) = bound_ok view v" for v rs
    by (rule same_view_ok; simp)+
  have other: "resume_ok (v\<lparr>av_records := rs\<rparr>) = resume_ok v" "av_terminal (v\<lparr>av_records := rs\<rparr>) = av_terminal v" for v rs
    by (simp_all add: resume_ok_def av_terminal_def)
  show ?thesis
  proof (cases "lv_authorizations view ?a")
    case None
    then have "lv_authorizations (record_applied r view) = lv_authorizations view" unfolding fields by (simp add: fun_upd_idem)
    with ok show ?thesis by (simp add: view_ok_def fields(1,2) b)
  next
    case (Some v)
    have dom: "dom (lv_authorizations (record_applied r view)) = dom (lv_authorizations view)"
      using Some unfolding fields by auto
    have auth: "\<exists>u rs. lv_authorizations view x = Some u \<and> w = u\<lparr>av_records := rs\<rparr>"
      if "lv_authorizations (record_applied r view) x = Some w" for x w
    proof (cases "x = ?a")
      case False
      then have "lv_authorizations view x = Some w" using that unfolding fields by simp
      then show ?thesis by (intro exI [of _ w] exI [of _ "av_records w"]) simp
    qed (use that Some in \<open>auto simp: fields\<close>)
    have kept: "\<exists>rs. lv_authorizations (record_applied r view) x = Some (u\<lparr>av_records := rs\<rparr>)"
      if "lv_authorizations view x = Some u" for x u
    proof (cases "x = ?a")
      case False
      then have "lv_authorizations (record_applied r view) x = Some u" using that unfolding fields by simp
      then show ?thesis by (intro exI [of _ "av_records u"]) simp
    qed (use that Some in \<open>auto simp: fields\<close>)
    show ?thesis
      unfolding view_ok_def b dom fields(1,2)
    proof (intro conjI allI impI)
      fix x w assume "lv_authorizations (record_applied r view) x = Some w"
      then obtain u rs where u: "lv_authorizations view x = Some u" "w = u\<lparr>av_records := rs\<rparr>" using auth by blast
      note o = view_okD [OF ok u(1)]
      show "av_authorization_id w = x" "fullmatch rx_authorization_id x" "path_ok w" "evidence_ok w" "resume_ok w" "bound_ok view w"
        using o by (simp_all add: u(2) same other)
    next
      show "set (lv_claimed view) = dom (lv_authorizations view)" "distinct (lv_claimed view)" using ok by (simp_all add: view_ok_def)
    next
      fix x
      show "(lv_active view = Some x) = (\<exists>w. lv_authorizations (record_applied r view) x = Some w \<and> \<not> av_terminal w)"
        unfolding view_ok_active [OF ok] using auth kept other(2) by metis
    qed
  qed
qed

section \<open>The refinement\<close>

definition abs_view :: "ledger_view \<Rightarrow> protocol" where
  "abs_view view = \<lparr>p_phase = \<lambda>a. map_option (\<lambda>v. phase_of (av_state v)) (lv_authorizations view a), p_active = lv_active view\<rparr>"

definition event_from :: "json \<Rightarrow> event" where
  "event_from r =
     (if sfield ''kind'' r = ''transition'' then Enter (sfield ''authorization_id'' r) (phase_of (sfield ''state'' r))
      else Resume (sfield ''authorization_id'' r))"

lemma abs_record_applied [simp]: "abs_view (record_applied r view) = abs_view view"
  by (auto simp: abs_view_def record_applied_def Let_def option.map_comp comp_def)

lemma abs_set_authorization:
  "abs_view (set_authorization a v view) =
   (abs_view view)\<lparr>p_phase := (p_phase (abs_view view))(a \<mapsto> phase_of (av_state v))\<rparr>"
  by (auto simp: abs_view_def set_authorization_def)

lemma protocol_ok_abs:
  assumes "view_ok view"
  shows "protocol_ok (abs_view view)"
proof -
  have "av_terminal v = ended (phase_of (av_state v))" if "lv_authorizations view a = Some v" for a v
    using ended_terminal [of "av_state v"] view_okD(3) [OF assms that] by (simp add: av_terminal_def path_ok_def)
  then show ?thesis using view_ok_active [OF assms] by (auto simp: protocol_ok_def abs_view_def)
qed

lemma transition_step:
  assumes "view_ok view" and "validate_record_schema r = Inr r'" and "apply_transition view r = Inr v1"
    and "sfield ''kind'' r = ''transition''"
  shows "protocol_step (abs_view view) (event_from r) (abs_view v1)"
  using assms(3)
proof (cases rule: apply_transitionE)
  case claim
  let ?a = "sfield ''authorization_id'' r"
  have "protocol_step (abs_view view) (Enter ?a Authorized)
      ((abs_view view)\<lparr>p_phase := (p_phase (abs_view view))(?a \<mapsto> Authorized), p_active := Some ?a\<rparr>)"
    by (rule protocol_step.claim) (simp_all add: abs_view_def claim(2,4))
  then show ?thesis
    unfolding claim(7) abs_set_authorization by (simp add: event_from_def assms(4) claim(1) phase_of_def abs_view_def)
next
  case (move v)
  let ?a = "sfield ''authorization_id'' r" and ?s = "sfield ''state'' r"
  note o = view_okD [OF assms(1) move(1)]
  have states: "?s \<in> set STATES" by (rule record_texts(2) [OF assms(2)])
  note new = new_state [OF o(3) move(3) states]
  have "\<not> av_terminal v"
    using legal_ended [OF new(1)] ended_terminal [of "av_state v"] o(3) by (simp add: av_terminal_def path_ok_def)
  then have active: "p_active (abs_view view) = Some ?a" using view_ok_active [OF assms(1)] move(1) by (simp add: abs_view_def)
  have phase: "p_phase (abs_view view) ?a = Some (phase_of (av_state v))" by (simp add: abs_view_def move(1))
  have event: "event_from r = Enter ?a (phase_of ?s)" by (simp add: event_from_def assms(4))
  show ?thesis
  proof (cases "?s \<in> set TERMINAL_STATES")
    case True
    then have e: "ended (phase_of ?s)" using ended_terminal [OF states] by blast
    show ?thesis
      using protocol_step.finish [OF active phase new(1) e] True
      unfolding event move(7) abs_set_authorization by (simp add: abs_view_def)
  next
    case False
    then have e: "\<not> ended (phase_of ?s)" using ended_terminal [OF states] by blast
    show ?thesis
      using protocol_step.go_on [OF active phase new(1) e] False
      unfolding event move(7) abs_set_authorization by simp
  qed
qed

lemma resume_step:
  assumes "apply_resume view r = Inr v1" and "sfield ''kind'' r \<noteq> ''transition''"
  shows "protocol_step (abs_view view) (event_from r) (abs_view v1)"
  using assms(1)
proof (cases rule: apply_resumeE)
  case (1 v v')
  have "abs_view v1 = abs_view view"
    unfolding 1(7) abs_set_authorization using resume_keeps [OF 1(6)] 1(1) by (auto simp: abs_view_def)
  then show ?thesis
    using assms(2) 1(3) by (simp add: event_from_def protocol_step.resume abs_view_def)
qed

lemma apply_record_step:
  assumes "view_ok view" and "apply_record verify trust provenance view r index = Inr view'"
  shows "view_ok view' \<and> protocol_step (abs_view view) (event_from (json_sorted r)) (abs_view view')"
  using assms(2)
proof (rule apply_recordE)
  fix v1
  assume valid: "validate_record_schema (json_sorted r) = Inr (json_sorted r)"
    and ids: "ifield ''repository_id'' (json_sorted r) = lv_repository_id view"
      "ifield ''issue_number'' (json_sorted r) = lv_issue_number view"
    and fold: "(if sfield ''kind'' (json_sorted r) = ''transition'' then apply_transition view (json_sorted r)
          else apply_resume view (json_sorted r)) = Inr v1"
    and view': "view' = record_applied (json_sorted r) v1"
  show ?thesis
  proof (cases "sfield ''kind'' (json_sorted r) = ''transition''")
    case True
    with fold have v1: "apply_transition view (json_sorted r) = Inr v1" by simp
    show ?thesis
      using record_applied_ok [OF transition_ok [OF assms(1) valid True ids v1]] transition_step [OF assms(1) valid v1 True]
      by (simp add: view')
  next
    case False
    with fold have v1: "apply_resume view (json_sorted r) = Inr v1" by simp
    show ?thesis
      using record_applied_ok [OF resume_record_ok [OF assms(1) valid v1 False]] resume_step [OF v1 False] by (simp add: view')
  qed
qed

lemma verify_from_run:
  assumes "view_ok view" and "verify_from verify trust provenance view entries = Inr view'"
  shows "view_ok view' \<and> protocol_run (abs_view view) (map (\<lambda>e. event_from (json_sorted (fst e))) entries) (abs_view view')"
  using assms
proof (induction entries arbitrary: view)
  case Nil
  then show ?case by (auto intro: protocol_run.idle)
next
  case (Cons e entries)
  obtain r index where e: "e = (r, index)" by (cases e)
  obtain w where w: "apply_record verify trust provenance view r index = Inr w" "verify_from verify trust provenance w entries = Inr view'"
    using Cons.prems(2) by (auto simp: e rbind_Inr_iff)
  note step = apply_record_step [OF Cons.prems(1) w(1)]
  with Cons.IH [OF _ w(2)] show ?case by (auto simp: e intro: protocol_run.more)
qed

end
