(* ===== verification/HashChain.thy ===== *)
theory HashChain
  imports Prelude
begin

text \<open>
  The contract of a hash chain: every record carries the digest of its predecessor and its position. The ledger of an
  issue provides it; what its readers rely on is that the digest of the last record fixes the whole chain, as far as
  no two records have the same digest.
\<close>

fun chained :: "('r \<Rightarrow> 'h) \<Rightarrow> ('r \<Rightarrow> 'h option) \<Rightarrow> ('r \<Rightarrow> int) \<Rightarrow> 'h option \<Rightarrow> int \<Rightarrow> 'r list \<Rightarrow> bool" where
  "chained digest prev pos h n [] = True"
| "chained digest prev pos h n (r # rs) = (prev r = h \<and> pos r = n \<and> chained digest prev pos (Some (digest r)) (n + 1) rs)"

locale hash_chain =
  fixes digest :: "'r \<Rightarrow> 'h"
    and prev :: "'r \<Rightarrow> 'h option"
    and pos :: "'r \<Rightarrow> int"
    and valid :: "'r \<Rightarrow> bool"
    and same :: "'r \<Rightarrow> 'r \<Rightarrow> bool"
  assumes same_prev: "valid r \<Longrightarrow> valid s \<Longrightarrow> same r s \<Longrightarrow> prev r = prev s"
    and same_pos: "valid r \<Longrightarrow> valid s \<Longrightarrow> same r s \<Longrightarrow> pos r = pos s"
begin

text \<open>The digest under which the next record continues a chain.\<close>

definition head :: "'h option \<Rightarrow> 'r list \<Rightarrow> 'h option" where
  "head h rs = (if rs = [] then h else Some (digest (last rs)))"

lemma chained_snoc:
  "chained digest prev pos h n (rs @ [r]) \<longleftrightarrow>
   chained digest prev pos h n rs \<and> prev r = head h rs \<and> pos r = n + int (length rs)"
  by (induction rs arbitrary: h n) (auto simp: head_def)

lemma chained_nth:
  "chained digest prev pos h n rs \<Longrightarrow> i < length rs \<Longrightarrow>
   pos (rs ! i) = n + int i \<and> prev (rs ! i) = (if i = 0 then h else Some (digest (rs ! (i - 1))))"
proof (induction rs arbitrary: h n i)
  case (Cons r rs)
  show ?case
  proof (cases i)
    case (Suc j)
    then show ?thesis using Cons.prems Cons.IH [of "Some (digest r)" "n + 1" j] by (cases j) auto
  qed (use Cons.prems in simp)
qed simp

lemma head_fixes_chain:
  assumes "chained digest prev pos h n rs" and "chained digest prev pos h n ss"
    and "list_all valid rs" and "list_all valid ss"
    and "\<forall>r \<in> set rs. \<forall>s \<in> set ss. digest r = digest s \<longrightarrow> same r s"
    and "rs \<noteq> []" and "ss \<noteq> []" and "digest (last rs) = digest (last ss)"
  shows "list_all2 same rs ss"
  using assms
proof (induction rs arbitrary: ss rule: rev_induct)
  case (snoc r rs)
  obtain ss' s where ss: "ss = ss' @ [s]" using snoc.prems(7) by (cases ss rule: rev_cases) auto
  have rs: "same r s" "valid r" "valid s" using snoc.prems by (auto simp: ss)
  have chains: "chained digest prev pos h n rs" "chained digest prev pos h n ss'"
    and heads: "head h rs = head h ss'" and lengths: "length rs = length ss'"
    using snoc.prems(1,2) same_prev [OF rs(2,3,1)] same_pos [OF rs(2,3,1)] by (simp_all add: ss chained_snoc)
  have "list_all2 same rs ss'"
  proof (cases "rs = []")
    case True
    then show ?thesis using lengths by simp
  next
    case False
    then have ne: "ss' \<noteq> []" using lengths by auto
    have "digest (last rs) = digest (last ss')" using heads False ne by (simp add: head_def)
    then show ?thesis using snoc.IH [OF chains _ _ _ False ne] snoc.prems(3-5) by (simp add: ss)
  qed
  then show ?case by (simp add: ss rs(1) list_all2_appendI)
qed simp

end

end
