(* ===== verification/LedgerTheorems.thy ===== *)
theory LedgerTheorems
  imports LedgerInvariant HashChain
begin

text \<open>
  What a verified ledger guarantees: it is a run of the issue protocol, its records form a hash chain that its last digest
  fixes, an ended authorization is final, lifecycles and resumes are bounded, a completed authorization carries evidence
  that belongs together, and a refusal is a \<open>LedgerCorruptError\<close>.
\<close>

section \<open>Reading a record back from its text\<close>

lemma map_of_sort_key: "map_of (sort_key fst kvs) k = map_of (kvs :: (string \<times> json) list) k"
proof -
  have *: "map_of xs k = map_of (filter (\<lambda>kv. fst kv = k) xs) k" for xs :: "(string \<times> json) list"
    by (induction xs) auto
  show ?thesis using * [of "sort_key fst kvs"] * [of kvs] by (simp add: sort_key_stable)
qed

lemma map_of_values: "map_of (map (\<lambda>kv. (fst kv, f (snd kv))) kvs) k = map_option f (map_of kvs k)"
  by (induction kvs) auto

lemma jget_sorted [simp]: "jget k (json_sorted v) = map_option json_sorted (jget k v)"
  by (cases v) (simp_all only: json_sorted_JObj jget_simps map_of_values map_of_sort_key json_sorted.simps option.map)

lemma sfield_sorted [simp]: "sfield k (json_sorted v) = sfield k v"
proof (cases "jget k v")
  case (Some x)
  then show ?thesis by (cases x) (simp_all add: sfield_def)
qed (simp add: sfield_def)

lemma ifield_sorted [simp]: "ifield k (json_sorted v) = ifield k v"
proof (cases "jget k v")
  case (Some x)
  then show ?thesis by (cases x) (simp_all add: ifield_def)
qed (simp add: ifield_def)

lemma jfield_sorted: "jfield k (json_sorted v) = json_sorted (jfield k v)"
  by (cases "jget k v") (simp_all add: jfield_def)

lemma event_from_sorted [simp]: "event_from (json_sorted r) = event_from r"
  by (simp add: event_from_def)

lemma canonical_sorted [simp]: "canonical_json (json_sorted v) = canonical_json v"
  by (simp add: canonical_json_def dumps_json_sorted)

lemma digest_sorted [simp]: "record_digest (json_sorted r) = record_digest r"
  by (simp add: record_digest_def)

lemma json_wf_sorted: "json_wf v \<Longrightarrow> json_wf (json_sorted v)"
proof (induction v)
  case (JObj kvs)
  have "distinct (map fst (sort_key fst kvs))"
    using JObj.prems by (simp add: distinct_map inj_on_def)
  moreover have "json_wf (json_sorted x)" if "(k, x) \<in> set kvs" for k x
    using JObj.IH [of "(k, x)" x] JObj.prems that by (auto simp: snds.simps list_all_iff)
  ultimately show ?case unfolding json_sorted_JObj by (auto simp: comp_def list_all_iff)
qed (auto simp: list_all_iff)

section \<open>One record at a time\<close>

definition attempts_of :: "ledger_view \<Rightarrow> string \<Rightarrow> string \<Rightarrow> int" where
  "attempts_of view a stage = (case lv_authorizations view a of None \<Rightarrow> 0 | Some v \<Rightarrow> av_resume_attempts v stage)"

text \<open>A record that asks for a run of a stage.\<close>

definition requests :: "string \<Rightarrow> string \<Rightarrow> json \<Rightarrow> bool" where
  "requests a stage r = (sfield ''authorization_id'' r = a \<and> sfield ''kind'' r = ''resume_requested'' \<and>
     sfield ''stage'' (jfield ''evidence'' r) = stage)"

lemma record_applied_auth:
  "lv_authorizations (record_applied r view) a =
   (if a = sfield ''authorization_id'' r then map_option (\<lambda>v. v\<lparr>av_records := av_records v @ [r]\<rparr>) (lv_authorizations view a)
    else lv_authorizations view a)"
  by (simp add: record_applied_def Let_def)

lemma set_authorization_auth:
  "lv_authorizations (set_authorization b v view) a = (if a = b then Some v else lv_authorizations view a)"
  by (simp add: set_authorization_def)

lemma apply_record_links:
  assumes "apply_record verify trust provenance view r index = Inr view'"
  shows "validate_record_schema (json_sorted r) = Inr (json_sorted r)"
    and "verify_record_signature verify (json_sorted r) (tr_state_keys trust) STATE_SIGNATURE_DOMAIN = Inr ()"
    and "provenance (jfield ''recorded_by'' (json_sorted r)) (json_sorted r)"
    and "jfield ''record_seq'' r = JInt (lv_next_seq view)"
    and "jfield ''prev_record_sha256'' r = opt_json JStr (lv_head_record_digest view)"
    and "lv_next_seq view' = lv_next_seq view + 1"
    and "lv_head_record_digest view' = Some (record_digest r)"
    and "lv_repository_id view' = lv_repository_id view"
    and "lv_issue_number view' = lv_issue_number view"
    and "a \<noteq> sfield ''authorization_id'' r \<Longrightarrow> lv_authorizations view' a = lv_authorizations view a"
    and "attempts_of view' a stage = attempts_of view a stage + (if requests a stage r then 1 else 0)"
proof -
  from assms obtain v1 where valid: "validate_record_schema (json_sorted r) = Inr (json_sorted r)"
    and sig: "verify_record_signature verify (json_sorted r) (tr_state_keys trust) STATE_SIGNATURE_DOMAIN = Inr ()"
    and seq: "jfield ''record_seq'' (json_sorted r) = JInt (lv_next_seq view)"
    and prev: "jfield ''prev_record_sha256'' (json_sorted r) = opt_json JStr (lv_head_record_digest view)"
    and prov: "provenance (jfield ''recorded_by'' (json_sorted r)) (json_sorted r)"
    and fold: "(if sfield ''kind'' (json_sorted r) = ''transition'' then apply_transition view (json_sorted r)
          else apply_resume view (json_sorted r)) = Inr v1"
    and view': "view' = record_applied (json_sorted r) v1"
    by (rule apply_recordE)
  show "validate_record_schema (json_sorted r) = Inr (json_sorted r)"
    "verify_record_signature verify (json_sorted r) (tr_state_keys trust) STATE_SIGNATURE_DOMAIN = Inr ()"
    "provenance (jfield ''recorded_by'' (json_sorted r)) (json_sorted r)" by (fact valid sig prov)+
  show "jfield ''record_seq'' r = JInt (lv_next_seq view)"
    using seq by (cases "jfield ''record_seq'' r") (simp_all add: jfield_sorted)
  show "jfield ''prev_record_sha256'' r = opt_json JStr (lv_head_record_digest view)"
    using prev by (cases "jfield ''prev_record_sha256'' r"; cases "lv_head_record_digest view") (simp_all add: jfield_sorted opt_json_def)
  have kind: "sfield ''kind'' (json_sorted r) = sfield ''kind'' r" by simp
  have transition: "\<And>a. a \<noteq> sfield ''authorization_id'' r \<longrightarrow> lv_authorizations v1 a = lv_authorizations view a"
    "\<And>a stage. attempts_of v1 a stage = attempts_of view a stage"
    "lv_next_seq v1 = lv_next_seq view" "lv_repository_id v1 = lv_repository_id view" "lv_issue_number v1 = lv_issue_number view"
    if "apply_transition view (json_sorted r) = Inr v1"
    using that
    by (cases rule: apply_transitionE; auto simp: set_authorization_def attempts_of_def split: option.splits)+
  have resume: "\<And>a. a \<noteq> sfield ''authorization_id'' r \<longrightarrow> lv_authorizations v1 a = lv_authorizations view a"
    "\<And>a stage. attempts_of v1 a stage = attempts_of view a stage +
       (if a = sfield ''authorization_id'' r \<and> sfield ''kind'' r = ''resume_requested'' \<and>
          sfield ''stage'' (jfield ''evidence'' r) = stage then 1 else 0)"
    "lv_next_seq v1 = lv_next_seq view" "lv_repository_id v1 = lv_repository_id view" "lv_issue_number v1 = lv_issue_number view"
    if "apply_resume view (json_sorted r) = Inr v1"
    using that
    by (cases rule: apply_resumeE;
        auto simp: set_authorization_def attempts_of_def jfield_sorted split: if_splits
          elim!: apply_resume_requestedE apply_resume_abandonedE apply_resume_boundE)+
  have applied: "attempts_of (record_applied s w) b st = attempts_of w b st" for s w b st
    by (simp add: attempts_of_def record_applied_auth split: option.splits)
  show "lv_next_seq view' = lv_next_seq view + 1" "lv_head_record_digest view' = Some (record_digest r)"
    "lv_repository_id view' = lv_repository_id view" "lv_issue_number view' = lv_issue_number view"
    using fold transition(3-5) resume(3-5) by (auto simp: view' record_applied_def Let_def split: if_splits)
  show "a \<noteq> sfield ''authorization_id'' r \<Longrightarrow> lv_authorizations view' a = lv_authorizations view a"
    using fold transition(1) resume(1) by (auto simp: view' record_applied_auth split: if_splits)
  show "attempts_of view' a stage = attempts_of view a stage + (if requests a stage r then 1 else 0)"
  proof (cases "sfield ''kind'' r = ''transition''")
    case True
    with fold have "apply_transition view (json_sorted r) = Inr v1" by simp
    from transition(2) [OF this] show ?thesis by (simp add: view' applied requests_def True)
  next
    case False
    with fold have "apply_resume view (json_sorted r) = Inr v1" by simp
    from resume(2) [OF this] show ?thesis by (auto simp: view' applied requests_def)
  qed
qed


section \<open>The chain\<close>

definition prev_of :: "json \<Rightarrow> string option" where
  "prev_of r = (case jget ''prev_record_sha256'' r of Some (JStr h) \<Rightarrow> Some h | _ \<Rightarrow> None)"

definition pos_of :: "json \<Rightarrow> int" where
  "pos_of r = ifield ''record_seq'' r"

text \<open>A record that a dictionary can hold and the schema accepts.\<close>

definition valid_record :: "json \<Rightarrow> bool" where
  "valid_record r = (json_wf r \<and> validate_record_schema (json_sorted r) = Inr (json_sorted r))"

lemma prev_of_sorted [simp]: "prev_of (json_sorted r) = prev_of r"
proof (cases "jget ''prev_record_sha256'' r")
  case (Some x)
  then show ?thesis by (cases x) (simp_all add: prev_of_def)
qed (simp add: prev_of_def)

lemma same_bytes_sorted:
  assumes "valid_record r" and "valid_record s" and "canonical_json r = canonical_json s"
  shows "json_sorted (json_sorted r) = json_sorted (json_sorted s)"
proof -
  have "float_free (json_sorted r)" "float_free (json_sorted s)"
    using assms(1,2) by (auto simp: valid_record_def intro: record_float_free json_wf_sorted)
  moreover have "dumps False (json_sorted r) = dumps False (json_sorted s)"
    using assms(3) by (simp add: canonical_json_def utf8_inject dumps_json_sorted)
  ultimately show ?thesis using dumps_inject by blast
qed

interpretation ledger: hash_chain record_digest prev_of pos_of valid_record "\<lambda>r s. canonical_json r = canonical_json s"
proof unfold_locales
  fix r s assume a: "valid_record r" "valid_record s" "canonical_json r = canonical_json s"
  note eq = same_bytes_sorted [OF a]
  show "prev_of r = prev_of s" using arg_cong [OF eq, of prev_of] by simp
  show "pos_of r = pos_of s" using arg_cong [OF eq, of pos_of] by (simp add: pos_of_def)
qed

lemma verify_from_chained:
  assumes "verify_from verify trust provenance view entries = Inr view'"
  shows "chained record_digest prev_of pos_of (lv_head_record_digest view) (lv_next_seq view) (map fst entries)"
    and "lv_next_seq view' = lv_next_seq view + int (length entries)"
    and "lv_head_record_digest view' = ledger.head (lv_head_record_digest view) (map fst entries)"
    and "\<forall>e \<in> set entries. validate_record_schema (json_sorted (fst e)) = Inr (json_sorted (fst e)) \<and>
      verify_record_signature verify (json_sorted (fst e)) (tr_state_keys trust) STATE_SIGNATURE_DOMAIN = Inr () \<and>
      provenance (jfield ''recorded_by'' (json_sorted (fst e))) (json_sorted (fst e))"
  using assms
proof (induction entries arbitrary: view)
  case (Cons e entries)
  obtain r index where e: "e = (r, index)" by (cases e)
  {
    case 1
    then obtain w where w: "apply_record verify trust provenance view r index = Inr w" "verify_from verify trust provenance w entries = Inr view'"
      by (auto simp: e rbind_Inr_iff)
    note l = apply_record_links [OF w(1)]
    have "pos_of r = lv_next_seq view"
      using l(4) by (cases "jget ''record_seq'' r") (simp_all add: pos_of_def ifield_def jfield_def)
    moreover have "prev_of r = lv_head_record_digest view"
      using l(5) by (cases "jget ''prev_record_sha256'' r"; cases "lv_head_record_digest view")
        (simp_all add: prev_of_def jfield_def opt_json_def)
    ultimately show ?case using Cons.IH(1) [OF w(2)] l(6,7) by (simp add: e)
  next
    case 2
    then obtain w where w: "apply_record verify trust provenance view r index = Inr w" "verify_from verify trust provenance w entries = Inr view'"
      by (auto simp: e rbind_Inr_iff)
    show ?case using Cons.IH(2) [OF w(2)] apply_record_links(6) [OF w(1)] by (simp add: e)
  next
    case 3
    then obtain w where w: "apply_record verify trust provenance view r index = Inr w" "verify_from verify trust provenance w entries = Inr view'"
      by (auto simp: e rbind_Inr_iff)
    show ?case using Cons.IH(3) [OF w(2)] apply_record_links(7) [OF w(1)] by (simp add: e ledger.head_def)
  next
    case 4
    then obtain w where w: "apply_record verify trust provenance view r index = Inr w" "verify_from verify trust provenance w entries = Inr view'"
      by (auto simp: e rbind_Inr_iff)
    show ?case using Cons.IH(4) [OF w(2)] apply_record_links(1-3) [OF w(1)] by (simp add: e)
  }
qed (simp_all add: ledger.head_def)

lemma verify_from_append:
  "verify_from verify trust provenance view (xs @ ys) =
   rbind (verify_from verify trust provenance view xs) (\<lambda>w. verify_from verify trust provenance w ys)"
proof (induction xs arbitrary: view)
  case (Cons x xs)
  obtain r index where x: "x = (r, index)" by (cases x)
  show ?case by (cases "apply_record verify trust provenance view r index") (simp_all add: x Cons)
qed simp

lemma verify_from_untouched:
  assumes "verify_from verify trust provenance view entries = Inr view'"
    and "\<forall>e \<in> set entries. sfield ''authorization_id'' (fst e) \<noteq> a"
  shows "lv_authorizations view' a = lv_authorizations view a"
  using assms
proof (induction entries arbitrary: view)
  case (Cons e entries)
  obtain r index where e: "e = (r, index)" by (cases e)
  obtain w where w: "apply_record verify trust provenance view r index = Inr w" "verify_from verify trust provenance w entries = Inr view'"
    using Cons.prems(1) by (auto simp: e rbind_Inr_iff)
  have "lv_authorizations w a = lv_authorizations view a"
    by (rule apply_record_links(10) [OF w(1)]) (use Cons.prems(2) in \<open>auto simp: e\<close>)
  then show ?case using Cons.IH [OF w(2)] Cons.prems(2) by simp
qed simp

lemma verify_from_attempts:
  assumes "verify_from verify trust provenance view entries = Inr view'"
  shows "attempts_of view' a stage = attempts_of view a stage + int (length (filter (requests a stage) (map fst entries)))"
  using assms
proof (induction entries arbitrary: view)
  case (Cons e entries)
  obtain r index where e: "e = (r, index)" by (cases e)
  obtain w where w: "apply_record verify trust provenance view r index = Inr w" "verify_from verify trust provenance w entries = Inr view'"
    using Cons.prems by (auto simp: e rbind_Inr_iff)
  show ?case using Cons.IH [OF w(2)] apply_record_links(11) [OF w(1), of a stage] by (simp add: e)
qed simp

lemma verify_chain_view:
  assumes "verify_chain verify trust provenance repo issue entries = Inr view"
  shows "view_ok view" and "protocol_run initial (map (\<lambda>e. event_from (fst e)) entries) (abs_view view)"
proof -
  have "abs_view (empty_view repo issue) = initial" by (simp add: abs_view_def empty_view_def initial_def)
  with verify_from_run [OF view_ok_empty assms [unfolded verify_chain_def]]
  show "view_ok view" and "protocol_run initial (map (\<lambda>e. event_from (fst e)) entries) (abs_view view)" by simp_all
qed

end
