(* ===== verification/LedgerSample.thy ===== *)
theory LedgerSample
  imports LedgerTheorems
begin

text \<open>
  A ledger that verifies: one authorization from \<open>AUTHORIZED\<close> to \<open>COMPLETED\<close>. Digests that the bindings prescribe
  stay symbolic, so nothing here depends on evaluating SHA-256. The witnesses of the ledger's properties rest on it.
\<close>

section \<open>The size of a text\<close>

lemma utf8_append: "utf8 (s @ t) = utf8 s @ utf8 t"
  by (simp add: utf8_def)

lemma utf8_Cons: "utf8 (c # s) = utf8_char c @ utf8 s"
  by (simp add: utf8_def)

lemma length_utf8: "length (utf8 s) \<le> 2 * length s"
  by (induction s) (auto simp: utf8_def utf8_char_def Let_def)

lemma hex_digit_byte: "n < 16 \<Longrightarrow> length (utf8_char (hex_digit n)) = 1"
  using is_hex_hex_digit [of n] by (auto simp: utf8_char_def is_hex_def Let_def)

lemma length_escape: "length (utf8 (escape_char a c)) \<le> 6"
proof -
  have "(of_char c :: nat) div 16 < 16" by (simp add: less_mult_imp_div_less)
  then show ?thesis
    by (auto simp: escape_char_def Let_def utf8_append utf8_Cons hex_digit_byte utf8_def) (simp_all add: utf8_char_def Let_def)
qed

lemma length_quote: "length (utf8 (quote a s)) \<le> 6 * length s + 2"
proof -
  have "length (utf8 (concat (map (escape_char a) s))) \<le> 6 * length s"
  proof (induction s)
    case (Cons c s)
    then show ?case using length_escape [of a c] by (simp add: utf8_append)
  qed (simp add: utf8_def)
  then show ?thesis by (simp add: quote_def utf8_append utf8_Cons) (simp add: utf8_char_def utf8_def)
qed

lemma length_join: "length (utf8 (join '','' ss)) \<le> sum_list (map (\<lambda>s. Suc (length (utf8 s))) ss)"
  by (induction "'',''" ss rule: join.induct) (auto simp: utf8_append utf8_Cons, simp_all add: utf8_def utf8_char_def)

lemma sum_list_sort: "sum_list (map f (sort_key g xs)) = (sum_list (map f xs) :: nat)"
proof -
  have "sum_mset (mset (map f (sort_key g xs))) = sum_mset (mset (map f xs))" by simp
  then show ?thesis unfolding sum_mset_sum_list .
qed

fun text_weight :: "json \<Rightarrow> nat" where
  "text_weight JNull = 4"
| "text_weight (JBool b) = 5"
| "text_weight (JInt i) = 2 * length (int_text i)"
| "text_weight (JFloat t) = 2 * length t"
| "text_weight (JStr s) = 6 * length s + 2"
| "text_weight (JArr vs) = 2 + sum_list (map (\<lambda>v. Suc (text_weight v)) vs)"
| "text_weight (JObj kvs) = 2 + sum_list (map (\<lambda>kv. 6 * length (fst kv) + 4 + text_weight (snd kv)) kvs)"

lemma length_dumps: "length (utf8 (dumps a v)) \<le> text_weight v"
proof (induction v)
  case (JArr vs)
  have "length (utf8 (join '','' (map (dumps a) vs))) \<le> sum_list (map (\<lambda>v. Suc (text_weight v)) vs)"
    using JArr by (intro order.trans [OF length_join]) (auto simp: comp_def intro!: sum_list_mono)
  then show ?case by (simp add: utf8_append utf8_Cons) (simp add: utf8_def utf8_char_def)
next
  case (JObj kvs)
  let ?entry = "\<lambda>kv. quote a (fst kv) @ '':'' @ dumps a (snd kv)"
  have one: "length (utf8 (?entry kv)) \<le> 6 * length (fst kv) + 3 + text_weight (snd kv)" if "kv \<in> set kvs" for kv
    using JObj [of kv "snd kv"] that length_quote [of a "fst kv"]
    by (simp add: utf8_append utf8_Cons snds.simps) (simp add: utf8_char_def)
  have "length (utf8 (join '','' (map ?entry (sort_key fst kvs)))) \<le>
      sum_list (map (\<lambda>kv. Suc (length (utf8 (?entry kv)))) (sort_key fst kvs))"
    using length_join [of "map ?entry (sort_key fst kvs)"] by (simp add: comp_def)
  also have "\<dots> = sum_list (map (\<lambda>kv. Suc (length (utf8 (?entry kv)))) kvs)"
    by (rule sum_list_sort)
  also have "\<dots> \<le> sum_list (map (\<lambda>kv. 6 * length (fst kv) + 4 + text_weight (snd kv)) kvs)"
    using one by (intro sum_list_mono) fastforce
  finally show ?case unfolding dumps_JObj by (simp add: utf8_append utf8_Cons) (simp add: utf8_def utf8_char_def)
next
  case (JStr s)
  then show ?case using length_quote by simp
next
  case (JInt i)
  then show ?case using length_utf8 by simp
next
  case (JFloat t)
  then show ?case using length_utf8 by simp
qed (simp_all add: utf8_def utf8_char_def)

section \<open>The records\<close>

definition hex40 :: string where "hex40 = replicate 40 (CHR ''a'')"
definition hex64 :: string where "hex64 = replicate 64 (CHR ''a'')"
definition other64 :: string where "other64 = replicate 64 (CHR ''b'')"

definition sample_signature :: string where "sample_signature = replicate 128 (CHR ''a'')"

definition sample_id :: string where "sample_id = AUTHORIZATION_PREFIX @ hex64"
definition sample_time :: string where "sample_time = ''2026-01-01T00:00:00Z''"
definition sample_deadline :: string where "sample_deadline = ''2026-01-02T00:00:00Z''"

definition sample_digest :: string where "sample_digest = ''sha256:'' @ hex64"
definition sample_branch :: string where "sample_branch = ''issue-7-'' @ take 16 hex64"

definition sample_artifact :: "int \<Rightarrow> json" where
  "sample_artifact n = JObj
     [(''aad_sha256'', JStr hex64), (''artifact_digest'', JStr sample_digest), (''artifact_id'', JInt n),
      (''ciphertext_sha256'', JStr hex64), (''recipient_key_id'', JStr hex64), (''run_id'', JInt 5)]"

definition sample_execution :: string where
  "sample_execution = (case execution_identity sample_id 5 hex40 hex64 1 of Inr i \<Rightarrow> i | Inl e \<Rightarrow> '''')"

definition sample_authorized :: json where
  "sample_authorized = JObj
     [(''authorization_envelope_sha256'', JStr hex64), (''authorize_run_id'', JInt 5), (''base_sha'', JStr hex40),
      (''claims'', JObj [(''body_sha256'', JStr hex64), (''issue_updated_at'', JStr sample_time), (''label'', JStr ''hunter''),
         (''owner_login'', JStr ''owner''), (''schema_version'', JStr ''v1''), (''title_sha256'', JStr hex64)]),
      (''compiler_identity_sha256'', JStr hex64), (''control_sha'', JStr hex40),
      (''deadline_published_at'', JStr sample_deadline),
      (''execution_branch'', JStr sample_branch), (''execution_id'', JStr sample_execution),
      (''handoff_artifact'', sample_artifact 1),
      (''lineage'', JObj [(''build_record_id'', JStr ''b''), (''document_id'', JStr ''d''), (''dpm_context_sha256'', JStr hex64),
         (''envelope_id'', JStr ''e''), (''handoff_sha256'', JStr hex64), (''prompt_artifact_id'', JStr ''p''),
         (''prompt_sha256'', JStr hex64), (''reconstruction'', JStr ''EXACT_RECONSTRUCTION_UNAVAILABLE''),
         (''reconstruction_reason'', JStr ''NO_CONFIDENTIAL_DURABLE_STORE''), (''source_handling_record_ids'', JArr [JStr ''s''])]),
      (''prompt_input_manifest_sha256'', JStr hex64),
      (''task_scope'', JObj [(''allowed_paths'', JArr [JStr ''src/a.py'']), (''base_ref'', JStr ''main''), (''base_sha'', JStr hex40),
         (''branch_pattern'', JStr ''issue-*''), (''prohibited_paths'', JArr []), (''task_id'', JStr ''task'')]),
      (''task_scope_sha256'', JStr hex64)]"

definition sample_bound :: json where
  "sample_bound = JObj
     [(''executor_advisory_code'', JNull), (''executor_conclusion'', JStr ''success''), (''executor_job_id'', JInt 6),
      (''result_artifact'', sample_artifact 2), (''result_plaintext_sha256'', JStr other64)]"

definition sample_validated :: json where
  "sample_validated = JObj
     [(''receipt_sha256'', JStr hex64), (''result_sha256'', JStr other64), (''toolchain_sha256'', JStr hex64),
      (''tree_sha'', JStr hex40), (''unsigned_commit_sha'', JStr hex40), (''validation_attempts'', JInt 1),
      (''validation_definition'', JStr hex64), (''validator_run_id'', JInt 8)]"

definition sample_publication :: string where
  "sample_publication = publication_identity
     \<lparr>pb_repository_id = 3, pb_issue_number = 7, pb_authorization_id = sample_id, pb_base_sha = hex40,
      pb_task_scope_sha256 = hex64, pb_execution_id = sample_execution, pb_result_sha256 = other64, pb_tree_sha = hex40,
      pb_unsigned_commit_sha = hex40, pb_control_sha = hex40, pb_writer_login = ''bot''\<rparr>"

definition sample_published :: json where
  "sample_published = JObj
     [(''commit_verified'', JBool True), (''deadline_completed_at'', JStr sample_deadline), (''head_sha'', JStr hex40),
      (''publication_identity'', JStr sample_publication), (''publish_attempts'', JInt 1), (''writer_login'', JStr ''bot'')]"

definition sample_completed :: json where
  "sample_completed = JObj
     [(''draft'', JBool True), (''preflight_conclusion'', JStr ''success''), (''preflight_run_id'', JInt 9),
      (''pull_request_head_sha'', JStr hex40), (''pull_request_node_id'', JStr ''PR_1''), (''pull_request_number'', JInt 11)]"

definition sample_workflow :: string where "sample_workflow = ''.github/workflows/hunter-issue-agent-trigger.yml''"

definition sample_record :: "string \<Rightarrow> string \<Rightarrow> int \<Rightarrow> json \<Rightarrow> string \<Rightarrow> json \<Rightarrow> json" where
  "sample_record kind state n prev role evidence = JObj
     [(''authorization_id'', JStr sample_id), (''evidence'', evidence), (''issue_number'', JInt 7), (''kind'', JStr kind),
      (''prev_record_sha256'', prev), (''record_seq'', JInt n), (''recorded_at'', JStr sample_time),
      (''recorded_by'', JObj [(''head_sha'', JStr hex40), (''job'', JStr role), (''role'', JStr role), (''run_attempt'', JInt 1),
         (''run_id'', JInt 5), (''workflow_path'', JStr sample_workflow)]),
      (''repository_id'', JInt 3), (''schema_version'', JStr RECORD_SCHEMA_VERSION),
      (''signature'', JObj [(''alg'', JStr ''ed25519''), (''domain'', JStr STATE_SIGNATURE_DOMAIN), (''key_id'', JStr hex64),
         (''value'', JStr sample_signature)]),
      (''state'', JStr state)]"

text \<open>What makes such a record acceptable to the schema.\<close>

definition good_evidence :: "validator \<Rightarrow> json \<Rightarrow> bool" where
  "good_evidence f e = ((\<forall>l. f e l = None) \<and> json_sorted e = e \<and> json_wf e \<and> text_weight e \<le> 30000 \<and> jdepth 1 e \<le> 6)"

lemma fullmatch_sha64 [simp]: "fullmatch rx_sha64 (sha256_hex b)"
  by (simp add: rx_sha64_def fullmatch_chars sha256_hex_length sha256_hex_digits)

lemma fullmatch_samples [simp]:
  "fullmatch rx_sha64 hex64" "fullmatch rx_sha64 other64" "fullmatch rx_sha40 hex40" "fullmatch rx_authorization_id sample_id"
  "fullmatch rx_timestamp sample_time" "fullmatch rx_timestamp sample_deadline" "fullmatch rx_sig sample_signature"
  "fullmatch rx_artifact_digest sample_digest" "fullmatch rx_label ''hunter''" "fullmatch rx_login ''owner''"
  "fullmatch rx_login ''bot''" "fullmatch rx_ident ''v1''" "fullmatch rx_ident ''b''" "fullmatch rx_ident ''d''"
  "fullmatch rx_ident ''e''" "fullmatch rx_ident ''p''" "fullmatch rx_ident ''s''" "fullmatch rx_ident ''task''"
  "fullmatch rx_branch sample_branch" "fullmatch rx_branch_glob ''issue-*''" "fullmatch rx_node_id ''PR_1''"
  "fullmatch rx_workflow sample_workflow"
  by code_simp+

lemma role_job: "role \<in> set LEDGER_ROLES \<Longrightarrow> fullmatch rx_job role"
proof -
  have "list_all (fullmatch rx_job) LEDGER_ROLES" by code_simp
  then show "role \<in> set LEDGER_ROLES \<Longrightarrow> fullmatch rx_job role" by (simp add: list_all_iff)
qed

lemma length_hex [simp]: "length hex64 = 64" "length other64 = 64" "length hex40 = 40" "length sample_id = 97"
  "length sample_digest = 71" "length sample_branch = 24" "length sample_signature = 128"
  by (simp_all add: sample_signature_def sample_digest_def sample_branch_def hex64_def other64_def hex40_def sample_id_def AUTHORIZATION_PREFIX_def)

lemma sample_execution_identity: "execution_identity sample_id 5 hex40 hex64 1 = Inr sample_execution"
  by (simp add: sample_execution_def execution_identity_def)

lemma sample_execution_hex [simp]: "fullmatch rx_sha64 sample_execution" "length sample_execution = 64"
  by (simp_all add: sample_execution_def execution_identity_def sha256_hex_length)

lemma sample_publication_hex [simp]: "fullmatch rx_sha64 sample_publication" "length sample_publication = 64"
  by (simp_all add: sample_publication_def publication_identity_def sha256_hex_length)


section \<open>The evidence passes its schema\<close>

lemma v_pattern_ok: "fullmatch r s \<Longrightarrow> v_pattern r (JStr s) l = None"
  by (simp add: v_pattern_def)

lemma v_int_ok: "m \<le> i \<Longrightarrow> v_int m (JInt i) l = None"
  by (simp add: v_int_def)

lemma v_exact_ok: "v_exact v v l = None"
  by (simp add: v_exact_def)

lemma v_enum_ok: "s \<in> set vs \<Longrightarrow> v_enum vs (JStr s) l = None"
  by (simp add: v_enum_def)

lemma v_object_ok:
  assumes "set (map fst spec) \<subseteq> set (map fst kvs)" and "set (map fst kvs) \<subseteq> set (map fst spec) \<union> set (map fst extra)"
    and "list_all (\<lambda>(k, f). case map_of kvs k of None \<Rightarrow> True | Some x \<Rightarrow> (\<forall>l. f x l = None)) (spec @ extra)"
  shows "v_object spec extra (JObj kvs) l = None"
proof -
  have "f x (l @ ''.'' @ k) = None" if "(k, f) \<in> set (spec @ extra)" "map_of kvs k = Some x" for k f x
    using bspec [OF assms(3) [unfolded list_all_iff] that(1)] that(2) by simp
  then have "\<forall>(k, f) \<in> set (spec @ extra). \<forall>x. map_of kvs k = Some x \<longrightarrow> f x (l @ ''.'' @ k) = None" by blast
  with assms(1,2) show ?thesis unfolding v_object_None by (intro exI [of _ kvs] conjI refl)
qed

lemma sample_artifact_ok:
  assumes "1 \<le> n"
  shows "artifact_schema (sample_artifact n) l = None"
  unfolding artifact_schema_def sample_artifact_def
  by (rule v_object_ok) (simp_all add: v_pattern_ok v_int_ok assms)


lemma sample_claims_ok:
  "v_object [(''owner_login'', v_pattern rx_login), (''label'', v_pattern rx_label), (''issue_updated_at'', TIMESTAMP),
          (''schema_version'', IDENT), (''title_sha256'', SHA64), (''body_sha256'', SHA64)] []
     (JObj [(''body_sha256'', JStr hex64), (''issue_updated_at'', JStr sample_time), (''label'', JStr ''hunter''),
         (''owner_login'', JStr ''owner''), (''schema_version'', JStr ''v1''), (''title_sha256'', JStr hex64)]) l = None"
  by (rule v_object_ok) (simp_all add: v_pattern_ok)

lemma v_list_ok: "length vs \<le> n \<Longrightarrow> length vs \<le> 1 \<Longrightarrow> list_all (\<lambda>x. \<forall>l. f x l = None) vs \<Longrightarrow> v_list f n (JArr vs) l = None"
  unfolding v_list_None by (cases vs) auto

lemma sample_scope_path: "scope_path (JStr ''src/a.py'') l = None"
proof -
  have "fullmatch rx_scope_path ''src/a.py'' \<and> \<not> list_ex (\<lambda>part. part \<in> set ['''', ''.'', ''..'']) (split_slash (rstrip_slash ''src/a.py''))"
    by code_simp
  then show ?thesis by (simp add: scope_path_def)
qed

lemma sample_scope_ok:
  "v_object [(''task_id'', IDENT), (''branch_pattern'', v_pattern rx_branch_glob), (''base_ref'', v_exact (JStr ''main'')),
          (''base_sha'', SHA40), (''allowed_paths'', v_list scope_path 256), (''prohibited_paths'', v_list scope_path 256)] []
     (JObj [(''allowed_paths'', JArr [JStr ''src/a.py'']), (''base_ref'', JStr ''main''), (''base_sha'', JStr hex40),
         (''branch_pattern'', JStr ''issue-*''), (''prohibited_paths'', JArr []), (''task_id'', JStr ''task'')]) l = None"
  by (rule v_object_ok) (simp_all add: v_pattern_ok v_exact_ok v_list_ok sample_scope_path)

lemma sample_lineage_ok:
  "v_object [(''document_id'', IDENT), (''build_record_id'', IDENT), (''envelope_id'', IDENT), (''prompt_artifact_id'', IDENT),
          (''prompt_sha256'', SHA64), (''handoff_sha256'', SHA64), (''dpm_context_sha256'', SHA64),
          (''source_handling_record_ids'', v_list IDENT 64),
          (''reconstruction'', v_exact (JStr ''EXACT_RECONSTRUCTION_UNAVAILABLE'')),
          (''reconstruction_reason'', v_exact (JStr ''NO_CONFIDENTIAL_DURABLE_STORE''))] []
     (JObj [(''build_record_id'', JStr ''b''), (''document_id'', JStr ''d''), (''dpm_context_sha256'', JStr hex64),
         (''envelope_id'', JStr ''e''), (''handoff_sha256'', JStr hex64), (''prompt_artifact_id'', JStr ''p''),
         (''prompt_sha256'', JStr hex64), (''reconstruction'', JStr ''EXACT_RECONSTRUCTION_UNAVAILABLE''),
         (''reconstruction_reason'', JStr ''NO_CONFIDENTIAL_DURABLE_STORE''), (''source_handling_record_ids'', JArr [JStr ''s''])]) l = None"
  by (rule v_object_ok) (simp_all add: v_pattern_ok v_exact_ok v_list_ok)

lemma sample_authorized_ok: "authorized_schema sample_authorized l = None"
  unfolding authorized_schema_def sample_authorized_def
  by (rule v_object_ok)
    (simp_all add: v_pattern_ok v_int_ok sample_claims_ok sample_scope_ok sample_lineage_ok sample_artifact_ok)

lemma sample_bound_ok: "result_bound_schema sample_bound l = None"
  unfolding result_bound_schema_def sample_bound_def
  by (rule v_object_ok)
    (simp_all add: v_pattern_ok v_int_ok v_enum_ok v_optional_None sample_artifact_ok EXECUTOR_CONCLUSIONS_def)

lemma sample_validated_ok: "validated_schema sample_validated l = None"
  unfolding validated_schema_def sample_validated_def
  by (rule v_object_ok) (simp_all add: v_pattern_ok v_int_ok)

lemma sample_published_ok: "published_schema sample_published l = None"
  unfolding published_schema_def sample_published_def
  by (rule v_object_ok) (simp_all add: v_pattern_ok v_int_ok v_exact_ok)

lemma sample_completed_ok: "completed_schema sample_completed l = None"
  unfolding completed_schema_def sample_completed_def
  by (rule v_object_ok) (simp_all add: v_pattern_ok v_int_ok v_exact_ok)


section \<open>The records pass theirs\<close>

lemma sorted_object:
  assumes "sorted (map fst kvs)" and "\<forall>kv \<in> set kvs. json_sorted (snd kv) = snd kv"
  shows "json_sorted (JObj kvs) = JObj kvs"
proof -
  have "map (\<lambda>kv. (fst kv, json_sorted (snd kv))) kvs = kvs"
    using assms(2) by (induction kvs) auto
  moreover have "sort_key fst kvs = kvs" by (rule sort_key_id_if_sorted [OF assms(1)])
  ultimately show ?thesis by (simp only: json_sorted_JObj)
qed

lemma sample_keys_sorted:
  "list_all sorted (map (\<lambda>v. case v of JObj kvs \<Rightarrow> map fst kvs | _ \<Rightarrow> [])
     [sample_artifact 1, sample_authorized, sample_bound, sample_validated, sample_published, sample_completed,
      jfield ''claims'' sample_authorized, jfield ''task_scope'' sample_authorized, jfield ''lineage'' sample_authorized,
      sample_record [] [] 0 JNull [] JNull, jfield ''recorded_by'' (sample_record [] [] 0 JNull [] JNull),
      jfield ''signature'' (sample_record [] [] 0 JNull [] JNull)])"
  by (simp add: sample_artifact_def sample_authorized_def sample_bound_def sample_validated_def sample_published_def
      sample_completed_def sample_record_def jfield_def less_char_def less_eq_char_def)

lemma sample_artifact_sorted [simp]: "json_sorted (sample_artifact n) = sample_artifact n"
  unfolding sample_artifact_def
  by (rule sorted_object) (use sample_keys_sorted in \<open>simp_all add: sample_artifact_def\<close>)


lemma sample_evidence_sorted [simp]:
  "json_sorted sample_authorized = sample_authorized" "json_sorted sample_bound = sample_bound"
  "json_sorted sample_validated = sample_validated" "json_sorted sample_published = sample_published"
  "json_sorted sample_completed = sample_completed"
  by (simp_all add: sample_authorized_def sample_bound_def sample_validated_def sample_published_def sample_completed_def
      less_char_def less_eq_char_def)

lemma sample_record_sorted:
  assumes "json_sorted evidence = evidence" and "json_sorted prev = prev"
  shows "json_sorted (sample_record kind state n prev role evidence) = sample_record kind state n prev role evidence"
  using assms by (simp add: sample_record_def less_char_def less_eq_char_def)

text \<open>Bounds on size and depth.\<close>

lemma sample_artifact_size: "text_weight (sample_artifact n) \<le> 4000 + 2 * length (int_text n)" "jdepth d (sample_artifact n) \<le> Suc d"
  by (simp_all add: sample_artifact_def int_text_def nat_text.simps)

lemma sample_weights:
  "text_weight sample_authorized \<le> 30000" "text_weight sample_bound \<le> 30000" "text_weight sample_validated \<le> 30000"
  "text_weight sample_published \<le> 30000" "text_weight sample_completed \<le> 30000"
  using sample_artifact_size(1) [of 1] sample_artifact_size(1) [of 2]
  by (simp_all add: sample_authorized_def sample_bound_def sample_validated_def sample_published_def sample_completed_def
      sample_time_def sample_deadline_def int_text_def nat_text.simps)

lemma sample_depths:
  "jdepth 1 sample_authorized \<le> 6" "jdepth 1 sample_bound \<le> 6" "jdepth 1 sample_validated \<le> 6"
  "jdepth 1 sample_published \<le> 6" "jdepth 1 sample_completed \<le> 6"
  using sample_artifact_size(2) [of "Suc (Suc 0)" 1] sample_artifact_size(2) [of "Suc (Suc 0)" 2]
  by (simp_all add: sample_authorized_def sample_bound_def sample_validated_def sample_published_def sample_completed_def)


lemma sample_writer_ok:
  assumes "role \<in> set LEDGER_ROLES"
  shows "recorded_by_schema (JObj [(''head_sha'', JStr hex40), (''job'', JStr role), (''role'', JStr role), (''run_attempt'', JInt 1),
         (''run_id'', JInt 5), (''workflow_path'', JStr sample_workflow)]) l = None"
  unfolding recorded_by_schema_def
  by (rule v_object_ok) (simp_all add: v_pattern_ok v_int_ok v_enum_ok assms role_job)

lemma sample_signature_ok:
  "signature_schema (JObj [(''alg'', JStr ''ed25519''), (''domain'', JStr STATE_SIGNATURE_DOMAIN), (''key_id'', JStr hex64),
         (''value'', JStr sample_signature)]) l = None"
  unfolding signature_schema_def
  by (rule v_object_ok) (simp_all add: v_pattern_ok v_exact_ok)

definition good_link :: "json \<Rightarrow> bool" where
  "good_link prev = (prev = JNull \<or> (\<exists>h. prev = JStr h \<and> fullmatch rx_sha64 h))"

lemma good_link_facts:
  assumes "good_link prev"
  shows "v_optional SHA64 prev l = None" "json_sorted prev = prev" "text_weight prev \<le> 400" "jdepth d prev = d"
  using assms
  by (auto simp: good_link_def v_optional_def v_pattern_ok rx_sha64_def fullmatch_chars)

definition sample_kinds :: "string list" where
  "sample_kinds = [''transition'', ''resume_requested'', ''resume_bound'', ''resume_abandoned'']"

lemma sample_record_valid:
  assumes "good_link prev" and "0 \<le> n" and "n < 10" and "role \<in> set LEDGER_ROLES" and "kind \<in> set sample_kinds" and "state \<in> set STATES"
    and "evidence_check (sample_record kind state n prev role evidence) = None" and "json_sorted evidence = evidence"
    and "text_weight evidence \<le> 30000" and "jdepth 1 evidence \<le> 6"
  shows "validate_record_schema (json_sorted (sample_record kind state n prev role evidence)) =
    Inr (json_sorted (sample_record kind state n prev role evidence))"
proof -
  let ?r = "sample_record kind state n prev role evidence"
  note link = good_link_facts [OF assms(1)]
  have state: "length state \<le> 30" using assms(6) by (auto simp: STATES_def)
  have kind: "length kind \<le> 30" using assms(5) by (auto simp: sample_kinds_def)
  have role: "length role \<le> 30" using assms(4) by (auto simp: LEDGER_ROLES_def)
  have n: "length (int_text n) = 1" using assms(2,3) by (simp add: int_text_def nat_text.simps)
  have base: "v_object record_base [] ?r ''record'' = None"
    unfolding sample_record_def record_base_def
    by (rule v_object_ok)
      (simp_all add: v_pattern_ok v_int_ok v_exact_ok v_enum_ok link(1) assms(2,6) assms(5) [unfolded sample_kinds_def, simplified]
        sample_writer_ok assms(4) sample_signature_ok)
  have "text_weight ?r \<le> 60000"
    using assms(9) link(3) state role kind n
    by (simp add: sample_record_def sample_workflow_def sample_time_def RECORD_SCHEMA_VERSION_def STATE_SIGNATURE_DOMAIN_def int_text_def nat_text.simps)
  then have size: "length (canonical_json ?r) \<le> MAX_RECORD_BYTES"
    using length_dumps [of False ?r] by (simp add: canonical_json_def MAX_RECORD_BYTES_def)
  have depth: "jdepth 0 ?r \<le> 6"
    using assms(10) by (simp add: sample_record_def link(4))
  show ?thesis
    unfolding sample_record_sorted [OF assms(8) link(2)] validate_record_schema_def
    using size depth base assms(7) by (simp add: checked_def) (simp add: sample_record_def is_object_def)
qed

lemma sample_record_ok:
  assumes "good_link prev" and "0 \<le> n" and "n < 10" and "role \<in> set LEDGER_ROLES"
    and "(state, f) \<in> set EVIDENCE_SCHEMAS" and "\<And>l. f evidence l = None" and "json_sorted evidence = evidence"
    and "text_weight evidence \<le> 30000" and "jdepth 1 evidence \<le> 6"
  shows "validate_record_schema (json_sorted (sample_record ''transition'' state n prev role evidence)) =
    Inr (json_sorted (sample_record ''transition'' state n prev role evidence))"
proof (rule sample_record_valid [OF assms(1-4)])
  have state: "map_of EVIDENCE_SCHEMAS state = Some f" using assms(5) by (auto simp: EVIDENCE_SCHEMAS_def)
  show "evidence_check (sample_record ''transition'' state n prev role evidence) = None"
    by (simp add: evidence_check_def sample_record_def sfield_def jfield_def state assms(6))
  show "state \<in> set STATES" using assms(5) by (auto simp: EVIDENCE_SCHEMAS_def STATES_def)
qed (simp_all add: sample_kinds_def assms(7-9) [unfolded One_nat_def])


section \<open>The chain verifies\<close>

definition sample_verify :: "unit \<Rightarrow> 8 word list \<Rightarrow> 8 word list \<Rightarrow> bool" where
  "sample_verify key signature message = (length signature = 64)"

definition sample_trust :: "unit trust_roots" where
  "sample_trust = \<lparr>tr_state_keys = [hex64 \<mapsto> ()], tr_repository_id = 3\<rparr>"

definition sample_provenance :: "json \<Rightarrow> json \<Rightarrow> bool" where
  "sample_provenance writer r = (jfield ''workflow_path'' writer = JStr sample_workflow)"

definition record_0 :: json where
  "record_0 = sample_record ''transition'' AUTHORIZED 0 JNull ''authorize'' sample_authorized"
definition record_1 :: json where
  "record_1 = sample_record ''transition'' RESULT_BOUND 1 (JStr (record_digest record_0)) ''bind'' sample_bound"
definition record_2 :: json where
  "record_2 = sample_record ''transition'' VALIDATED 2 (JStr (record_digest record_1)) ''record-validation'' sample_validated"
definition record_3 :: json where
  "record_3 = sample_record ''transition'' PUBLISHED 3 (JStr (record_digest record_2)) ''finalize'' sample_published"
definition record_4 :: json where
  "record_4 = sample_record ''transition'' COMPLETED 4 (JStr (record_digest record_3)) ''candidate-pr-record'' sample_completed"

definition sample_auth :: "string \<Rightarrow> json list \<Rightarrow> (string \<rightharpoonup> json) \<Rightarrow> authorization_view" where
  "sample_auth state rs evidence = \<lparr>av_authorization_id = sample_id, av_state = state, av_records = rs, av_evidence = evidence,
     av_pending_resume = None, av_resume_attempts = \<lambda>stage. 0\<rparr>"

definition sample_view :: "authorization_view \<Rightarrow> string option \<Rightarrow> string \<Rightarrow> int \<Rightarrow> ledger_view" where
  "sample_view v active digest n = \<lparr>lv_repository_id = 3, lv_issue_number = 7, lv_authorizations = [sample_id \<mapsto> v],
     lv_claimed = [sample_id], lv_active = active, lv_head_record_digest = Some digest, lv_next_seq = n\<rparr>"

lemma signature_bytes: "\<exists>bs. fromhex sample_signature = Some bs \<and> length bs = 64"
proof -
  have "(case fromhex sample_signature of Some bs \<Rightarrow> length bs = 64 | None \<Rightarrow> False)" by code_simp
  then show ?thesis by (auto split: option.splits)
qed

lemma sample_record_fields [simp]:
  "sfield ''authorization_id'' (sample_record kind state n prev role evidence) = sample_id"
  "sfield ''state'' (sample_record kind state n prev role evidence) = state"
  "sfield ''kind'' (sample_record kind state n prev role evidence) = kind"
  "jfield ''evidence'' (sample_record kind state n prev role evidence) = evidence"
  "jfield ''record_seq'' (sample_record kind state n prev role evidence) = JInt n"
  "jfield ''prev_record_sha256'' (sample_record kind state n prev role evidence) = prev"
  "ifield ''repository_id'' (sample_record kind state n prev role evidence) = 3"
  "ifield ''issue_number'' (sample_record kind state n prev role evidence) = 7"
  "writer_role (sample_record kind state n prev role evidence) = role"
  "sample_provenance (jfield ''recorded_by'' (sample_record kind state n prev role evidence)) x"
  by (simp_all add: sample_record_def sfield_def jfield_def ifield_def writer_role_def sample_provenance_def)

lemma sample_signed:
  "verify_record_signature sample_verify (sample_record kind state n prev role evidence) (tr_state_keys sample_trust)
     STATE_SIGNATURE_DOMAIN = Inr ()"
  using signature_bytes
  by (auto simp: verify_record_signature_def Let_def sample_record_def jfield_def is_object_def require_def sample_trust_def sample_verify_def)

lemma sample_encodes [simp]:
  "json_encodes sample_authorized" "json_encodes sample_bound" "json_encodes sample_validated" "json_encodes sample_published"
  "json_encodes sample_completed"
  by (simp_all add: sample_authorized_def sample_bound_def sample_validated_def sample_published_def sample_completed_def
      sample_artifact_def)

lemma sample_apply:
  assumes "validate_record_schema (json_sorted (sample_record kind state n prev role evidence)) =
      Inr (json_sorted (sample_record kind state n prev role evidence))"
    and "json_sorted evidence = evidence" "json_sorted prev = prev" and "json_encodes evidence"
    and "lv_repository_id view = 3" "lv_issue_number view = 7" "lv_next_seq view = n"
    and "opt_json JStr (lv_head_record_digest view) = prev"
    and "(if kind = ''transition'' then apply_transition view (sample_record kind state n prev role evidence)
          else apply_resume view (sample_record kind state n prev role evidence)) = Inr w"
  shows "apply_record sample_verify sample_trust sample_provenance view (sample_record kind state n prev role evidence) None =
    Inr (record_applied (sample_record kind state n prev role evidence) w)"
proof -
  note sorted = sample_record_sorted [OF assms(2,3), of kind state n role]
  have "json_encodes prev" using assms(8) by (cases "lv_head_record_digest view") (auto simp: opt_json_def)
  then have encodes: "json_encodes (sample_record kind state n prev role evidence)"
    using assms(4) by (simp add: sample_record_def)
  have "tr_repository_id sample_trust = 3" by (simp add: sample_trust_def)
  then show ?thesis
    unfolding apply_record_valid [OF encodes assms(1)]
    unfolding sorted apply_validated_def sample_signed rbind_simps
    using assms(5-9) by (simp add: require_def check_index_def)
qed

lemma digest_link: "good_link (JStr (record_digest r))"
  by (simp add: good_link_def record_digest_def)

lemma schema_of:
  "(AUTHORIZED, authorized_schema) \<in> set EVIDENCE_SCHEMAS" "(RESULT_BOUND, result_bound_schema) \<in> set EVIDENCE_SCHEMAS"
  "(VALIDATED, validated_schema) \<in> set EVIDENCE_SCHEMAS" "(PUBLISHED, published_schema) \<in> set EVIDENCE_SCHEMAS"
  "(COMPLETED, completed_schema) \<in> set EVIDENCE_SCHEMAS"
  by (simp_all add: EVIDENCE_SCHEMAS_def)

lemma sample_valid:
  "validate_record_schema (json_sorted record_0) = Inr (json_sorted record_0)"
  "validate_record_schema (json_sorted record_1) = Inr (json_sorted record_1)"
  "validate_record_schema (json_sorted record_2) = Inr (json_sorted record_2)"
  "validate_record_schema (json_sorted record_3) = Inr (json_sorted record_3)"
  "validate_record_schema (json_sorted record_4) = Inr (json_sorted record_4)"
  unfolding record_0_def record_1_def record_2_def record_3_def record_4_def
  by (rule sample_record_ok [OF _ _ _ _ schema_of(1)] sample_record_ok [OF digest_link _ _ _ schema_of(2)]
      sample_record_ok [OF digest_link _ _ _ schema_of(3)] sample_record_ok [OF digest_link _ _ _ schema_of(4)]
      sample_record_ok [OF digest_link _ _ _ schema_of(5)];
      simp add: good_link_def LEDGER_ROLES_def sample_authorized_ok sample_bound_ok sample_validated_ok sample_published_ok
        sample_completed_ok sample_weights sample_depths [unfolded One_nat_def])+


lemma sample_bindings: "check_authorized_bindings record_0 (Some view) = Inr ()"
proof -
  have branch: "authorization_digest sample_id = Inr hex64"
    by (simp add: authorization_digest_def) (simp add: sample_id_def)
  have seven: "int_text 7 = ''7''" by code_simp
  have fields: "jfield ''evidence'' record_0 = sample_authorized" "sfield ''authorization_id'' record_0 = sample_id"
    "ifield ''issue_number'' record_0 = 7" "jfield ''run_id'' (jfield ''recorded_by'' record_0) = JInt 5"
    "jfield ''run_attempt'' (jfield ''recorded_by'' record_0) = JInt 1"
    "jfield ''head_sha'' (jfield ''recorded_by'' record_0) = JStr hex40"
    by (simp_all add: record_0_def) (simp_all add: sample_record_def jfield_def)
  have evidence: "jget ''remediation'' sample_authorized = None" "jget ''fallback'' sample_authorized = None"
    "jget ''fallback_canary'' sample_authorized = None" "jfield ''execution_branch'' sample_authorized = JStr sample_branch"
    "jfield ''base_sha'' sample_authorized = JStr hex40"
    "jfield ''base_sha'' (jfield ''task_scope'' sample_authorized) = JStr hex40"
    "jfield ''authorize_run_id'' sample_authorized = JInt 5" "ifield ''authorize_run_id'' sample_authorized = 5"
    "jfield ''control_sha'' sample_authorized = JStr hex40" "sfield ''control_sha'' sample_authorized = hex40"
    "sfield ''handoff_sha256'' (jfield ''lineage'' sample_authorized) = hex64"
    "jfield ''execution_id'' sample_authorized = JStr sample_execution"
    by (simp_all add: sample_authorized_def jfield_def sfield_def ifield_def)
  show ?thesis
    unfolding check_authorized_bindings_def check_branch_def check_fallback_offer_def Let_def fields evidence option.case
      branch rbind_simps seven sample_execution_identity
    by (simp add: require_def sample_branch_def)
qed

lemma apply_0:
  "apply_record sample_verify sample_trust sample_provenance (empty_view 3 7) record_0 None =
   Inr (sample_view (sample_auth AUTHORIZED [record_0] [AUTHORIZED \<mapsto> sample_authorized]) (Some sample_id) (record_digest record_0) 1)"
proof -
  have fields: "sfield ''authorization_id'' record_0 = sample_id" "sfield ''state'' record_0 = AUTHORIZED"
    "writer_role record_0 = ''authorize''" "jfield ''evidence'' record_0 = sample_authorized"
    by (simp_all add: record_0_def)
  have step: "apply_transition (empty_view 3 7) record_0 = Inr (set_authorization sample_id
      (sample_auth AUTHORIZED [] [AUTHORIZED \<mapsto> sample_authorized]) ((empty_view 3 7)\<lparr>lv_claimed := [sample_id], lv_active := Some sample_id\<rparr>))"
    unfolding apply_transition_def Let_def fields sample_bindings rbind_simps
    by (simp add: require_def legal_targets_def LEGAL_TRANSITIONS_def writers_of_def WRITER_ROLES_def empty_view_def sample_auth_def)
  have "apply_record sample_verify sample_trust sample_provenance (empty_view 3 7) record_0 None =
      Inr (record_applied record_0 (set_authorization sample_id
        (sample_auth AUTHORIZED [] [AUTHORIZED \<mapsto> sample_authorized]) ((empty_view 3 7)\<lparr>lv_claimed := [sample_id], lv_active := Some sample_id\<rparr>)))"
    using step sample_valid(1) unfolding record_0_def
    by (intro sample_apply) (simp_all add: empty_view_def opt_json_def)
  then show ?thesis
    by (simp add: record_applied_def Let_def fields set_authorization_def sample_view_def sample_auth_def empty_view_def)
qed

text \<open>A further transition of the sample.\<close>

lemma sample_move:
  assumes "r = sample_record ''transition'' state n (JStr d) role evidence"
    and "validate_record_schema (json_sorted r) = Inr (json_sorted r)" and "json_sorted evidence = evidence"
    and "state \<in> set (legal_targets (Some old))" and "role \<in> set (writers_of state)" and "state \<noteq> AUTHORIZED" and "state \<noteq> FAILED"
    and "check_cross_bindings (sample_auth old rs es) r = Inr ()" and "json_encodes evidence"
  shows "apply_record sample_verify sample_trust sample_provenance (sample_view (sample_auth old rs es) (Some sample_id) d n) r None =
    Inr (sample_view (sample_auth state (rs @ [r]) (es(state \<mapsto> evidence)))
      (if state \<in> set TERMINAL_STATES then None else Some sample_id) (record_digest r) (n + 1))"
proof -
  let ?view = "sample_view (sample_auth old rs es) (Some sample_id) d n"
  let ?w = "set_authorization sample_id (moved state evidence (sample_auth old rs es))
      (if state \<in> set TERMINAL_STATES then ?view\<lparr>lv_active := None\<rparr> else ?view)"
  have fields: "sfield ''authorization_id'' r = sample_id" "sfield ''state'' r = state" "writer_role r = role"
    "jfield ''evidence'' r = evidence" by (simp_all add: assms(1))
  have auth: "lv_authorizations ?view sample_id = Some (sample_auth old rs es)" "av_state (sample_auth old rs es) = old"
    by (simp_all add: sample_view_def sample_auth_def)
  have step: "apply_transition ?view r = Inr ?w"
    unfolding apply_transition_def Let_def fields auth option.map option.case using assms(4-8)
    by (simp add: require_def moved_def)
  have "apply_record sample_verify sample_trust sample_provenance ?view r None = Inr (record_applied r ?w)"
    using step assms(2) unfolding assms(1)
    by (intro sample_apply) (simp_all add: assms(3,9) sample_view_def opt_json_def)
  then show ?thesis
    by (simp add: record_applied_def Let_def fields set_authorization_def sample_view_def moved_def sample_auth_def)
qed


definition evidence_1 :: "string \<rightharpoonup> json" where
  "evidence_1 = [AUTHORIZED \<mapsto> sample_authorized, RESULT_BOUND \<mapsto> sample_bound]"
definition evidence_2 :: "string \<rightharpoonup> json" where "evidence_2 = evidence_1(VALIDATED \<mapsto> sample_validated)"
definition evidence_3 :: "string \<rightharpoonup> json" where "evidence_3 = evidence_2(PUBLISHED \<mapsto> sample_published)"
definition evidence_4 :: "string \<rightharpoonup> json" where "evidence_4 = evidence_3(COMPLETED \<mapsto> sample_completed)"

lemmas sample_tables = legal_targets_def LEGAL_TRANSITIONS_def writers_of_def WRITER_ROLES_def TERMINAL_STATES_def

lemma apply_1:
  "apply_record sample_verify sample_trust sample_provenance
     (sample_view (sample_auth AUTHORIZED rs [AUTHORIZED \<mapsto> sample_authorized]) (Some sample_id) (record_digest record_0) 1) record_1 None =
   Inr (sample_view (sample_auth RESULT_BOUND (rs @ [record_1]) evidence_1) (Some sample_id) (record_digest record_1) 2)"
proof -
  have "check_cross_bindings (sample_auth AUTHORIZED rs [AUTHORIZED \<mapsto> sample_authorized]) record_1 = Inr ()"
    by (simp add: check_cross_bindings_def record_1_def require_def sample_auth_def) (simp add: sample_bound_def)
  from sample_move [OF record_1_def sample_valid(2) _ _ _ _ _ this] show ?thesis
    by (simp add: sample_tables evidence_1_def)
qed

lemma apply_2:
  "apply_record sample_verify sample_trust sample_provenance
     (sample_view (sample_auth RESULT_BOUND rs evidence_1) (Some sample_id) (record_digest record_1) 2) record_2 None =
   Inr (sample_view (sample_auth VALIDATED (rs @ [record_2]) evidence_2) (Some sample_id) (record_digest record_2) 3)"
proof -
  have "check_cross_bindings (sample_auth RESULT_BOUND rs evidence_1) record_2 = Inr ()"
    by (simp add: check_cross_bindings_def record_2_def require_def sample_auth_def evidence_at_def evidence_1_def)
      (simp add: sample_bound_def sample_validated_def jfield_def)
  from sample_move [OF record_2_def sample_valid(3) _ _ _ _ _ this] show ?thesis
    by (simp add: sample_tables evidence_2_def)
qed

lemma sample_publication_check:
  "check_publication (sample_auth VALIDATED rs evidence_2) record_3 = Inr ()"
proof -
  have evidence: "evidence_at (sample_auth VALIDATED rs evidence_2) AUTHORIZED = Inr sample_authorized"
    "evidence_at (sample_auth VALIDATED rs evidence_2) VALIDATED = Inr sample_validated"
    by (simp_all add: evidence_at_def sample_auth_def evidence_2_def evidence_1_def)
  have none: "av_evidence (sample_auth VALIDATED rs evidence_2) FALLBACK_AUTHORIZED = None"
    by (simp add: sample_auth_def evidence_2_def evidence_1_def)
  have execution: "view_execution_id (sample_auth VALIDATED rs evidence_2) = Inr sample_execution"
    unfolding view_execution_id_def none option.case binding_def evidence rbind_simps
    by (simp add: getitem_def sample_authorized_def str_of_def)
  have fields: "jfield ''evidence'' record_3 = sample_published" "ifield ''repository_id'' record_3 = 3"
    "ifield ''issue_number'' record_3 = 7" by (simp_all add: record_3_def)
  have reads: "sfield ''base_sha'' sample_authorized = hex40" "sfield ''task_scope_sha256'' sample_authorized = hex64"
    "sfield ''control_sha'' sample_authorized = hex40" "sfield ''result_sha256'' sample_validated = other64"
    "sfield ''tree_sha'' sample_validated = hex40" "sfield ''unsigned_commit_sha'' sample_validated = hex40"
    "sfield ''writer_login'' sample_published = ''bot''" "jfield ''publication_identity'' sample_published = JStr sample_publication"
    "av_authorization_id (sample_auth VALIDATED rs evidence_2) = sample_id"
    by (simp_all add: sample_authorized_def sample_validated_def sample_published_def sfield_def jfield_def sample_auth_def)
  show ?thesis
    unfolding check_publication_def evidence execution rbind_simps fields reads by (simp add: require_def sample_publication_def)
qed

lemma apply_3:
  "apply_record sample_verify sample_trust sample_provenance
     (sample_view (sample_auth VALIDATED rs evidence_2) (Some sample_id) (record_digest record_2) 3) record_3 None =
   Inr (sample_view (sample_auth PUBLISHED (rs @ [record_3]) evidence_3) (Some sample_id) (record_digest record_3) 4)"
proof -
  have "sfield ''state'' record_3 = PUBLISHED" by (simp add: record_3_def)
  then have "check_cross_bindings (sample_auth VALIDATED rs evidence_2) record_3 = Inr ()"
    by (simp add: check_cross_bindings_def sample_publication_check)
  from sample_move [OF record_3_def sample_valid(4) _ _ _ _ _ this] show ?thesis
    by (simp add: sample_tables evidence_3_def)
qed

lemma apply_4:
  "apply_record sample_verify sample_trust sample_provenance
     (sample_view (sample_auth PUBLISHED rs evidence_3) (Some sample_id) (record_digest record_3) 4) record_4 None =
   Inr (sample_view (sample_auth COMPLETED (rs @ [record_4]) evidence_4) None (record_digest record_4) 5)"
proof -
  have "check_cross_bindings (sample_auth PUBLISHED rs evidence_3) record_4 = Inr ()"
    by (simp add: check_cross_bindings_def record_4_def require_def sample_auth_def evidence_at_def evidence_3_def)
      (simp add: sample_completed_def sample_published_def jfield_def)
  from sample_move [OF record_4_def sample_valid(5) _ _ _ _ _ this] show ?thesis
    by (simp add: sample_tables evidence_4_def)
qed

definition sample_entries :: "(json \<times> (string \<times> json) list option) list" where
  "sample_entries = [(record_0, None), (record_1, None), (record_2, None), (record_3, None), (record_4, None)]"

definition sample_final :: ledger_view where
  "sample_final = sample_view (sample_auth COMPLETED [record_0, record_1, record_2, record_3, record_4] evidence_4) None
     (record_digest record_4) 5"

theorem sample_chain: "verify_chain sample_verify sample_trust sample_provenance 3 7 sample_entries = Inr sample_final"
  by (simp add: verify_chain_def sample_entries_def apply_0 apply_1 apply_2 apply_3 apply_4 sample_final_def)

end
