(* ===== verification/LedgerProperties.thy ===== *)
theory LedgerProperties
  imports LedgerSample
begin

text \<open>
  The properties of the issue ledger, each applied to the sample chain: the refinement of the issue protocol, one active authorization,
  finality, bounded lifecycles, the hash chain and what it fixes, the evidence of a completed authorization, and how
  records are refused.
\<close>

lemma schema_table:
  "map_of EVIDENCE_SCHEMAS AUTHORIZED = Some authorized_schema"
  "map_of EVIDENCE_SCHEMAS FALLBACK_AUTHORIZED = Some fallback_authorized_schema"
  "map_of EVIDENCE_SCHEMAS RESULT_BOUND = Some result_bound_schema"
  "map_of EVIDENCE_SCHEMAS VALIDATED = Some validated_schema"
  "map_of EVIDENCE_SCHEMAS PUBLISHED = Some published_schema"
  "map_of EVIDENCE_SCHEMAS COMPLETED = Some completed_schema"
  by (simp_all add: EVIDENCE_SCHEMAS_def)

lemma evidence_schema_ok:
  "evidence_ok v \<Longrightarrow> has v s \<Longrightarrow> map_of EVIDENCE_SCHEMAS s = Some f \<Longrightarrow> \<exists>l. f (evidence_of v s) l = None"
  unfolding evidence_ok_def has_evidence by fastforce

lemma sample_final_auth: "lv_authorizations sample_final sample_id =
    Some (sample_auth COMPLETED [record_0, record_1, record_2, record_3, record_4] evidence_4)"
  by (simp add: sample_final_def sample_view_def)

text \<open>C5. The ledger refines the issue protocol: reading the records of a verified ledger as events (a transition enters the phase of
  its state, any other record is a resume), they are a run of the abstract protocol from nothing to the abstraction
  of the resulting view. The protocol claims one authorization at a time and moves it along legal steps only.\<close>

theorem ledger_follows_protocol:
  assumes "verify_chain verify trust provenance repo issue entries = Inr view"
  shows "protocol_run initial (map (\<lambda>e. event_from (fst e)) entries) (abs_view view)"
  by (rule verify_chain_view(2) [OF assms])

lemma ledger_follows_protocol_witness:
  "protocol_run initial [Enter sample_id Authorized, Enter sample_id ResultBound, Enter sample_id Validated,
     Enter sample_id Published, Enter sample_id Completed] (abs_view sample_final)"
proof -
  have "map (\<lambda>e. event_from (fst e)) sample_entries =
      [Enter sample_id Authorized, Enter sample_id ResultBound, Enter sample_id Validated, Enter sample_id Published,
       Enter sample_id Completed]"
    by (simp add: sample_entries_def event_from_def record_0_def record_1_def record_2_def record_3_def record_4_def phase_of_def)
  with ledger_follows_protocol [OF sample_chain] show ?thesis by simp
qed

text \<open>C13. At most one authorization of an issue is under way: in the view of a verified ledger the active authorization is
  exactly the one that is neither completed nor failed, every authorization that was ever claimed is on record, and none is
  claimed twice.\<close>

theorem ledger_one_active:
  assumes "verify_chain verify trust provenance repo issue entries = Inr view"
  shows "(\<forall>a. lv_active view = Some a \<longleftrightarrow> (\<exists>v. lv_authorizations view a = Some v \<and> av_state v \<notin> set TERMINAL_STATES)) \<and>
    set (lv_claimed view) = dom (lv_authorizations view) \<and> distinct (lv_claimed view)"
  using verify_chain_view(1) [OF assms] unfolding view_ok_def av_terminal_def by blast

lemma ledger_one_active_witness: "lv_active sample_final = None \<and> distinct (lv_claimed sample_final)"
  using ledger_one_active [OF sample_chain] by (simp add: sample_final_def sample_view_def)

lemma verify_chain_split:
  assumes "verify_chain verify trust provenance repo issue xs = Inr view"
    and "verify_chain verify trust provenance repo issue (xs @ ys) = Inr view'"
  shows "verify_from verify trust provenance view ys = Inr view'"
  using assms by (simp add: verify_chain_def verify_from_append)

text \<open>C14. What has ended is final: when an authorization is completed or failed in the view of a verified ledger, no record of
  a verified extension is about it, whatever its kind, and its view (state, evidence, records) stays the
  same.\<close>

theorem ledger_terminal_final:
  assumes "verify_chain verify trust provenance repo issue xs = Inr view"
    and "verify_chain verify trust provenance repo issue (xs @ ys) = Inr view'"
    and "lv_authorizations view a = Some v" and "av_state v \<in> set TERMINAL_STATES"
  shows "lv_authorizations view' a = Some v \<and> (\<forall>e \<in> set ys. sfield ''authorization_id'' (fst e) \<noteq> a)"
proof -
  have ok: "view_ok view" by (rule verify_chain_view(1) [OF assms(1)])
  note rest = verify_chain_split [OF assms(1,2)]
  have run: "protocol_run (abs_view view) (map (\<lambda>e. event_from (fst e)) ys) (abs_view view')"
    using verify_from_run [OF ok rest] by simp
  have "av_state v \<in> set STATES" using view_okD(3) [OF ok assms(3)] by (simp add: path_ok_def)
  then have "ended (phase_of (av_state v))" using ended_terminal assms(4) by blast
  moreover have "p_phase (abs_view view) a = Some (phase_of (av_state v))" by (simp add: abs_view_def assms(3))
  ultimately have "\<forall>e \<in> set (map (\<lambda>e. event_from (fst e)) ys). event_of e \<noteq> a"
    using protocol_run_ended [OF run protocol_ok_abs [OF ok]] by blast
  moreover have "event_of (event_from r) = sfield ''authorization_id'' r" for r by (simp add: event_from_def)
  ultimately have none: "\<forall>e \<in> set ys. sfield ''authorization_id'' (fst e) \<noteq> a" by simp
  with verify_from_untouched [OF rest none] assms(3) show ?thesis by simp
qed

lemma ledger_terminal_final_witness:
  "lv_authorizations sample_final sample_id = Some (sample_auth COMPLETED [record_0, record_1, record_2, record_3, record_4] evidence_4)"
  using ledger_terminal_final [of _ _ _ _ _ sample_entries sample_final "[]" sample_final, OF sample_chain _ sample_final_auth]
    sample_chain by (simp add: sample_auth_def TERMINAL_STATES_def)

lemma attempts_capped:
  assumes "verify_chain verify trust provenance repo issue entries = Inr view" and "(stage, st, Some n) \<in> set RESUME_STAGES"
    and "0 < n"
  shows "length (filter (requests a stage) (map fst entries)) \<le> n - 1"
proof -
  have count: "attempts_of view a stage = int (length (filter (requests a stage) (map fst entries)))"
    using verify_from_attempts [OF assms(1) [unfolded verify_chain_def], of a stage]
    by (simp add: attempts_of_def empty_view_def)
  have m: "map_of RESUME_STAGES stage = Some (st, Some n)" using assms(2) by (auto simp: RESUME_STAGES_def)
  have "attempts_of view a stage \<le> int n - 1"
  proof (cases "lv_authorizations view a")
    case None
    then show ?thesis using assms(3) by (simp add: attempts_of_def)
  next
    case (Some v)
    have "resume_ok v" by (rule view_okD(5) [OF verify_chain_view(1) [OF assms(1)] Some])
    then show ?thesis using m by (simp add: attempts_of_def Some resume_ok_def)
  qed
  with count show ?thesis by linarith
qed

text \<open>C15. Lifecycles are bounded: the phases that an authorization enters in a verified ledger are strictly later one after the other,
  at most six of them, and it asks for at most one further validation run and two further publication runs. Only
  owner-approved fallback runs are not capped.\<close>

theorem ledger_bounded:
  assumes "verify_chain verify trust provenance repo issue entries = Inr view"
  shows "sorted_wrt (<) (entered a (map (\<lambda>e. event_from (fst e)) entries)) \<and>
    length (entered a (map (\<lambda>e. event_from (fst e)) entries)) \<le> 6 \<and>
    length (filter (requests a ''validation'') (map fst entries)) \<le> 1 \<and>
    length (filter (requests a ''publication'') (map fst entries)) \<le> 2"
proof -
  note path = protocol_run_path [OF verify_chain_view(2) [OF assms], of a]
  show ?thesis
    using legal_path_sorted [OF path] legal_path_length [OF path]
      attempts_capped [OF assms, of "''validation''" RESULT_BOUND 2] attempts_capped [OF assms, of "''publication''" VALIDATED 3]
    by (simp add: RESUME_STAGES_def)
qed

lemma ledger_bounded_witness: "length (entered sample_id (map (\<lambda>e. event_from (fst e)) sample_entries)) \<le> 6"
  using ledger_bounded [OF sample_chain] by blast

text \<open>C16. The evidence of a completed authorization belongs together: it holds a bound result, its validation, its publication and its
  completion; the validated result is the bound one, the publication identity is derived from the authorization, the validation and
  the execution that was bound, and the pull request is a draft at the published head whose preflight
  succeeded.\<close>

theorem ledger_completed_bound:
  assumes "verify_chain verify trust provenance repo issue entries = Inr view"
    and "lv_authorizations view a = Some v" and "av_state v = COMPLETED"
  shows "\<exists>bound validated published completed i.
    av_evidence v RESULT_BOUND = Some bound \<and> av_evidence v VALIDATED = Some validated \<and>
    av_evidence v PUBLISHED = Some published \<and> av_evidence v COMPLETED = Some completed \<and>
    jfield ''result_sha256'' validated = jfield ''result_plaintext_sha256'' bound \<and>
    published_identity view v = Inr i \<and> jfield ''publication_identity'' published = JStr i \<and>
    jfield ''pull_request_head_sha'' completed = jfield ''head_sha'' published \<and>
    jfield ''draft'' completed = JBool True \<and> jfield ''preflight_conclusion'' completed = JStr ''success''"
proof -
  note o = view_okD [OF verify_chain_view(1) [OF assms(1)] assms(2)]
  have h: "has v COMPLETED" "has v PUBLISHED" "has v VALIDATED" "has v RESULT_BOUND"
    using o(3) assms(3) by (auto simp: path_ok_def)
  obtain l where l: "completed_schema (evidence_of v COMPLETED) l = None"
    using evidence_schema_ok [OF o(4) h(1) schema_table(6)] by blast
  note fields = required_field [OF l [unfolded completed_schema_def]]
  have "jfield ''draft'' (evidence_of v COMPLETED) = JBool True"
    "jfield ''preflight_conclusion'' (evidence_of v COMPLETED) = JStr ''success''"
    using fields [of "''draft''" "v_exact (JBool True)"] fields [of "''preflight_conclusion''" "v_exact (JStr ''success'')"]
    by (auto simp: ledger_simps jfield_def)
  moreover obtain i where "published_identity view v = Inr i" "jfield ''publication_identity'' (evidence_of v PUBLISHED) = JStr i"
    using o(6) h(2) unfolding bound_ok_def by blast
  moreover have "jfield ''result_sha256'' (evidence_of v VALIDATED) = jfield ''result_plaintext_sha256'' (evidence_of v RESULT_BOUND)"
    "jfield ''pull_request_head_sha'' (evidence_of v COMPLETED) = jfield ''head_sha'' (evidence_of v PUBLISHED)"
    using o(6) h unfolding bound_ok_def by blast+
  ultimately show ?thesis
    using h [unfolded has_evidence]
    by (intro exI [of _ "evidence_of v RESULT_BOUND"] exI [of _ "evidence_of v VALIDATED"] exI [of _ "evidence_of v PUBLISHED"]
        exI [of _ "evidence_of v COMPLETED"] exI [of _ i] conjI)
qed

lemma ledger_completed_bound_witness:
  "\<exists>i. published_identity sample_final (sample_auth COMPLETED [record_0, record_1, record_2, record_3, record_4] evidence_4) = Inr i"
  using ledger_completed_bound [OF sample_chain sample_final_auth] by (auto simp: sample_auth_def)


text \<open>C11. Verified records form a signed hash chain: record number i carries position i and the digest of the record before it (none for
  the first), its signature is verified under a pinned key, and its writer passed the provenance check.\<close>

theorem ledger_chain:
  assumes "verify_chain verify trust provenance repo issue entries = Inr view" and "i < length entries"
  shows "pos_of (fst (entries ! i)) = int i \<and>
    prev_of (fst (entries ! i)) = (if i = 0 then None else Some (record_digest (fst (entries ! (i - 1))))) \<and>
    verify_record_signature verify (json_sorted (fst (entries ! i))) (tr_state_keys trust) STATE_SIGNATURE_DOMAIN = Inr () \<and>
    provenance (jfield ''recorded_by'' (json_sorted (fst (entries ! i)))) (json_sorted (fst (entries ! i)))"
proof -
  note c = verify_from_chained [OF assms(1) [unfolded verify_chain_def]]
  have "entries ! i \<in> set entries" using assms(2) by simp
  with c(4) have "verify_record_signature verify (json_sorted (fst (entries ! i))) (tr_state_keys trust) STATE_SIGNATURE_DOMAIN = Inr ()"
    "provenance (jfield ''recorded_by'' (json_sorted (fst (entries ! i)))) (json_sorted (fst (entries ! i)))" by blast+
  moreover have "i < length (map fst entries)" using assms(2) by simp
  note ledger.chained_nth [OF c(1) this]
  ultimately show ?thesis using assms(2) by (simp add: empty_view_def)
qed

lemma ledger_chain_witness: "prev_of record_3 = Some (record_digest record_2)"
  using ledger_chain [OF sample_chain, of 3] by (simp add: sample_entries_def)

text \<open>C12. The head digest fixes the ledger: two ledgers that verify (under whatever keys and provenance checks) and have the
  same head digest consist of the same records byte for byte, or they exhibit two different canonical texts with
  the same SHA-256 digest.\<close>

theorem ledger_tamper_evident:
  assumes "verify_chain verify trust provenance repo issue entries = Inr view"
    and "verify_chain verify' trust' provenance' repo' issue' entries' = Inr view'"
    and "lv_head_record_digest view = lv_head_record_digest view'"
    and "\<forall>e \<in> set entries \<union> set entries'. json_wf (fst e)"
  shows "map (\<lambda>e. canonical_json (fst e)) entries = map (\<lambda>e. canonical_json (fst e)) entries' \<or>
    (\<exists>r \<in> fst ` set entries. \<exists>s \<in> fst ` set entries'.
       canonical_json r \<noteq> canonical_json s \<and> sha256_hex (canonical_json r) = sha256_hex (canonical_json s))"
proof (rule disjCI)
  assume "\<not> (\<exists>r \<in> fst ` set entries. \<exists>s \<in> fst ` set entries'.
       canonical_json r \<noteq> canonical_json s \<and> sha256_hex (canonical_json r) = sha256_hex (canonical_json s))"
  then have free: "\<forall>r \<in> set (map fst entries). \<forall>s \<in> set (map fst entries').
      record_digest r = record_digest s \<longrightarrow> canonical_json r = canonical_json s"
    by (auto simp: record_digest_def)
  note c = verify_from_chained [OF assms(1) [unfolded verify_chain_def]]
    verify_from_chained [OF assms(2) [unfolded verify_chain_def]]
  have start: "lv_head_record_digest (empty_view r i) = None" "lv_next_seq (empty_view r i) = 0" for r i
    by (simp_all add: empty_view_def)
  have valid: "list_all valid_record (map fst entries)" "list_all valid_record (map fst entries')"
    using c(4,8) assms(4) by (simp_all add: list_all_iff valid_record_def)
  have heads: "ledger.head None (map fst entries) = ledger.head None (map fst entries')"
    using c(3,7) assms(3) by (simp add: start)
  have "list_all2 (\<lambda>r s. canonical_json r = canonical_json s) (map fst entries) (map fst entries')"
  proof (cases "entries = [] \<or> entries' = []")
    case True
    then show ?thesis using heads by (auto simp: ledger.head_def split: if_splits)
  next
    case False
    show ?thesis
      using False heads
      by (intro ledger.head_fixes_chain [OF c(1,5) [unfolded start] valid free]) (auto simp: ledger.head_def)
  qed
  then show "map (\<lambda>e. canonical_json (fst e)) entries = map (\<lambda>e. canonical_json (fst e)) entries'"
    by (auto simp: list_all2_conv_all_nth list_eq_iff_nth_eq)
qed

lemma sample_wf: "json_wf record_0" "json_wf record_1" "json_wf record_2" "json_wf record_3" "json_wf record_4"
  by (simp_all add: record_0_def record_1_def record_2_def record_3_def record_4_def sample_record_def sample_authorized_def
      sample_bound_def sample_validated_def sample_published_def sample_completed_def sample_artifact_def)

lemma ledger_tamper_evident_witness:
  "map (\<lambda>e. canonical_json (fst e)) sample_entries = map (\<lambda>e. canonical_json (fst e)) sample_entries \<or>
    (\<exists>r \<in> fst ` set sample_entries. \<exists>s \<in> fst ` set sample_entries.
       canonical_json r \<noteq> canonical_json s \<and> sha256_hex (canonical_json r) = sha256_hex (canonical_json s))"
  by (rule ledger_tamper_evident [OF sample_chain sample_chain refl]) (auto simp: sample_entries_def sample_wf)

end
