(* ===== verification/LedgerRefusals.thy ===== *)
theory LedgerRefusals
  imports LedgerProperties
begin

text \<open>
  How verification refuses: the schemas raise \<open>LedgerSchemaError\<close> and nothing else, and on the view of a verified prefix every
  record is accepted or refused with \<open>LedgerCorruptError\<close>; no lookup in a record or in the evidence fails. Only a malformed
  stored index is refused with \<open>LedgerSchemaError\<close>.
\<close>

section \<open>Schemas refuse with a schema error\<close>

definition schema_only :: "check \<Rightarrow> bool" where
  "schema_only c = (case c of None \<Rightarrow> True | Some (LedgerSchemaError why) \<Rightarrow> True | Some _ \<Rightarrow> False)"

lemma schema_only_simps [simp]:
  "schema_only None" "schema_only (Some (LedgerSchemaError why))" "schema_only (raise_if b (LedgerSchemaError why))"
  by (simp_all add: schema_only_def raise_if_def)

lemma schema_only_first: "list_all schema_only cs \<Longrightarrow> schema_only (first_failure cs)"
  by (induction cs rule: first_failure.induct) auto

definition schematic :: "validator \<Rightarrow> bool" where
  "schematic f = (\<forall>v l. schema_only (f v l))"

lemma schematicD:
  assumes "schematic f" and "f v l = Some e"
  shows "\<exists>why. e = LedgerSchemaError why"
proof -
  have "schema_only (Some e)" using assms unfolding schematic_def by metis
  then show ?thesis by (cases e) (simp_all add: schema_only_def)
qed

lemma schematic_basic:
  "schematic (v_pattern r)" "schematic (v_int m)" "schematic (v_exact x)" "schematic (v_enum vs)" "schematic v_bool"
  by (auto simp: schematic_def v_pattern_def v_int_def v_exact_def v_enum_def v_bool_def schema_error_def split: json.splits)

lemma schematic_optional: "schematic f \<Longrightarrow> schematic (v_optional f)"
  by (simp add: schematic_def v_optional_def)

lemma schematic_list: "schematic f \<Longrightarrow> schematic (v_list f n)"
  by (auto simp: schematic_def v_list_def schema_error_def list_all_iff intro!: schema_only_first split: json.splits)

lemma schematic_object:
  assumes "\<forall>(k, f) \<in> set (spec @ extra). schematic f"
  shows "schematic (v_object spec extra)"
proof -
  have "list_all schema_only (map (\<lambda>(k, f). case map_of kvs k of None \<Rightarrow> None | Some x \<Rightarrow> f x (l @ ''.'' @ k)) (spec @ extra))" for kvs l
    using assms by (fastforce simp: schematic_def list_all_iff split: option.splits)
  from schema_only_first [OF this] show ?thesis
    by (simp add: schematic_def v_object_def schema_error_def Let_def split: json.splits)
qed

lemmas schematic_rules = schematic_basic schematic_optional schematic_list schematic_object

lemma schematic_model: "schematic fallback_model"
  by (auto simp: schematic_def fallback_model_def schema_error_def Let_def intro!: schema_only_first)

lemma schematic_path: "schematic scope_path"
  by (auto simp: schematic_def scope_path_def schema_error_def split: json.splits)

lemma schematic_disposition: "schematic disposition"
proof -
  have "schematic (v_pattern rx_family_id)" "schematic (v_object [(''title'', v_pattern rx_family_title), (''invariant'', v_pattern rx_family_text)] [])"
    by (simp_all add: schematic_rules)
  then show ?thesis by (auto simp: schematic_def disposition_def split: option.splits)
qed

lemma schematic_parts: "schematic artifact_schema" "schematic canary_refusal_schema" "schematic recorded_by_schema" "schematic signature_schema"
  unfolding artifact_schema_def canary_refusal_schema_def recorded_by_schema_def signature_schema_def
  by (rule schematic_object; simp add: schematic_rules)+

lemmas schematic_all = schematic_rules schematic_model schematic_path schematic_disposition schematic_parts

lemma schematic_evidence:
  "schematic authorized_schema" "schematic fallback_authorized_schema" "schematic result_bound_schema" "schematic validated_schema"
  "schematic published_schema" "schematic completed_schema" "schematic failed_schema" "schematic resume_requested_schema"
  "schematic resume_bound_schema" "schematic resume_abandoned_schema" "schematic index_schema"
  unfolding authorized_schema_def fallback_authorized_schema_def result_bound_schema_def validated_schema_def published_schema_def
    completed_schema_def failed_schema_def resume_requested_schema_def resume_bound_schema_def resume_abandoned_schema_def index_schema_def
  by (simp_all add: schematic_all)

lemma schematic_base: "schematic (v_object record_base [])"
  unfolding record_base_def by (rule schematic_object) (simp add: schematic_all, simp add: schematic_def)


lemma schematic_states: "map_of EVIDENCE_SCHEMAS s = Some f \<Longrightarrow> schematic f"
  by (drule map_of_SomeD) (auto simp: EVIDENCE_SCHEMAS_def schematic_evidence)

lemma map_of_total: "k \<in> set (map fst xs) \<Longrightarrow> \<exists>v. map_of xs k = Some v"
  by (induction xs) auto

lemma schema_refusal:
  assumes "validate_record_schema r = Inl e"
  shows "\<exists>why. e = LedgerSchemaError why"
proof -
  have states: "sfield ''state'' r \<in> set (map fst EVIDENCE_SCHEMAS)" if "v_object record_base [] r ''record'' = None"
  proof -
    from required_field [OF that, of "''state''" "v_enum STATES"] obtain s where "jget ''state'' r = Some (JStr s)" "s \<in> set STATES"
      by (auto simp: record_base_def ledger_simps)
    then show ?thesis by (auto simp: sfield_def STATES_def EVIDENCE_SCHEMAS_def)
  qed
  have "schema_only (evidence_check r)" if "v_object record_base [] r ''record'' = None"
  proof -
    note s = states [OF that]
    obtain f where "map_of EVIDENCE_SCHEMAS (sfield ''state'' r) = Some f"
      using map_of_total [OF s] by blast
    then show ?thesis
      using schematic_states schematic_evidence(8-10) by (simp add: evidence_check_def Let_def schematic_def)
  qed
  moreover have "schema_only (v_object record_base [] r ''record'')" using schematic_base by (simp add: schematic_def)
  ultimately have "schema_only (first_failure [v_object record_base [] r ''record'', evidence_check r])"
    by (cases "v_object record_base [] r ''record''"; cases "evidence_check r") simp_all
  then show ?thesis
    using assms by (auto simp: validate_record_schema_def checked_def schema_only_def split: if_splits option.splits pyexc.splits)
qed

lemma index_refusal: "validate_index_schema i = Inl e \<Longrightarrow> \<exists>why. e = LedgerSchemaError why"
  using schematicD [OF schematic_evidence(11), of i "''index''"]
  by (cases "index_schema i ''index''") (auto simp: validate_index_schema_def checked_def split: if_splits)

section \<open>Refused records\<close>

definition corrupt_only :: "'a result \<Rightarrow> bool" where
  "corrupt_only r = (case r of Inr x \<Rightarrow> True | Inl (LedgerCorruptError why) \<Rightarrow> True | Inl _ \<Rightarrow> False)"

lemma corrupt_only_simps [simp]: "corrupt_only (Inr x)" "corrupt_only (corrupt why)" "corrupt_only (Inl (LedgerCorruptError why))"
  by (simp_all add: corrupt_only_def corrupt_def)

lemma corrupt_only_require: "(b \<Longrightarrow> corrupt_only k) \<Longrightarrow> corrupt_only (require b why k)"
  by (simp add: require_def)

lemma corrupt_only_bind: "corrupt_only m \<Longrightarrow> (\<And>x. m = Inr x \<Longrightarrow> corrupt_only (f x)) \<Longrightarrow> corrupt_only (rbind m f)"
  by (cases m) (simp_all add: corrupt_only_def split: pyexc.splits)

lemmas refusal_intros = corrupt_only_require corrupt_only_bind

lemma execution_identity_total: "\<exists>i. execution_identity a run sha handoff 1 = Inr i" "\<exists>i. execution_identity a run sha handoff 2 = Inr i"
  by (simp_all add: execution_identity_def)

lemma evidence_at_has: "has v s \<Longrightarrow> evidence_at v s = Inr (evidence_of v s)"
  by (simp add: evidence_at_def has_evidence)

lemma bound_field:
  assumes "evidence_ok v" and "has v s" and "map_of EVIDENCE_SCHEMAS s = Some (v_object spec extra)" and "(k, f) \<in> set spec"
  shows "\<exists>x. getitem (evidence_of v s) k = Inr x"
proof -
  obtain l where "v_object spec extra (evidence_of v s) l = None"
    using evidence_schema_ok [OF assms(1-3)] by blast
  from required_field [OF this assms(4)] show ?thesis by (auto simp: getitem_def)
qed

lemma check_branch_refusal:
  assumes "fullmatch rx_authorization_id (sfield ''authorization_id'' r)" and "view_ok view"
  shows "corrupt_only (check_branch r (Some view))"
proof -
  have parent: "\<exists>b. binding v ''execution_branch'' = Inr b" if "lv_authorizations view p = Some v" for p v
  proof -
    note o = view_okD [OF assms(2) that]
    have h: "has v AUTHORIZED" using o(3) by (simp add: path_ok_def)
    show ?thesis
      using bound_field [OF o(4) h schema_table(1) [unfolded authorized_schema_def], of "''execution_branch''" "v_pattern rx_branch"]
      by (simp add: binding_def evidence_at_has [OF h])
  qed
  have own: "authorization_digest (sfield ''authorization_id'' r) = Inr (drop (length AUTHORIZATION_PREFIX) (sfield ''authorization_id'' r))"
    using assms(1) by (simp add: authorization_digest_def)
  show ?thesis
  proof (cases "jget ''remediation'' (jfield ''evidence'' r)")
    case None
    then show ?thesis by (simp add: check_branch_def Let_def own) (intro refusal_intros, simp)
  next
    case (Some remediation)
    show ?thesis
    proof (cases "lv_authorizations view (sfield ''parent_authorization_id'' remediation)")
      case None
      with Some show ?thesis by (simp add: check_branch_def Let_def)
    next
      case (Some v)
      obtain b where "binding v ''execution_branch'' = Inr b" using parent [OF Some] by blast
      with Some \<open>jget ''remediation'' (jfield ''evidence'' r) = Some remediation\<close> show ?thesis
        by (simp add: check_branch_def Let_def) (intro refusal_intros, simp)
    qed
  qed
qed

lemma authorized_refusal:
  assumes "fullmatch rx_authorization_id (sfield ''authorization_id'' r)" and "view_ok view"
  shows "corrupt_only (check_authorized_bindings r (Some view))"
proof -
  have id: "corrupt_only (execution_identity a run sha handoff n)" if "n = 1 \<or> n = 2" for a run sha handoff n
    using that by (auto simp: execution_identity_def)
  have offer: "corrupt_only (check_fallback_offer r)"
    unfolding check_fallback_offer_def Let_def
    by (cases "jget ''fallback'' (jfield ''evidence'' r)") (auto intro!: refusal_intros id)
  show ?thesis
    unfolding check_authorized_bindings_def Let_def
    by (intro refusal_intros check_branch_refusal [OF assms] id offer) simp_all
qed

lemma execution_id_total:
  assumes "path_ok v" and "evidence_ok v"
  shows "\<exists>i. view_execution_id v = Inr i"
proof (cases "has v FALLBACK_AUTHORIZED")
  case True
  then show ?thesis
    using bound_field [OF assms(2) True schema_table(2) [unfolded fallback_authorized_schema_def], of "''fallback_execution_id''" SHA64]
    by (auto simp: view_execution_id_def has_evidence)
next
  case False
  have h: "has v AUTHORIZED" using assms(1) by (simp add: path_ok_def)
  then show ?thesis
    using False bound_field [OF assms(2) h schema_table(1) [unfolded authorized_schema_def], of "''execution_id''" SHA64]
    by (auto simp: view_execution_id_def has_def binding_def evidence_at_has [OF h])
qed

lemma cross_refusal:
  assumes "path_ok v" and "evidence_ok v" and "sfield ''state'' r \<in> set (legal_targets (Some (av_state v)))"
  shows "corrupt_only (check_cross_bindings v r)"
proof -
  have h: "has v AUTHORIZED" "has v (av_state v)" using assms(1) by (auto simp: path_ok_def)
  note e = evidence_at_has [OF h(1)]
  have fallback: "corrupt_only (check_fallback_admission v x)" for x
    unfolding check_fallback_admission_def e rbind_simps Let_def
    by (cases "jget ''fallback'' (evidence_of v AUTHORIZED)") (auto intro!: refusal_intros)
  have source: "has v s" if "sfield ''state'' r = t" "(t, s) \<in> set [(VALIDATED, RESULT_BOUND), (PUBLISHED, VALIDATED), (COMPLETED, PUBLISHED)]" for s t
  proof -
    have "av_state v \<in> set STATES" using assms(1) by (simp add: path_ok_def)
    then have "av_state v = s"
      using assms(3) that by (auto simp: STATES_def legal_targets_def LEGAL_TRANSITIONS_def)
    with h(2) show ?thesis by simp
  qed
  obtain i where i: "view_execution_id v = Inr i" using execution_id_total [OF assms(1,2)] by blast
  have publication: "corrupt_only (check_publication v r)" if "sfield ''state'' r = PUBLISHED"
    unfolding check_publication_def e rbind_simps evidence_at_has [OF source [OF that, of VALIDATED, simplified]] i
    by (intro refusal_intros) simp
  show ?thesis
    unfolding check_cross_bindings_def Let_def
    using fallback publication evidence_at_has [OF source [of VALIDATED RESULT_BOUND]] evidence_at_has [OF source [of COMPLETED PUBLISHED]]
    by (auto intro!: refusal_intros)
qed

lemma transition_refusal:
  assumes "view_ok view" and "validate_record_schema r = Inr r'"
  shows "corrupt_only (apply_transition view r)"
proof -
  let ?a = "sfield ''authorization_id'' r" and ?s = "sfield ''state'' r"
  have id: "fullmatch rx_authorization_id ?a" by (rule record_texts(1) [OF assms(2)])
  show ?thesis
  proof (cases "lv_authorizations view ?a")
    case None
    have "?s = AUTHORIZED" if "?s \<in> set (legal_targets None)"
      using that by (simp add: legal_targets_def LEGAL_TRANSITIONS_def)
    with None show ?thesis
      unfolding apply_transition_def Let_def
      by (intro refusal_intros) (auto intro!: refusal_intros authorized_refusal [OF id assms(1)])
  next
    case (Some v)
    note o = view_okD [OF assms(1) Some]
    show ?thesis
      unfolding apply_transition_def Let_def Some option.map option.case
      by (intro refusal_intros)
        (auto intro!: refusal_intros authorized_refusal [OF id assms(1)] cross_refusal [OF o(3,4)])
  qed
qed

lemma requested_stage:
  assumes "validate_record_schema r = Inr r'" and "sfield ''kind'' r = ''resume_requested''"
  shows "\<exists>x. map_of RESUME_STAGES (sfield ''stage'' (jfield ''evidence'' r)) = Some x"
proof -
  have "evidence_schema r = Some resume_requested_schema" using assms(2) by (simp add: evidence_schema_def)
  then obtain l where "resume_requested_schema (jfield ''evidence'' r) l = None"
    using record_evidence [OF assms(1)] by auto
  from required_field [OF this [unfolded resume_requested_schema_def] list.set_intros(1)]
  obtain y where y: "jget ''stage'' (jfield ''evidence'' r) = Some y" "v_enum (map fst RESUME_STAGES) y (l @ ''.'' @ ''stage'') = None"
    by blast
  from y(2) obtain s where "y = JStr s" "s \<in> set (map fst RESUME_STAGES)" unfolding v_enum_None by blast
  then show ?thesis using map_of_total [of s RESUME_STAGES] y(1) by (simp add: sfield_def del: set_map split_paired_Ex)
qed

lemma requested_refusal: "\<exists>x. map_of RESUME_STAGES (sfield ''stage'' e) = Some x \<Longrightarrow> corrupt_only (apply_resume_requested v e)"
  by (elim exE, simp only: apply_resume_requested_def Let_def option.case split_def) (intro refusal_intros corrupt_only_simps)

lemma settled_refusal: "corrupt_only (apply_resume_abandoned v e)" "corrupt_only (apply_resume_bound v r)"
  unfolding apply_resume_abandoned_def apply_resume_bound_def Let_def
  by (intro refusal_intros corrupt_only_simps) (cases "av_pending_resume v"; simp; intro refusal_intros corrupt_only_simps)

lemma resume_refusal:
  assumes "validate_record_schema r = Inr r'"
  shows "corrupt_only (apply_resume view r)"
proof (cases "lv_authorizations view (sfield ''authorization_id'' r)")
  case (Some v)
  have "corrupt_only (if sfield ''kind'' r = ''resume_requested'' then apply_resume_requested v (jfield ''evidence'' r)
      else if sfield ''kind'' r = ''resume_abandoned'' then apply_resume_abandoned v (jfield ''evidence'' r) else apply_resume_bound v r)"
    using requested_refusal requested_stage [OF assms] settled_refusal by simp
  then show ?thesis
    unfolding apply_resume_def Let_def Some option.case by (intro refusal_intros corrupt_only_simps)
qed (simp add: apply_resume_def)

lemma signature_refusal: "corrupt_only (verify_record_signature verify r keys domain)"
  by (auto simp: verify_record_signature_def Let_def intro!: refusal_intros split: option.split)

lemma validated_refusal:
  assumes "view_ok view" and "validate_record_schema r = Inr r'"
  shows "corrupt_only (apply_validated verify trust provenance view r)"
  unfolding apply_validated_def
  by (intro refusal_intros signature_refusal)
    (use transition_refusal [OF assms] resume_refusal [OF assms(2)] in auto)

text \<open>The one other refusal: a stored index outside its schema.\<close>

definition index_malformed :: "(string \<times> json) list option \<Rightarrow> bool" where
  "index_malformed index = (case index of None \<Rightarrow> False | Some kvs \<Rightarrow> isl (validate_index_schema (JObj kvs)))"

lemma index_total: "view_ok view \<Longrightarrow> \<exists>i. ledger_index view = Inr i"
  using view_ok_active [of view] by (auto simp: ledger_index_def split: option.splits)

text \<open>A record that cannot be encoded is refused with an error that no handler knows.\<close>

definition unencodable :: "json \<Rightarrow> 'a result \<Rightarrow> bool" where
  "unencodable r m = (\<not> json_encodes r \<and> m = Inl (ValueError ''Out of range float values are not JSON compliant''))"

lemma apply_record_refusal:
  assumes "view_ok view"
  shows "corrupt_only (apply_record verify trust provenance view r index) \<or>
    (index_malformed index \<and> (\<exists>why. apply_record verify trust provenance view r index = Inl (LedgerSchemaError why))) \<or>
    unencodable r (apply_record verify trust provenance view r index)"
proof (cases "json_encodes r")
  case False
  then show ?thesis by (simp add: unencodable_def apply_record_def)
next
  case encodes: True
  show ?thesis
  proof (cases "validate_record_schema (json_sorted r)")
    case (Inl e)
    with schema_refusal [OF Inl] show ?thesis by (auto simp: apply_record_def corrupt_def encodes)
  next
    case (Inr r')
    have r': "r' = json_sorted r" by (rule validate_record_Inr(1) [OF Inr])
    note applied = apply_record_valid [OF encodes Inr, unfolded r']
    show ?thesis
    proof (cases "apply_validated verify trust provenance view (json_sorted r)")
      case (Inl e)
      with validated_refusal [OF assms \<open>validate_record_schema (json_sorted r) = Inr r'\<close>, of verify trust provenance] show ?thesis
        by (simp add: applied corrupt_only_def)
    next
      case (Inr w)
      have "apply_record verify trust provenance view r None = Inr w"
        by (simp add: applied Inr check_index_def)
      then have "view_ok w" using apply_record_step [OF assms] by blast
      then obtain i where i: "ledger_index w = Inr i" using index_total by blast
      have same: "apply_record verify trust provenance view r index = check_index index w" by (simp add: applied Inr)
      show ?thesis
      proof (cases index)
        case (Some kvs)
        then show ?thesis
          unfolding same
          using index_refusal [of "JObj kvs"]
          by (cases "validate_index_schema (JObj kvs)") (auto simp: check_index_def i index_malformed_def require_def)
      next
        case None
        show ?thesis unfolding same by (simp add: None check_index_def)
      qed
    qed
  qed
qed

lemma verify_from_refusal:
  assumes "view_ok view"
  shows "corrupt_only (verify_from verify trust provenance view entries) \<or>
    ((\<exists>e \<in> set entries. index_malformed (snd e)) \<and> (\<exists>why. verify_from verify trust provenance view entries = Inl (LedgerSchemaError why))) \<or>
    (\<exists>e \<in> set entries. unencodable (fst e) (verify_from verify trust provenance view entries))"
  using assms
proof (induction entries arbitrary: view)
  case (Cons e entries)
  obtain r index where e: "e = (r, index)" by (cases e)
  show ?case
  proof (cases "apply_record verify trust provenance view r index")
    case (Inl x)
    with apply_record_refusal [OF Cons.prems, of verify trust provenance r index] show ?thesis
      by (auto simp: e corrupt_only_def unencodable_def)
  next
    case (Inr w)
    with apply_record_step [OF Cons.prems] have "view_ok w" by blast
    from Cons.IH [OF this] show ?thesis by (auto simp: e Inr)
  qed
qed simp

text \<open>Every outcome of a verification: no lookup, conversion or assertion of it fails.\<close>

lemma verify_chain_outcomes:
  "corrupt_only (verify_chain verify trust provenance repo issue entries) \<or>
   ((\<exists>e \<in> set entries. index_malformed (snd e)) \<and>
    (\<exists>why. verify_chain verify trust provenance repo issue entries = Inl (LedgerSchemaError why))) \<or>
   (\<exists>e \<in> set entries. unencodable (fst e) (verify_chain verify trust provenance repo issue entries))"
  using verify_from_refusal [OF view_ok_empty, of verify trust provenance repo issue entries] by (simp add: verify_chain_def)

text \<open>C23. Verification is total: for any list of documents as records and indexes, whatever their shape, it returns a view or
  refuses with \<open>LedgerCorruptError\<close>, which freezes the issue; no lookup, conversion or assertion of it fails. The records are to be
  encodable (their floats are finite; their texts are code points below 256, so no lone surrogates) and the stored indexes within
  their schema.\<close>

theorem verify_chain_total:
  assumes "\<forall>e \<in> set entries. json_encodes (fst e)" and "\<forall>e \<in> set entries. \<not> index_malformed (snd e)"
  shows "(\<exists>view. verify_chain verify trust provenance repo issue entries = Inr view) \<or>
    (\<exists>why. verify_chain verify trust provenance repo issue entries = Inl (LedgerCorruptError why))"
  using verify_chain_outcomes [of verify trust provenance repo issue entries] assms
  by (auto simp: corrupt_only_def unencodable_def split: sum.splits pyexc.splits)

lemma verify_chain_total_witness:
  "\<exists>why. verify_chain sample_verify sample_trust sample_provenance 3 7 (sample_entries @ [(JArr [], None)]) = Inl (LedgerCorruptError why)"
proof -
  have encodes: "\<forall>e \<in> set (sample_entries @ [(JArr [], None)]). json_encodes (fst e)"
    unfolding sample_entries_def record_0_def record_1_def record_2_def record_3_def record_4_def by (simp add: sample_record_def)
  have indexes: "\<forall>e \<in> set (sample_entries @ [(JArr [], None)]). \<not> index_malformed (snd e)"
    by (simp add: sample_entries_def index_malformed_def)
  have "\<not> (\<exists>view. verify_chain sample_verify sample_trust sample_provenance 3 7 (sample_entries @ [(JArr [], None)]) = Inr view)"
    by (auto simp: verify_chain_def verify_from_append apply_record_def validate_record_schema_def is_object_def corrupt_def rbind_Inr_iff)
  then show ?thesis using verify_chain_total [OF encodes indexes] by blast
qed

text \<open>What the hypothesis on the records excludes: a number that is not finite is read from a stored record, and encoding the
  record raises \<open>ValueError\<close>, which nothing handles; the issue is not frozen.\<close>

lemma verify_chain_not_finite:
  assumes "verify_chain verify trust provenance repo issue entries = Inr view" and "\<not> json_encodes r"
  shows "verify_chain verify trust provenance repo issue (entries @ [(r, index)]) =
    Inl (ValueError ''Out of range float values are not JSON compliant'')"
  using assms by (simp add: verify_chain_def verify_from_append apply_record_def)

end
