(* ===== verification/LedgerDecisions.thy ===== *)
theory LedgerDecisions
  imports LedgerAdvance LedgerRefusals
begin

text \<open>
  What the decision function of the control plane guarantees on a verified ledger: it fails only when a time on record is no real date or
  a stage reports an unknown refusal, whatever it decides is accepted by the ledger, it never runs the model twice, and on definitive
  observations it decides something.
\<close>

section \<open>Outcomes\<close>

text \<open>A result that meets a postcondition, or an exception that one of two known causes explains.\<close>

definition outcome :: "bool \<Rightarrow> bool \<Rightarrow> ('a \<Rightarrow> bool) \<Rightarrow> 'a result \<Rightarrow> bool" where
  "outcome t s P r =
     (case r of Inr x \<Rightarrow> P x | Inl (ValueError m) \<Rightarrow> \<not> t | Inl (LedgerSchemaError m) \<Rightarrow> \<not> s | Inl _ \<Rightarrow> False)"

lemma outcome_simps [simp]:
  "outcome t s P (Inr x) = P x"
  "outcome t s P (Inl (ValueError m)) = (\<not> t)"
  "outcome t s P (Inl (LedgerSchemaError m)) = (\<not> s)"
  by (simp_all add: outcome_def)

lemma outcome_bind:
  assumes "outcome t s P m" and "\<And>x. P x \<Longrightarrow> m = Inr x \<Longrightarrow> outcome t s Q (f x)"
  shows "outcome t s Q (rbind m f)"
proof (cases m)
  case (Inl e)
  then show ?thesis using assms(1) by (simp add: outcome_def)
next
  case (Inr x)
  then show ?thesis using assms by simp
qed

lemma outcome_mono: "outcome t s P m \<Longrightarrow> (\<And>x. P x \<Longrightarrow> Q x) \<Longrightarrow> outcome t s Q m"
  by (auto simp: outcome_def split: sum.splits pyexc.splits)

lemma outcome_cases: "outcome t s P m \<longleftrightarrow> (\<exists>x. m = Inr x \<and> P x) \<or> (\<not> t \<and> (\<exists>e. m = Inl (ValueError e))) \<or>
    (\<not> s \<and> (\<exists>e. m = Inl (LedgerSchemaError e)))"
  by (auto simp: outcome_def split: sum.splits pyexc.splits)

section \<open>Times\<close>

definition real_instant :: "string \<Rightarrow> bool" where
  "real_instant s = (case instant_of s of Inr t \<Rightarrow> True | Inl e \<Rightarrow> False)"

lemma fromisoformat_outcome: "outcome False True (\<lambda>_. True) (fromisoformat s)"
  by (auto simp: fromisoformat_def split: option.splits list.splits)

lemma instant_of_outcome:
  assumes "t \<Longrightarrow> real_instant x" and "s \<Longrightarrow> fullmatch rx_timestamp x"
  shows "outcome t s (\<lambda>_. True) (instant_of x)"
  using fromisoformat_outcome [of "six_digits (butlast x) @ ''+00:00''"] assms
  by (auto simp: instant_of_def real_instant_def outcome_cases)

lemma deadline_outcome:
  assumes "t \<Longrightarrow> real_instant now \<and> real_instant deadline" and "s \<Longrightarrow> fullmatch rx_timestamp now"
    and "fullmatch rx_timestamp deadline"
  shows "outcome t s (\<lambda>_. True) (deadline_passed deadline now)"
  unfolding deadline_passed_def
  by (intro outcome_bind [OF instant_of_outcome] outcome_bind [OF instant_of_outcome]) (use assms in auto)

lemma grace_outcome:
  assumes "t \<Longrightarrow> real_instant now \<and> real_instant dispatched" and "s \<Longrightarrow> fullmatch rx_timestamp now"
    and "fullmatch rx_timestamp dispatched"
  shows "outcome t s (\<lambda>_. True) (within_grace now dispatched)"
  unfolding within_grace_def
  by (intro outcome_bind [OF instant_of_outcome] outcome_bind [OF instant_of_outcome]) (use assms in auto)

section \<open>The refusal evidence of a canary\<close>

lemma canary_refusal_total: "\<exists>b. canary_refusal_conforms r = Inr b"
  using schematicD [OF schematic_parts(2)]
  by (fastforce simp: canary_refusal_conforms_def split: option.splits pyexc.splits)

section \<open>What a verified authorization holds\<close>

definition auth_ok :: "authorization_view \<Rightarrow> bool" where
  "auth_ok v = (fullmatch rx_authorization_id (av_authorization_id v) \<and> path_ok v \<and> evidence_ok v \<and> resume_ok v)"

lemma auth_okI:
  assumes "verify_chain verify trust provenance repo issue entries = Inr view" and "lv_authorizations view a = Some v"
  shows "auth_ok v"
  using view_okD [OF verify_chain_view(1) [OF assms(1)] assms(2)] by (simp add: auth_ok_def)

lemma auth_field:
  assumes "auth_ok v" and "has v s" and "map_of EVIDENCE_SCHEMAS s = Some (v_object spec extra)" and "(k, f) \<in> set spec"
  obtains x l where "evidence_at v s = Inr (evidence_of v s)" "getitem (evidence_of v s) k = Inr x" "f x l = None"
proof -
  obtain l where "v_object spec extra (evidence_of v s) l = None"
    using evidence_schema_ok [OF _ assms(2,3)] assms(1) by (auto simp: auth_ok_def)
  from required_field [OF this assms(4)] obtain x where "jget k (evidence_of v s) = Some x" "f x (l @ ''.'' @ k) = None" by blast
  then show ?thesis using that assms(2) by (simp add: evidence_at_def has_evidence getitem_def)
qed

lemmas evidence_tables = schema_table [unfolded authorized_schema_def result_bound_schema_def published_schema_def]

lemma auth_path: "auth_ok v \<Longrightarrow> has v AUTHORIZED \<and> has v (av_state v) \<and> av_state v \<in> set STATES"
  by (simp add: auth_ok_def path_ok_def)

lemma auth_branch: assumes "auth_ok v" obtains b where "binding v ''execution_branch'' = Inr (JStr b)"
  by (rule auth_field [OF assms _ evidence_tables(1), of "''execution_branch''" "v_pattern rx_branch"])
    (use auth_path [OF assms] that in \<open>auto simp: binding_def ledger_simps\<close>)

lemma auth_deadline:
  assumes "auth_ok v"
  obtains d where "binding v ''deadline_published_at'' = Inr (JStr d)" "fullmatch rx_timestamp d"
  by (rule auth_field [OF assms _ evidence_tables(1), of "''deadline_published_at''" TIMESTAMP])
    (use auth_path [OF assms] that in \<open>auto simp: binding_def ledger_simps\<close>)

lemma auth_completion_deadline:
  assumes "auth_ok v" and "has v PUBLISHED"
  obtains d where "rbind (evidence_at v PUBLISHED) (\<lambda>e. getitem e ''deadline_completed_at'') = Inr (JStr d)" "fullmatch rx_timestamp d"
  by (rule auth_field [OF assms evidence_tables(5), of "''deadline_completed_at''" TIMESTAMP])
    (use that in \<open>auto simp: ledger_simps\<close>)

lemma auth_artifact:
  assumes "auth_ok v" and "has v RESULT_BOUND"
  obtains artifact i where "evidence_at v RESULT_BOUND = Inr (evidence_of v RESULT_BOUND)"
    "getitem (evidence_of v RESULT_BOUND) ''result_artifact'' = Inr artifact" "getitem artifact ''artifact_id'' = Inr (JInt i)"
proof (rule auth_field [OF assms evidence_tables(3), of "''result_artifact''" artifact_schema])
  fix x l
  assume x: "evidence_at v RESULT_BOUND = Inr (evidence_of v RESULT_BOUND)"
    "getitem (evidence_of v RESULT_BOUND) ''result_artifact'' = Inr x" "artifact_schema x l = None"
  from required_field [OF x(3) [unfolded artifact_schema_def], of "''artifact_id''" POSITIVE]
  obtain i where "jget ''artifact_id'' x = Some (JInt i)" by (auto simp: ledger_simps)
  with x(1,2) show thesis by (intro that) (auto simp: getitem_def)
qed simp

lemma auth_names:
  "auth_ok v \<Longrightarrow> \<exists>n. result_artifact_name (av_authorization_id v) = Inr n"
  "auth_ok v \<Longrightarrow> \<exists>n. fallback_result_artifact_name (av_authorization_id v) = Inr n"
  by (simp_all add: auth_ok_def result_artifact_name_def fallback_result_artifact_name_def authorization_digest_def)

lemma named_artifacts_total: "\<exists>n. name = Inr n \<Longrightarrow> \<exists>xs. named_artifacts name artifacts = Inr xs"
  by (auto simp: named_artifacts_def)

text \<open>The publish deadline is the fallback's when the result came from there, else the authorization's.\<close>

lemma auth_publish_deadline:
  assumes "auth_ok v"
  obtains d where "publish_deadline v = Inr d" "fullmatch rx_timestamp d"
proof (cases "\<exists>e kv kvs. av_evidence v RESULT_BOUND = Some e \<and> jget ''fallback'' e = Some (JObj (kv # kvs))")
  case True
  then obtain e kv kvs where e: "av_evidence v RESULT_BOUND = Some e" "jget ''fallback'' e = Some (JObj (kv # kvs))" by blast
  then obtain l where "result_bound_schema e l = None"
    using assms schema_table(3) unfolding auth_ok_def evidence_ok_def by fastforce
  from extra_field [OF this [unfolded result_bound_schema_def], of "''fallback''"
      "v_object [(''execution_attempt'', v_exact (JInt 2)), (''executor'', v_enum FALLBACK_EXECUTORS), (''attestation_sha256'', SHA64),
         (''deadline_published_at'', TIMESTAMP)] [(''model'', fallback_model)]", OF _ e(2)]
  have "\<exists>x. jget ''deadline_published_at'' (JObj (kv # kvs)) = Some x \<and> TIMESTAMP x (l @ ''.fallback.deadline_published_at'') = None"
    by (auto dest!: required_field [of _ _ _ _ "''deadline_published_at''" TIMESTAMP] simp: ledger_simps simp del: jget_simps)
  then show ?thesis using that e by (auto simp: publish_deadline_def getitem_def str_of_def ledger_simps simp del: jget_simps)
next
  case False
  obtain d where d: "binding v ''deadline_published_at'' = Inr (JStr d)" "fullmatch rx_timestamp d"
    by (rule auth_deadline [OF assms])
  then have "publish_deadline v = Inr d"
    using False by (auto simp: publish_deadline_def str_of_def split: option.splits json.splits list.splits)
  then show ?thesis using that d(2) by blast
qed

section \<open>What a decision asks for\<close>

text \<open>A decision that the ledger accepts for this authorization.\<close>

definition acceptable :: "authorization_view \<Rightarrow> step_decision \<Rightarrow> bool" where
  "acceptable v d =
     (let targets = set (legal_targets (Some (av_state v)))
      in if de_action d = ''noop'' then True
         else if de_action d = ''transition'' then \<exists>s. de_target_state d = Some s \<and> s \<in> targets - {FAILED}
         else if de_action d = ''fail'' then \<exists>c. de_code d = Some c \<and> c \<in> set FAILURE_CODES \<and> FAILED \<in> targets
         else if de_action d = ''freeze'' then de_code d = Some ''STATE_ROLLBACK_SUSPECTED''
         else if de_action d = ''resume''
         then \<exists>stage n. de_stage d = Some stage \<and> map_of RESUME_STAGES stage = Some (av_state v, Some n) \<and>
                av_pending_resume v = None \<and> av_resume_attempts v stage + 1 \<le> int n - 1
         else if de_action d = ''redispatch''
         then \<exists>p. av_pending_resume v = Some p \<and> de_stage d = Some (pr_stage p) \<and> pr_bound_run_id p = None
         else if de_action d = ''abandon_resume''
         then \<exists>p. av_pending_resume v = Some p \<and> de_stage d = Some (pr_stage p)
         else False)"

definition times_real :: "authorization_view \<Rightarrow> facts \<Rightarrow> bool" where
  "times_real v facts =
     (real_instant (fa_now facts) \<and> (\<forall>d. publish_deadline v = Inr d \<longrightarrow> real_instant d) \<and>
      (\<forall>d. binding v ''deadline_published_at'' = Inr (JStr d) \<longrightarrow> real_instant d) \<and>
      (\<forall>d. rbind (evidence_at v PUBLISHED) (\<lambda>e. getitem e ''deadline_completed_at'') = Inr (JStr d) \<longrightarrow> real_instant d) \<and>
      (\<forall>p. av_pending_resume v = Some p \<longrightarrow> real_instant (pr_dispatched_at p)))"

definition refusals_known :: "facts \<Rightarrow> bool" where
  "refusals_known facts =
     (fullmatch rx_timestamp (fa_now facts) \<and>
      (\<forall>r. fa_receipt facts = Known (Some r) \<and> jget ''verdict'' (JObj r) = Some (JStr ''REFUSED'') \<longrightarrow>
         (\<exists>c \<in> set VALIDATION_REFUSAL_CODES. jget ''code'' (JObj r) = Some (JStr c))) \<and>
      (\<forall>c. fa_publication_refusal_code facts = Some c \<longrightarrow> c \<in> set PUBLICATION_REFUSAL_CODES))"

text \<open>Every observation could be made.\<close>

definition definitive :: "facts \<Rightarrow> bool" where
  "definitive f =
     (fa_stage_run_active f = Known False \<and> fa_executor_conclusion f \<noteq> UNKNOWN \<and> fa_result_artifacts f \<noteq> UNKNOWN \<and>
      fa_receipt f \<noteq> UNKNOWN \<and> fa_remote_branch_head f \<noteq> UNKNOWN \<and> fa_remote_head_conforms f \<noteq> UNKNOWN \<and>
      fa_open_draft_pr f \<noteq> UNKNOWN \<and> fa_preflight_conclusion f \<noteq> UNKNOWN \<and> fa_resume_run_status f \<noteq> UNKNOWN)"

text \<open>Nothing is left to wait for: no owner's approval, no pending run, no deadline that is still ahead.\<close>

definition ripe :: "authorization_view \<Rightarrow> facts \<Rightarrow> bool" where
  "ripe v f =
     (definitive f \<and> \<not> av_terminal v \<and>
      (case av_pending_resume v of
         None \<Rightarrow> av_state v \<noteq> FALLBACK_AUTHORIZED
       | Some p \<Rightarrow> fa_resume_run_status f = Known (Some ''concluded'') \<or>
           (fa_resume_run_status f = Known None \<and> pr_bound_run_id p = None \<and>
            within_grace (fa_now f) (pr_dispatched_at p) = Inr False)) \<and>
      (av_state v = PUBLISHED \<and> (fa_preflight_conclusion f = Known None \<or>
           fa_preflight_conclusion f = Known (Some ''success'') \<and> fa_open_draft_pr f = Known None) \<longrightarrow>
         rbind (rbind (evidence_at v PUBLISHED) (\<lambda>e. getitem e ''deadline_completed_at'')) (\<lambda>d. rbind (text_value d) (\<lambda>t.
           deadline_passed t (fa_now f))) \<noteq> Inr False))"

definition settles :: "authorization_view \<Rightarrow> facts \<Rightarrow> step_decision \<Rightarrow> bool" where
  "settles v f d = (acceptable v d \<and> (ripe v f \<longrightarrow> de_action d \<noteq> ''noop''))"

abbreviation decides :: "authorization_view \<Rightarrow> facts \<Rightarrow> step_decision result \<Rightarrow> bool" where
  "decides v f r \<equiv> outcome (times_real v f) (refusals_known f) (settles v f) r"

lemma legal_table:
  "legal_targets (Some AUTHORIZED) = [RESULT_BOUND, FALLBACK_AUTHORIZED, FAILED]"
  "legal_targets (Some FALLBACK_AUTHORIZED) = [RESULT_BOUND, FAILED]"
  "legal_targets (Some RESULT_BOUND) = [VALIDATED, FAILED]"
  "legal_targets (Some VALIDATED) = [PUBLISHED, FAILED]"
  "legal_targets (Some PUBLISHED) = [COMPLETED, FAILED]"
  by (simp_all add: legal_targets_def LEGAL_TRANSITIONS_def)

lemma working_states:
  assumes "auth_ok v" and "\<not> av_terminal v"
  shows "av_state v = AUTHORIZED \<or> av_state v = FALLBACK_AUTHORIZED \<or> av_state v = RESULT_BOUND \<or> av_state v = VALIDATED \<or> av_state v = PUBLISHED"
  using auth_path [OF assms(1)] assms(2) by (simp add: STATES_def av_terminal_def TERMINAL_STATES_def)

lemma failing: "auth_ok v \<Longrightarrow> \<not> av_terminal v \<Longrightarrow> FAILED \<in> set (legal_targets (Some (av_state v)))"
  by (drule (1) working_states) (elim disjE; simp add: legal_table)

lemma settles_simps:
  "settles v f (decide ''noop'' None None None why) \<longleftrightarrow> \<not> ripe v f"
  "auth_ok v \<Longrightarrow> \<not> av_terminal v \<Longrightarrow> settles v f (decide ''fail'' None (Some c) None why) \<longleftrightarrow> c \<in> set FAILURE_CODES"
  "settles v f (decide ''transition'' (Some s) None None why\<lparr>de_evidence_hint := h\<rparr>) \<longleftrightarrow>
     s \<in> set (legal_targets (Some (av_state v))) - {FAILED}"
  "settles v f (decide ''freeze'' None (Some c) None why) \<longleftrightarrow> c = ''STATE_ROLLBACK_SUSPECTED''"
  "settles v f (decide ''resume'' None None (Some stage) why) \<longleftrightarrow> (\<exists>n. map_of RESUME_STAGES stage = Some (av_state v, Some n) \<and>
     av_pending_resume v = None \<and> av_resume_attempts v stage + 1 \<le> int n - 1)"
  "settles v f (decide ''redispatch'' None None (Some stage) why) \<longleftrightarrow>
     (\<exists>p. av_pending_resume v = Some p \<and> stage = pr_stage p \<and> pr_bound_run_id p = None)"
  "settles v f (decide ''abandon_resume'' None None (Some stage) why) \<longleftrightarrow> (\<exists>p. av_pending_resume v = Some p \<and> stage = pr_stage p)"
  using failing by (auto simp: settles_def acceptable_def decide_def)

section \<open>The decisions of each state\<close>

lemma unknown_noop: "\<not> definitive f \<Longrightarrow> settles v f (decide ''noop'' None None None why)"
  by (simp add: settles_simps ripe_def)

lemma executor_failure_decides: "auth_ok v \<Longrightarrow> \<not> av_terminal v \<Longrightarrow> decides v f (executor_failure f)"
  by (simp add: executor_failure_def settles_simps FAILURE_CODES_def split: option.splits)

lemma bind_artifact_decides:
  "auth_ok v \<Longrightarrow> \<not> av_terminal v \<Longrightarrow> RESULT_BOUND \<in> set (legal_targets (Some (av_state v))) \<Longrightarrow> decides v f (bind_artifact a)"
  by (simp add: bind_artifact_def settles_simps FAILURE_CODES_def)

lemma unobserved_dispatch_decides:
  assumes "resume_ok v" and "av_pending_resume v = Some p" and "stage = pr_stage p" and "pr_bound_run_id p = None"
    and "fa_resume_run_status f \<noteq> Known (Some ''concluded'')"
  shows "decides v f (unobserved_dispatch p f stage why again)"
  unfolding unobserved_dispatch_def
proof (rule outcome_bind)
  show "outcome (times_real v f) (refusals_known f) (\<lambda>_. True) (within_grace (fa_now f) (pr_dispatched_at p))"
    using assms(1,2) by (intro grace_outcome) (auto simp: times_real_def refusals_known_def resume_ok_def)
next
  fix grace assume g: "within_grace (fa_now f) (pr_dispatched_at p) = Inr grace"
  show "decides v f (if grace then noop why else on_stage ''redispatch'' stage again)"
    using assms g by (auto simp: settles_simps ripe_def)
qed

lemma pending_stage:
  assumes "resume_ok v" and "av_pending_resume v = Some p" and "(stage, av_state v, cap) \<in> set RESUME_STAGES"
  shows "pr_stage p = stage"
proof -
  obtain c where "map_of RESUME_STAGES (pr_stage p) = Some (av_state v, c)" using assms(1,2) unfolding resume_ok_def by blast
  then have "(pr_stage p, av_state v, c) \<in> set RESUME_STAGES" by (rule map_of_SomeD)
  with assms(3) show ?thesis by (auto simp: RESUME_STAGES_def)
qed

lemma resume_or_fail_decides:
  assumes "auth_ok v" and "has v RESULT_BOUND" and "\<not> av_terminal v" and "map_of RESUME_STAGES stage = Some (av_state v, Some n)"
    and "code \<in> set FAILURE_CODES" and "av_state v \<noteq> PUBLISHED"
  shows "decides v f (resume_or_fail v stage f code)"
proof (cases "fa_result_artifacts f")
  case UNKNOWN
  then show ?thesis by (simp add: resume_or_fail_def unknown_noop definitive_def)
next
  case (Known artifacts)
  obtain artifact i where a: "evidence_at v RESULT_BOUND = Inr (evidence_of v RESULT_BOUND)"
    "getitem (evidence_of v RESULT_BOUND) ''result_artifact'' = Inr artifact" "getitem artifact ''artifact_id'' = Inr (JInt i)"
    by (rule auth_artifact [OF assms(1,2)])
  have r: "resume_ok v" using assms(1) by (simp add: auth_ok_def)
  have lost: "decides v f (fail ''RESULT_TRANSPORT_EXPIRED'' '''')"
    using assms(1,3) by (simp add: settles_simps FAILURE_CODES_def)
  have stage: "pr_stage p = stage" if "av_pending_resume v = Some p" for p
    using pending_stage [OF r that map_of_SomeD [OF assms(4)]] .
  have pending: "decides v f
      (if fa_resume_run_status f = UNKNOWN \<or> fa_resume_run_status f = Known (Some ''active'')
       then noop ''pending resume run unknown or still active''
       else if fa_resume_run_status f = Known (Some ''concluded'') then on_stage ''abandon_resume'' stage ''run_concluded_without_output''
       else if pr_bound_run_id p \<noteq> None then noop ''bound resume run not observable yet''
       else unobserved_dispatch p f stage ''resume dispatch within its grace period''
              ''dispatch produced no run; same nonce, no attempt consumed'')" if p: "av_pending_resume v = Some p" for p
    using p stage [OF p] unobserved_dispatch_decides [OF r p, of stage f]
    by (auto simp: settles_simps ripe_def)
  have fresh: "decides v f (if int n \<le> av_resume_attempts v stage + 1 then fail code '''' else on_stage ''resume'' stage '''')"
    if "av_pending_resume v = None"
    using assms(1,3,4,5) that by (simp add: settles_simps)
  show ?thesis
    using lost pending fresh
    by (simp add: resume_or_fail_def Known a assms(4) split: list.split option.split)
qed

lemma fallback_decides:
  assumes "auth_ok v" and "av_state v = FALLBACK_AUTHORIZED"
  shows "decides v f (fallback_decision v f)"
proof (cases "av_pending_resume v")
  case None
  then show ?thesis using assms(2) by (simp add: fallback_decision_def settles_simps ripe_def)
next
  case (Some p)
  have live: "\<not> av_terminal v" using assms(2) by (simp add: av_terminal_def TERMINAL_STATES_def)
  have r: "resume_ok v" using assms(1) by (simp add: auth_ok_def)
  have stage: "pr_stage p = ''fallback''"
    by (rule pending_stage [OF r Some, of _ None]) (simp add: RESUME_STAGES_def assms(2))
  have target: "RESULT_BOUND \<in> set (legal_targets (Some (av_state v)))" by (simp add: assms(2) legal_table)
  have abandon: "settles v f (decide ''abandon_resume'' None None (Some ''fallback'') why)" for why
    using Some stage by (simp add: settles_simps)
  have integrity: "settles v f (decide ''fail'' None (Some ''TRANSPORT_INTEGRITY_FAILED'') None why)" for why
    using assms(1) live by (simp add: settles_simps FAILURE_CODES_def)
  have bound: "decides v f
     (case (fa_result_artifacts f, fa_executor_conclusion f) of
        (Known artifacts, Known conclusion) \<Rightarrow>
          rbind (named_artifacts (result_artifact_name (av_authorization_id v)) artifacts) (\<lambda>primary.
          rbind (named_artifacts (fallback_result_artifact_name (av_authorization_id v)) artifacts) (\<lambda>second.
            if primary \<noteq> [] \<or> length second > 1
            then fail ''TRANSPORT_INTEGRITY_FAILED'' ''a result other than one fallback result''
            else case second of
                   a # as \<Rightarrow> bind_artifact a
                 | [] \<Rightarrow>
                     if fa_executor_advisory_code f = Some ''FALLBACK_SESSION_NOT_STARTED'' \<or> not_started conclusion
                     then on_stage ''abandon_resume'' ''fallback'' ''run_concluded_without_output''
                     else executor_failure f))
      | _ \<Rightarrow> noop ''fallback executor facts unknown'')" (is "decides v f ?step")
  proof (cases "fa_result_artifacts f = UNKNOWN \<or> fa_executor_conclusion f = UNKNOWN")
    case True
    then show ?thesis by (auto simp: unknown_noop definitive_def split: fact.split)
  next
    case False
    then obtain artifacts conclusion where k: "fa_result_artifacts f = Known artifacts" "fa_executor_conclusion f = Known conclusion"
      by (metis fact.exhaust)
    obtain primary second where n: "named_artifacts (result_artifact_name (av_authorization_id v)) artifacts = Inr primary"
      "named_artifacts (fallback_result_artifact_name (av_authorization_id v)) artifacts = Inr second"
      using named_artifacts_total auth_names [OF assms(1)] by metis
    show ?thesis
      using abandon integrity bind_artifact_decides [OF assms(1) live target] executor_failure_decides [OF assms(1) live]
      by (simp add: k n split: list.split)
  qed
  show ?thesis
  proof (cases "pr_bound_run_id p")
    case None
    then show ?thesis
      using Some stage abandon unobserved_dispatch_decides [OF r Some stage [symmetric] None, of f]
      by (auto simp: fallback_decision_def unknown_noop definitive_def settles_simps ripe_def)
  next
    case (Some run)
    then show ?thesis
      using \<open>av_pending_resume v = Some p\<close> bound
      by (auto simp: fallback_decision_def unknown_noop definitive_def settles_simps ripe_def)
  qed
qed

lemma admissible_outcome:
  assumes "auth_ok v"
  shows "outcome (times_real v f) (refusals_known f) (\<lambda>_. True) (fallback_admissible v f n)"
proof -
  obtain d where d: "binding v ''deadline_published_at'' = Inr (JStr d)" "fullmatch rx_timestamp d"
    by (rule auth_deadline [OF assms])
  have e: "evidence_at v AUTHORIZED = Inr (evidence_of v AUTHORIZED)"
    using auth_path [OF assms] by (simp add: evidence_at_def has_evidence)
  have "outcome (times_real v f) (refusals_known f) (\<lambda>_. True) (deadline_passed d (fa_now f))"
    using d by (intro deadline_outcome) (auto simp: times_real_def refusals_known_def)
  moreover obtain b where "canary_refusal_conforms (fa_executor_canary_refusal f) = Inr b" using canary_refusal_total by blast
  ultimately show ?thesis
    by (auto simp: fallback_admissible_def e d(1) text_value_def Let_def intro!: outcome_bind)
qed

lemma authorized_decides:
  assumes "auth_ok v" and "av_state v = AUTHORIZED"
  shows "decides v f (advance_authorized v f)"
proof (cases "fa_result_artifacts f = UNKNOWN \<or> fa_executor_conclusion f = UNKNOWN")
  case True
  then show ?thesis by (auto simp: advance_authorized_def unknown_noop definitive_def split: fact.split)
next
  case False
  then obtain artifacts conclusion where k: "fa_result_artifacts f = Known artifacts" "fa_executor_conclusion f = Known conclusion"
    by (metis fact.exhaust)
  have live: "\<not> av_terminal v" using assms(2) by (simp add: av_terminal_def TERMINAL_STATES_def)
  have target: "RESULT_BOUND \<in> set (legal_targets (Some (av_state v)))" by (simp add: assms(2) legal_table)
  obtain found where n: "named_artifacts (result_artifact_name (av_authorization_id v)) artifacts = Inr found"
    using named_artifacts_total [OF auth_names(1) [OF assms(1)]] by blast
  have e: "evidence_at v AUTHORIZED = Inr (evidence_of v AUTHORIZED)"
    using auth_path [OF assms(1)] by (simp add: evidence_at_def has_evidence)
  have fails: "settles v f (decide ''fail'' None (Some ''TRANSPORT_INTEGRITY_FAILED'') None why)"
    "settles v f (decide ''fail'' None (Some ''EXECUTION_NOT_STARTED'') None why)" for why
    using assms(1) live by (simp_all add: settles_simps FAILURE_CODES_def)
  have "decides v f (rbind (fallback_admissible v f 0) (\<lambda>admissible.
      if admissible
      then rbind (evidence_at v AUTHORIZED) (\<lambda>bound. transition FALLBACK_AUTHORIZED (Some [(''cause'', fallback_cause bound f)]))
      else executor_failure f))"
    by (rule outcome_bind [OF admissible_outcome [OF assms(1)]])
      (use executor_failure_decides [OF assms(1) live] in \<open>simp add: e settles_simps assms(2) legal_table\<close>)
  then show ?thesis
    using fails bind_artifact_decides [OF assms(1) live target]
    by (simp add: advance_authorized_def k n split: list.split)
qed

lemma refusal_codes:
  "set VALIDATION_REFUSAL_CODES \<subseteq> set FAILURE_CODES" "set PUBLICATION_REFUSAL_CODES \<subseteq> set FAILURE_CODES"
  by (simp_all add: VALIDATION_REFUSAL_CODES_def PUBLICATION_REFUSAL_CODES_def FAILURE_CODES_def)

lemma refusal_decides:
  assumes "auth_ok v" and "\<not> av_terminal v" and "set allowed \<subseteq> set FAILURE_CODES"
    and "refusals_known f \<Longrightarrow> \<exists>c \<in> set allowed. code = Some (JStr c)"
  shows "decides v f (rbind (terminal_refusal code allowed) (\<lambda>c. fail c ''''))"
proof (rule outcome_bind)
  show "outcome (times_real v f) (refusals_known f) (\<lambda>c. c \<in> set allowed) (terminal_refusal code allowed)"
    using assms(4) by (auto simp: terminal_refusal_def split: option.splits json.splits)
next
  fix c assume "c \<in> set allowed"
  then show "decides v f (fail c '''')" using assms(1-3) by (auto simp: settles_simps)
qed

lemma result_bound_decides:
  assumes "auth_ok v" and "av_state v = RESULT_BOUND"
  shows "decides v f (advance_result_bound v f)"
proof -
  have live: "\<not> av_terminal v" using assms(2) by (simp add: av_terminal_def TERMINAL_STATES_def)
  have "has v RESULT_BOUND" using auth_path [OF assms(1)] assms(2) by simp
  then have resume: "decides v f (resume_or_fail v ''validation'' f ''VALIDATION_UNAVAILABLE'')"
    by (intro resume_or_fail_decides [OF assms(1) _ live]) (simp_all add: RESUME_STAGES_def FAILURE_CODES_def assms(2))
  have "decides v f (rbind (terminal_refusal (map_of r ''code'') VALIDATION_REFUSAL_CODES) (\<lambda>c. fail c ''''))"
    if "fa_receipt f = Known (Some r)" "map_of r ''verdict'' = Some (JStr ''REFUSED'')" for r
    using that by (intro refusal_decides [OF assms(1) live refusal_codes(1)]) (auto simp: refusals_known_def)
  with resume show ?thesis
    by (auto simp: advance_result_bound_def unknown_noop definitive_def settles_simps(3) legal_table assms(2) split: fact.split option.split)
qed

lemma validated_decides:
  assumes "auth_ok v" and "av_state v = VALIDATED"
  shows "decides v f (advance_validated v f)"
proof -
  have live: "\<not> av_terminal v" using assms(2) by (simp add: av_terminal_def TERMINAL_STATES_def)
  have "has v RESULT_BOUND" using assms unfolding auth_ok_def path_ok_def by metis
  then have resume: "decides v f (resume_or_fail v ''publication'' f ''PUBLICATION_UNAVAILABLE'')"
    by (intro resume_or_fail_decides [OF assms(1) _ live]) (simp_all add: RESUME_STAGES_def FAILURE_CODES_def assms(2))
  obtain d where d: "publish_deadline v = Inr d" "fullmatch rx_timestamp d" by (rule auth_publish_deadline [OF assms(1)])
  have late: "decides v f (rbind (deadline_passed d (fa_now f)) (\<lambda>passed.
      if passed then fail ''LIFECYCLE_DEADLINE_EXCEEDED'' '''' else resume_or_fail v ''publication'' f ''PUBLICATION_UNAVAILABLE''))"
    by (rule outcome_bind [OF deadline_outcome])
      (use d resume assms(1) live in \<open>auto simp: times_real_def refusals_known_def settles_simps FAILURE_CODES_def\<close>)
  have refusal: "decides v f (rbind (terminal_refusal (Some (JStr c)) PUBLICATION_REFUSAL_CODES) (\<lambda>c. fail c ''''))"
    if "fa_publication_refusal_code f = Some c" for c
    using that by (intro refusal_decides [OF assms(1) live refusal_codes(2)]) (auto simp: refusals_known_def)
  have conflict: "settles v f (decide ''fail'' None (Some ''REMOTE_BRANCH_CONFLICT'') None why)" for why
    using assms(1) live by (simp add: settles_simps FAILURE_CODES_def)
  show ?thesis
    using late refusal conflict
    by (auto simp: advance_validated_def d(1) unknown_noop definitive_def settles_simps(3) legal_table assms(2)
        split: fact.split option.split)
qed

lemma published_decides:
  assumes "auth_ok v" and "av_state v = PUBLISHED"
  shows "decides v f (advance_published v f)"
proof (cases "fa_open_draft_pr f = UNKNOWN \<or> fa_preflight_conclusion f = UNKNOWN")
  case True
  then show ?thesis by (auto simp: advance_published_def unknown_noop definitive_def split: fact.split)
next
  case False
  then obtain pr preflight where k: "fa_open_draft_pr f = Known pr" "fa_preflight_conclusion f = Known preflight"
    by (metis fact.exhaust)
  have live: "\<not> av_terminal v" using assms(2) by (simp add: av_terminal_def TERMINAL_STATES_def)
  have "has v PUBLISHED" using auth_path [OF assms(1)] assms(2) by simp
  then obtain d where d: "rbind (evidence_at v PUBLISHED) (\<lambda>e. getitem e ''deadline_completed_at'') = Inr (JStr d)"
    "fullmatch rx_timestamp d" by (rule auth_completion_deadline [OF assms(1)])
  then obtain e where e: "evidence_at v PUBLISHED = Inr e" "getitem e ''deadline_completed_at'' = Inr (JStr d)"
    by (auto simp: rbind_Inr_iff)
  have wait: "decides v f (rbind (deadline_passed d (fa_now f)) (\<lambda>passed.
      if passed then fail ''CANDIDATE_PREFLIGHT_TIMEOUT'' '''' else noop ''awaiting exact-head Pre-PR Preflight and Draft PR''))"
    if "\<not> (preflight \<noteq> None \<and> preflight \<noteq> Some ''success'')" "\<not> (pr \<noteq> None \<and> preflight = Some ''success'')"
  proof (rule outcome_bind [OF deadline_outcome])
    fix passed assume p: "deadline_passed d (fa_now f) = Inr passed"
    show "decides v f (if passed then fail ''CANDIDATE_PREFLIGHT_TIMEOUT'' '''' else noop ''awaiting exact-head Pre-PR Preflight and Draft PR'')"
      using that assms live p by (auto simp: settles_simps FAILURE_CODES_def ripe_def e text_value_def k)
  qed (use d in \<open>auto simp: times_real_def refusals_known_def\<close>)
  have refused: "settles v f (decide ''fail'' None (Some ''CANDIDATE_PREFLIGHT_FAILED'') None why)" for why
    using assms(1) live by (simp add: settles_simps FAILURE_CODES_def)
  show ?thesis
    using wait refused
    by (simp add: advance_published_def k e text_value_def settles_simps(3) legal_table assms(2))
qed

lemma advance_decides:
  assumes "auth_ok v"
  shows "decides v f (advance v f)"
proof (cases "av_terminal v \<or> fa_stage_run_active f \<noteq> Known False")
  case True
  then show ?thesis
    by (cases "fa_stage_run_active f") (auto simp: advance_def Let_def settles_simps ripe_def definitive_def)
next
  case False
  obtain b where b: "binding v ''execution_branch'' = Inr (JStr b)" by (rule auth_branch [OF assms])
  have freeze: "settles v f (decide ''freeze'' None (Some ''STATE_ROLLBACK_SUSPECTED'') None why)" for why
    by (simp add: settles_simps)
  from False have "\<not> av_terminal v" by simp
  from working_states [OF assms this] show ?thesis
    using False freeze authorized_decides [OF assms, of f] fallback_decides [OF assms, of f] result_bound_decides [OF assms, of f]
      validated_decides [OF assms, of f] published_decides [OF assms, of f]
    by (elim disjE) (simp_all add: advance_def Let_def b)
qed

section \<open>A ledger under way\<close>

definition working_entries :: "(json \<times> (string \<times> json) list option) list" where
  "working_entries = [(record_0, None), (record_1, None), (record_2, None)]"

definition working_auth :: authorization_view where
  "working_auth = sample_auth VALIDATED [record_0, record_1, record_2] evidence_2"

definition working_view :: ledger_view where
  "working_view = sample_view working_auth (Some sample_id) (record_digest record_2) 3"

lemma working_chain: "verify_chain sample_verify sample_trust sample_provenance 3 7 working_entries = Inr working_view"
  by (simp add: verify_chain_def working_entries_def apply_0 apply_1 apply_2 working_view_def working_auth_def)

lemma working_lookup: "lv_authorizations working_view sample_id = Some working_auth"
  by (simp add: working_view_def sample_view_def)

text \<open>The publication run ended without a branch; the bound result can still be fetched and the deadline is a day ahead.\<close>

definition working_facts :: facts where
  "working_facts = no_facts
     \<lparr>fa_stage_run_active := Known False, fa_executor_conclusion := Known None, fa_receipt := Known None,
      fa_result_artifacts := Known [\<lparr>af_artifact_id = 2, af_name = ''result'', af_digest = ''d'', af_size = 1, af_expired = False\<rparr>],
      fa_remote_branch_head := Known None, fa_remote_head_conforms := Known False, fa_open_draft_pr := Known None,
      fa_preflight_conclusion := Known None, fa_resume_run_status := Known None, fa_now := sample_time\<rparr>"

lemma working_instants:
  "instant_of sample_time = Inr (utc 63902822400000000)" "instant_of sample_deadline = Inr (utc 63902908800000000)"
  unfolding sample_time_def sample_deadline_def by code_simp+

lemma working_evidence:
  "av_state working_auth = VALIDATED" "av_evidence working_auth AUTHORIZED = Some sample_authorized"
  "av_evidence working_auth RESULT_BOUND = Some sample_bound" "av_evidence working_auth PUBLISHED = None"
  "av_pending_resume working_auth = None" "av_resume_attempts working_auth stage = 0"
  by (simp_all add: working_auth_def sample_auth_def evidence_2_def evidence_1_def)

lemma working_times:
  "publish_deadline working_auth = Inr sample_deadline" "binding working_auth ''deadline_published_at'' = Inr (JStr sample_deadline)"
  "binding working_auth ''execution_branch'' = Inr (JStr sample_branch)"
  "evidence_at working_auth PUBLISHED = Inl (KeyError PUBLISHED)"
  by (simp_all add: publish_deadline_def binding_def evidence_at_def working_evidence getitem_def sample_authorized_def
      sample_bound_def str_of_def)

lemma working_real: "times_real working_auth working_facts"
  by (simp add: times_real_def working_facts_def real_instant_def working_instants working_times working_evidence)

lemma working_known: "refusals_known working_facts"
  by (simp add: refusals_known_def working_facts_def no_facts_def sample_time_def) code_simp

lemma working_decision: "advance working_auth working_facts = Inr (decide ''resume'' None None (Some ''publication'') '''')"
  by (simp add: advance_def Let_def av_terminal_def TERMINAL_STATES_def working_evidence working_facts_def working_times observed_def
      advance_validated_def deadline_passed_def working_instants resume_or_fail_def evidence_at_def getitem_def sample_bound_def
      sample_artifact_def RESUME_STAGES_def no_facts_def)

section \<open>Properties\<close>

text \<open>C18. The decision function never gets stuck on a verified ledger: for every authorization of a verified ledger and all observations it
  returns a decision, except that a time without a date in the calendar raises \<open>ValueError\<close> and a malformed current time
  or a refusal code outside its vocabulary raises \<open>LedgerSchemaError\<close>. No lookup in the evidence fails.\<close>

theorem advance_total:
  assumes "verify_chain verify trust provenance repo issue entries = Inr view" and "lv_authorizations view a = Some v"
  shows "(\<exists>d. advance v f = Inr d) \<or> (\<not> times_real v f \<and> (\<exists>m. advance v f = Inl (ValueError m))) \<or>
    (\<not> refusals_known f \<and> (\<exists>m. advance v f = Inl (LedgerSchemaError m)))"
  using advance_decides [OF auth_okI [OF assms], of f] unfolding outcome_cases by blast

lemma advance_total_witness: "\<exists>d. advance working_auth working_facts = Inr d"
  using advance_total [OF working_chain working_lookup, of working_facts] working_real working_known by blast

text \<open>C17. The ledger accepts what is decided: a decided transition is a legal transition that is no failure; a decided failure has a code of
  the failure vocabulary and may follow the state; a further run is asked for in the states of a bound or validated result only
  (never for the model), within its cap, and the request with any nonce is accepted; a run is dispatched again only while it is pending and
  unbound; an abandonment names the pending run and is accepted.\<close>

theorem advance_accepted:
  assumes "verify_chain verify trust provenance repo issue entries = Inr view" and "lv_authorizations view a = Some v"
    and "advance v f = Inr d"
  shows "de_action d = ''noop'' \<or>
    (de_action d = ''transition'' \<and> (\<exists>s \<in> set (legal_targets (Some (av_state v))) - {FAILED}. de_target_state d = Some s)) \<or>
    (de_action d = ''fail'' \<and> (\<exists>c \<in> set FAILURE_CODES. de_code d = Some c) \<and> FAILED \<in> set (legal_targets (Some (av_state v)))) \<or>
    (de_action d = ''freeze'' \<and> de_code d = Some ''STATE_ROLLBACK_SUSPECTED'') \<or>
    (de_action d = ''resume'' \<and> av_state v \<in> {RESULT_BOUND, VALIDATED} \<and>
      (\<exists>stage. de_stage d = Some stage \<and> (\<forall>nonce moment. \<exists>w. apply_resume_requested v (JObj
         [(''stage'', JStr stage), (''nonce'', JStr nonce), (''attempt'', JInt (av_resume_attempts v stage + 1)),
          (''dispatched_at'', JStr moment)]) = Inr w))) \<or>
    (de_action d = ''redispatch'' \<and> (\<exists>p. av_pending_resume v = Some p \<and> de_stage d = Some (pr_stage p) \<and> pr_bound_run_id p = None)) \<or>
    (de_action d = ''abandon_resume'' \<and> (\<exists>p. av_pending_resume v = Some p \<and> de_stage d = Some (pr_stage p) \<and>
      (\<forall>reason. apply_resume_abandoned v (JObj [(''nonce'', JStr (pr_nonce p)), (''reason'', JStr reason)]) =
         Inr (v\<lparr>av_pending_resume := None\<rparr>))))"
proof -
  have "acceptable v d"
    using advance_decides [OF auth_okI [OF assms(1,2)], of f] assms(3) by (simp add: settles_def)
  moreover have "st \<in> {RESULT_BOUND, VALIDATED}" if "map_of RESUME_STAGES stage = Some (st, Some n)" for stage st n
    using map_of_SomeD [OF that] by (auto simp: RESUME_STAGES_def)
  ultimately show ?thesis
    unfolding acceptable_def Let_def
    by (auto simp: apply_resume_requested_def apply_resume_abandoned_def Let_def sfield_def ifield_def require_def split: if_splits)
qed

lemma advance_accepted_witness:
  "\<exists>w. apply_resume_requested working_auth (JObj
         [(''stage'', JStr ''publication''), (''nonce'', JStr hex64), (''attempt'', JInt 1), (''dispatched_at'', JStr sample_time)]) = Inr w"
  using advance_accepted [OF working_chain working_lookup working_decision] by (auto simp: decide_def working_evidence)

text \<open>C19. An authorization that has nothing to wait for moves on: when every observation is definitive, the stage run has ended, no owner's
  approval, no running resume and no open deadline is awaited, and the times and codes are well formed, a decision other than
  doing nothing is taken.\<close>

theorem advance_progress:
  assumes "verify_chain verify trust provenance repo issue entries = Inr view" and "lv_authorizations view a = Some v"
    and "ripe v f" and "times_real v f" and "refusals_known f"
  shows "\<exists>d. advance v f = Inr d \<and> de_action d \<noteq> ''noop''"
  using advance_decides [OF auth_okI [OF assms(1,2)], of f] assms(3-5) unfolding outcome_cases settles_def by blast

lemma advance_progress_witness: "\<exists>d. advance working_auth working_facts = Inr d \<and> de_action d \<noteq> ''noop''"
proof -
  have "ripe working_auth working_facts"
    by (simp add: ripe_def definitive_def working_evidence av_terminal_def TERMINAL_STATES_def) (simp add: working_facts_def)
  from advance_progress [OF working_chain working_lookup this working_real working_known] show ?thesis .
qed

lemma signal_causes: "c \<in> set RECOVERABLE_PROVIDER_FAILURES \<Longrightarrow> c \<in> set FALLBACK_PRIMARY_CAUSES \<and> c \<noteq> CANARY_FALLBACK_CAUSE"
  by (auto simp: RECOVERABLE_PROVIDER_FAILURES_def FALLBACK_PRIMARY_CAUSES_def FALLBACK_CAUSES_def CANARY_FALLBACK_CAUSE_def)

lemma admissible_facts:
  assumes "fallback_admissible v f n = Inr True"
  obtains bound offered cause deadline where "evidence_at v AUTHORIZED = Inr bound" "jget ''fallback'' bound = Some offered"
    "fa_executor_stderr_category f = Some cause" "fa_executor_probe_category f = Some cause"
    "cause \<in> set RECOVERABLE_PROVIDER_FAILURES" "n = 0" "av_state v = AUTHORIZED"
    "binding v ''deadline_published_at'' = Inr (JStr deadline)" "deadline_passed deadline (fa_now f) = Inr False"
    "jget ''fallback_canary'' bound = Some (JBool True) \<Longrightarrow> cause = ''NETWORK'' \<and>
       canary_refusal_conforms (fa_executor_canary_refusal f) = Inr True"
proof -
  from assms obtain bound where b: "evidence_at v AUTHORIZED = Inr bound" "\<not> absent (jget ''fallback'' bound)"
    unfolding fallback_admissible_def by (auto simp: rbind_Inr_iff split: if_splits)
  from assms obtain deadline armed where d: "binding v ''deadline_published_at'' = Inr (JStr deadline)"
    "deadline_passed deadline (fa_now f) = Inr False"
    "(if jget ''fallback_canary'' bound = Some (JBool True)
      then if fa_executor_stderr_category f = fa_executor_probe_category f \<and> fa_executor_probe_category f = Some ''NETWORK''
           then canary_refusal_conforms (fa_executor_canary_refusal f) else Inr False
      else Inr True) = Inr armed"
    "armed" "is_signal (fa_executor_stderr_category f)" "is_signal (fa_executor_probe_category f)"
    "permit_codex_fallback
              \<lparr>fe_primary = ''kilo'', fe_secondary = ''codex'', fe_stderr_category = str_opt (fa_executor_stderr_category f),
               fe_probe_category = str_opt (fa_executor_probe_category f), fe_primary_result_artifacts = n,
               fe_authorization_valid = (av_state v = AUTHORIZED \<and> \<not> av_terminal v), fe_proof_published = False,
               fe_isolation_verified = (fa_executor_probe_category f \<noteq> None), fe_workspace_exclusive = True, fe_attempts_started = 1\<rparr>"
    unfolding fallback_admissible_def b(1) rbind_simps
    by (auto simp: rbind_Inr_iff text_value_def Let_def split: if_splits json.splits)
  obtain s c where sc: "fa_executor_stderr_category f = Some s" "fa_executor_probe_category f = Some c"
    using d(5,6) by (auto simp: is_signal_def split: option.splits)
  with d(7) have same: "s = c" "c \<in> set RECOVERABLE_PROVIDER_FAILURES" "n = 0" "av_state v = AUTHORIZED"
    by (auto simp: permit_codex_fallback_def str_opt_def)
  obtain offered where "jget ''fallback'' bound = Some offered" using b(2) by (auto simp: absent_def)
  moreover have "jget ''fallback_canary'' bound = Some (JBool True) \<Longrightarrow> c = ''NETWORK'' \<and>
       canary_refusal_conforms (fa_executor_canary_refusal f) = Inr True"
    using d(3,4) sc same by (auto split: if_splits)
  ultimately show thesis using that b(1) d(1,2) sc same by blast
qed

text \<open>Postconditions of the results that are values.\<close>

definition on_success :: "('a \<Rightarrow> bool) \<Rightarrow> 'a result \<Rightarrow> bool" where
  "on_success P r = (\<forall>x. r = Inr x \<longrightarrow> P x)"

lemma on_success_simps [simp]: "on_success P (Inr x) = P x" "on_success P (Inl e)"
  by (simp_all add: on_success_def)

lemma on_success_bind: "(\<And>x. m = Inr x \<Longrightarrow> on_success P (f x)) \<Longrightarrow> on_success P (rbind m f)"
  by (cases m) simp_all

abbreviation elsewhere :: "step_decision result \<Rightarrow> bool" where
  "elsewhere r \<equiv> on_success (\<lambda>d. de_target_state d \<noteq> Some FALLBACK_AUTHORIZED) r"

lemma elsewhere_rules:
  "elsewhere (bind_artifact a)" "elsewhere (executor_failure f)" "elsewhere (unobserved_dispatch p f stage why again)"
  "elsewhere (resume_or_fail v stage f code)"
  by (auto simp: bind_artifact_def executor_failure_def unobserved_dispatch_def resume_or_fail_def decide_def
      intro!: on_success_bind split: fact.split option.split list.split)

lemma elsewhere_states:
  "elsewhere (fallback_decision v f)" "elsewhere (advance_result_bound v f)" "elsewhere (advance_validated v f)"
  "elsewhere (advance_published v f)"
  by (auto simp: fallback_decision_def advance_result_bound_def advance_validated_def advance_published_def elsewhere_rules decide_def
      intro!: on_success_bind split: fact.split option.split list.split)

lemma fallback_transition:
  assumes "advance v f = Inr d" and "de_target_state d = Some FALLBACK_AUTHORIZED"
  obtains bound where "fallback_admissible v f 0 = Inr True" "evidence_at v AUTHORIZED = Inr bound"
    "de_evidence_hint d = Some [(''cause'', fallback_cause bound f)]"
proof -
  let ?P = "\<lambda>d. de_target_state d = Some FALLBACK_AUTHORIZED \<longrightarrow> fallback_admissible v f 0 = Inr True \<and>
      (\<exists>bound. evidence_at v AUTHORIZED = Inr bound \<and> de_evidence_hint d = Some [(''cause'', fallback_cause bound f)])"
  have weaken: "on_success ?P r" if "elsewhere r" for r using that by (simp add: on_success_def)
  have "on_success ?P (advance_authorized v f)"
    by (auto simp: advance_authorized_def elsewhere_rules weaken [OF elsewhere_rules(1)] weaken [OF elsewhere_rules(2)] decide_def intro!: on_success_bind
        split: fact.split option.split list.split)
  then have "on_success ?P (advance v f)"
    by (auto simp: advance_def Let_def weaken [OF elsewhere_states(1)] weaken [OF elsewhere_states(2)] weaken [OF elsewhere_states(3)]
        weaken [OF elsewhere_states(4)] decide_def intro!: on_success_bind)
  with assms that show thesis by (auto simp: on_success_def)
qed

text \<open>C20. What the decision function admits as a fallback the ledger accepts: the authorization is in its first state and bound a fallback,
  the two observers of the primary run agree on a recoverable cause before the publish deadline, and any evidence that records the decided
  cause with their observations and the bound fallback identity, and a refusal exactly when the signed canary is armed, passes the check of
  the verifier.\<close>

theorem fallback_accepted:
  assumes "advance v f = Inr d" and "de_target_state d = Some FALLBACK_AUTHORIZED"
  shows "\<exists>bound offered category cause deadline. av_state v = AUTHORIZED \<and> evidence_at v AUTHORIZED = Inr bound \<and>
    jget ''fallback'' bound = Some offered \<and> category \<in> set RECOVERABLE_PROVIDER_FAILURES \<and>
    fa_executor_stderr_category f = Some category \<and> fa_executor_probe_category f = Some category \<and>
    binding v ''deadline_published_at'' = Inr (JStr deadline) \<and> deadline_passed deadline (fa_now f) = Inr False \<and>
    de_evidence_hint d = Some [(''cause'', JStr cause)] \<and> cause \<in> set FALLBACK_PRIMARY_CAUSES \<and>
    (\<forall>e. jfield ''primary_cause'' e = JStr cause \<and> jfield ''stderr_category'' e = JStr category \<and>
         jfield ''probe_category'' e = JStr category \<and> jfield ''fallback_execution_id'' e = jfield ''execution_id'' offered \<and>
         (jget ''canary_refusal'' e \<noteq> None \<longleftrightarrow> jget ''fallback_canary'' bound = Some (JBool True)) \<longrightarrow>
       check_fallback_admission v e = Inr ())"
proof -
  obtain bound where b: "fallback_admissible v f 0 = Inr True" "evidence_at v AUTHORIZED = Inr bound"
    "de_evidence_hint d = Some [(''cause'', fallback_cause bound f)]"
    by (rule fallback_transition [OF assms])
  obtain offered category deadline where o: "jget ''fallback'' bound = Some offered"
    "fa_executor_stderr_category f = Some category" "fa_executor_probe_category f = Some category"
    "category \<in> set RECOVERABLE_PROVIDER_FAILURES" "av_state v = AUTHORIZED"
    "binding v ''deadline_published_at'' = Inr (JStr deadline)" "deadline_passed deadline (fa_now f) = Inr False"
    and canary: "jget ''fallback_canary'' bound = Some (JBool True) \<longrightarrow> category = ''NETWORK''"
  proof (rule admissible_facts [OF b(1)])
    fix bound' offered cause deadline
    assume a: "evidence_at v AUTHORIZED = Inr bound'" "jget ''fallback'' bound' = Some offered"
      "fa_executor_stderr_category f = Some cause" "fa_executor_probe_category f = Some cause"
      "cause \<in> set RECOVERABLE_PROVIDER_FAILURES" "av_state v = AUTHORIZED"
      "binding v ''deadline_published_at'' = Inr (JStr deadline)" "deadline_passed deadline (fa_now f) = Inr False"
      "jget ''fallback_canary'' bound' = Some (JBool True) \<Longrightarrow> cause = ''NETWORK'' \<and>
         canary_refusal_conforms (fa_executor_canary_refusal f) = Inr True"
    have "bound' = bound" using a(1) b(2) by simp
    with a show thesis by (intro that) auto
  qed
  define cause where "cause = (if jget ''fallback_canary'' bound = Some (JBool True) then CANARY_FALLBACK_CAUSE else category)"
  have "fallback_cause bound f = JStr cause" by (simp add: fallback_cause_def cause_def o(3) opt_json_def)
  moreover have "cause \<in> set FALLBACK_PRIMARY_CAUSES"
    using signal_causes [OF o(4)] by (auto simp: cause_def FALLBACK_PRIMARY_CAUSES_def)
  moreover have admitted: "check_fallback_admission v e = Inr ()"
    if "jfield ''primary_cause'' e = JStr cause" "jfield ''stderr_category'' e = JStr category"
      "jfield ''probe_category'' e = JStr category" "jfield ''fallback_execution_id'' e = jfield ''execution_id'' offered"
      "jget ''canary_refusal'' e \<noteq> None \<longleftrightarrow> jget ''fallback_canary'' bound = Some (JBool True)" for e
    using that signal_causes [OF o(4)] canary
    by (simp add: check_fallback_admission_def b(2) o(1) require_def Let_def cause_def)
  ultimately have hint: "de_evidence_hint d = Some [(''cause'', JStr cause)]" and known: "cause \<in> set FALLBACK_PRIMARY_CAUSES"
    using b(3) by simp_all
  show ?thesis
    by (rule exI [of _ bound], rule exI [of _ offered], rule exI [of _ category], rule exI [of _ cause], rule exI [of _ deadline],
        intro conjI allI impI; (elim conjE)?; (fact | rule admitted; assumption))
qed

lemma fallback_accepted_witness:
  "check_fallback_admission
     (sample_auth AUTHORIZED [] [AUTHORIZED \<mapsto> JObj [(''execution_branch'', JStr ''b''), (''deadline_published_at'', JStr sample_deadline),
        (''fallback'', JObj [(''execution_id'', JStr hex64)])]])
     (JObj [(''primary_cause'', JStr ''NETWORK''), (''stderr_category'', JStr ''NETWORK''), (''probe_category'', JStr ''NETWORK''),
        (''fallback_execution_id'', JStr hex64)]) = Inr ()"
proof -
  let ?bound = "JObj [(''execution_branch'', JStr ''b''), (''deadline_published_at'', JStr sample_deadline),
        (''fallback'', JObj [(''execution_id'', JStr hex64)])]"
  let ?v = "sample_auth AUTHORIZED [] [AUTHORIZED \<mapsto> ?bound]"
  let ?f = "no_facts\<lparr>fa_stage_run_active := Known False, fa_executor_conclusion := Known (Some ''failure''),
      fa_executor_stderr_category := Some ''NETWORK'', fa_executor_probe_category := Some ''NETWORK'', fa_result_artifacts := Known [],
      fa_remote_branch_head := Known None, fa_open_draft_pr := Known None, fa_now := sample_time\<rparr>"
  have v: "av_state ?v = AUTHORIZED" "av_evidence ?v AUTHORIZED = Some ?bound" "av_evidence ?v FALLBACK_AUTHORIZED = None"
    "\<not> av_terminal ?v" "evidence_at ?v AUTHORIZED = Inr ?bound"
    by (simp_all add: sample_auth_def av_terminal_def TERMINAL_STATES_def evidence_at_def)
  have reads: "binding ?v ''execution_branch'' = Inr (JStr ''b'')" "binding ?v ''deadline_published_at'' = Inr (JStr sample_deadline)"
    by (simp_all add: binding_def v(5) getitem_def)
  have "fallback_admissible ?v ?f 0 = Inr True"
    unfolding fallback_admissible_def v(5) rbind_simps reads
    by (simp add: v absent_def text_value_def deadline_passed_def working_instants is_signal_def FALLBACK_SIGNAL_CATEGORIES_def FALLBACK_CAUSES_def
        permit_codex_fallback_def str_opt_def RECOVERABLE_PROVIDER_FAILURES_def)
  then have step: "advance ?v ?f = Inr (decide ''transition'' (Some FALLBACK_AUTHORIZED) None None ''''
      \<lparr>de_evidence_hint := Some [(''cause'', JStr ''NETWORK'')]\<rparr>)"
    unfolding advance_def Let_def v(1) reads(1) rbind_simps
    by (simp add: v observed_def advance_authorized_def named_artifacts_def not_started_def fallback_cause_def opt_json_def)
  have "de_target_state (decide ''transition'' (Some FALLBACK_AUTHORIZED) None None ''''
      \<lparr>de_evidence_hint := Some [(''cause'', JStr ''NETWORK'')]\<rparr>) = Some FALLBACK_AUTHORIZED"
    by (simp add: decide_def)
  from fallback_accepted [OF step this] show ?thesis
    by (auto simp: v(5) decide_def jfield_def)
qed

text \<open>When a result is bound, for any observation. An observation of the branch or of the pull request that could not be made does not
  stop the move.\<close>

lemma advance_binds:
  assumes "verify_chain verify trust provenance repo issue entries = Inr view" and "lv_authorizations view a = Some v"
    and "av_state v = AUTHORIZED"
  shows "(\<exists>d. advance v f = Inr d \<and> de_target_state d = Some RESULT_BOUND \<and> de_evidence_hint d = Some [(''artifact_id'', JInt i)]) \<longleftrightarrow>
    fa_stage_run_active f = Known False \<and> fa_remote_branch_head f \<in> {UNKNOWN, Known None} \<and> fa_open_draft_pr f \<in> {UNKNOWN, Known None} \<and>
    fa_executor_conclusion f \<noteq> UNKNOWN \<and>
    (\<exists>artifacts name x. fa_result_artifacts f = Known artifacts \<and> result_artifact_name a = Inr name \<and>
       filter (\<lambda>y. af_name y = name) artifacts = [x] \<and> \<not> af_expired x \<and> af_artifact_id x = i)"
proof -
  have ok: "auth_ok v" by (rule auth_okI [OF assms(1,2)])
  have id: "av_authorization_id v = a" by (rule view_okD(1) [OF verify_chain_view(1) [OF assms(1)] assms(2)])
  obtain name where n: "result_artifact_name a = Inr name" using auth_names(1) [OF ok] id by blast
  obtain b where b: "binding v ''execution_branch'' = Inr (JStr b)" by (rule auth_branch [OF ok])
  have live: "\<not> av_terminal v" using assms(3) by (simp add: av_terminal_def TERMINAL_STATES_def)
  have e: "evidence_at v AUTHORIZED = Inr (evidence_of v AUTHORIZED)"
    using auth_path [OF ok] by (simp add: evidence_at_def has_evidence)
  have found: "named_artifacts (result_artifact_name a) artifacts = Inr (filter (\<lambda>y. af_name y = name) artifacts)" for artifacts
    by (simp add: named_artifacts_def n)
  let ?binds = "\<lambda>r. \<exists>d. r = Inr d \<and> de_target_state d = Some RESULT_BOUND \<and> de_evidence_hint d = Some [(''artifact_id'', JInt i)]"
  have other: "\<not> ?binds (rbind (fallback_admissible v f 0) (\<lambda>admissible.
      if admissible then rbind (evidence_at v AUTHORIZED) (\<lambda>bound. transition FALLBACK_AUTHORIZED (Some [(''cause'', fallback_cause bound f)]))
      else executor_failure f))"
    by (auto simp: rbind_Inr_iff e decide_def executor_failure_def split: if_splits)
  have "?binds (advance_authorized v f) \<longleftrightarrow> fa_executor_conclusion f \<noteq> UNKNOWN \<and>
      (\<exists>artifacts x. fa_result_artifacts f = Known artifacts \<and> filter (\<lambda>y. af_name y = name) artifacts = [x] \<and>
         \<not> af_expired x \<and> af_artifact_id x = i)"
  proof (cases "fa_result_artifacts f = UNKNOWN \<or> fa_executor_conclusion f = UNKNOWN")
    case True
    then show ?thesis by (auto simp: advance_authorized_def decide_def split: fact.splits)
  next
    case False
    then obtain artifacts conclusion where k: "fa_result_artifacts f = Known artifacts" "fa_executor_conclusion f = Known conclusion"
      by (metis fact.exhaust)
    show ?thesis
      using other
      by (cases "filter (\<lambda>y. af_name y = name) artifacts" rule: list.exhaust; cases "tl (filter (\<lambda>y. af_name y = name) artifacts)")
        (auto simp: advance_authorized_def k found id bind_artifact_def decide_def)
  qed
  then show ?thesis
    by (cases "fa_stage_run_active f")
      (auto simp: advance_def Let_def live assms(3) b observed_def n decide_def)
qed

text \<open>C21. A result is bound exactly when it may be: when the branch and the draft pull request of an authorization in its first state
  were definitely observed, it is moved to a bound result, with the identifier of the artifact, iff its run has ended with a known
  conclusion, exactly one artifact has its result name and has not expired, and neither a branch nor a draft pull request exists.\<close>

theorem advance_binds_iff:
  assumes "verify_chain verify trust provenance repo issue entries = Inr view" and "lv_authorizations view a = Some v"
    and "av_state v = AUTHORIZED" and "fa_remote_branch_head f \<noteq> UNKNOWN" and "fa_open_draft_pr f \<noteq> UNKNOWN"
  shows "(\<exists>d. advance v f = Inr d \<and> de_target_state d = Some RESULT_BOUND \<and> de_evidence_hint d = Some [(''artifact_id'', JInt i)]) \<longleftrightarrow>
    fa_stage_run_active f = Known False \<and> fa_executor_conclusion f \<noteq> UNKNOWN \<and>
    fa_remote_branch_head f = Known None \<and> fa_open_draft_pr f = Known None \<and>
    (\<exists>artifacts name x. fa_result_artifacts f = Known artifacts \<and> result_artifact_name a = Inr name \<and>
       filter (\<lambda>y. af_name y = name) artifacts = [x] \<and> \<not> af_expired x \<and> af_artifact_id x = i)"
  unfolding advance_binds [OF assms(1-3)] using assms(4,5) by simp blast

lemma advance_binds_iff_witness:
  "\<exists>d. advance (sample_auth AUTHORIZED [record_0] [AUTHORIZED \<mapsto> sample_authorized])
     (no_facts\<lparr>fa_stage_run_active := Known False, fa_executor_conclusion := Known (Some ''success''),
        fa_remote_branch_head := Known None, fa_open_draft_pr := Known None, fa_result_artifacts := Known [\<lparr>af_artifact_id = 2, af_name = ''hunter-ia-result-'' @ hex64, af_digest = ''d'', af_size = 1, af_expired = False\<rparr>]\<rparr>)
     = Inr d \<and> de_target_state d = Some RESULT_BOUND \<and> de_evidence_hint d = Some [(''artifact_id'', JInt 2)]"
proof -
  let ?v = "sample_auth AUTHORIZED [record_0] [AUTHORIZED \<mapsto> sample_authorized]"
  have chain: "verify_chain sample_verify sample_trust sample_provenance 3 7 [(record_0, None)] =
      Inr (sample_view ?v (Some sample_id) (record_digest record_0) 1)"
    by (simp add: verify_chain_def apply_0)
  have lookup: "lv_authorizations (sample_view ?v (Some sample_id) (record_digest record_0) 1) sample_id = Some ?v"
    by (simp add: sample_view_def)
  have state: "av_state ?v = AUTHORIZED" by (simp add: sample_auth_def)
  have "authorization_digest sample_id = Inr hex64"
    by (simp add: authorization_digest_def) (simp add: sample_id_def)
  then have "result_artifact_name sample_id = Inr (''hunter-ia-result-'' @ hex64)" by (simp add: result_artifact_name_def)
  then show ?thesis
    using advance_binds_iff [OF chain lookup state, where i = 2 and f = "no_facts\<lparr>fa_stage_run_active := Known False,
        fa_executor_conclusion := Known (Some ''success''), fa_remote_branch_head := Known None, fa_open_draft_pr := Known None,
        fa_result_artifacts := Known [\<lparr>af_artifact_id = 2, af_name = ''hunter-ia-result-'' @ hex64, af_digest = ''d'', af_size = 1,
          af_expired = False\<rparr>]\<rparr>"]
    by simp
qed

end
