(* ===== verification/LedgerStore.thy ===== *)
theory LedgerStore
  imports LedgerRefusals
begin

text \<open>
  Reading and writing the ledger of an issue (\<open>load_ledger\<close> and \<open>Ledger.append\<close> of
  \<open>automation/issue_agent_control.py\<close>, \<open>GitLedgerStore.append\<close> of \<open>automation/issue_agent_state.py\<close>): a writer reads and
  verifies the chain, signs one record on top of it, verifies that as well and writes record and index by compare and swap. The
  git repository is outside: a commit identifier is a function \<open>commit_id\<close> of the parent and the files, the head of a chain of
  commits is computed with it, and a push with a lease replaces the head only if it is the expected one. Documents are read back
  as they were written, with the keys of their objects in order.
\<close>

section \<open>Outcomes of a control job\<close>

datatype control_exc =
    Frozen string string
  | ControlRefused string string
  | FactsUnavailable string
  | Raised pyexc

type_synonym 'a control = "control_exc + 'a"

definition cbind :: "'a control \<Rightarrow> ('a \<Rightarrow> 'b control) \<Rightarrow> 'b control" where
  "cbind m f = (case m of Inl e \<Rightarrow> Inl e | Inr x \<Rightarrow> f x)"

definition lift :: "'a result \<Rightarrow> 'a control" where
  "lift r = (case r of Inl e \<Rightarrow> Inl (Raised e) | Inr x \<Rightarrow> Inr x)"

lemma cbind_simps [simp]: "cbind (Inl e) f = Inl e" "cbind (Inr x) f = f x"
  by (simp_all add: cbind_def)

lemma cbind_assoc: "cbind (cbind m f) g = cbind m (\<lambda>x. cbind (f x) g)"
  by (cases m) simp_all

lemma cbind_Inr_iff: "cbind m f = Inr y \<longleftrightarrow> (\<exists>x. m = Inr x \<and> f x = Inr y)"
  by (cases m) simp_all

lemma lift_simps [simp]: "lift (Inr x) = Inr x" "lift (Inl e) = Inl (Raised e)" "lift r = Inr x \<longleftrightarrow> r = Inr x"
  by (simp_all add: lift_def split: sum.splits)

section \<open>Reading\<close>

type_synonym document = "(string \<times> json) list"
type_synonym entry = "json \<times> document option"

text \<open>
  The provenance of a record is read from the service, and that read may raise. It is the last guard before the transition, so
  it is reached unless an earlier guard refuses the record, that is, exactly when a record is refused as untrusted under a
  negative answer.
\<close>

type_synonym provenance_check = "json \<Rightarrow> json \<Rightarrow> bool control"

definition trusted :: "provenance_check \<Rightarrow> json \<Rightarrow> json \<Rightarrow> bool" where
  "trusted check writer r = (check writer r = Inr True)"

definition untrusted :: "'a result \<Rightarrow> bool" where
  "untrusted m = (case m of Inl (LedgerCorruptError why) \<Rightarrow> why = ''record was not written by a trusted lifecycle run'' | _ \<Rightarrow> False)"

definition apply_checked ::
  "('k \<Rightarrow> 8 word list \<Rightarrow> 8 word list \<Rightarrow> bool) \<Rightarrow> 'k trust_roots \<Rightarrow> provenance_check \<Rightarrow> ledger_view \<Rightarrow> json \<Rightarrow>
   document option \<Rightarrow> ledger_view control" where
  "apply_checked verify trust check view r index =
     (let result = apply_record verify trust (trusted check) view r index
      in if untrusted result
         then (case check (jfield ''recorded_by'' (json_sorted r)) (json_sorted r) of Inl e \<Rightarrow> Inl e | Inr answer \<Rightarrow> lift result)
         else lift result)"

fun load_from ::
  "('k \<Rightarrow> 8 word list \<Rightarrow> 8 word list \<Rightarrow> bool) \<Rightarrow> 'k trust_roots \<Rightarrow> provenance_check \<Rightarrow> ledger_view \<Rightarrow> entry list \<Rightarrow>
   ledger_view control" where
  "load_from verify trust check view [] = Inr view"
| "load_from verify trust check view ((r, index) # entries) =
     cbind (apply_checked verify trust check view r index) (\<lambda>w. load_from verify trust check w entries)"

text \<open>A \<open>LedgerCorruptError\<close> freezes the issue, any other \<open>LedgerError\<close> makes the ledger unavailable.\<close>

definition ledger_guard :: "'a control \<Rightarrow> 'a control" where
  "ledger_guard r =
     (case r of
        Inl (Raised (LedgerCorruptError m)) \<Rightarrow> Inl (Frozen ''STATE_CORRUPT'' m)
      | Inl (Raised (LedgerSchemaError m)) \<Rightarrow> Inl (FactsUnavailable ''the ledger could not be read'')
      | Inl (Raised (AnchorIntegrityError m)) \<Rightarrow> Inl (FactsUnavailable ''the ledger could not be read'')
      | Inl (Raised (LedgerConflictError m)) \<Rightarrow> Inl (FactsUnavailable ''the ledger could not be read'')
      | Inl (Raised (LedgerError m)) \<Rightarrow> Inl (FactsUnavailable ''the ledger could not be read'')
      | _ \<Rightarrow> r)"

definition load_ledger ::
  "('k \<Rightarrow> 8 word list \<Rightarrow> 8 word list \<Rightarrow> bool) \<Rightarrow> 'k trust_roots \<Rightarrow> provenance_check \<Rightarrow> int \<Rightarrow> int \<Rightarrow> entry list \<Rightarrow>
   ledger_view control" where
  "load_ledger verify trust check repository_id issue entries =
     ledger_guard (load_from verify trust check (empty_view repository_id issue) entries)"

section \<open>Writing\<close>

record writer =
  wr_workflow_path :: string
  wr_job :: string
  wr_role :: string
  wr_run_id :: int
  wr_run_attempt :: int
  wr_head_sha :: string

definition recorded_by :: "writer \<Rightarrow> json" where
  "recorded_by w = JObj
     [(''workflow_path'', JStr (wr_workflow_path w)), (''job'', JStr (wr_job w)), (''role'', JStr (wr_role w)),
      (''run_id'', JInt (wr_run_id w)), (''run_attempt'', JInt (wr_run_attempt w)), (''head_sha'', JStr (wr_head_sha w))]"

text \<open>A signing key is its signing function and the digest of its public key.\<close>

record signing_key =
  sk_sign :: "8 word list \<Rightarrow> 8 word list"
  sk_key_id :: string

definition ledger_record :: "signing_key \<Rightarrow> writer \<Rightarrow> int \<Rightarrow> int \<Rightarrow> ledger_view \<Rightarrow> string \<Rightarrow> string \<Rightarrow> string \<Rightarrow> document \<Rightarrow> string \<Rightarrow> json" where
  "ledger_record key writer repository_id issue view authorization_id kind target evidence now =
     sign_record (sk_sign key) (sk_key_id key)
       [(''schema_version'', JStr RECORD_SCHEMA_VERSION), (''kind'', JStr kind), (''record_seq'', JInt (lv_next_seq view)),
        (''prev_record_sha256'', opt_json JStr (lv_head_record_digest view)), (''recorded_at'', JStr now),
        (''recorded_by'', recorded_by writer), (''repository_id'', JInt repository_id), (''issue_number'', JInt issue),
        (''authorization_id'', JStr authorization_id), (''state'', JStr target), (''evidence'', JObj evidence)]
       STATE_SIGNATURE_DOMAIN"

text \<open>The files of a commit, as they are read back.\<close>

definition stored :: "json \<Rightarrow> json \<Rightarrow> entry" where
  "stored r index = (json_sorted r, case json_sorted index of JObj kvs \<Rightarrow> Some kvs | _ \<Rightarrow> None)"

text \<open>What is written on top of the chain that was read: the part of \<open>Ledger.append\<close> before the compare and swap.\<close>

definition ledger_prepare ::
  "('k \<Rightarrow> 8 word list \<Rightarrow> 8 word list \<Rightarrow> bool) \<Rightarrow> 'k trust_roots \<Rightarrow> provenance_check \<Rightarrow> int \<Rightarrow> int \<Rightarrow> signing_key \<Rightarrow> writer \<Rightarrow>
   entry list \<Rightarrow> string \<Rightarrow> string \<Rightarrow> string \<Rightarrow> document \<Rightarrow> string \<Rightarrow> entry control" where
  "ledger_prepare verify trust check repository_id issue key writer entries authorization_id kind target evidence now =
     cbind (load_ledger verify trust check repository_id issue entries) (\<lambda>view.
     let record = ledger_record key writer repository_id issue view authorization_id kind target evidence now
     in cbind (apply_checked verify trust check view record None) (\<lambda>view'.
        cbind (lift (ledger_index view')) (\<lambda>index. Inr (stored record index))))"

text \<open>A commit names its parent and its files; two commits with one name are one commit.\<close>

datatype commit = Commit (parent: "commit option") (files: entry)

definition git_head :: "entry list \<Rightarrow> commit option" where
  "git_head entries = fold (\<lambda>e head. Some (Commit head e)) entries None"

text \<open>
  What can go wrong while a commit is pushed: git fails before the push; the push does not arrive; it arrives, but by the time
  the head is read back another writer has gone further; it arrives, but the head cannot be read back.
\<close>

datatype weather = Fair | Down | Unsent | Overtaken | Unread

text \<open>
  A push with the lease \<open>expected_head\<close>. A write that was applied before, whose acknowledgement was lost, is recognised by
  its commit.
\<close>

definition store_append :: "weather \<Rightarrow> entry list \<Rightarrow> commit option \<Rightarrow> entry \<Rightarrow> unit result \<times> entry list" where
  "store_append weather entries expected_head e =
     (if weather = Down then (Inl (LedgerError ''git failed''), entries)
      else if git_head entries = Some (Commit expected_head e) then (Inr (), entries)
      else
        let pushed = (weather \<noteq> Unsent \<and> git_head entries = expected_head);
            entries' = (if pushed then entries @ [e] else entries)
        in if weather = Unread then (Inl (LedgerError ''git failed''), entries')
           else if pushed \<and> weather \<noteq> Overtaken then (Inr (), entries')
           else (Inl (LedgerConflictError ''another writer advanced the ledger; re-read and re-decide''), entries'))"

text \<open>\<open>Ledger.append\<close>: the chain that was read and the chain at the time of the write may differ.\<close>

definition ledger_write :: "weather \<Rightarrow> entry list \<Rightarrow> entry list \<Rightarrow> entry \<Rightarrow> unit control \<times> entry list" where
  "ledger_write weather current seen e =
     (case store_append weather current (git_head seen) e of
        (Inr u, entries) \<Rightarrow> (Inr u, entries)
      | (Inl (LedgerConflictError m), entries) \<Rightarrow>
          (Inl (FactsUnavailable ''another writer advanced the ledger; the next step re-decides''), entries)
      | (Inl x, entries) \<Rightarrow> (Inl (Raised x), entries))"

section \<open>Shared writing\<close>

text \<open>
  Any number of writers share one store. Each of them prepares a write on the chain that it read and writes later, when the
  chain may have moved on; it may also write twice, or stop in between.
\<close>

inductive shared :: "('e list \<Rightarrow> 'h option) \<Rightarrow> ('w \<Rightarrow> 'e list \<Rightarrow> 'h option \<Rightarrow> 'e \<Rightarrow> 'o \<times> 'e list) \<Rightarrow> ('e list \<Rightarrow> 'e \<Rightarrow> bool) \<Rightarrow>
    'e list \<Rightarrow> ('e list \<times> 'e) list \<Rightarrow> bool"
  for head append prepared where
  start: "shared head append prepared [] []"
| prepare: "shared head append prepared es ws \<Longrightarrow> prepared es e \<Longrightarrow> shared head append prepared es ((es, e) # ws)"
| swap: "shared head append prepared es ws \<Longrightarrow> (seen, e) \<in> set ws \<Longrightarrow> append w es (head seen) e = (out, es') \<Longrightarrow>
    shared head append prepared es' ws"
| stop: "shared head append prepared es (xs @ w # ys) \<Longrightarrow> shared head append prepared es (xs @ ys)"

locale lease_store =
  fixes head :: "'e list \<Rightarrow> 'h option" and append :: "'w \<Rightarrow> 'e list \<Rightarrow> 'h option \<Rightarrow> 'e \<Rightarrow> 'o \<times> 'e list"
  assumes lease: "append w es (head seen) e = (out, es') \<Longrightarrow> es' = es \<or> es = seen \<and> es' = es @ [e]"
begin

text \<open>What one prepared write keeps on the chain it saw, all of them keep on the shared chain.\<close>

lemma shared_keeps:
  assumes "shared head append prepared es ws" and "good []" and "\<And>es e. good es \<Longrightarrow> prepared es e \<Longrightarrow> good (es @ [e])"
  shows "good es"
proof -
  have "good es \<and> (\<forall>(seen, e) \<in> set ws. prepared seen e)"
    using assms(1)
  proof induction
    case (swap es ws seen e w out es')
    from lease [OF swap.hyps(3)] show ?case
    proof
      assume "es = seen \<and> es' = es @ [e]"
      moreover have "prepared seen e" using swap.IH swap.hyps(2) by blast
      ultimately show ?thesis using assms(3) [of es e] swap.IH by blast
    qed (use swap.IH in blast)
  qed (auto simp: assms(2))
  then show ?thesis ..
qed

text \<open>Every chain of the past is a prefix of the present one.\<close>

lemma append_extends: "append w es (head seen) e = (out, es') \<Longrightarrow> \<exists>more. es' = es @ more"
  using lease by (metis append_Nil2)

end

lemma git_head_snoc: "git_head (es @ [e]) = Some (Commit (git_head es) e)"
  by (simp add: git_head_def)

lemma git_head_inject: "git_head es = git_head fs \<longleftrightarrow> es = fs"
proof
  assume "git_head es = git_head fs"
  then show "es = fs"
  proof (induction es arbitrary: fs rule: rev_induct)
    case Nil
    then show ?case by (cases fs rule: rev_exhaust) (simp_all add: git_head_snoc, simp add: git_head_def)
  next
    case (snoc e es)
    then show ?case by (cases fs rule: rev_exhaust) (auto simp: git_head_snoc, simp add: git_head_def)
  qed
qed simp

interpretation git: lease_store git_head store_append
proof unfold_locales
  fix w es seen e out es'
  assume "store_append w es (git_head seen) e = (out, es')"
  then show "es' = es \<or> es = seen \<and> es' = es @ [e]"
    by (auto simp: store_append_def git_head_inject Let_def split: if_splits)
qed

section \<open>The derived index is readable\<close>

lemma json_sorted_idem [simp]: "json_sorted (json_sorted v) = json_sorted v"
proof (induction v)
  case (JObj kvs)
  then show ?case
    unfolding json_sorted_JObj sort_key_map_snd sort_key_fst_sorted
    by (auto simp: comp_def snds.simps)
qed (simp_all add: comp_def cong: map_cong)

lemma canonical_str_inject: "canonical_json (JStr a) = canonical_json (JStr b) \<longleftrightarrow> a = b"
  using dumps_inject [of "JStr a" "JStr b" False] by (simp add: canonical_json_def utf8_inject del: dumps.simps)

lemma claimed_list_ok:
  assumes "distinct ids" and "length ids \<le> 10000" and "\<forall>a \<in> set ids. fullmatch rx_authorization_id a"
  shows "v_list AUTHORIZATION_ID 10000 (JArr (map JStr ids)) l = None"
proof -
  have "distinct (map canonical_json (map JStr ids))"
    using assms(1) by (simp add: distinct_map inj_on_def canonical_str_inject)
  moreover have "fullmatch rx_authorization_id (ids ! i)" if "i < length ids" for i using assms(3) that by simp
  ultimately show ?thesis
    using assms(2) by (auto simp: v_list_None in_set_enumerate_eq v_pattern_None)
qed

lemma enum_ok: "s \<in> set vs \<Longrightarrow> v_enum vs (JStr s) l = None"
  by (simp add: v_enum_def)

lemma pending_ok:
  assumes "resume_ok v" and "av_pending_resume v = Some p" and "fullmatch rx_authorization_id a"
  shows "v_object
         [(''authorization_id'', AUTHORIZATION_ID), (''stage'', v_enum (map fst RESUME_STAGES)), (''nonce'', SHA64),
          (''attempt'', POSITIVE), (''dispatched_at'', TIMESTAMP), (''bound_run_id'', v_optional POSITIVE)] []
      (json_sorted (pending_json a p)) l = None"
proof -
  have p: "\<exists>cap. map_of RESUME_STAGES (pr_stage p) = Some (av_state v, cap)" "fullmatch rx_timestamp (pr_dispatched_at p)"
    "fullmatch rx_sha64 (pr_nonce p)" "1 \<le> pr_attempt p" "\<forall>run. pr_bound_run_id p = Some run \<longrightarrow> 1 \<le> run"
    using assms(1,2) by (auto simp: resume_ok_def)
  from p(1) have "pr_stage p \<in> set (map fst RESUME_STAGES)" by (force dest: map_of_SomeD)
  moreover have "json_sorted (pending_json a p) = JObj
     [(''attempt'', JInt (pr_attempt p)), (''authorization_id'', JStr a), (''bound_run_id'', opt_json JInt (pr_bound_run_id p)),
      (''dispatched_at'', JStr (pr_dispatched_at p)), (''nonce'', JStr (pr_nonce p)), (''stage'', JStr (pr_stage p))]"
    by (cases "pr_bound_run_id p") (simp_all add: pending_json_def opt_json_def less_char_def less_eq_char_def)
  moreover have "v_optional POSITIVE (opt_json JInt (pr_bound_run_id p)) l = None" for l
    using p(5) by (cases "pr_bound_run_id p") (auto simp: v_optional_None opt_json_def v_int_None)
  ultimately show ?thesis
    using p(2-4) assms(3)
    by (simp only:) (intro v_object_ok; simp add: v_pattern_ok v_int_ok enum_ok del: set_map)
qed

lemma index_readable:
  assumes "view_ok view" and "length (lv_claimed view) \<le> 10000" and "1 \<le> lv_repository_id view" and "1 \<le> lv_issue_number view"
  obtains index kvs where "ledger_index view = Inr index" "json_sorted index = JObj kvs" "check_index (Some kvs) view = Inr view"
proof -
  have active: "\<exists>v. lv_authorizations view a = Some v" if "lv_active view = Some a" for a
    using view_ok_active [OF assms(1)] that by blast
  define pending where "pending = (case lv_active view of None \<Rightarrow> JNull
      | Some a \<Rightarrow> opt_json (pending_json a) (Option.bind (lv_authorizations view a) av_pending_resume))"
  define index where "index = JObj
          [(''schema_version'', JStr INDEX_SCHEMA_VERSION), (''repository_id'', JInt (lv_repository_id view)),
           (''issue_number'', JInt (lv_issue_number view)), (''claimed_authorization_ids'', JArr (map JStr (lv_claimed view))),
           (''active_authorization_id'', opt_json JStr (lv_active view)), (''pending_resume'', pending)]"
  have i: "ledger_index view = Inr index"
    using active by (auto simp: ledger_index_def index_def pending_def split: option.splits)
  have id: "fullmatch rx_authorization_id a" if "lv_authorizations view a = Some v" for a v
    using view_okD(2) [OF assms(1) that] .
  have claimed: "v_list AUTHORIZATION_ID 10000 (JArr (map JStr (lv_claimed view))) l = None" for l
    using assms(1,2) by (intro claimed_list_ok) (auto simp: view_ok_def)
  have act: "v_optional AUTHORIZATION_ID (opt_json JStr (lv_active view)) l = None" for l
    using active id by (cases "lv_active view") (auto simp: v_optional_None opt_json_def v_pattern_None)
  have pend: "v_optional (v_object
         [(''authorization_id'', AUTHORIZATION_ID), (''stage'', v_enum (map fst RESUME_STAGES)), (''nonce'', SHA64),
          (''attempt'', POSITIVE), (''dispatched_at'', TIMESTAMP), (''bound_run_id'', v_optional POSITIVE)] []) (json_sorted pending) l = None" for l
  proof (cases "lv_active view")
    case (Some a)
    then obtain v where v: "lv_authorizations view a = Some v" using active by blast
    show ?thesis
    proof (cases "av_pending_resume v")
      case (Some p)
      then show ?thesis
        using pending_ok [OF view_okD(5) [OF assms(1) v] Some id [OF v]]
        by (simp add: v_optional_None pending_def \<open>lv_active view = Some a\<close> v opt_json_def)
    qed (simp add: v_optional_None pending_def \<open>lv_active view = Some a\<close> v opt_json_def)
  qed (simp add: v_optional_None pending_def)
  let ?kvs = "[(''active_authorization_id'', opt_json JStr (lv_active view)), (''claimed_authorization_ids'', JArr (map JStr (lv_claimed view))),
      (''issue_number'', JInt (lv_issue_number view)), (''pending_resume'', json_sorted pending),
      (''repository_id'', JInt (lv_repository_id view)), (''schema_version'', JStr INDEX_SCHEMA_VERSION)]"
  have "json_sorted (opt_json JStr (lv_active view)) = opt_json JStr (lv_active view)"
    by (cases "lv_active view") (simp_all add: opt_json_def)
  then have s: "json_sorted index = JObj ?kvs"
    by (simp add: index_def comp_def less_char_def less_eq_char_def)
  have "index_schema (JObj ?kvs) l = None" for l
    unfolding index_schema_def
    using assms(3,4) claimed act pend by (intro v_object_ok) (simp_all add: v_exact_ok v_int_ok)
  then have "validate_index_schema (JObj ?kvs) = Inr (JObj ?kvs)"
    by (simp add: validate_index_schema_def is_object_def checked_def)
  moreover have "canonical_json (JObj ?kvs) = canonical_json index" using canonical_sorted [of index] s by simp
  ultimately have "check_index (Some ?kvs) view = Inr view"
    by (simp add: check_index_def i require_def)
  with i s that show thesis by blast
qed

section \<open>What is written is read back\<close>

lemma apply_record_indexed:
  assumes "apply_record verify trust provenance view r None = Inr view'" and "check_index (Some kvs) view' = Inr view'"
  shows "apply_record verify trust provenance view (json_sorted r) (Some kvs) = Inr view'"
proof -
  have valid: "validate_record_schema (json_sorted r) = Inr (json_sorted r)" by (rule apply_record_links(1) [OF assms(1)])
  note encodes = apply_record_encodes [OF assms(1)]
  have "apply_validated verify trust provenance view (json_sorted r) = Inr view'"
    using assms(1) unfolding apply_record_valid [OF encodes valid] by (simp add: rbind_Inr_iff check_index_def)
  then show ?thesis using assms(2) by (simp add: apply_record_def valid encodes)
qed

lemma claims_counted:
  assumes "apply_record verify trust provenance view r index = Inr view'"
  shows "length (lv_claimed view') \<le> length (lv_claimed view) + 1"
  using assms
proof (rule apply_recordE)
  fix v1
  assume fold: "(if sfield ''kind'' (json_sorted r) = ''transition'' then apply_transition view (json_sorted r)
          else apply_resume view (json_sorted r)) = Inr v1"
    and view': "view' = record_applied (json_sorted r) v1"
  have "length (lv_claimed v1) \<le> length (lv_claimed view) + 1"
    using fold
    by (auto split: if_splits elim!: apply_transitionE apply_resumeE simp: set_authorization_def)
  then show ?thesis by (simp add: view' record_applied_def Let_def)
qed

lemma verify_from_counted:
  "verify_from verify trust provenance view entries = Inr view' \<Longrightarrow> length (lv_claimed view') \<le> length (lv_claimed view) + length entries"
proof (induction entries arbitrary: view)
  case (Cons e entries)
  obtain r index where e: "e = (r, index)" by (cases e)
  obtain w where w: "apply_record verify trust provenance view r index = Inr w" "verify_from verify trust provenance w entries = Inr view'"
    using Cons.prems by (auto simp: e rbind_Inr_iff)
  show ?case using Cons.IH [OF w(2)] claims_counted [OF w(1)] by simp
qed simp

lemma ledger_guard_Inr [simp]: "ledger_guard r = Inr x \<longleftrightarrow> r = Inr x"
  by (simp add: ledger_guard_def split: sum.splits control_exc.splits pyexc.splits)

lemma apply_checked_Inr [simp]:
  "apply_checked verify trust check view r index = Inr w \<longleftrightarrow> apply_record verify trust (trusted check) view r index = Inr w"
  by (auto simp: apply_checked_def Let_def untrusted_def split: sum.splits)

lemma load_from_Inr [simp]:
  "load_from verify trust check view entries = Inr w \<longleftrightarrow> verify_from verify trust (trusted check) view entries = Inr w"
proof (induction entries arbitrary: view)
  case (Cons e entries)
  obtain r index where e: "e = (r, index)" by (cases e)
  show ?case by (simp add: e cbind_Inr_iff rbind_Inr_iff Cons.IH)
qed simp

lemma load_from_append:
  "load_from verify trust check view (xs @ ys) = cbind (load_from verify trust check view xs) (\<lambda>w. load_from verify trust check w ys)"
proof (induction xs arbitrary: view)
  case (Cons e xs)
  obtain r index where "e = (r, index)" by (cases e)
  then show ?case by (simp add: Cons.IH cbind_assoc)
qed simp

lemma load_ledger_Inr [simp]:
  "load_ledger verify trust check repo issue entries = Inr view \<longleftrightarrow> verify_chain verify trust (trusted check) repo issue entries = Inr view"
  by (simp add: load_ledger_def verify_chain_def)

lemma ledger_prepareE:
  assumes "ledger_prepare verify trust check repo issue key writer entries a kind target evidence now = Inr e"
  obtains view view' index where "verify_chain verify trust (trusted check) repo issue entries = Inr view"
    "apply_record verify trust (trusted check) view (ledger_record key writer repo issue view a kind target evidence now) None = Inr view'"
    "ledger_index view' = Inr index" "e = stored (ledger_record key writer repo issue view a kind target evidence now) index"
  using assms unfolding ledger_prepare_def cbind_Inr_iff Let_def lift_simps load_ledger_Inr apply_checked_Inr
  by (elim exE conjE) (simp add: that)

lemma prepare_verifies:
  assumes "ledger_prepare verify trust check repo issue key writer entries a kind target evidence now = Inr e"
    and "length entries < 10000"
  shows "\<exists>view. verify_chain verify trust (trusted check) repo issue (entries @ [e]) = Inr view"
proof -
  from assms(1) obtain view view' index where
    view: "verify_chain verify trust (trusted check) repo issue entries = Inr view" and
    step: "apply_record verify trust (trusted check) view
        (ledger_record key writer repo issue view a kind target evidence now) None = Inr view'" and
    index: "ledger_index view' = Inr index" and
    e: "e = stored (ledger_record key writer repo issue view a kind target evidence now) index"
    by (rule ledger_prepareE)
  let ?r = "ledger_record key writer repo issue view a kind target evidence now"
  note links = apply_record_links [OF step]
  have ok: "view_ok view'"
    using apply_record_step [OF verify_chain_view(1) [OF view] step] by blast
  have "ifield ''repository_id'' (json_sorted ?r) = lv_repository_id view" "ifield ''issue_number'' (json_sorted ?r) = lv_issue_number view"
    by (rule apply_recordE [OF step], assumption)+
  then have ids: "1 \<le> lv_repository_id view'" "1 \<le> lv_issue_number view'"
    using record_fields(7,8) [OF links(1)] links(8,9) by (auto simp: ifield_def)
  have "length (lv_claimed view') \<le> 10000"
    using claims_counted [OF step] verify_from_counted [OF view [unfolded verify_chain_def]] assms(2) by (simp add: empty_view_def)
  from index_readable [OF ok this ids] obtain index' kvs where i: "ledger_index view' = Inr index'" "json_sorted index' = JObj kvs"
    "check_index (Some kvs) view' = Inr view'" .
  then have "e = (json_sorted ?r, Some kvs)" using index by (simp add: e stored_def)
  with apply_record_indexed [OF step i(3)] view show ?thesis by (simp add: verify_chain_def verify_from_append)
qed

text \<open>C22. Concurrent writers keep the ledger verifiable: however many control jobs read, prepare and write at once, in whatever order, with
  lost acknowledgements and jobs that stop in between, the shared chain verifies as long as it has at most ten thousand records, the bound of
  the index on claimed authorizations.\<close>

theorem shared_ledger_verifies:
  assumes "shared git_head store_append (\<lambda>es e. \<exists>key writer a kind target evidence now.
      ledger_prepare verify trust check repo issue key writer es a kind target evidence now = Inr e) es ws"
    and "length es \<le> 10000"
  shows "\<exists>view. verify_chain verify trust (trusted check) repo issue es = Inr view"
proof -
  have "length es \<le> 10000 \<longrightarrow> (\<exists>view. verify_chain verify trust (trusted check) repo issue es = Inr view)"
  proof (rule git.shared_keeps [OF assms(1)])
    show "length [] \<le> 10000 \<longrightarrow> (\<exists>view. verify_chain verify trust (trusted check) repo issue [] = Inr view)"
      by (simp add: verify_chain_def)
  next
    fix es e
    assume "\<exists>key writer a kind target evidence now.
      ledger_prepare verify trust check repo issue key writer es a kind target evidence now = Inr e"
    then show "length (es @ [e]) \<le> 10000 \<longrightarrow> (\<exists>view. verify_chain verify trust (trusted check) repo issue (es @ [e]) = Inr view)"
      using prepare_verifies by fastforce
  qed
  with assms(2) show ?thesis by simp
qed

section \<open>A written sample\<close>

definition sample_key :: signing_key where
  "sample_key = \<lparr>sk_sign = (\<lambda>m. case fromhex sample_signature of Some bs \<Rightarrow> bs | None \<Rightarrow> []), sk_key_id = hex64\<rparr>"

definition sample_writer :: writer where
  "sample_writer = \<lparr>wr_workflow_path = sample_workflow, wr_job = ''authorize'', wr_role = ''authorize'', wr_run_id = 5,
     wr_run_attempt = 1, wr_head_sha = hex40\<rparr>"

definition sample_claim :: document where
  "sample_claim = (case sample_authorized of JObj kvs \<Rightarrow> kvs | _ \<Rightarrow> [])"

lemma sample_claim_json: "JObj sample_claim = sample_authorized"
  by (simp add: sample_claim_def sample_authorized_def)

lemma sample_signature_hex: "bytes_hex (case fromhex sample_signature of Some bs \<Rightarrow> bs | None \<Rightarrow> []) = sample_signature"
  by code_simp

lemma sample_written:
  "json_sorted (ledger_record sample_key sample_writer 3 7 (empty_view 3 7) sample_id ''transition'' AUTHORIZED sample_claim sample_time) =
   json_sorted record_0"
  by (simp add: ledger_record_def sign_record_def sample_key_def sample_signature_hex sample_writer_def recorded_by_def empty_view_def opt_json_def
      sample_claim_json record_0_def sample_record_def less_char_def less_eq_char_def)

definition sample_check :: provenance_check where
  "sample_check writer r = Inr (sample_provenance writer r)"

lemma trusted_sample [simp]: "trusted sample_check = sample_provenance"
  by (simp add: trusted_def sample_check_def fun_eq_iff)

lemma sample_prepared:
  obtains e where "ledger_prepare sample_verify sample_trust sample_check 3 7 sample_key sample_writer [] sample_id ''transition''
    AUTHORIZED sample_claim sample_time = Inr e"
proof -
  let ?r = "ledger_record sample_key sample_writer 3 7 (empty_view 3 7) sample_id ''transition'' AUTHORIZED sample_claim sample_time"
  let ?view = "sample_view (sample_auth AUTHORIZED [record_0] [AUTHORIZED \<mapsto> sample_authorized]) (Some sample_id) (record_digest record_0) 1"
  have step: "apply_record sample_verify sample_trust sample_provenance (empty_view 3 7) ?r None = Inr ?view"
    using apply_0 by (simp only: apply_record_sorted [OF sample_written])
  have "view_ok ?view" using apply_record_step [OF view_ok_empty step] by blast
  then obtain index where "ledger_index ?view = Inr index" using index_total by blast
  moreover have "load_ledger sample_verify sample_trust sample_check 3 7 [] = Inr (empty_view 3 7)"
    by (simp add: verify_chain_def)
  moreover have "apply_checked sample_verify sample_trust sample_check (empty_view 3 7) ?r None = Inr ?view"
    using step by (simp only: apply_checked_Inr trusted_sample)
  ultimately have "ledger_prepare sample_verify sample_trust sample_check 3 7 sample_key sample_writer [] sample_id ''transition''
      AUTHORIZED sample_claim sample_time = Inr (stored ?r index)"
    by (simp only: ledger_prepare_def cbind_simps lift_simps Let_def)
  then show thesis by (rule that)
qed

lemma shared_ledger_verifies_witness:
  "\<exists>e view. verify_chain sample_verify sample_trust sample_provenance 3 7 [e] = Inr view"
proof -
  let ?prepared = "\<lambda>es e. \<exists>key writer a kind target evidence now.
      ledger_prepare sample_verify sample_trust sample_check 3 7 key writer es a kind target evidence now = Inr e"
  obtain e where e: "?prepared [] e" using sample_prepared by metis
  have "shared git_head store_append ?prepared [] [([], e)]" using e by (intro shared.prepare shared.start)
  then have "shared git_head store_append ?prepared [e] [([], e)]"
    by (rule shared.swap [of _ _ _ _ _ "[]" e Fair "Inr ()"]) (simp_all add: store_append_def git_head_def)
  then have "\<exists>view. verify_chain sample_verify sample_trust (trusted sample_check) 3 7 [e] = Inr view"
    by (rule shared_ledger_verifies) simp
  then have "\<exists>view. verify_chain sample_verify sample_trust sample_provenance 3 7 [e] = Inr view"
    by (simp only: trusted_sample)
  then show ?thesis by (intro exI [of _ e])
qed

text \<open>One record on top of a verified chain, with an index.\<close>

lemma load_indexed:
  assumes "verify_chain verify trust (trusted check) repo issue entries = Inr view"
    and "apply_record verify trust (trusted check) view r None = Inr view'" and "ledger_index view' = Inr index"
  shows "load_ledger verify trust check repo issue (entries @ [(r, Some kvs)]) =
    (if index_malformed (Some kvs) then Inl (FactsUnavailable ''the ledger could not be read'')
     else if canonical_json (JObj kvs) \<noteq> canonical_json index
     then Inl (Frozen ''STATE_CORRUPT'' ''stored index differs from the verified chain'')
     else Inr view')"
proof -
  have valid: "validate_record_schema (json_sorted r) = Inr (json_sorted r)" by (rule apply_record_links(1) [OF assms(2)])
  note applied = apply_record_valid [OF apply_record_encodes [OF assms(2)] valid]
  have "apply_validated verify trust (trusted check) view (json_sorted r) = Inr view'"
    using assms(2) unfolding applied by (simp add: rbind_Inr_iff check_index_def)
  then have step: "apply_record verify trust (trusted check) view r (Some kvs) = check_index (Some kvs) view'"
    by (simp add: applied)
  have "\<not> untrusted (check_index (Some kvs) view')"
    using assms(3) index_refusal
    by (auto simp: untrusted_def check_index_def require_def corrupt_def rbind_def split: sum.splits pyexc.splits)
  with step have checked: "apply_checked verify trust check view r (Some kvs) = lift (check_index (Some kvs) view')"
    by (simp add: apply_checked_def)
  have chain: "load_from verify trust check (empty_view repo issue) (entries @ [(r, Some kvs)]) = lift (check_index (Some kvs) view')"
    using assms(1) by (cases "check_index (Some kvs) view'") (simp_all add: verify_chain_def load_from_append checked
        load_from_Inr [THEN iffD2])
  show ?thesis
  proof (cases "validate_index_schema (JObj kvs)")
    case (Inl e)
    with index_refusal [OF Inl] show ?thesis
      by (auto simp: load_ledger_def chain check_index_def index_malformed_def ledger_guard_def)
  next
    case (Inr s)
    then have "s = JObj kvs" by (auto simp: validate_index_schema_def checked_def split: if_splits option.splits)
    with Inr show ?thesis
      by (simp add: load_ledger_def chain check_index_def index_malformed_def assms(3) require_def corrupt_def ledger_guard_def)
  qed
qed

lemma malformed_index_unavailable:
  assumes "verify_chain verify trust (trusted check) repo issue entries = Inr view"
    and "apply_record verify trust (trusted check) view r None = Inr view'" and "index_malformed (Some kvs)"
  shows "load_ledger verify trust check repo issue (entries @ [(r, Some kvs)]) = Inl (FactsUnavailable ''the ledger could not be read'')"
proof -
  have "view_ok view'" using apply_record_step [OF verify_chain_view(1) [OF assms(1)] assms(2)] by blast
  then obtain index where "ledger_index view' = Inr index" using index_total by blast
  from load_indexed [OF assms(1,2) this, of kvs] assms(3) show ?thesis by simp
qed

text \<open>C24. A stored index must be the derived one: on top of a verified chain, a good record that is stored with an index (within the
  schema of indexes) loads exactly when the index is, as canonical JSON, the one that the view of the longer chain derives; any
  other index freezes the issue as corrupt.\<close>

theorem stored_index_outcomes:
  assumes "verify_chain verify trust (trusted check) repo issue entries = Inr view"
    and "apply_record verify trust (trusted check) view r None = Inr view'" and "\<not> index_malformed (Some kvs)"
  shows "\<exists>index. ledger_index view' = Inr index \<and>
    load_ledger verify trust check repo issue (entries @ [(r, Some kvs)]) =
      (if canonical_json (JObj kvs) = canonical_json index then Inr view'
       else Inl (Frozen ''STATE_CORRUPT'' ''stored index differs from the verified chain''))"
proof -
  have "view_ok view'" using apply_record_step [OF verify_chain_view(1) [OF assms(1)] assms(2)] by blast
  then obtain index where "ledger_index view' = Inr index" using index_total by blast
  with load_indexed [OF assms(1,2) this, of kvs] assms(3) show ?thesis by auto
qed

definition stale_index :: document where
  "stale_index = [(''active_authorization_id'', JNull), (''claimed_authorization_ids'', JArr []), (''issue_number'', JInt 7),
     (''pending_resume'', JNull), (''repository_id'', JInt 3), (''schema_version'', JStr INDEX_SCHEMA_VERSION)]"

lemma stored_index_outcomes_witness:
  "load_ledger sample_verify sample_trust sample_check 3 7 [(record_0, Some stale_index)] =
    Inl (Frozen ''STATE_CORRUPT'' ''stored index differs from the verified chain'')"
proof -
  let ?view = "sample_view (sample_auth AUTHORIZED [record_0] [AUTHORIZED \<mapsto> sample_authorized]) (Some sample_id) (record_digest record_0) 1"
  have empty: "verify_chain sample_verify sample_trust sample_provenance 3 7 [] = Inr (empty_view 3 7)" by (simp add: verify_chain_def)
  have "index_schema (JObj stale_index) l = None" for l
    unfolding index_schema_def stale_index_def
    by (intro v_object_ok) (simp_all add: v_exact_ok v_int_ok v_list_None v_optional_None)
  then have fine: "\<not> index_malformed (Some stale_index)"
    by (simp add: index_malformed_def validate_index_schema_def is_object_def checked_def)
  have "canonical_json (JObj stale_index) \<noteq> canonical_json index" if "ledger_index ?view = Inr index" for index
  proof -
    have index: "index = JObj [(''schema_version'', JStr INDEX_SCHEMA_VERSION), (''repository_id'', JInt 3), (''issue_number'', JInt 7),
        (''claimed_authorization_ids'', JArr [JStr sample_id]), (''active_authorization_id'', JStr sample_id), (''pending_resume'', JNull)]"
      using that by (simp add: ledger_index_def sample_view_def sample_auth_def opt_json_def)
    have "json_sorted (JObj stale_index) \<noteq> json_sorted index"
      by (simp add: index stale_index_def comp_def less_char_def less_eq_char_def)
    then show ?thesis
      using dumps_inject [of "JObj stale_index" index False]
      by (simp add: canonical_json_def utf8_inject index stale_index_def del: dumps.simps json_sorted.simps)
  qed
  then show ?thesis
    using stored_index_outcomes [OF empty [folded trusted_sample] apply_0 [folded trusted_sample] fine] by auto
qed

end
