(* ===== verification/PyJson.thy ===== *)
theory PyJson
  imports LedgerAdvance
begin

text \<open>
  Python operations on values read from JSON, as the control jobs apply them to answers of the hosting service: truth,
  \<open>x or {}\<close>, \<open>.get\<close>, comparison with numbers (\<open>True == 1\<close> and \<open>1.0 == 1\<close> hold), \<open>str\<close> and \<open>int\<close>. A missing key is
  \<open>None\<close>, which is \<^const>\<open>JNull\<close>. The text of a finite float is its \<open>repr\<close>; its value is read off that text, which is
  exact for the integral floats below \<open>10 ^ 16\<close>, where identifiers lie.
\<close>

section \<open>Floats by their text\<close>

definition decimal_digits :: "string \<Rightarrow> nat" where
  "decimal_digits s = (case read_nat 0 s of None \<Rightarrow> 0 | Some n \<Rightarrow> n)"

text \<open>Sign, digits without the point, and the power of ten.\<close>

definition float_parts :: "string \<Rightarrow> bool \<times> nat \<times> int" where
  "float_parts s =
     (let negative = (take 1 s = ''-''); u = (if negative then drop 1 s else s);
          mantissa = takeWhile (\<lambda>c. c \<noteq> CHR ''e'') u; e = drop (length mantissa + 1) u;
          whole = takeWhile (\<lambda>c. c \<noteq> CHR ''.'') mantissa; fraction = drop (length whole + 1) mantissa;
          power = (if take 1 e = ''-'' then - int (decimal_digits (drop 1 e))
                   else int (decimal_digits (if take 1 e = ''+'' then drop 1 e else e)))
      in (negative, decimal_digits (whole @ fraction), power - int (length fraction)))"

definition float_trunc :: "string \<Rightarrow> int" where
  "float_trunc s =
     (case float_parts s of (negative, m, e) \<Rightarrow>
        let a = (if 0 \<le> e then int m * 10 ^ nat e else int m div 10 ^ nat (- e))
        in if negative then - a else a)"

definition float_is :: "string \<Rightarrow> int \<Rightarrow> bool" where
  "float_is s i =
     (case float_parts s of (negative, m, e) \<Rightarrow>
        let v = (if negative then - int m else int m)
        in if 0 \<le> e then v * 10 ^ nat e = i else v = i * 10 ^ nat (- e))"

section \<open>Truth and access\<close>

fun falsy :: "json \<Rightarrow> bool" where
  "falsy JNull = True"
| "falsy (JBool b) = (\<not> b)"
| "falsy (JInt i) = (i = 0)"
| "falsy (JFloat s) = float_is s 0"
| "falsy (JStr s) = (s = [])"
| "falsy (JArr vs) = (vs = [])"
| "falsy (JObj kvs) = (kvs = [])"

text \<open>\<open>d.get(k)\<close> on a dictionary\<close>

definition dget :: "string \<Rightarrow> mapping \<Rightarrow> json" where
  "dget k kvs = (case map_of kvs k of Some v \<Rightarrow> v | None \<Rightarrow> JNull)"

text \<open>\<open>v.get(k)\<close> on any value\<close>

definition pyget :: "string \<Rightarrow> json \<Rightarrow> json result" where
  "pyget k v = (case v of JObj kvs \<Rightarrow> Inr (dget k kvs) | _ \<Rightarrow> Inl (AttributeError ''get''))"

text \<open>\<open>(d.get(a) or {}).get(b)\<close>\<close>

definition subget :: "string \<Rightarrow> string \<Rightarrow> mapping \<Rightarrow> json result" where
  "subget a b kvs = (let v = dget a kvs in if falsy v then Inr JNull else pyget b v)"

text \<open>\<open>d[k]\<close>\<close>

definition ditem :: "string \<Rightarrow> mapping \<Rightarrow> json result" where
  "ditem k kvs = (case map_of kvs k of Some v \<Rightarrow> Inr v | None \<Rightarrow> Inl (KeyError k))"

text \<open>\<open>v == i\<close>\<close>

definition eq_int :: "json \<Rightarrow> int \<Rightarrow> bool" where
  "eq_int v i = (case v of JInt j \<Rightarrow> j = i | JBool b \<Rightarrow> (if b then 1 else 0) = i | JFloat s \<Rightarrow> float_is s i | _ \<Rightarrow> False)"

definition as_object :: "json \<Rightarrow> mapping option" where
  "as_object v = (case v of JObj kvs \<Rightarrow> Some kvs | _ \<Rightarrow> None)"

text \<open>\<open>[x for x in vs if isinstance(x, Mapping)]\<close>\<close>

definition objects :: "json list \<Rightarrow> mapping list" where
  "objects vs = List.map_filter as_object vs"

text \<open>The elements of a list whose condition may raise, from left to right.\<close>

fun filterM :: "('a \<Rightarrow> bool result) \<Rightarrow> 'a list \<Rightarrow> 'a list result" where
  "filterM p [] = Inr []"
| "filterM p (x # xs) = rbind (p x) (\<lambda>b. rbind (filterM p xs) (\<lambda>ys. Inr (if b then x # ys else ys)))"

text \<open>\<open>and\<close> and \<open>all\<close>: what follows a false condition is not evaluated.\<close>

definition conj_result :: "bool result \<Rightarrow> bool result \<Rightarrow> bool result" where
  "conj_result a b = rbind a (\<lambda>x. if x then b else Inr False)"

section \<open>Text of a value\<close>

text \<open>\<open>repr\<close> of text with code points below 256: quotes, escapes, and numbers for what is not printable.\<close>

definition repr_char :: "char \<Rightarrow> char \<Rightarrow> string" where
  "repr_char q c = (let n = of_char c :: nat in
     if c = q \<or> n = 92 then [CHR 0x5C, c]
     else if n = 9 then [CHR 0x5C, CHR ''t'']
     else if n = 10 then [CHR 0x5C, CHR ''n'']
     else if n = 13 then [CHR 0x5C, CHR ''r'']
     else if n < 32 \<or> (127 \<le> n \<and> n \<le> 160) \<or> n = 173
     then [CHR 0x5C, CHR ''x'', hex_digit (n div 16), hex_digit (n mod 16)]
     else [c])"

definition repr_str :: "string \<Rightarrow> string" where
  "repr_str s =
     (let q = (if CHR 0x27 \<in> set s \<and> CHR 0x22 \<notin> set s then CHR 0x22 else CHR 0x27)
      in q # concat (map (repr_char q) s) @ [q])"

fun pyrepr :: "json \<Rightarrow> string" where
  "pyrepr JNull = ''None''"
| "pyrepr (JBool b) = (if b then ''True'' else ''False'')"
| "pyrepr (JInt i) = int_text i"
| "pyrepr (JFloat s) = s"
| "pyrepr (JStr s) = repr_str s"
| "pyrepr (JArr vs) = ''['' @ join '', '' (map pyrepr vs) @ '']''"
| "pyrepr (JObj kvs) = ''{'' @ join '', '' (map (\<lambda>kv. repr_str (fst kv) @ '': '' @ pyrepr (snd kv)) kvs) @ ''}''"

definition pystr :: "json \<Rightarrow> string" where
  "pystr v = (case v of JStr s \<Rightarrow> s | _ \<Rightarrow> pyrepr v)"

section \<open>\<open>int\<close> of a value\<close>

text \<open>Decimal text: digits with single underscores between them.\<close>

fun underscored :: "string \<Rightarrow> bool" where
  "underscored [] = False"
| "underscored [c] = is_digit_char c"
| "underscored (c # d # s) =
     (is_digit_char c \<and> (if d = CHR ''_'' then underscored s else underscored (d # s)))"

definition int_of_text :: "string \<Rightarrow> int result" where
  "int_of_text s =
     (let t = strip s; sign = (take 1 t = ''-'' \<or> take 1 t = ''+''); u = (if sign then drop 1 t else t)
      in if underscored u
         then Inr (let n = int (decimal_digits (filter (\<lambda>c. c \<noteq> CHR ''_'') u)) in if take 1 t = ''-'' then - n else n)
         else Inl (ValueError ''invalid literal for int() with base 10''))"

definition pyint :: "json \<Rightarrow> int result" where
  "pyint v =
     (case v of
        JInt i \<Rightarrow> Inr i
      | JBool b \<Rightarrow> Inr (if b then 1 else 0)
      | JFloat s \<Rightarrow> Inr (float_trunc s)
      | JStr s \<Rightarrow> int_of_text s
      | _ \<Rightarrow> Inl (TypeError ''int() argument must be a string, a bytes-like object or a real number''))"

section \<open>Facts\<close>

lemma eq_int_simps [simp]: "eq_int (JInt j) i \<longleftrightarrow> j = i" "\<not> eq_int JNull i" "\<not> eq_int (JStr s) i"
  by (simp_all add: eq_int_def)

lemma pyint_simps [simp]: "pyint (JInt i) = Inr i" "pyint (JBool b) = Inr (if b then 1 else 0)"
  by (simp_all add: pyint_def)

lemma pyget_simps [simp]: "pyget k (JObj kvs) = Inr (dget k kvs)"
  by (simp add: pyget_def)

lemma dget_simps [simp]: "dget k [] = JNull" "dget k ((k', v) # kvs) = (if k = k' then v else dget k kvs)"
  by (simp_all add: dget_def)

lemma pystr_str [simp]: "pystr (JStr s) = s" "pystr JNull = ''None''"
  by (simp_all add: pystr_def)

lemma conj_result_simps [simp]: "conj_result (Inl e) b = Inl e" "conj_result (Inr x) b = (if x then b else Inr False)"
  by (simp_all add: conj_result_def)

lemma filterM_pure [simp]: "filterM (\<lambda>x. Inr (p x)) xs = Inr (filter p xs)"
  by (induction xs) simp_all

end
