(* ===== verification/Transport.thy ===== *)
theory Transport
  imports PyJson
begin

text \<open>
  The sealed transport between isolated runners (\<open>automation/issue_agent_transport.py\<close>): a payload is encrypted to a recipient
  key under associated data that binds it to an execution, and opened only under exactly the expected binding. Key agreement, key
  derivation and the authenticated cipher belong to the \<open>cryptography\<close> package and are parameters. So is the reader
  \<open>json.loads\<close>, whose texts may hold code points that the strings of this development lack.
\<close>

section \<open>Base64\<close>

definition b64_char :: "nat \<Rightarrow> char" where
  "b64_char n =
     (if n < 26 then char_of (65 + n) else if n < 52 then char_of (71 + n) else if n < 62 then char_of (n - 4)
      else if n = 62 then CHR ''+'' else CHR ''/'')"

definition b64_value :: "char \<Rightarrow> nat option" where
  "b64_value c = (let n = of_char c :: nat in
     if 65 \<le> n \<and> n \<le> 90 then Some (n - 65) else if 97 \<le> n \<and> n \<le> 122 then Some (n - 71)
     else if 48 \<le> n \<and> n \<le> 57 then Some (n + 4) else if n = 43 then Some 62 else if n = 47 then Some 63 else None)"

fun b64encode :: "8 word list \<Rightarrow> string" where
  "b64encode [] = []"
| "b64encode [a] = (let n = unat a * 16 in [b64_char (n div 64), b64_char (n mod 64), CHR ''='', CHR ''=''])"
| "b64encode [a, b] = (let n = (unat a * 256 + unat b) * 4
     in [b64_char (n div 4096), b64_char (n div 64 mod 64), b64_char (n mod 64), CHR ''=''])"
| "b64encode (a # b # c # bs) = (let n = (unat a * 256 + unat b) * 256 + unat c
     in b64_char (n div 262144) # b64_char (n div 4096 mod 64) # b64_char (n div 64 mod 64) # b64_char (n mod 64) # b64encode bs)"

text \<open>\<open>base64.b64decode(text, validate=True)\<close>; the bits of the last character that encode nothing are ignored.\<close>

fun b64decode :: "string \<Rightarrow> 8 word list option" where
  "b64decode [] = Some []"
| "b64decode (w # x # y # z # s) =
     (case (b64_value w, b64_value x) of
        (Some i, Some j) \<Rightarrow>
          (if y = CHR ''='' then (if z = CHR ''='' \<and> s = [] then Some [of_nat (i * 4 + j div 16)] else None)
           else case b64_value y of
                  None \<Rightarrow> None
                | Some k \<Rightarrow>
                    if z = CHR ''='' then
                      (if s = [] then Some [of_nat (i * 4 + j div 16), of_nat (j mod 16 * 16 + k div 4)] else None)
                    else (case b64_value z of
                            None \<Rightarrow> None
                          | Some l \<Rightarrow> map_option (\<lambda>bs. of_nat (i * 4 + j div 16) # of_nat (j mod 16 * 16 + k div 4)
                                         # of_nat (k mod 4 * 64 + l) # bs) (b64decode s)))
      | _ \<Rightarrow> None)"
| "b64decode s = None"

section \<open>Bindings\<close>

definition TRANSPORT_SCHEMA_VERSION :: string where
  "TRANSPORT_SCHEMA_VERSION = ''hunter-ia-sealed-transport-v1''"

definition PAYLOAD_KINDS :: "string list" where
  "PAYLOAD_KINDS = [''handoff'', ''result'']"

definition MAX_PLAINTEXT_BYTES :: nat where
  "MAX_PLAINTEXT_BYTES = 8 * 1024 * 1024"

record transport_binding =
  tb_payload_kind :: string
  tb_repository_id :: int
  tb_issue_number :: int
  tb_authorization_id :: string
  tb_base_sha :: string
  tb_task_scope_sha256 :: string
  tb_execution_id :: string
  tb_handoff_sha256 :: string
  tb_plaintext_sha256 :: string
  tb_recipient_key_id :: string

abbreviation refused :: "string \<Rightarrow> 'a result" where
  "refused why \<equiv> Inl (TransportIntegrityError why)"

text \<open>\<open>as_dict\<close>: the schema version of a constructed binding is the constant.\<close>

definition binding_dict :: "transport_binding \<Rightarrow> json" where
  "binding_dict b = JObj
     [(''payload_kind'', JStr (tb_payload_kind b)), (''repository_id'', JInt (tb_repository_id b)),
      (''issue_number'', JInt (tb_issue_number b)), (''authorization_id'', JStr (tb_authorization_id b)),
      (''base_sha'', JStr (tb_base_sha b)), (''task_scope_sha256'', JStr (tb_task_scope_sha256 b)),
      (''execution_id'', JStr (tb_execution_id b)), (''handoff_sha256'', JStr (tb_handoff_sha256 b)),
      (''plaintext_sha256'', JStr (tb_plaintext_sha256 b)), (''recipient_key_id'', JStr (tb_recipient_key_id b)),
      (''schema_version'', JStr TRANSPORT_SCHEMA_VERSION)]"

definition binding_digest :: "transport_binding \<Rightarrow> string" where
  "binding_digest b = sha256_hex (canonical_json (binding_dict b))"

definition binding_fields :: "string list" where
  "binding_fields =
     [''payload_kind'', ''repository_id'', ''issue_number'', ''authorization_id'', ''base_sha'', ''task_scope_sha256'',
      ''execution_id'', ''handoff_sha256'', ''plaintext_sha256'', ''recipient_key_id'']"

text \<open>\<open>v in xs\<close> for a set of texts: lists and dictionaries are not hashable.\<close>

definition is_member :: "json \<Rightarrow> string list \<Rightarrow> bool result" where
  "is_member v xs =
     (case v of
        JStr s \<Rightarrow> Inr (s \<in> set xs)
      | JArr vs \<Rightarrow> Inl (TypeError ''unhashable type: list'')
      | JObj kvs \<Rightarrow> Inl (TypeError ''unhashable type: dict'')
      | _ \<Rightarrow> Inr False)"

definition positive_int :: "string \<Rightarrow> json \<Rightarrow> int result" where
  "positive_int name v =
     (case v of JInt i \<Rightarrow> (if i < 1 then refused (name @ '' must be a positive integer'') else Inr i)
      | _ \<Rightarrow> refused (name @ '' must be a positive integer''))"

definition text_match :: "rx \<Rightarrow> json \<Rightarrow> string \<Rightarrow> string result" where
  "text_match r v why = (case v of JStr s \<Rightarrow> (if fullmatch r s then Inr s else refused why) | _ \<Rightarrow> refused why)"

definition sha256_field :: "string \<Rightarrow> mapping \<Rightarrow> string result" where
  "sha256_field name kvs = text_match rx_sha64 (dget name kvs) (name @ '' must be a SHA-256 hex digest'')"

definition known_kind :: "mapping \<Rightarrow> bool result" where
  "known_kind kvs =
     (case map_of kvs ''schema_version'' of
        None \<Rightarrow> is_member (dget ''payload_kind'' kvs) PAYLOAD_KINDS
      | Some v \<Rightarrow> conj_result (Inr (v = JStr TRANSPORT_SCHEMA_VERSION)) (is_member (dget ''payload_kind'' kvs) PAYLOAD_KINDS))"

definition unexpected_arguments :: "mapping \<Rightarrow> bool" where
  "unexpected_arguments kvs \<longleftrightarrow>
     \<not> set (map fst kvs) \<subseteq> set (''schema_version'' # binding_fields) \<or> \<not> set binding_fields \<subseteq> set (map fst kvs)"

text \<open>\<open>TransportBinding(**kvs)\<close>: the arguments, then the checks of \<open>__post_init__\<close> in order.\<close>

definition mk_binding :: "mapping \<Rightarrow> transport_binding result" where
  "mk_binding kvs =
     (if unexpected_arguments kvs then Inl (TypeError ''unexpected or missing arguments'')
      else
        rbind (known_kind kvs) (\<lambda>known.
        if \<not> known then refused ''transport schema or payload kind is outside the closed vocabulary''
        else
          rbind (positive_int ''repository_id'' (dget ''repository_id'' kvs)) (\<lambda>repository_id.
          rbind (positive_int ''issue_number'' (dget ''issue_number'' kvs)) (\<lambda>issue_number.
          rbind (case dget ''base_sha'' kvs of
                   JStr s \<Rightarrow> (if fullmatch rx_sha40 s then Inr s else refused ''base_sha must be an exact commit SHA'')
                 | _ \<Rightarrow> Inl (TypeError ''expected string or bytes-like object'')) (\<lambda>base_sha.
          rbind (text_match rx_authorization_id (dget ''authorization_id'' kvs)
                   ''authorization_id must be a canonical authorization identity'') (\<lambda>authorization_id.
          rbind (sha256_field ''task_scope_sha256'' kvs) (\<lambda>task_scope.
          rbind (sha256_field ''execution_id'' kvs) (\<lambda>execution_id.
          rbind (sha256_field ''handoff_sha256'' kvs) (\<lambda>handoff.
          rbind (sha256_field ''plaintext_sha256'' kvs) (\<lambda>plaintext.
          rbind (sha256_field ''recipient_key_id'' kvs) (\<lambda>key_id.
          let kind = str_of (dget ''payload_kind'' kvs)
          in if kind = ''handoff'' \<and> handoff \<noteq> plaintext then refused ''a handoff envelope's plaintext is the handoff itself''
             else Inr \<lparr>tb_payload_kind = kind, tb_repository_id = repository_id, tb_issue_number = issue_number,
               tb_authorization_id = authorization_id, tb_base_sha = base_sha, tb_task_scope_sha256 = task_scope,
               tb_execution_id = execution_id, tb_handoff_sha256 = handoff, tb_plaintext_sha256 = plaintext,
               tb_recipient_key_id = key_id\<rparr>)))))))))))"

section \<open>Cryptography\<close>

text \<open>
  What the code calls: the raw form of a public key and its reading, the public key of a private one, the shared secret of a
  private and a public key (none where the library refuses it), the derived key, and the cipher with associated data, whose
  decryption is none when the tag does not verify.
\<close>

record ('p, 's) crypto =
  cr_raw :: "'p \<Rightarrow> 8 word list"
  cr_from_raw :: "8 word list \<Rightarrow> 'p"
  cr_public :: "'s \<Rightarrow> 'p"
  cr_exchange :: "'s \<Rightarrow> 'p \<Rightarrow> 8 word list option"
  cr_hkdf :: "8 word list \<Rightarrow> 8 word list \<Rightarrow> 8 word list \<Rightarrow> 8 word list"
  cr_encrypt :: "8 word list \<Rightarrow> 8 word list \<Rightarrow> 8 word list \<Rightarrow> 8 word list \<Rightarrow> 8 word list"
  cr_decrypt :: "8 word list \<Rightarrow> 8 word list \<Rightarrow> 8 word list \<Rightarrow> 8 word list \<Rightarrow> 8 word list option"

text \<open>Documented behaviour of the package: key agreement is symmetric, decryption undoes encryption, the tag has 16 bytes and a raw key
  32.\<close>

definition crypto_laws :: "('p, 's) crypto \<Rightarrow> bool" where
  "crypto_laws c \<longleftrightarrow>
     (\<forall>a b. cr_exchange c a (cr_public c b) = cr_exchange c b (cr_public c a)) \<and>
     (\<forall>k n p a. cr_decrypt c k n (cr_encrypt c k n p a) a = Some p \<and> length (cr_encrypt c k n p a) = length p + 16) \<and>
     (\<forall>p. length (cr_raw c p) = 32 \<and> cr_from_raw c (cr_raw c p) = p)"

definition recipient_key_id :: "('p, 's) crypto \<Rightarrow> 'p \<Rightarrow> string" where
  "recipient_key_id c p = sha256_hex (cr_raw c p)"

definition transport_key :: "('p, 's) crypto \<Rightarrow> 8 word list \<Rightarrow> 8 word list \<Rightarrow> string \<Rightarrow> 8 word list" where
  "transport_key c shared ephemeral_public payload_kind =
     cr_hkdf c ephemeral_public (utf8 (TRANSPORT_SCHEMA_VERSION @ '':'' @ payload_kind)) shared"

section \<open>Sealing\<close>

text \<open>The ephemeral private key and the nonce are drawn at random; here they are arguments.\<close>

definition seal :: "('p, 's) crypto \<Rightarrow> 's \<Rightarrow> 8 word list \<Rightarrow> 8 word list \<Rightarrow> 'p \<Rightarrow> transport_binding \<Rightarrow> 8 word list result" where
  "seal c ephemeral nonce plaintext recipient bound =
     (if length plaintext > MAX_PLAINTEXT_BYTES then refused ''payload exceeds the transport bound''
      else if tb_recipient_key_id bound \<noteq> recipient_key_id c recipient then refused ''binding names a different recipient key''
      else if tb_plaintext_sha256 bound \<noteq> sha256_hex plaintext then refused ''binding does not name this plaintext''
      else
        let ephemeral_public = cr_raw c (cr_public c ephemeral)
        in case cr_exchange c ephemeral recipient of
             None \<Rightarrow> Inl (ValueError ''Error computing shared key.'')
           | Some shared \<Rightarrow>
               let key = transport_key c shared ephemeral_public (tb_payload_kind bound);
                   ciphertext = cr_encrypt c key nonce plaintext (canonical_json (binding_dict bound))
               in Inr (canonical_json (JObj
                    [(''aad'', binding_dict bound), (''epk'', JStr (bytes_hex ephemeral_public)),
                     (''nonce'', JStr (bytes_hex nonce)), (''ciphertext'', JStr (b64encode ciphertext))])))"

section \<open>Opening\<close>

text \<open>
  \<open>json.loads\<close> on bytes: a value, a text that is no JSON (\<open>JSONDecodeError\<close>, \<open>UnicodeDecodeError\<close>), or another exception of
  the reader (\<open>ValueError\<close> for an integer with too many digits, \<open>RecursionError\<close> for deep nesting).
\<close>

datatype parsed = Parsed json | NotJson | Unreadable pyexc

definition parse_envelope :: "(8 word list \<Rightarrow> parsed) \<Rightarrow> 8 word list \<Rightarrow> mapping result" where
  "parse_envelope loads envelope =
     (if length envelope > MAX_PLAINTEXT_BYTES * 2 then refused ''envelope is missing or exceeds the transport bound''
      else case loads envelope of
             NotJson \<Rightarrow> refused ''envelope is not canonical JSON''
           | Unreadable e \<Rightarrow> Inl e
           | Parsed document \<Rightarrow>
               (case as_object document of
                  None \<Rightarrow> refused ''envelope fields differ from the closed schema''
                | Some kvs \<Rightarrow>
                    if set (map fst kvs) \<noteq> {''aad'', ''epk'', ''nonce'', ''ciphertext''} \<or> \<not> is_object (dget ''aad'' kvs)
                    then refused ''envelope fields differ from the closed schema''
                    else if \<not> fullmatch rx_sha64 (pystr (dget ''epk'' kvs)) \<or>
                            \<not> fullmatch (exactly is_hex 24) (pystr (dget ''nonce'' kvs))
                    then refused ''envelope key material is malformed''
                    else Inr kvs))"

definition header :: "(8 word list \<Rightarrow> parsed) \<Rightarrow> 8 word list \<Rightarrow> transport_binding result" where
  "header loads envelope =
     rbind (parse_envelope loads envelope) (\<lambda>kvs.
       case mk_binding (case dget ''aad'' kvs of JObj aad \<Rightarrow> aad | _ \<Rightarrow> []) of
         Inl (TypeError why) \<Rightarrow> refused ''envelope binding fields differ from the closed schema''
       | r \<Rightarrow> r)"

text \<open>What may fail while the ciphertext is decrypted; every failure is the same refusal.\<close>

definition decrypted :: "('p, 's) crypto \<Rightarrow> 's \<Rightarrow> transport_binding \<Rightarrow> mapping \<Rightarrow> 8 word list option" where
  "decrypted c recipient expected kvs =
     (case (dget ''ciphertext'' kvs, dget ''epk'' kvs, dget ''nonce'' kvs) of
        (JStr ciphertext, JStr epk, JStr nonce) \<Rightarrow>
          Option.bind (b64decode ciphertext) (\<lambda>sealed.
          Option.bind (fromhex epk) (\<lambda>ephemeral_public.
          Option.bind (cr_exchange c recipient (cr_from_raw c ephemeral_public)) (\<lambda>shared.
          Option.bind (fromhex nonce) (\<lambda>n.
            cr_decrypt c (transport_key c shared ephemeral_public (tb_payload_kind expected)) n sealed
              (canonical_json (dget ''aad'' kvs))))))
      | _ \<Rightarrow> None)"

definition open_sealed ::
  "('p, 's) crypto \<Rightarrow> (8 word list \<Rightarrow> parsed) \<Rightarrow> 8 word list \<Rightarrow> 's \<Rightarrow> transport_binding \<Rightarrow> 8 word list result" where
  "open_sealed c loads envelope recipient expected =
     rbind (header loads envelope) (\<lambda>declared.
       if declared \<noteq> expected then refused ''envelope binding does not match the signed ledger''
       else rbind (parse_envelope loads envelope) (\<lambda>kvs.
         case decrypted c recipient expected kvs of
           None \<Rightarrow> refused ''envelope failed authentication''
         | Some plaintext \<Rightarrow>
             if sha256_hex plaintext \<noteq> tb_plaintext_sha256 expected then refused ''plaintext digest does not match the binding''
             else Inr plaintext))"

end
