(* ===== verification/TransportProperties.thy ===== *)
theory TransportProperties
  imports Transport LedgerSample
begin

text \<open>
  What the sealed transport guarantees: whatever is sealed fits the receiver's bound and is opened by the recipient to the same
  payload, and nothing is opened under a binding other than the expected one. What the transport relies on of \<open>json.loads\<close> is
  a contract, which the reader of this development meets.
\<close>

section \<open>Reading back\<close>

locale json_reader =
  fixes loads :: "8 word list \<Rightarrow> parsed"
  assumes reads: "json_wf v \<Longrightarrow> float_free v \<Longrightarrow> loads (canonical_json v) = Parsed (json_sorted v)"

fun utf8_read :: "8 word list \<Rightarrow> string option" where
  "utf8_read [] = Some []"
| "utf8_read (b # bs) =
     (if unat b < 128 then map_option ((#) (char_of (unat b))) (utf8_read bs)
      else case bs of
             [] \<Rightarrow> None
           | c # cs \<Rightarrow> if 194 \<le> unat b \<and> unat b \<le> 195 \<and> 128 \<le> unat c \<and> unat c < 192
               then map_option ((#) (char_of ((unat b - 192) * 64 + (unat c - 128)))) (utf8_read cs) else None)"

lemma utf8_read_char: "utf8_read (utf8_char c @ bs) = map_option ((#) c) (utf8_read bs)"
proof -
  have n: "(of_char c :: nat) < 256" by simp
  show ?thesis
  proof (cases "(of_char c :: nat) < 128")
    case True
    then show ?thesis using n by (simp add: utf8_char_def unat_of_nat)
  next
    case False
    define k where "k = (of_char c :: nat)"
    have k: "128 \<le> k" "k < 256" using False n by (simp_all add: k_def)
    have a: "unat (of_nat (192 + k div 64) :: 8 word) = 192 + k div 64" using k by (simp add: unat_of_nat del: of_nat_add)
    have b: "unat (of_nat (128 + k mod 64) :: 8 word) = 128 + k mod 64"
    proof -
      have "128 + k mod 64 < 256" by (rule less_trans [of _ "128 + 64"]) simp_all
      then show ?thesis by (simp add: unat_of_nat del: of_nat_add)
    qed
    have d: "2 \<le> k div 64" "k div 64 \<le> 3" using k by simp_all
    have "utf8_read (of_nat (192 + k div 64) # of_nat (128 + k mod 64) # bs) = map_option ((#) (char_of k)) (utf8_read bs)"
      using d by (simp add: a b del: of_nat_add)
    then show ?thesis using False by (simp add: utf8_char_def k_def [symmetric] del: of_nat_add) (simp add: k_def)
  qed
qed

lemma utf8_read_utf8: "utf8_read (utf8 s) = Some s"
  by (induction s) (simp_all add: utf8_def utf8_read_char)

text \<open>The steps a reader takes are bounded by the length of the text.\<close>

lemma length_join_items: "length (join sep ss) \<ge> sum_list (map length ss)"
  by (induction sep ss rule: join.induct) auto

lemma length_join_commas: "length (join '','' ss) + 1 \<ge> sum_list (map (\<lambda>s. Suc (length s)) ss)"
  by (induction "'',''" ss rule: join.induct) auto

lemma json_size_text: "float_free v \<Longrightarrow> json_size v < 2 * length (dumps a v)"
proof (induction v)
  case (JArr vs)
  have "Suc (json_size v) \<le> 2 * length (dumps a v)" if "v \<in> set vs" for v
    using JArr that by (simp add: list_all_iff Suc_le_eq)
  then have "sum_list (map (\<lambda>v. Suc (json_size v)) vs) \<le> sum_list (map (\<lambda>v. 2 * length (dumps a v)) vs)"
    by (intro sum_list_mono) simp
  also have "\<dots> = 2 * sum_list (map (\<lambda>v. length (dumps a v)) vs)" by (simp add: sum_list_const_mult)
  also have "sum_list (map (\<lambda>v. length (dumps a v)) vs) \<le> length (join '','' (map (dumps a) vs))"
    using length_join_items [of "map (dumps a) vs" "'',''"] by (simp add: comp_def)
  finally show ?case by simp
next
  case (JObj kvs)
  let ?entry = "\<lambda>kv. quote a (fst kv) @ '':'' @ dumps a (snd kv)"
  have "Suc (json_size (snd kv)) \<le> 2 * length (?entry kv)" if "kv \<in> set kvs" for kv
    using JObj.IH [of kv "snd kv"] JObj.prems that by (auto simp: list_all_iff snds.simps)
  then have "sum_list (map (\<lambda>kv. Suc (json_size (snd kv))) kvs) \<le> sum_list (map (\<lambda>kv. 2 * length (?entry kv)) kvs)"
    by (intro sum_list_mono) simp
  also have "\<dots> = 2 * sum_list (map (\<lambda>kv. length (?entry kv)) (sort_key fst kvs))"
    by (simp add: sum_list_const_mult sum_list_sort del: length_append)
  also have "sum_list (map (\<lambda>kv. length (?entry kv)) (sort_key fst kvs)) \<le> length (join '','' (map ?entry (sort_key fst kvs)))"
    using length_join_items [of "map ?entry (sort_key fst kvs)" "'',''"] by (simp add: comp_def)
  finally show ?case unfolding dumps_JObj by simp
next
  case (JInt i)
  then show ?case using nat_text_first [of "nat i"] nat_text_first [of "nat (- i)"] by (auto simp: int_text_def)
qed (simp_all add: quote_def)

definition compact_loads :: "8 word list \<Rightarrow> parsed" where
  "compact_loads bs =
     (case utf8_read bs of
        None \<Rightarrow> NotJson
      | Some s \<Rightarrow> (case read_value (2 * length s) s of Some (v, []) \<Rightarrow> Parsed v | _ \<Rightarrow> NotJson))"

interpretation compact: json_reader compact_loads
proof
  fix v
  assume "json_wf v" "float_free v"
  then have "read_value (2 * length (dumps False v)) (dumps False v @ []) = Some (json_sorted v, [])"
    by (intro read_dumps less_imp_le [OF json_size_text]) (simp_all add: stops_def)
  then show "compact_loads (canonical_json v) = Parsed (json_sorted v)"
    by (simp add: compact_loads_def canonical_json_def utf8_read_utf8)
qed

section \<open>Encodings\<close>

lemma hex_value_digit: "n < 16 \<Longrightarrow> hex_value (hex_digit n) = Some n"
  by (auto simp: hex_value_def hex_digit_def Let_def)

lemma hex_digit_no_space: "n < 16 \<Longrightarrow> \<not> is_ascii_space (hex_digit n)"
  by (auto simp: is_ascii_space_def hex_digit_def Let_def)

lemma fromhex_bytes [simp]: "fromhex (bytes_hex bs) = Some bs"
proof (induction bs)
  case (Cons b bs)
  have b: "unat b < 256" using unsigned_less [of b] by simp
  then have d: "unat b div 16 < 16" by (simp add: less_mult_imp_div_less)
  have "16 * (unat b div 16) + unat b mod 16 = unat b" by (metis mult_div_mod_eq)
  then have w: "word_of_nat (16 * (unat b div 16) + unat b mod 16) = b" by simp
  show ?case
    using Cons d by (simp add: bytes_hex_def hex_digit_no_space hex_value_digit w del: of_nat_add of_nat_mult)
qed (simp add: bytes_hex_def)

lemma b64_value_char: "n < 64 \<Longrightarrow> b64_value (b64_char n) = Some n"
  by (auto simp: b64_value_def b64_char_def Let_def)

lemma b64_char_pad: "n < 64 \<Longrightarrow> b64_char n \<noteq> CHR ''=''"
  using b64_value_char [of n] by (auto simp: b64_value_def)

lemma byte_less: "unat (b :: 8 word) < 256"
  using unsigned_less [of b] by simp

lemma digit_div: "r < k \<Longrightarrow> (q * k + r) div k = (q :: nat)" "r < k \<Longrightarrow> (q * k + r) mod k = (r :: nat)"
  by simp_all

lemma sextets:
  fixes a b c :: nat
  assumes "a < 256" and "b < 256" and "c < 256"
  defines "n \<equiv> (a * 256 + b) * 256 + c"
  shows "n div 262144 < 64" "n div 262144 * 4 + n div 4096 mod 64 div 16 = a"
    "n div 4096 mod 64 mod 16 * 16 + n div 64 mod 64 div 4 = b" "n div 64 mod 64 mod 4 * 64 + n mod 64 = c"
proof -
  obtain p q where a: "a = p * 4 + q" "q < 4" by (metis div_mult_mod_eq mod_less_divisor zero_less_numeral)
  obtain r s where b: "b = r * 16 + s" "s < 16" by (metis div_mult_mod_eq mod_less_divisor zero_less_numeral)
  obtain t u where c: "c = t * 64 + u" "u < 64" by (metis div_mult_mod_eq mod_less_divisor zero_less_numeral)
  have bounds: "p < 64" "r < 16" "t < 4" using assms(1-3) a b c by simp_all
  define w x y where "w = p" and "x = q * 16 + r" and "y = s * 4 + t"
  have less: "w < 64" "x < 64" "y < 64" "u < 64" using bounds a b c by (simp_all add: w_def x_def y_def)
  have n: "n = ((w * 64 + x) * 64 + y) * 64 + u" by (simp add: n_def a b c w_def x_def y_def)
  have d: "n div 64 = (w * 64 + x) * 64 + y" "n mod 64 = u" unfolding n by (rule digit_div [OF less(4)])+
  have e: "n div 4096 = w * 64 + x" unfolding div_mult2_eq [of n 64 64, simplified] d(1) by (rule digit_div [OF less(3)])
  have f: "n div 262144 = w" unfolding div_mult2_eq [of n 4096 64, simplified] e by (rule digit_div [OF less(2)])
  have g: "n div 64 mod 64 = y" unfolding d(1) by (rule digit_div [OF less(3)])
  have h: "n div 4096 mod 64 = x" unfolding e by (rule digit_div [OF less(2)])
  show "n div 262144 < 64" using f less by simp
  show "n div 262144 * 4 + n div 4096 mod 64 div 16 = a" unfolding f h using a bounds by (simp add: w_def x_def)
  show "n div 4096 mod 64 mod 16 * 16 + n div 64 mod 64 div 4 = b" unfolding g h using b bounds by (simp add: x_def y_def)
  show "n div 64 mod 64 mod 4 * 64 + n mod 64 = c" unfolding g d(2) using c bounds by (simp add: y_def)
qed

lemma sextets_one:
  fixes a :: nat
  assumes "a < 256"
  shows "a * 16 div 64 < 64" "a * 16 div 64 * 4 + a * 16 mod 64 div 16 = a"
proof -
  have d: "a * 16 div 64 = a div 4" "a * 16 mod 64 = a mod 4 * 16"
    using div_mult_mult2 [of 16 a 4] mult_mod_left [of a 4 16] by simp_all
  show "a * 16 div 64 < 64" using assms by (simp add: d less_mult_imp_div_less)
  show "a * 16 div 64 * 4 + a * 16 mod 64 div 16 = a" by (simp add: d)
qed

lemma sextets_two:
  fixes a b :: nat
  assumes "a < 256" and "b < 256"
  defines "n \<equiv> (a * 256 + b) * 4"
  shows "n div 4096 < 64" "n div 4096 * 4 + n div 64 mod 64 div 16 = a" "n div 64 mod 64 mod 16 * 16 + n mod 64 div 4 = b"
proof -
  have m: "(a * 256 + b) * 256 + 0 = n * 64" by (simp add: n_def)
  note s = sextets [OF assms(1,2), of 0, unfolded m]
  have d: "n * 64 div 262144 = n div 4096" "n * 64 div 4096 = n div 64"
    using div_mult_mult2 [of 64 n 4096] div_mult_mult2 [of 64 n 64] by simp_all
  show "n div 4096 < 64" "n div 4096 * 4 + n div 64 mod 64 div 16 = a" "n div 64 mod 64 mod 16 * 16 + n mod 64 div 4 = b"
    using s by (simp_all add: d)
qed

lemma b64_round [simp]: "b64decode (b64encode bs) = Some bs"
proof (induction bs rule: b64encode.induct)
  case (2 a)
  show ?case using sextets_one [OF byte_less [of a]]
    by (simp add: Let_def b64_value_char b64_char_pad del: of_nat_add of_nat_mult)
next
  case (3 a b)
  show ?case using sextets_two [OF byte_less [of a] byte_less [of b]]
    by (simp add: Let_def b64_value_char b64_char_pad del: of_nat_add of_nat_mult)
next
  case (4 a b c bs)
  show ?case using sextets [OF byte_less [of a] byte_less [of b] byte_less [of c]] 4
    by (simp add: Let_def b64_value_char b64_char_pad del: of_nat_add of_nat_mult)
qed simp

section \<open>Sizes\<close>

definition plain_char :: "char \<Rightarrow> bool" where
  "plain_char c = (let n = of_char c :: nat in 32 \<le> n \<and> n < 127 \<and> n \<noteq> 34 \<and> n \<noteq> 92)"

lemma length_plain: "list_all plain_char s \<Longrightarrow> length (utf8 (quote False s)) = length s + 2"
proof -
  assume plain: "list_all plain_char s"
  then have "map (escape_char False) s = map (\<lambda>c. [c]) s"
    by (auto simp: plain_char_def escape_char_def Let_def list_all_iff)
  then have "concat (map (escape_char False) s) = concat (map (\<lambda>c. [c]) s)" by (rule arg_cong)
  then have "quote False s = CHR 0x22 # s @ [CHR 0x22]" by (simp add: quote_def)
  moreover have "length (utf8 s) = length s"
    using plain by (induction s) (auto simp: utf8_def utf8_char_def plain_char_def Let_def)
  ultimately show ?thesis by (simp add: utf8_append utf8_Cons) (simp add: utf8_def utf8_char_def)
qed

lemma length_object:
  "length (utf8 (dumps a (JObj kvs))) \<le>
     2 + sum_list (map (\<lambda>kv. length (utf8 (quote a (fst kv))) + 2 + length (utf8 (dumps a (snd kv)))) kvs)"
proof -
  let ?entry = "\<lambda>kv. quote a (fst kv) @ '':'' @ dumps a (snd kv)"
  have "length (utf8 (join '','' (map ?entry (sort_key fst kvs)))) \<le> sum_list (map (\<lambda>kv. Suc (length (utf8 (?entry kv)))) (sort_key fst kvs))"
    using length_join [of "map ?entry (sort_key fst kvs)"] by (simp add: comp_def)
  also have "\<dots> = sum_list (map (\<lambda>kv. Suc (length (utf8 (?entry kv)))) kvs)" by (rule sum_list_sort)
  also have "(\<lambda>kv. Suc (length (utf8 (?entry kv)))) = (\<lambda>kv. length (utf8 (quote a (fst kv))) + 2 + length (utf8 (dumps a (snd kv))))"
    by (simp add: fun_eq_iff utf8_append utf8_Cons) (simp add: utf8_char_def utf8_def)
  finally show ?thesis unfolding dumps_JObj by (simp add: utf8_append utf8_Cons) (simp add: utf8_def utf8_char_def)
qed

lemma length_b64: "length (b64encode bs) = 4 * ((length bs + 2) div 3)"
proof (induction bs rule: b64encode.induct)
  case (4 a b c bs)
  have "(length bs + 5) div 3 = (length bs + 2) div 3 + 1" by presburger
  then show ?case using 4 by (simp add: Let_def add.commute)
qed (simp_all add: Let_def)

lemma plain_b64_char: "n < 64 \<Longrightarrow> plain_char (b64_char n)"
  by (auto simp: plain_char_def b64_char_def Let_def)

lemma plain_b64: "list_all plain_char (b64encode bs)"
proof (induction bs rule: b64encode.induct)
  case (2 a)
  then show ?case using sextets_one(1) [OF byte_less [of a]] plain_b64_char by (simp add: Let_def) (simp add: plain_char_def)
next
  case (3 a b)
  then show ?case using sextets_two(1) [OF byte_less [of a] byte_less [of b]] plain_b64_char
    by (simp add: Let_def) (simp add: plain_char_def)
next
  case (4 a b c bs)
  then show ?case using sextets(1) [OF byte_less [of a] byte_less [of b] byte_less [of c]] plain_b64_char
    by (simp add: Let_def)
qed simp

lemma length_hex_pairs [simp]: "length (bytes_hex bs) = 2 * length bs"
  by (induction bs) (simp_all add: bytes_hex_def)

section \<open>Constructed bindings\<close>

definition binding_ok :: "transport_binding \<Rightarrow> bool" where
  "binding_ok b \<longleftrightarrow> (\<exists>kvs. mk_binding kvs = Inr b)"

lemma mk_binding_cong:
  assumes "\<And>k. map_of kvs k = map_of kvs' k"
  shows "mk_binding kvs = mk_binding kvs'"
proof -
  have "set (map fst kvs) = set (map fst kvs')"
    using arg_cong [of "map_of kvs" "map_of kvs'" dom] assms by (simp add: dom_map_of_conv_image_fst fun_eq_iff)
  moreover have "dget k kvs = dget k kvs'" for k by (simp add: dget_def assms)
  ultimately show ?thesis unfolding mk_binding_def unexpected_arguments_def known_kind_def sha256_field_def assms by (simp only:)
qed

lemma text_match_Inr: "text_match r v why = Inr s \<longleftrightarrow> v = JStr s \<and> fullmatch r s"
  by (auto simp: text_match_def split: json.splits if_splits)

lemma positive_int_Inr: "positive_int name v = Inr i \<longleftrightarrow> v = JInt i \<and> 1 \<le> i"
  by (auto simp: positive_int_def split: json.splits if_splits)

lemma refusal_Inr: "(if c then Inl e else m) = Inr x \<longleftrightarrow> \<not> c \<and> m = (Inr x :: 'a result)"
  by simp

lemma refusal_InrE: "(if c then Inl e else m) = Inr x \<Longrightarrow> (\<not> c \<Longrightarrow> m = (Inr x :: 'a result) \<Longrightarrow> P) \<Longrightarrow> P"
  by (cases c) simp_all

lemma known_kind_Inr: "known_kind kvs = Inr True \<Longrightarrow> \<exists>kind \<in> set PAYLOAD_KINDS. dget ''payload_kind'' kvs = JStr kind"
  by (cases "dget ''payload_kind'' kvs") (auto simp: known_kind_def is_member_def conj_result_def split: option.splits if_splits)

lemma base_sha_Inr:
  "(case v of JStr s \<Rightarrow> (if fullmatch r s then Inr s else refused why) | _ \<Rightarrow> Inl e) = Inr t \<longleftrightarrow> v = JStr t \<and> fullmatch r t"
  by (auto split: json.splits if_splits)

lemma mk_binding_Inr:
  "mk_binding kvs = Inr b \<longleftrightarrow>
    \<not> unexpected_arguments kvs \<and> known_kind kvs = Inr True \<and> str_of (dget ''payload_kind'' kvs) = tb_payload_kind b \<and>
    dget ''repository_id'' kvs = JInt (tb_repository_id b) \<and> 1 \<le> tb_repository_id b \<and>
    dget ''issue_number'' kvs = JInt (tb_issue_number b) \<and> 1 \<le> tb_issue_number b \<and>
    dget ''base_sha'' kvs = JStr (tb_base_sha b) \<and> fullmatch rx_sha40 (tb_base_sha b) \<and>
    dget ''authorization_id'' kvs = JStr (tb_authorization_id b) \<and> fullmatch rx_authorization_id (tb_authorization_id b) \<and>
    dget ''task_scope_sha256'' kvs = JStr (tb_task_scope_sha256 b) \<and> fullmatch rx_sha64 (tb_task_scope_sha256 b) \<and>
    dget ''execution_id'' kvs = JStr (tb_execution_id b) \<and> fullmatch rx_sha64 (tb_execution_id b) \<and>
    dget ''handoff_sha256'' kvs = JStr (tb_handoff_sha256 b) \<and> fullmatch rx_sha64 (tb_handoff_sha256 b) \<and>
    dget ''plaintext_sha256'' kvs = JStr (tb_plaintext_sha256 b) \<and> fullmatch rx_sha64 (tb_plaintext_sha256 b) \<and>
    dget ''recipient_key_id'' kvs = JStr (tb_recipient_key_id b) \<and> fullmatch rx_sha64 (tb_recipient_key_id b) \<and>
    (tb_payload_kind b = ''handoff'' \<longrightarrow> tb_handoff_sha256 b = tb_plaintext_sha256 b)" (is "?l \<longleftrightarrow> ?r")
proof
  assume ?l
  then show ?r
    unfolding mk_binding_def sha256_field_def text_match_Inr positive_int_Inr Let_def
    by (elim rbind_InrE refusal_InrE) (auto simp only: text_match_Inr positive_int_Inr base_sha_Inr sum.inject transport_binding.simps not_not)
next
  assume ?r
  then have r: "\<not> unexpected_arguments kvs" "known_kind kvs = Inr True" "str_of (dget ''payload_kind'' kvs) = tb_payload_kind b"
    "positive_int n (dget ''repository_id'' kvs) = Inr (tb_repository_id b)"
    "positive_int n (dget ''issue_number'' kvs) = Inr (tb_issue_number b)"
    "dget ''base_sha'' kvs = JStr (tb_base_sha b)" "fullmatch rx_sha40 (tb_base_sha b)"
    "text_match rx_authorization_id (dget ''authorization_id'' kvs) n = Inr (tb_authorization_id b)"
    "sha256_field ''task_scope_sha256'' kvs = Inr (tb_task_scope_sha256 b)"
    "sha256_field ''execution_id'' kvs = Inr (tb_execution_id b)" "sha256_field ''handoff_sha256'' kvs = Inr (tb_handoff_sha256 b)"
    "sha256_field ''plaintext_sha256'' kvs = Inr (tb_plaintext_sha256 b)"
    "sha256_field ''recipient_key_id'' kvs = Inr (tb_recipient_key_id b)"
    "\<not> (tb_payload_kind b = ''handoff'' \<and> tb_handoff_sha256 b \<noteq> tb_plaintext_sha256 b)" for n
    by (simp_all only: text_match_Inr positive_int_Inr sha256_field_def) simp_all
  show ?l
    unfolding mk_binding_def by (simp only: r if_False rbind_simps not_True_eq_False json.case if_True Let_def) simp
qed

lemma binding_reads:
  assumes "mk_binding kvs = Inr b"
  obtains aad where "json_sorted (binding_dict b) = JObj aad" and "mk_binding aad = Inr b"
proof -
  note fields = assms [unfolded mk_binding_Inr]
  obtain kind where kind: "kind \<in> set PAYLOAD_KINDS" "tb_payload_kind b = kind"
    using fields known_kind_Inr [of kvs] by (auto simp: str_of_def)
  define ds where "ds =
     [(''payload_kind'', JStr (tb_payload_kind b)), (''repository_id'', JInt (tb_repository_id b)),
      (''issue_number'', JInt (tb_issue_number b)), (''authorization_id'', JStr (tb_authorization_id b)),
      (''base_sha'', JStr (tb_base_sha b)), (''task_scope_sha256'', JStr (tb_task_scope_sha256 b)),
      (''execution_id'', JStr (tb_execution_id b)), (''handoff_sha256'', JStr (tb_handoff_sha256 b)),
      (''plaintext_sha256'', JStr (tb_plaintext_sha256 b)), (''recipient_key_id'', JStr (tb_recipient_key_id b)),
      (''schema_version'', JStr TRANSPORT_SCHEMA_VERSION)]"
  have ds: "binding_dict b = JObj ds" by (simp add: binding_dict_def ds_def)
  have "\<not> unexpected_arguments ds" by (simp add: ds_def unexpected_arguments_def binding_fields_def)
  moreover have "known_kind ds = Inr True" using kind by (simp add: ds_def known_kind_def is_member_def)
  ultimately have "mk_binding ds = Inr b"
    unfolding mk_binding_Inr using fields by (simp add: ds_def str_of_def)
  moreover have "mk_binding (sort_key fst ds) = mk_binding ds" by (rule mk_binding_cong) (rule map_of_sort_key)
  moreover have "json_sorted (binding_dict b) = JObj (sort_key fst ds)"
  proof -
    have "map (\<lambda>kv. (fst kv, json_sorted (snd kv))) ds = ds" by (simp add: ds_def)
    then show ?thesis by (simp add: ds)
  qed
  ultimately show thesis using that by simp
qed

lemma hex_length: "fullmatch rx_sha64 s \<Longrightarrow> length s = 64" "fullmatch rx_sha40 s \<Longrightarrow> length s = 40"
  "fullmatch rx_authorization_id s \<Longrightarrow> length s = 97"
  by (auto simp: rx_sha64_def rx_sha40_def rx_authorization_id_def AUTHORIZATION_PREFIX_def fullmatch_iff)

lemma length_int_text: "0 \<le> i \<Longrightarrow> i < 10 ^ 18 \<Longrightarrow> length (int_text i) \<le> 18"
  using length_nat_text [of "nat i" 18] by (simp add: int_text_def nat_less_iff)

lemma binding_weight:
  assumes "mk_binding kvs = Inr b" and "tb_repository_id b < 10 ^ 18" and "tb_issue_number b < 10 ^ 18"
  shows "text_weight (binding_dict b) \<le> 6000"
proof -
  note fields = assms(1) [unfolded mk_binding_Inr]
  have "length (tb_payload_kind b) \<le> 7"
  proof -
    obtain kind where "kind \<in> set PAYLOAD_KINDS" "tb_payload_kind b = kind"
      using fields known_kind_Inr [of kvs] by (auto simp: str_of_def)
    then show ?thesis by (auto simp: PAYLOAD_KINDS_def)
  qed
  moreover have "length (int_text (tb_repository_id b)) \<le> 18" "length (int_text (tb_issue_number b)) \<le> 18"
    using fields assms(2,3) by (simp_all add: length_int_text)
  moreover have "length (tb_task_scope_sha256 b) = 64" "length (tb_execution_id b) = 64" "length (tb_handoff_sha256 b) = 64"
    "length (tb_plaintext_sha256 b) = 64" "length (tb_recipient_key_id b) = 64" "length (tb_base_sha b) = 40"
    "length (tb_authorization_id b) = 97"
    using fields by (simp_all add: hex_length)
  ultimately show ?thesis by (simp add: binding_dict_def TRANSPORT_SCHEMA_VERSION_def)
qed

definition envelope_fields :: "transport_binding \<Rightarrow> 8 word list \<Rightarrow> 8 word list \<Rightarrow> 8 word list \<Rightarrow> mapping" where
  "envelope_fields b epk nonce ciphertext =
     [(''aad'', binding_dict b), (''epk'', JStr (bytes_hex epk)), (''nonce'', JStr (bytes_hex nonce)),
      (''ciphertext'', JStr (b64encode ciphertext))]"

lemma envelope_size:
  assumes "text_weight (binding_dict b) \<le> 6000" and "length epk = 32" and "length nonce = 12"
    and "length ciphertext \<le> MAX_PLAINTEXT_BYTES + 16"
  shows "length (canonical_json (JObj (envelope_fields b epk nonce ciphertext))) \<le> MAX_PLAINTEXT_BYTES * 2"
proof -
  have q: "length (utf8 (quote False (b64encode ciphertext))) = 4 * ((length ciphertext + 2) div 3) + 2"
    by (simp add: length_plain plain_b64 length_b64)
  have "4 * ((length ciphertext + 2) div 3) \<le> 4 * ((MAX_PLAINTEXT_BYTES + 16 + 2) div 3)"
    using assms(4) by (intro mult_left_mono div_le_mono) simp_all
  also have "\<dots> \<le> 12000000" by (simp add: MAX_PLAINTEXT_BYTES_def)
  finally have c: "length (utf8 (dumps False (JStr (b64encode ciphertext)))) \<le> 12000002" by (simp add: q)
  have d: "length (utf8 (dumps False (binding_dict b))) \<le> 6000" using length_dumps assms(1) by (rule order_trans)
  have e: "length (utf8 (dumps False (JStr (bytes_hex epk)))) \<le> 400" "length (utf8 (dumps False (JStr (bytes_hex nonce)))) \<le> 200"
    using length_quote [of False "bytes_hex epk"] length_quote [of False "bytes_hex nonce"] assms(2,3) by simp_all
  have k: "length (utf8 (quote False ''aad'')) \<le> 20" "length (utf8 (quote False ''epk'')) \<le> 20"
    "length (utf8 (quote False ''nonce'')) \<le> 50" "length (utf8 (quote False ''ciphertext'')) \<le> 70"
    using length_quote [of False "''aad''"] length_quote [of False "''epk''"] length_quote [of False "''nonce''"]
      length_quote [of False "''ciphertext''"] by simp_all
  have "length (utf8 (dumps False (JObj (envelope_fields b epk nonce ciphertext)))) \<le> 13000000"
    using length_object [of False "envelope_fields b epk nonce ciphertext"] c d e k
    unfolding envelope_fields_def list.map sum_list.Cons sum_list.Nil fst_conv snd_conv by linarith
  then show ?thesis by (simp add: canonical_json_def MAX_PLAINTEXT_BYTES_def)
qed

lemma hex_digits: "list_all is_hex (bytes_hex bs)"
  by (auto simp: bytes_hex_def list_all_iff less_mult_imp_div_less byte_less intro!: is_hex_hex_digit)

lemma hex_matches: "length bs = 32 \<Longrightarrow> fullmatch rx_sha64 (bytes_hex bs)" "length bs = 12 \<Longrightarrow> fullmatch (exactly is_hex 24) (bytes_hex bs)"
  using hex_digits [of bs] by (simp_all add: rx_sha64_def fullmatch_iff)

lemma seal_parsed:
  assumes "crypto_laws c" and "json_reader loads" and "mk_binding kvs = Inr b"
    and "tb_repository_id b < 10 ^ 18" and "tb_issue_number b < 10 ^ 18" and "length nonce = 12"
    and "seal c ephemeral nonce plaintext (cr_public c secret) b = Inr envelope"
  obtains document where "length envelope \<le> MAX_PLAINTEXT_BYTES * 2" and "header loads envelope = Inr b"
    and "parse_envelope loads envelope = Inr document" and "decrypted c secret b document = Some plaintext"
    and "tb_plaintext_sha256 b = sha256_hex plaintext"
proof -
  let ?epk = "cr_raw c (cr_public c ephemeral)"
  obtain shared where shared: "cr_exchange c ephemeral (cr_public c secret) = Some shared"
    and size: "length plaintext \<le> MAX_PLAINTEXT_BYTES" and digest: "tb_plaintext_sha256 b = sha256_hex plaintext"
    using assms(7) by (auto simp: seal_def Let_def split: if_splits option.splits)
  define key where "key = transport_key c shared ?epk (tb_payload_kind b)"
  define ciphertext where "ciphertext = cr_encrypt c key nonce plaintext (canonical_json (binding_dict b))"
  have envelope: "envelope = canonical_json (JObj (envelope_fields b ?epk nonce ciphertext))"
    using assms(7) shared by (simp add: seal_def Let_def key_def ciphertext_def envelope_fields_def split: if_splits)
  have laws: "length ?epk = 32" "cr_from_raw c ?epk = cr_public c ephemeral" "cr_exchange c secret (cr_public c ephemeral) = Some shared"
    "cr_decrypt c key nonce ciphertext (canonical_json (binding_dict b)) = Some plaintext" "length ciphertext = length plaintext + 16"
    using assms(1) shared by (simp_all add: crypto_laws_def ciphertext_def)
  have bound: "length envelope \<le> MAX_PLAINTEXT_BYTES * 2"
    unfolding envelope by (rule envelope_size [OF binding_weight [OF assms(3-5)] laws(1) assms(6)]) (use laws(5) size in simp)
  obtain aad where aad: "json_sorted (binding_dict b) = JObj aad" "mk_binding aad = Inr b" by (rule binding_reads [OF assms(3)])
  have "json_wf (JObj (envelope_fields b ?epk nonce ciphertext))" "float_free (JObj (envelope_fields b ?epk nonce ciphertext))"
    by (simp_all add: envelope_fields_def binding_dict_def)
  then have "loads envelope = Parsed (json_sorted (JObj (envelope_fields b ?epk nonce ciphertext)))"
    unfolding envelope by (rule json_reader.reads [OF assms(2)])
  also have "json_sorted (JObj (envelope_fields b ?epk nonce ciphertext)) = JObj [(''aad'', JObj aad), (''ciphertext'', JStr (b64encode ciphertext)),
      (''epk'', JStr (bytes_hex ?epk)), (''nonce'', JStr (bytes_hex nonce))]" (is "_ = JObj ?document")
    by (simp add: envelope_fields_def aad(1) less_char_def less_eq_char_def)
  finally have parsed: "parse_envelope loads envelope = Inr ?document"
    using bound hex_matches(1) [OF laws(1)] hex_matches(2) [OF assms(6)]
    by (auto simp: parse_envelope_def as_object_def is_object_def)
  then have "header loads envelope = Inr b" by (simp add: header_def aad(2))
  moreover have "canonical_json (JObj aad) = canonical_json (binding_dict b)"
    using aad(1) by (metis canonical_sorted)
  ultimately have "decrypted c secret b ?document = Some plaintext" "header loads envelope = Inr b"
    using parsed laws by (simp_all add: decrypted_def key_def [symmetric])
  with bound parsed digest show thesis by - (rule that)
qed

text \<open>C26. The recipient opens what was sealed: an envelope sealed to a key under a constructed binding never exceeds the receiver's bound, and
  with the private key and the same binding it opens to the payload that was sealed.\<close>

theorem sealed_opens:
  assumes "crypto_laws c" and "json_reader loads" and "mk_binding kvs = Inr b"
    and "tb_repository_id b < 10 ^ 18" and "tb_issue_number b < 10 ^ 18" and "length nonce = 12"
    and "seal c ephemeral nonce plaintext (cr_public c secret) b = Inr envelope"
  shows "length envelope \<le> MAX_PLAINTEXT_BYTES * 2 \<and> open_sealed c loads envelope secret b = Inr plaintext"
proof -
  obtain document where "length envelope \<le> MAX_PLAINTEXT_BYTES * 2" "header loads envelope = Inr b"
    "parse_envelope loads envelope = Inr document" "decrypted c secret b document = Some plaintext" "tb_plaintext_sha256 b = sha256_hex plaintext"
    by (rule seal_parsed [OF assms])
  then show ?thesis by (simp add: open_sealed_def)
qed

text \<open>C27. Nothing is opened but what the ledger expects: an opened payload has the digest of the expected binding, the envelope declared exactly
  that binding, and two envelopes opened under one binding carry one payload or exhibit a SHA-256 collision.\<close>

theorem opened_is_expected:
  assumes "open_sealed c loads envelope secret expected = Inr plaintext"
    and "open_sealed d loads' other key expected = Inr plaintext'"
  shows "header loads envelope = Inr expected \<and> sha256_hex plaintext = tb_plaintext_sha256 expected \<and>
    (plaintext' = plaintext \<or> plaintext' \<noteq> plaintext \<and> sha256_hex plaintext' = sha256_hex plaintext)"
proof -
  have "header loads envelope = Inr expected \<and> sha256_hex plaintext = tb_plaintext_sha256 expected"
    if "open_sealed c loads envelope secret expected = Inr plaintext"
    for c :: "('p, 's) crypto" and loads envelope secret plaintext
    using that by (auto simp: open_sealed_def rbind_Inr_iff split: if_splits option.splits)
  from this [OF assms(1)] show ?thesis
    using assms(2) by (auto simp: open_sealed_def rbind_Inr_iff split: if_splits option.splits)
qed

definition refusals_only :: "'a result \<Rightarrow> bool" where
  "refusals_only m \<longleftrightarrow> (\<forall>e. m = Inl e \<longrightarrow> (\<exists>why. e = TransportIntegrityError why \<or> e = TypeError why))"

lemma refusals_only_simps [simp]: "refusals_only (Inr x)" "refusals_only (refused why)" "refusals_only (Inl (TypeError why))"
  by (simp_all add: refusals_only_def)

lemma refusals_only_bind: "refusals_only m \<Longrightarrow> (\<And>x. m = Inr x \<Longrightarrow> refusals_only (f x)) \<Longrightarrow> refusals_only (rbind m f)"
  by (cases m) (simp_all add: refusals_only_def)

lemma refusals_only_if: "(c \<Longrightarrow> refusals_only m) \<Longrightarrow> (\<not> c \<Longrightarrow> refusals_only n) \<Longrightarrow> refusals_only (if c then m else n)"
  by simp

lemma refusals_only_parts:
  "refusals_only (is_member v xs)" "refusals_only (known_kind kvs)" "refusals_only (positive_int n v)" "refusals_only (text_match r v why)"
  "refusals_only (sha256_field n kvs)"
  by (auto simp: refusals_only_def is_member_def known_kind_def positive_int_def text_match_def sha256_field_def conj_result_def
      split: json.splits option.splits if_splits)

lemma refusals_only_binding: "refusals_only (mk_binding kvs)"
  unfolding mk_binding_def Let_def
  by (intro refusals_only_bind refusals_only_if refusals_only_parts refusals_only_simps) (simp split: json.split)

text \<open>C28. Failures of the transport are integrity failures: opening an envelope of any bytes raises nothing but \<open>TransportIntegrityError\<close>,
  except for an exception of the JSON reader that is no decoding error.\<close>

theorem transport_refusals:
  assumes "open_sealed c loads envelope secret expected = Inl e"
  shows "(\<exists>why. e = TransportIntegrityError why) \<or> length envelope \<le> MAX_PLAINTEXT_BYTES * 2 \<and> loads envelope = Unreadable e"
proof -
  have parse: "(\<exists>why. x = TransportIntegrityError why) \<or> length envelope \<le> MAX_PLAINTEXT_BYTES * 2 \<and> loads envelope = Unreadable x"
    if "parse_envelope loads envelope = Inl x" for x
    using that by (auto simp: parse_envelope_def split: if_splits parsed.splits option.splits)
  have "(\<exists>why. x = TransportIntegrityError why) \<or> parse_envelope loads envelope = Inl x" if "header loads envelope = Inl x" for x
  proof (cases "parse_envelope loads envelope")
    case (Inr kvs)
    let ?made = "mk_binding (case dget ''aad'' kvs of JObj aad \<Rightarrow> aad | _ \<Rightarrow> [])"
    have "refusals_only ?made" by (rule refusals_only_binding)
    then show ?thesis using that by (cases ?made) (auto simp: header_def Inr refusals_only_def)
  qed (use that in \<open>simp add: header_def\<close>)
  with parse show ?thesis
    using assms by (auto simp: open_sealed_def rbind_Inl_iff split: if_splits option.splits)
qed

section \<open>A sample channel\<close>

text \<open>One key, no secrecy, a tag of zeros: enough to exercise every check.\<close>

definition sample_crypto :: "(unit, unit) crypto" where
  "sample_crypto =
     \<lparr>cr_raw = \<lambda>p. replicate 32 0, cr_from_raw = \<lambda>bs. (), cr_public = \<lambda>s. (), cr_exchange = \<lambda>s p. Some [],
      cr_hkdf = \<lambda>salt info shared. [], cr_encrypt = \<lambda>k n p a. p @ replicate 16 0,
      cr_decrypt = \<lambda>k n c a. Some (take (length c - 16) c)\<rparr>"

definition sample_binding :: transport_binding where
  "sample_binding =
     \<lparr>tb_payload_kind = ''result'', tb_repository_id = 3, tb_issue_number = 7, tb_authorization_id = sample_id, tb_base_sha = hex40,
      tb_task_scope_sha256 = hex64, tb_execution_id = hex64, tb_handoff_sha256 = hex64, tb_plaintext_sha256 = sha256_hex [1, 2],
      tb_recipient_key_id = sha256_hex (replicate 32 0)\<rparr>"

lemma sample_crypto_laws: "crypto_laws sample_crypto"
  by (simp add: crypto_laws_def sample_crypto_def)

lemma sample_binding_made: "\<exists>kvs. mk_binding kvs = Inr sample_binding"
proof -
  obtain kvs where kvs: "binding_dict sample_binding = JObj kvs" by (simp add: binding_dict_def)
  then have "mk_binding kvs = Inr sample_binding"
    unfolding mk_binding_Inr
    by (auto simp: binding_dict_def sample_binding_def unexpected_arguments_def binding_fields_def known_kind_def is_member_def
        PAYLOAD_KINDS_def str_of_def)
  then show ?thesis ..
qed

lemma sample_sealed: "\<exists>envelope. seal sample_crypto () (replicate 12 0) [1, 2] (cr_public sample_crypto ()) sample_binding = Inr envelope"
  by (simp add: seal_def Let_def MAX_PLAINTEXT_BYTES_def recipient_key_id_def) (simp add: sample_crypto_def sample_binding_def)

lemma sealed_opens_witness:
  "\<exists>envelope. seal sample_crypto () (replicate 12 0) [1, 2] (cr_public sample_crypto ()) sample_binding = Inr envelope \<and>
     open_sealed sample_crypto compact_loads envelope () sample_binding = Inr [1, 2]"
proof -
  obtain envelope where e: "seal sample_crypto () (replicate 12 0) [1, 2] (cr_public sample_crypto ()) sample_binding = Inr envelope"
    using sample_sealed ..
  obtain kvs where "mk_binding kvs = Inr sample_binding" using sample_binding_made ..
  from sealed_opens [OF sample_crypto_laws compact.json_reader_axioms this _ _ _ e] e show ?thesis
    by (auto simp: sample_binding_def)
qed

lemma sample_opened: "\<exists>envelope. open_sealed sample_crypto compact_loads envelope () sample_binding = Inr [1, 2]"
proof -
  obtain envelope where e: "seal sample_crypto () (replicate 12 0) [1, 2] (cr_public sample_crypto ()) sample_binding = Inr envelope"
    using sample_sealed ..
  obtain kvs where kvs: "mk_binding kvs = Inr sample_binding" using sample_binding_made ..
  have ids: "tb_repository_id sample_binding < 10 ^ 18" "tb_issue_number sample_binding < 10 ^ 18" by (simp_all add: sample_binding_def)
  obtain document where "header compact_loads envelope = Inr sample_binding" "parse_envelope compact_loads envelope = Inr document"
    "decrypted sample_crypto () sample_binding document = Some [1, 2]" "tb_plaintext_sha256 sample_binding = sha256_hex [1, 2]"
    by (rule seal_parsed [OF sample_crypto_laws compact.json_reader_axioms kvs ids _ e]) simp_all
  then have "open_sealed sample_crypto compact_loads envelope () sample_binding = Inr [1, 2]" by (simp add: open_sealed_def)
  then show ?thesis ..
qed

lemma opened_is_expected_witness: "\<exists>envelope. header compact_loads envelope = Inr sample_binding"
proof -
  obtain envelope where e: "open_sealed sample_crypto compact_loads envelope () sample_binding = Inr [1, 2]" using sample_opened ..
  from opened_is_expected [OF e e] show ?thesis by blast
qed

lemma transport_refusals_witness:
  "\<exists>why. open_sealed sample_crypto compact_loads [] () sample_binding = Inl (TransportIntegrityError why)"
proof -
  have not: "compact_loads [] = NotJson" by (simp add: compact_loads_def)
  then obtain e where e: "open_sealed sample_crypto compact_loads [] () sample_binding = Inl e"
    by (simp add: open_sealed_def header_def parse_envelope_def)
  from transport_refusals [OF e] not e show ?thesis by auto
qed

end
