(* ===== verification/ControlHttp.thy ===== *)
theory ControlHttp
  imports Transport
begin

text \<open>
  Reads of the hosting service (\<open>GitHubRest\<close> of \<open>automation/issue_agent_control.py\<close>): what an HTTP exchange gives, which failures
  are worth another attempt and after which delay, and the bounded loop around one read. The exchanges of a read are a function of the
  attempt, as is the time of the clock. Delays are exact: a difference that decides is a difference of nearby floats, which
  the floating-point subtraction gives exactly.
\<close>

section \<open>Reads\<close>

datatype 'a read = Answer 'a | Absent | Indefinite "string option"

definition GET_MAX_ATTEMPTS :: nat where
  "GET_MAX_ATTEMPTS = 3"

definition GET_MAX_WAIT_SECONDS :: rat where
  "GET_MAX_WAIT_SECONDS = 30"

definition MAX_ARTIFACT_BYTES :: nat where
  "MAX_ARTIFACT_BYTES = MAX_PLAINTEXT_BYTES * 2 + 64 * 1024"

type_synonym headers = "(string \<times> string) list"

section \<open>Headers\<close>

text \<open>\<open>str.lower\<close> for code points below 256\<close>

definition lower_char :: "char \<Rightarrow> char" where
  "lower_char c = (let n = of_char c :: nat in
     if (65 \<le> n \<and> n \<le> 90) \<or> (192 \<le> n \<and> n \<le> 222 \<and> n \<noteq> 215) then char_of (n + 32) else c)"

definition RATE_HEADERS :: "string list" where
  "RATE_HEADERS = [''retry-after'', ''x-ratelimit-remaining'', ''x-ratelimit-limit'', ''x-ratelimit-reset'']"

definition rx_numeric :: rx where
  "rx_numeric = between is_digit_char 1 12"

definition rate_headers :: "headers \<Rightarrow> headers" where
  "rate_headers raw =
     (let lowered = dict_of (map (\<lambda>(name, value). (map lower_char name, value)) raw)
      in List.map_filter (\<lambda>name. case map_of lowered name of
           Some v \<Rightarrow> if fullmatch rx_numeric (strip v) then Some (name, strip v) else None
         | None \<Rightarrow> None) RATE_HEADERS)"

section \<open>Exchanges\<close>

text \<open>What \<open>urllib\<close> gives: a response, an \<open>HTTPError\<close> with its location and headers, or no connection.\<close>

datatype http =
    Response int "8 word list"
  | HttpError int "string option" headers
  | NoConnection

definition exchange :: "http \<Rightarrow> int \<times> 8 word list \<times> headers" where
  "exchange h =
     (case h of
        Response status body \<Rightarrow> (status, take (MAX_ARTIFACT_BYTES + 1) body, [])
      | HttpError code location raw \<Rightarrow>
          (case location of
             Some l \<Rightarrow> if code \<in> {301, 302, 303, 307, 308} \<and> l \<noteq> [] then (code, utf8 l, []) else (code, [], rate_headers raw)
           | None \<Rightarrow> (code, [], rate_headers raw))
      | NoConnection \<Rightarrow> (0, [], []))"

definition failure_category :: "int \<Rightarrow> headers \<Rightarrow> string" where
  "failure_category status headers =
     (if status = 0 then ''transport_failure''
      else if status = 429 \<or> (status = 403 \<and>
        (map_of headers ''retry-after'' \<noteq> None \<or> map_of headers ''x-ratelimit-remaining'' = Some ''0'')) then ''rate_limited''
      else if status = 401 \<or> status = 403 then ''authentication_or_permission''
      else if status \<ge> 500 then ''server_error''
      else ''unexpected_status'')"

definition retry_delay :: "rat \<Rightarrow> string \<Rightarrow> headers \<Rightarrow> nat \<Rightarrow> rat option" where
  "retry_delay now category headers attempts =
     (let backoff = min (2 ^ (attempts - 1)) GET_MAX_WAIT_SECONDS;
          capped = (\<lambda>wait. if wait \<le> GET_MAX_WAIT_SECONDS then Some (max wait backoff) else None)
      in if category = ''transport_failure'' \<or> category = ''server_error'' then Some backoff
         else if category = ''rate_limited'' then
           (case map_of headers ''retry-after'' of
              Some s \<Rightarrow> capped (of_nat (decimal_digits s))
            | None \<Rightarrow>
                (case map_of headers ''x-ratelimit-reset'' of
                   Some s \<Rightarrow> capped (of_nat (decimal_digits s) - now)
                 | None \<Rightarrow> None))
         else None)"

definition diagnostic :: "string \<Rightarrow> string \<Rightarrow> int \<Rightarrow> headers \<Rightarrow> nat \<Rightarrow> string" where
  "diagnostic path category status headers attempts =
     join '' ''
       ([''operation=github_get'', ''endpoint='' @ takeWhile (\<lambda>c. c \<noteq> CHR ''?'') path, ''category='' @ category,
         ''http='' @ (if status \<noteq> 0 then int_text status else ''none''),
         ''retryable='' @ (if category \<in> {''transport_failure'', ''server_error'', ''rate_limited''} then ''true'' else ''false''),
         ''attempts='' @ nat_text attempts] @
        List.map_filter (\<lambda>name. map_option (\<lambda>v. (if take 2 name = ''x-'' then drop 2 name else name) @ ''='' @ v) (map_of headers name))
          [''x-ratelimit-limit'', ''x-ratelimit-remaining'', ''x-ratelimit-reset'', ''retry-after''])"

section \<open>One read\<close>

text \<open>
  What one attempt gives: a definite answer, or the category of the failure. Another exception of the JSON reader than
  \<open>ValueError\<close> ends the read.
\<close>

definition attempt_outcome :: "(8 word list \<Rightarrow> parsed) \<Rightarrow> int \<times> 8 word list \<times> headers \<Rightarrow> (json read + string) result" where
  "attempt_outcome loads r =
     (case r of (status, body, headers) \<Rightarrow>
        if status = 404 then Inr (Inl Absent)
        else if status = 200 then
          (if length body > MAX_ARTIFACT_BYTES then Inr (Inr ''oversize_response'')
           else case loads body of
                  Parsed v \<Rightarrow> Inr (Inl (Answer v))
                | NotJson \<Rightarrow> Inr (Inr ''malformed_response'')
                | Unreadable (ValueError why) \<Rightarrow> Inr (Inr ''malformed_response'')
                | Unreadable e \<Rightarrow> Inl e)
        else Inr (Inr (failure_category status headers)))"

text \<open>The loop: the attempts made so far, and the delays slept, the last one first.\<close>

function get_loop ::
  "(8 word list \<Rightarrow> parsed) \<Rightarrow> (nat \<Rightarrow> http) \<Rightarrow> (nat \<Rightarrow> rat) \<Rightarrow> string \<Rightarrow> nat \<Rightarrow> rat list \<Rightarrow> (json read \<times> rat list) result" where
  "get_loop loads web clock path attempts delays =
     (case exchange (web (Suc attempts)) of (status, body, headers) \<Rightarrow>
        (case attempt_outcome loads (status, body, headers) of
          Inl e \<Rightarrow> Inl e
        | Inr (Inl r) \<Rightarrow> Inr (r, delays)
        | Inr (Inr category) \<Rightarrow>
            (case retry_delay (clock (Suc attempts)) category headers (Suc attempts) of
               None \<Rightarrow> Inr (Indefinite (Some (diagnostic path category status headers (Suc attempts))), delays)
             | Some delay \<Rightarrow>
                 if Suc attempts \<ge> GET_MAX_ATTEMPTS
                 then Inr (Indefinite (Some (diagnostic path category status headers (Suc attempts))), delays)
                 else get_loop loads web clock path (Suc attempts) (delay # delays))))"
  by pat_completeness auto

termination by (relation "measure (\<lambda>(loads, web, clock, path, attempts, delays). GET_MAX_ATTEMPTS - attempts)") auto

declare get_loop.simps [simp del]

definition github_get ::
  "(8 word list \<Rightarrow> parsed) \<Rightarrow> (nat \<Rightarrow> http) \<Rightarrow> (nat \<Rightarrow> rat) \<Rightarrow> string \<Rightarrow> (json read \<times> rat list) result" where
  "github_get loads web clock path =
     (if take 7 path \<noteq> ''/repos/'' then Inl (ValueError ''only repository-scoped reads are allowed'')
      else get_loop loads web clock path 0 [])"

section \<open>Writes\<close>

text \<open>What the answer to a dispatch, a reply and a GraphQL request means.\<close>

definition dispatched :: "int \<times> 8 word list \<times> headers \<Rightarrow> bool" where
  "dispatched r = (fst r = 204)"

definition parsed_read :: "parsed \<Rightarrow> (json \<Rightarrow> json read result) \<Rightarrow> json read result" where
  "parsed_read p k =
     (case p of
        Parsed v \<Rightarrow> k v
      | NotJson \<Rightarrow> Inr (Indefinite None)
      | Unreadable (ValueError why) \<Rightarrow> Inr (Indefinite None)
      | Unreadable e \<Rightarrow> Inl e)"

definition reply_read :: "(8 word list \<Rightarrow> parsed) \<Rightarrow> int \<times> 8 word list \<times> headers \<Rightarrow> json read result" where
  "reply_read loads r =
     (case r of (status, payload, headers) \<Rightarrow>
        if status \<in> {404, 410, 422} then Inr Absent
        else if status \<notin> {200, 201} \<or> length payload > MAX_ARTIFACT_BYTES then Inr (Indefinite None)
        else parsed_read (loads payload) (\<lambda>v. Inr (Answer v)))"

definition graphql_read :: "(8 word list \<Rightarrow> parsed) \<Rightarrow> int \<times> 8 word list \<times> headers \<Rightarrow> json read result" where
  "graphql_read loads r =
     (case r of (status, payload, headers) \<Rightarrow>
        if status \<noteq> 200 \<or> length payload > MAX_ARTIFACT_BYTES then Inr (Indefinite None)
        else parsed_read (loads payload) (\<lambda>envelope.
          rbind (pyget ''errors'' envelope) (\<lambda>errors.
            if falsy errors then rbind (pyget ''data'' envelope) (\<lambda>v. Inr (Answer v)) else Inr (Indefinite None))))"

section \<open>The loop is bounded\<close>

lemma retry_delay_bounds:
  assumes "retry_delay now category headers attempts = Some delay" and "0 < attempts"
  shows "1 \<le> delay \<and> delay \<le> GET_MAX_WAIT_SECONDS"
proof -
  define b where "b = min (2 ^ (attempts - 1)) GET_MAX_WAIT_SECONDS"
  have "(1 :: rat) \<le> 2 ^ (attempts - 1)" by simp
  then have b: "1 \<le> b" "b \<le> GET_MAX_WAIT_SECONDS" by (simp_all add: b_def GET_MAX_WAIT_SECONDS_def)
  have "delay = b \<or> (\<exists>wait \<le> GET_MAX_WAIT_SECONDS. delay = max wait b)"
    using assms(1) unfolding retry_delay_def b_def [symmetric] by (auto simp: Let_def split: if_splits option.splits)
  with b show ?thesis by auto
qed

lemma get_loop_bounds:
  assumes "get_loop loads web clock path attempts delays = Inr (r, slept)" and "attempts < GET_MAX_ATTEMPTS"
  shows "\<exists>more. slept = more @ delays \<and> attempts + length more < GET_MAX_ATTEMPTS \<and>
    (\<forall>d \<in> set more. 1 \<le> d \<and> d \<le> GET_MAX_WAIT_SECONDS) \<and>
    (case attempt_outcome loads (exchange (web (Suc (attempts + length more)))) of
       Inl e \<Rightarrow> False
     | Inr (Inl answer) \<Rightarrow> r = answer
     | Inr (Inr category) \<Rightarrow> \<exists>why. r = Indefinite (Some why))"
  using assms
proof (induction loads web clock path attempts delays rule: get_loop.induct)
  case (1 loads web clock path attempts delays)
  obtain status body headers where x: "exchange (web (Suc attempts)) = (status, body, headers)" by (cases "exchange (web (Suc attempts))")
  note step = "1.prems"(1) [unfolded get_loop.simps [of loads web clock path attempts delays], simplified x prod.case]
  show ?case
  proof (cases "attempt_outcome loads (status, body, headers)")
    case (Inl e)
    then show ?thesis using step by simp
  next
    case outcome: (Inr o1)
    show ?thesis
    proof (cases o1)
      case (Inl a)
      then show ?thesis using step outcome x "1.prems"(2) by (intro exI [of _ "[]"]) simp
    next
      case category: (Inr category)
      show ?thesis
      proof (cases "retry_delay (clock (Suc attempts)) category headers (Suc attempts)")
        case None
        then show ?thesis using step outcome category x "1.prems"(2) by (intro exI [of _ "[]"]) auto
      next
        case (Some delay)
        show ?thesis
        proof (cases "Suc attempts \<ge> GET_MAX_ATTEMPTS")
          case True
          then show ?thesis using step outcome category Some x "1.prems"(2) by (intro exI [of _ "[]"]) auto
        next
          case False
          then have rest: "get_loop loads web clock path (Suc attempts) (delay # delays) = Inr (r, slept)"
            using step outcome category Some by simp
          from "1.IH" [OF x [symmetric] refl outcome category Some False rest] False
          obtain more where more: "slept = more @ delay # delays" "Suc attempts + length more < GET_MAX_ATTEMPTS"
            "\<forall>d \<in> set more. 1 \<le> d \<and> d \<le> GET_MAX_WAIT_SECONDS"
            "case attempt_outcome loads (exchange (web (Suc (Suc attempts + length more)))) of
               Inl e \<Rightarrow> False | Inr (Inl answer) \<Rightarrow> r = answer | Inr (Inr category) \<Rightarrow> \<exists>why. r = Indefinite (Some why)"
            by auto
          show ?thesis
            using more retry_delay_bounds [OF Some] by (intro exI [of _ "more @ [delay]"]) simp
        qed
      qed
    qed
  qed
qed

text \<open>C25. A read of the service is bounded: it makes at most three exchanges, sleeps between one and thirty seconds before each further one,
  and its answer is exactly what the last exchange says; retries never turn a failure into an answer.\<close>

theorem github_get_bounded:
  assumes "github_get loads web clock path = Inr (r, slept)"
  shows "length slept < GET_MAX_ATTEMPTS \<and> (\<forall>d \<in> set slept. 1 \<le> d \<and> d \<le> GET_MAX_WAIT_SECONDS) \<and>
    (case attempt_outcome loads (exchange (web (Suc (length slept)))) of
       Inl e \<Rightarrow> False
     | Inr (Inl answer) \<Rightarrow> r = answer
     | Inr (Inr category) \<Rightarrow> \<exists>why. r = Indefinite (Some why))"
proof -
  have "get_loop loads web clock path 0 [] = Inr (r, slept)"
    using assms by (simp add: github_get_def split: if_splits)
  from get_loop_bounds [OF this] show ?thesis by (auto simp: GET_MAX_ATTEMPTS_def)
qed

lemma github_get_bounded_witness:
  "\<exists>r slept. github_get (\<lambda>bs. Parsed JNull) (\<lambda>k. if k < 3 then NoConnection else Response 200 []) (\<lambda>k. 0) ''/repos/a/b'' = Inr (r, slept) \<and>
     r = Answer JNull \<and> slept = [2, 1]"
proof -
  have "github_get (\<lambda>bs. Parsed JNull) (\<lambda>k. if k < 3 then NoConnection else Response 200 []) (\<lambda>k. 0) ''/repos/a/b'' = Inr (Answer JNull, [2, 1])"
    by (simp add: github_get_def get_loop.simps exchange_def attempt_outcome_def failure_category_def retry_delay_def GET_MAX_ATTEMPTS_def
        GET_MAX_WAIT_SECONDS_def Let_def)
  with github_get_bounded [OF this] show ?thesis by blast
qed

end
