(* ===== verification/ControlWorld.thy ===== *)
theory ControlWorld
  imports ControlHttp LedgerStore
begin

text \<open>
  What a control job of \<open>automation/issue_agent_control.py\<close> runs in: the answers of the hosting service, the clock, random nonces and
  the shared ledger, which other jobs change at any time. The outside is an environment that gives its answer for every moment;
  a job is a function of the state it acts on (the moment, the chain of the issue, the dispatches sent), and stops at the first
  exception. On this stand the configuration, the provenance of a record and the anchor of the ledger.
\<close>

section \<open>Configuration\<close>

record writer_identity =
  wi_login :: string
  wi_name :: string
  wi_email :: string

record anchor_pin =
  ap_ruleset_id :: int
  ap_updated_at :: string

record source_handling_root =
  sh_verification_key :: string
  sh_verification_key_sha256 :: string
  sh_genesis_rule_sha256 :: string

text \<open>\<open>'k\<close> are the keys that verify records, \<open>'p\<close> the keys that payloads are sealed to.\<close>

record ('k, 'p) configuration =
  cf_repository :: string
  cf_repository_id :: int
  cf_owner_login :: string
  cf_state_keys :: "string \<rightharpoonup> 'k"
  cf_anchor :: anchor_pin
  cf_handoff_recipient :: 'p
  cf_result_recipient :: 'p
  cf_writer :: writer_identity
  cf_authorization_verifying_key :: string
  cf_prompt_verifying_key :: string
  cf_source_handling :: source_handling_root
  cf_fallback_handoff_recipient :: "'p option"

definition cf_trust :: "('k, 'p) configuration \<Rightarrow> 'k trust_roots" where
  "cf_trust c = \<lparr>tr_state_keys = cf_state_keys c, tr_repository_id = cf_repository_id c\<rparr>"

section \<open>Jobs\<close>

text \<open>
  Provenance reads are remembered for one check, so each check sees one answer per run. \<open>en_others\<close> is what became of the chain
  before a job reads or writes it.
\<close>

record env =
  en_get :: "nat \<Rightarrow> string \<Rightarrow> json read"
  en_download :: "nat \<Rightarrow> int \<Rightarrow> 8 word list option read"
  en_runs :: "nat \<Rightarrow> string \<Rightarrow> json read"
  en_clock :: "nat \<Rightarrow> pydatetime"
  en_nonce :: "nat \<Rightarrow> string"
  en_git :: "nat \<Rightarrow> bool"
  en_weather :: "nat \<Rightarrow> weather"
  en_others :: "nat \<Rightarrow> entry list \<Rightarrow> entry list"

record job_state =
  js_time :: nat
  js_chain :: "entry list"
  js_sent :: "(string \<times> string) list list"

type_synonym 'a job = "job_state \<Rightarrow> 'a control \<times> job_state"

definition jreturn :: "'a \<Rightarrow> 'a job" where
  "jreturn x s = (Inr x, s)"

definition jraise :: "control_exc \<Rightarrow> 'a job" where
  "jraise e s = (Inl e, s)"

definition jbind :: "'a job \<Rightarrow> ('a \<Rightarrow> 'b job) \<Rightarrow> 'b job" where
  "jbind m f s = (case m s of (Inl e, t) \<Rightarrow> (Inl e, t) | (Inr x, t) \<Rightarrow> f x t)"

text \<open>Computations without effects.\<close>

definition jlift :: "'a control \<Rightarrow> 'a job" where
  "jlift c s = (c, s)"

definition jresult :: "'a result \<Rightarrow> 'a job" where
  "jresult r = jlift (lift r)"

definition tick :: "job_state \<Rightarrow> job_state" where
  "tick s = s\<lparr>js_time := Suc (js_time s)\<rparr>"

text \<open>\<open>definitive\<close>: an indefinite answer stops the job, an absent resource is \<open>None\<close>.\<close>

definition definitive_read :: "'a \<Rightarrow> 'a read \<Rightarrow> 'a control" where
  "definitive_read none r =
     (case r of
        Answer v \<Rightarrow> Inr v
      | Absent \<Rightarrow> Inr none
      | Indefinite detail \<Rightarrow> Inl (FactsUnavailable (''an observation was indefinite'' @
          (case detail of Some (c # cs) \<Rightarrow> '' ['' @ c # cs @ '']'' | _ \<Rightarrow> ''''))))"

definition get_json :: "env \<Rightarrow> string \<Rightarrow> json job" where
  "get_json env path s = (definitive_read JNull (en_get env (js_time s) path), tick s)"

definition download :: "env \<Rightarrow> int \<Rightarrow> 8 word list option job" where
  "download env artifact_id s = (definitive_read None (en_download env (js_time s) artifact_id), tick s)"

definition read_clock :: "env \<Rightarrow> pydatetime job" where
  "read_clock env s = (Inr (en_clock env (js_time s)), tick s)"

definition new_nonce :: "env \<Rightarrow> string job" where
  "new_nonce env s = (Inr (en_nonce env (js_time s)), tick s)"

text \<open>A dispatch whose outcome nobody looks at.\<close>

definition send :: "(string \<times> string) list \<Rightarrow> unit job" where
  "send inputs s = (Inr (), tick (s\<lparr>js_sent := js_sent s @ [inputs]\<rparr>))"

section \<open>Texts\<close>

text \<open>\<open>urllib.parse.quote\<close> and \<open>quote_plus\<close> on the code points below 256, and \<open>urlencode\<close>\<close>

definition hex_upper :: "nat \<Rightarrow> char" where
  "hex_upper n = (if n < 10 then char_of (48 + n) else char_of (55 + n))"

definition percent :: "8 word \<Rightarrow> string" where
  "percent b = [CHR ''%'', hex_upper (unat b div 16), hex_upper (unat b mod 16)]"

definition quote_char :: "string \<Rightarrow> char \<Rightarrow> string" where
  "quote_char keep c =
     (if is_alnum c \<or> c \<in> set ''_.-~'' \<or> c \<in> set keep then [c] else concat (map percent (utf8_char c)))"

definition url_quote :: "string \<Rightarrow> string \<Rightarrow> string" where
  "url_quote keep s = concat (map (quote_char keep) s)"

definition quote_plus :: "string \<Rightarrow> string" where
  "quote_plus s = concat (map (\<lambda>c. if c = CHR '' '' then ''+'' else quote_char '''' c) s)"

definition urlencode :: "(string \<times> string) list \<Rightarrow> string" where
  "urlencode kvs = join ''&'' (map (\<lambda>(k, v). quote_plus k @ ''='' @ quote_plus v) kvs)"

definition repo_path :: "('k, 'p) configuration \<Rightarrow> string \<Rightarrow> string" where
  "repo_path cfg rest = ''/repos/'' @ cf_repository cfg @ rest"

text \<open>\<open>moment.astimezone(UTC).strftime("%Y-%m-%dT%H:%M:%SZ")\<close>\<close>

definition timestamp :: "pydatetime \<Rightarrow> string" where
  "timestamp v = (let t = instant v; (y, m, d) = civil (t div 86400000000); s = t mod 86400000000 div 1000000
     in int_text y @ ''-'' @ pad 2 m @ ''-'' @ pad 2 d @ ''T'' @ pad 2 (s div 3600) @ '':'' @ pad 2 (s div 60 mod 60) @ '':'' @
        pad 2 (s mod 60) @ ''Z'')"

section \<open>Provenance\<close>

record writer_workflow =
  ww_events :: "string list"
  ww_jobs :: "(string \<times> string list) list"

definition LIFECYCLE_WORKFLOW :: string where
  "LIFECYCLE_WORKFLOW = ''.github/workflows/hunter-issue-agent-trigger.yml''"

definition WRITERS :: "(string \<times> writer_workflow) list" where
  "WRITERS =
     [(LIFECYCLE_WORKFLOW, \<lparr>ww_events = [''issues'', ''workflow_dispatch''],
        ww_jobs = [(''authorize'', [''authorize'']), (''bind'', [''bind'', ''resume-bind'', ''bind-fallback'']),
          (''owner-decision'', [''fallback-decision'']), (''record-validation'', [''record-validation'']), (''finalize'', [''finalize''])]\<rparr>),
      (''.github/workflows/hunter-issue-agent-reconcile.yml'', \<lparr>ww_events = [''schedule'', ''workflow_dispatch''],
        ww_jobs = [(''reconcile'', [''reconcile'']), (''remediate'', [''reconcile''])]\<rparr>),
      (''.github/workflows/hunter-issue-agent-candidate-pr.yml'', \<lparr>ww_events = [''workflow_run''],
        ww_jobs = [(''candidate-pr-record'', [''record''])]\<rparr>),
      (''.github/workflows/hunter-issue-agent-knowledge.yml'', \<lparr>ww_events = [''workflow_run'', ''schedule'', ''workflow_dispatch''],
        ww_jobs = [(''knowledge-ingest'', [''knowledge-ingest''])]\<rparr>),
      (''.github/workflows/hunter-issue-agent-source-handling-bootstrap.yml'', \<lparr>ww_events = [''workflow_dispatch''],
        ww_jobs = [(''source-handling-bootstrap'', [''source-handling-bootstrap''])]\<rparr>)]"

text \<open>\<open>v in xs\<close> for a set of texts raises on a list or a dictionary, which is not hashable.\<close>

definition run_matches :: "('k, 'p) configuration \<Rightarrow> writer_workflow \<Rightarrow> json \<Rightarrow> mapping \<Rightarrow> bool result" where
  "run_matches cfg workflow source run =
     conj_result (Inr (eq_int (dget ''id'' run) (ifield ''run_id'' source)))
     (conj_result (Inr (eq_int (dget ''run_attempt'' run) 1))
     (conj_result (Inr (dget ''path'' run = jfield ''workflow_path'' source))
     (conj_result (is_member (dget ''event'' run) (ww_events workflow))
     (conj_result (Inr (dget ''head_branch'' run = JStr ''main''))
     (conj_result (Inr (dget ''head_sha'' run = jfield ''head_sha'' source))
     (conj_result (rbind (subget ''repository'' ''id'' run) (\<lambda>v. Inr (eq_int v (cf_repository_id cfg))))
       (rbind (subget ''head_repository'' ''id'' run) (\<lambda>v. Inr (eq_int v (cf_repository_id cfg))))))))))"

definition run_provenance :: "('k, 'p) configuration \<Rightarrow> (string \<Rightarrow> json read) \<Rightarrow> provenance_check" where
  "run_provenance cfg runs source record =
     (case map_of WRITERS (sfield ''workflow_path'' source) of
        None \<Rightarrow> Inr False
      | Some workflow \<Rightarrow>
          if sfield ''job'' source \<notin> set (case map_of (ww_jobs workflow) (sfield ''role'' source) of Some js \<Rightarrow> js | None \<Rightarrow> [])
             \<or> ifield ''run_attempt'' source \<noteq> 1 then Inr False
          else cbind (definitive_read JNull (runs (repo_path cfg (''/actions/runs/'' @ int_text (ifield ''run_id'' source) @ ''/attempts/1''))))
            (\<lambda>run. case as_object run of None \<Rightarrow> Inr False | Some kvs \<Rightarrow> lift (run_matches cfg workflow source kvs)))"

section \<open>The anchor\<close>

text \<open>
  Instants as the service writes them: a date, a time, an optional fraction, and \<open>Z\<close> or an offset. Other texts that
  \<open>datetime.fromisoformat\<close> takes are refused here.
\<close>

definition zone_offset :: "string \<Rightarrow> int option" where
  "zone_offset z =
     (if length z = 6 \<and> (hd z = CHR ''+'' \<or> hd z = CHR ''-'') \<and> z ! 3 = CHR '':''
      then (case (read_nat 0 (take 2 (drop 1 z)), read_nat 0 (drop 4 z)) of
              (Some h, Some m) \<Rightarrow> if h < 24 \<and> m < 60 then Some ((if hd z = CHR ''-'' then - 1 else 1) * (3600 * int h + 60 * int m)) else None
            | _ \<Rightarrow> None)
      else None)"

definition service_instant :: "json \<Rightarrow> int option" where
  "service_instant v =
     (case v of
        JStr s \<Rightarrow>
          (let t = concat (map (\<lambda>c. if c = CHR ''Z'' then ''+00:00'' else [c]) s); n = length t - 6; body = take n t
           in case (zone_offset (drop n t),
                fromisoformat (if length body \<le> 19 then body @ ''+00:00''
                  else take 26 (body @ replicate (26 - length body) (CHR ''0'')) @ ''+00:00'')) of
                (Some z, Inr d) \<Rightarrow> if 19 < length body \<and> (length body = 20 \<or> \<not> list_all is_digit_char (drop 20 body)) then None
                                    else Some (instant d - 1000000 * z)
              | _ \<Rightarrow> None)
      | _ \<Rightarrow> None)"

text \<open>\<open>for x in v or []\<close>\<close>

definition iterated :: "json \<Rightarrow> json list result" where
  "iterated v =
     (if falsy v then Inr []
      else case v of
             JArr vs \<Rightarrow> Inr vs
           | JStr s \<Rightarrow> Inr (map (\<lambda>c. JStr [c]) s)
           | JObj kvs \<Rightarrow> Inr (map (\<lambda>kv. JStr (fst kv)) kvs)
           | _ \<Rightarrow> Inl (TypeError ''object is not iterable''))"

definition required_rules :: "string list" where
  "required_rules = [''deletion'', ''non_fast_forward'']"

definition rule_types :: "mapping list \<Rightarrow> string list" where
  "rule_types rules = map (\<lambda>rule. pystr (dget ''type'' rule)) rules"

definition verify_anchor_ruleset :: "anchor_pin \<Rightarrow> mapping option \<Rightarrow> unit result" where
  "verify_anchor_ruleset pin ruleset =
     (case ruleset of
        None \<Rightarrow> Inl (AnchorIntegrityError ''anchor ruleset missing or replaced'')
      | Some rs \<Rightarrow>
          if \<not> eq_int (dget ''id'' rs) (ap_ruleset_id pin) then Inl (AnchorIntegrityError ''anchor ruleset missing or replaced'')
          else if dget ''enforcement'' rs \<noteq> JStr ''active'' then Inl (AnchorIntegrityError ''anchor ruleset not active'')
          else if service_instant (dget ''updated_at'' rs) = None \<or>
                  service_instant (dget ''updated_at'' rs) \<noteq> service_instant (JStr (ap_updated_at pin))
          then Inl (AnchorIntegrityError ''anchor ruleset modified since it was pinned'')
          else rbind (iterated (dget ''rules'' rs)) (\<lambda>rules.
            if set required_rules \<subseteq> set (rule_types (objects rules)) then Inr ()
            else Inl (AnchorIntegrityError ''anchor ruleset rules weakened'')))"

definition verify_anchor_integrity :: "anchor_pin \<Rightarrow> mapping option \<Rightarrow> json list \<Rightarrow> unit result" where
  "verify_anchor_integrity pin ruleset rules_for_branch =
     rbind (verify_anchor_ruleset pin ruleset) (\<lambda>u.
       if set required_rules \<subseteq> set (rule_types (filter (\<lambda>rule. eq_int (dget ''ruleset_id'' rule) (ap_ruleset_id pin)) (objects rules_for_branch)))
       then Inr () else Inl (AnchorIntegrityError ''anchor ruleset does not cover this ledger branch''))"

definition anchor_guard :: "unit result \<Rightarrow> unit control" where
  "anchor_guard r = (case r of Inl (AnchorIntegrityError m) \<Rightarrow> Inl (Frozen ''ANCHOR_INTEGRITY_FAILED'' m) | _ \<Rightarrow> lift r)"

definition LEDGER_REF_PREFIX :: string where
  "LEDGER_REF_PREFIX = ''refs/heads/hunter-state/v1/''"

definition ledger_ref :: "int \<Rightarrow> string result" where
  "ledger_ref issue_number =
     (if issue_number < 1 then Inl (LedgerError ''Issue number must be a positive integer'')
      else Inr (LEDGER_REF_PREFIX @ ''issue-'' @ int_text issue_number))"

definition require_anchor :: "env \<Rightarrow> ('k, 'p) configuration \<Rightarrow> string \<Rightarrow> unit job" where
  "require_anchor env cfg ref =
     (if take (length LEDGER_REF_PREFIX) ref \<noteq> LEDGER_REF_PREFIX
      then jraise (Raised (ValueError ''the anchor covers only the state namespace''))
      else
        jbind (get_json env (repo_path cfg (''/rulesets/'' @ int_text (ap_ruleset_id (cf_anchor cfg))))) (\<lambda>ruleset.
        jbind (get_json env (repo_path cfg (''/rules/branches/'' @ url_quote ''/'' (drop (length ''refs/heads/'') ref)))) (\<lambda>rules.
          jlift (anchor_guard (verify_anchor_integrity (cf_anchor cfg) (as_object ruleset)
            (case rules of JArr vs \<Rightarrow> vs | _ \<Rightarrow> []))))))"

definition require_anchor_ruleset :: "env \<Rightarrow> ('k, 'p) configuration \<Rightarrow> string \<Rightarrow> unit job" where
  "require_anchor_ruleset env cfg ref =
     (if take (length LEDGER_REF_PREFIX) ref \<noteq> LEDGER_REF_PREFIX
      then jraise (Raised (ValueError ''the anchor covers only the state namespace''))
      else
        jbind (get_json env (repo_path cfg (''/rulesets/'' @ int_text (ap_ruleset_id (cf_anchor cfg))))) (\<lambda>ruleset.
          jlift (anchor_guard (verify_anchor_ruleset (cf_anchor cfg) (as_object ruleset)))))"

section \<open>The ledger\<close>

text \<open>
  Signature verification, the reader of JSON texts, the raw form of recipient keys, the key that signs and the identity of the job
  are fixed for a job; so is its issue. A read of the chain sees what others made of it by then.
\<close>

record ('k, 'p) setting =
  st_configuration :: "('k, 'p) configuration"
  st_verify :: "'k \<Rightarrow> 8 word list \<Rightarrow> 8 word list \<Rightarrow> bool"
  st_loads :: "8 word list \<Rightarrow> parsed"
  st_raw_key :: "'p \<Rightarrow> 8 word list"
  st_key :: signing_key
  st_writer :: writer
  st_issue :: int

definition arrive :: "env \<Rightarrow> job_state \<Rightarrow> job_state" where
  "arrive env s = s\<lparr>js_chain := en_others env (js_time s) (js_chain s)\<rparr>"

definition read_chain :: "env \<Rightarrow> entry list job" where
  "read_chain env s =
     (if en_git env (js_time s) then Inr (js_chain (arrive env s)) else Inl (FactsUnavailable ''the ledger could not be read''),
      tick (arrive env s))"

definition write_entry :: "env \<Rightarrow> entry list \<Rightarrow> entry \<Rightarrow> unit job" where
  "write_entry env seen e s =
     (case ledger_write (en_weather env (js_time s)) (js_chain (arrive env s)) seen e of
        (outcome, entries) \<Rightarrow> (outcome, tick (s\<lparr>js_chain := entries\<rparr>)))"

definition load_view :: "env \<Rightarrow> ('k, 'p) setting \<Rightarrow> provenance_check \<Rightarrow> ledger_view job" where
  "load_view env st check =
     jbind (read_chain env) (\<lambda>entries.
       jlift (load_ledger (st_verify st) (cf_trust (st_configuration st)) check (cf_repository_id (st_configuration st)) (st_issue st) entries))"

definition append_record ::
  "env \<Rightarrow> ('k, 'p) setting \<Rightarrow> provenance_check \<Rightarrow> string \<Rightarrow> string \<Rightarrow> string \<Rightarrow> document \<Rightarrow> string \<Rightarrow> unit job" where
  "append_record env st check authorization_id kind target evidence now =
     jbind (read_chain env) (\<lambda>seen.
     jbind (jlift (ledger_prepare (st_verify st) (cf_trust (st_configuration st)) check (cf_repository_id (st_configuration st)) (st_issue st)
         (st_key st) (st_writer st) seen authorization_id kind target evidence now)) (\<lambda>e.
       write_entry env seen e))"

end
