(* ===== verification/Sha1.thy ===== *)
theory Sha1
  imports Sha256
begin

text \<open>
  \<open>hashlib.sha1(data).hexdigest()\<close>, with which git names commits: the 80 rounds on 32-bit words over the blocks and the padding
  that SHA-256 shares.
\<close>

definition sha1_h0 :: "w32 list" where
  "sha1_h0 = [1732584193, 4023233417, 2562383102, 271733878, 3285377520]"

text \<open>The message schedule, newest word first, extended by \<open>n\<close> words.\<close>

fun sha1_schedule :: "nat \<Rightarrow> w32 list \<Rightarrow> w32 list" where
  "sha1_schedule 0 ws = ws"
| "sha1_schedule (Suc n) ws = sha1_schedule n (word_rotl 1 (ws ! 2 XOR ws ! 7 XOR ws ! 13 XOR ws ! 15) # ws)"

definition sha1_round :: "w32 list \<Rightarrow> nat \<times> w32 \<Rightarrow> w32 list" where
  "sha1_round st tw = (case st of
     [a, b, c, d, e] \<Rightarrow>
       let t = fst tw;
           f = (if t < 20 then (b AND c) OR (NOT b AND d) else if t < 40 then b XOR c XOR d
                else if t < 60 then (b AND c) OR (b AND d) OR (c AND d) else b XOR c XOR d);
           k = (if t < 20 then 1518500249 else if t < 40 then 1859775393 else if t < 60 then 2400959708 else 3395469782)
       in [word_rotl 5 a + f + e + k + snd tw, a, word_rotl 30 b, c, d]
   | _ \<Rightarrow> st)"

definition sha1_block :: "w32 list \<Rightarrow> w32 list \<Rightarrow> w32 list" where
  "sha1_block hs block = map2 (+) hs (foldl sha1_round hs (zip [0..<80] (rev (sha1_schedule 64 (rev block)))))"

fun sha1_blocks :: "nat \<Rightarrow> w32 list \<Rightarrow> w32 list \<Rightarrow> w32 list" where
  "sha1_blocks 0 hs ws = hs"
| "sha1_blocks (Suc n) hs ws = sha1_blocks n (sha1_block hs (take 16 ws)) (drop 16 ws)"

definition sha1_hex :: "8 word list \<Rightarrow> string" where
  "sha1_hex bs = (let p = sha_pad bs in concat (map hex_of_word (sha1_blocks (length p div 64) sha1_h0 (words_of p))))"

end
