(* ===== verification/ControlObserve.thy ===== *)
theory ControlObserve
  imports ControlWorld Sha1
begin

text \<open>
  What a control job observes (\<open>observe\<close> of \<open>automation/issue_agent_control.py\<close> and its helpers): the run that owns the current
  stage and its jobs, the artifacts of a name, the receipt of a validator, the commit on the branch, draft pull requests, the
  preflight at a head and the run that carries a pending resume. Answers of the service are untyped JSON, so every access may raise.
\<close>

section \<open>Helpers\<close>

fun conj_all :: "bool result list \<Rightarrow> bool result" where
  "conj_all [] = Inr True"
| "conj_all (b # bs) = conj_result b (conj_all bs)"

text \<open>\<open>needle in text\<close>\<close>

definition occurs_in :: "string \<Rightarrow> string \<Rightarrow> bool" where
  "occurs_in needle s = list_ex (\<lambda>k. take (length needle) (drop k s) = needle) [0..<Suc (length s)]"

definition num_value :: "json \<Rightarrow> rat option" where
  "num_value v =
     (case v of
        JInt i \<Rightarrow> Some (of_int i)
      | JBool b \<Rightarrow> Some (if b then 1 else 0)
      | JFloat s \<Rightarrow> (case float_parts s of (negative, m, e) \<Rightarrow>
          Some ((if negative then - of_nat m else of_nat m) * (if 0 \<le> e then 10 ^ nat e else 1 / 10 ^ nat (- e))))
      | _ \<Rightarrow> None)"

definition is_container :: "json \<Rightarrow> bool" where
  "is_container v = (case v of JArr vs \<Rightarrow> True | JObj kvs \<Rightarrow> True | _ \<Rightarrow> False)"

definition str_value :: "json \<Rightarrow> string option" where
  "str_value v = (case v of JStr s \<Rightarrow> Some s | _ \<Rightarrow> None)"

definition hashable :: "json list \<Rightarrow> unit result" where
  "hashable vs = (if list_ex is_container vs then Inl (TypeError ''unhashable type'') else Inr ())"

text \<open>\<open>v == sorted(set(v or []))\<close>: texts and numbers are ordered among themselves only.\<close>

definition is_sorted_set :: "json \<Rightarrow> bool result" where
  "is_sorted_set v =
     rbind (iterated v) (\<lambda>xs. rbind (hashable xs) (\<lambda>u.
       if list_all (\<lambda>x. str_value x \<noteq> None) xs
       then Inr (v = JArr (map JStr (sort (uniq (List.map_filter str_value xs)))))
       else if list_all (\<lambda>x. num_value x \<noteq> None) xs
       then Inr (sorted_wrt (<) (List.map_filter num_value xs))
       else if list_all (\<lambda>x. x = JNull) xs then Inr (length xs = 1)
       else Inl (TypeError ''<' not supported between instances'')))"

section \<open>Runs, jobs and artifacts\<close>

definition STAGE_JOBS :: "(string \<times> string) list" where
  "STAGE_JOBS = [(AUTHORIZED, ''execute''), (FALLBACK_AUTHORIZED, ''execute-fallback''), (RESULT_BOUND, ''validate''),
     (VALIDATED, ''publish'')]"

definition ACTIVE_RUN_STATUSES :: "string list" where
  "ACTIVE_RUN_STATUSES = [''queued'', ''in_progress'', ''waiting'', ''pending'', ''requested'']"

definition stage_attempt :: "authorization_view \<Rightarrow> string \<Rightarrow> int" where
  "stage_attempt view stage = av_resume_attempts view stage + 1"

definition outcome_artifact_name :: "string \<Rightarrow> string \<Rightarrow> int \<Rightarrow> string result" where
  "outcome_artifact_name authorization_id stage attempt =
     (if map_of RESUME_STAGES stage = None \<or> attempt < 1 then Inl (ValueError ''unknown stage or attempt'')
      else rbind (authorization_digest authorization_id) (\<lambda>digest.
        Inr (''hunter-ia-'' @ stage @ ''-'' @ digest @ ''-'' @ int_text attempt)))"

definition owning_run :: "authorization_view \<Rightarrow> int result" where
  "owning_run view =
     (case Option.bind (av_pending_resume view) pr_bound_run_id of
        Some run \<Rightarrow> Inr run
      | None \<Rightarrow>
          (case filter (\<lambda>r. jfield ''kind'' r = JStr ''resume_bound'') (rev (av_records view)) of
             r # rs \<Rightarrow> rbind (getitem r ''evidence'') (\<lambda>e. rbind (getitem e ''run_id'') pyint)
           | [] \<Rightarrow> rbind (binding view ''authorize_run_id'') pyint))"

abbreviation unavailable :: "string \<Rightarrow> 'a job" where
  "unavailable why \<equiv> jraise (FactsUnavailable why)"

text \<open>The job of a name in a run, and whether the run has ended.\<close>

definition run_job :: "env \<Rightarrow> ('k, 'p) configuration \<Rightarrow> int \<Rightarrow> string \<Rightarrow> (mapping option \<times> bool) job" where
  "run_job env cfg run_id name =
     jbind (get_json env (repo_path cfg (''/actions/runs/'' @ int_text run_id))) (\<lambda>run.
     jbind (get_json env (repo_path cfg (''/actions/runs/'' @ int_text run_id @ ''/jobs?filter=latest&per_page=100''))) (\<lambda>jobs.
       case (run, jobs) of
         (JObj r, JObj js) \<Rightarrow>
           (case dget ''jobs'' js of
              JArr items \<Rightarrow>
                if \<not> eq_int (dget ''total_count'' js) (int (length items)) then unavailable ''partial job listing''
                else (case filter (\<lambda>job. dget ''name'' job = JStr name) (objects items) of
                  [] \<Rightarrow> jreturn (None, dget ''status'' r = JStr ''completed'')
                | [job] \<Rightarrow> jreturn (Some job, dget ''status'' r = JStr ''completed'')
                | _ \<Rightarrow> unavailable ''duplicate job names'')
            | _ \<Rightarrow> unavailable ''run or job listing missing'')
       | _ \<Rightarrow> unavailable ''run or job listing missing''))"

definition artifact_of :: "mapping \<Rightarrow> artifact_fact result" where
  "artifact_of item =
     rbind (ditem ''id'' item) (\<lambda>i. rbind (pyint i) (\<lambda>artifact_id.
     rbind (ditem ''name'' item) (\<lambda>name.
     rbind (case map_of item ''size_in_bytes'' of None \<Rightarrow> Inr 0 | Some v \<Rightarrow> pyint v) (\<lambda>size.
       Inr \<lparr>af_artifact_id = artifact_id, af_name = pystr name,
         af_digest = (let v = dget ''digest'' item in if falsy v then '''' else pystr v),
         af_size = size, af_expired = \<not> falsy (dget ''expired'' item)\<rparr>))))"

definition named_item :: "string \<Rightarrow> json \<Rightarrow> artifact_fact option result" where
  "named_item name item =
     (case item of
        JObj kvs \<Rightarrow> (if dget ''name'' kvs = JStr name then rbind (artifact_of kvs) (\<lambda>a. Inr (Some a)) else Inr None)
      | _ \<Rightarrow> Inl (AttributeError ''get''))"

definition listed_artifacts :: "env \<Rightarrow> ('k, 'p) configuration \<Rightarrow> int \<Rightarrow> string \<Rightarrow> artifact_fact list job" where
  "listed_artifacts env cfg run_id name =
     jbind (get_json env (repo_path cfg (''/actions/runs/'' @ int_text run_id @ ''/artifacts?'' @
         urlencode [(''name'', name), (''per_page'', ''100'')]))) (\<lambda>listing.
       case listing of
         JObj kvs \<Rightarrow>
           (case dget ''artifacts'' kvs of
              JArr items \<Rightarrow>
                if \<not> eq_int (dget ''total_count'' kvs) (int (length items)) then unavailable ''partial artifact listing''
                else jresult (rbind (mapM (named_item name) items) (\<lambda>found. Inr (List.map_filter id found)))
            | _ \<Rightarrow> unavailable ''artifact listing missing'')
       | _ \<Rightarrow> unavailable ''artifact listing missing'')"

text \<open>\<open>_single_json\<close>: the object in an artifact; a \<open>ValueError\<close> of the reader means there is none.\<close>

definition single_json :: "env \<Rightarrow> (8 word list \<Rightarrow> parsed) \<Rightarrow> artifact_fact \<Rightarrow> mapping option job" where
  "single_json env loads artifact =
     jbind (download env (af_artifact_id artifact)) (\<lambda>content.
       case content of
         None \<Rightarrow> jreturn None
       | Some bs \<Rightarrow>
           (case loads bs of
              Parsed v \<Rightarrow> jreturn (as_object v)
            | NotJson \<Rightarrow> jreturn None
            | Unreadable (ValueError why) \<Rightarrow> jreturn None
            | Unreadable e \<Rightarrow> jraise (Raised e)))"

definition stage_outcome ::
  "env \<Rightarrow> (8 word list \<Rightarrow> parsed) \<Rightarrow> ('k, 'p) configuration \<Rightarrow> authorization_view \<Rightarrow> string \<Rightarrow> (mapping option \<times> int option) job" where
  "stage_outcome env loads cfg view stage =
     jbind (jresult (owning_run view)) (\<lambda>run_id.
     jbind (jresult (outcome_artifact_name (av_authorization_id view) stage (stage_attempt view stage))) (\<lambda>name.
     jbind (listed_artifacts env cfg run_id name) (\<lambda>found.
       case found of
         [a] \<Rightarrow> (if af_expired a then jreturn (None, None)
                  else jbind (single_json env loads a) (\<lambda>document. jreturn (document, Some run_id)))
       | _ \<Rightarrow> jreturn (None, None))))"

section \<open>Receipts\<close>

definition RECEIPT_SCHEMA_VERSION :: string where
  "RECEIPT_SCHEMA_VERSION = ''hunter-issue-agent-validation-receipt-v2''"

definition REFUSAL_FIELDS :: "string list" where
  "REFUSAL_FIELDS = [''schema_version'', ''authorization_id'', ''execution_id'', ''ciphertext_sha256'', ''verdict'', ''code'']"

definition RECEIPT_FIELDS :: "string list" where
  "RECEIPT_FIELDS =
     [''schema_version'', ''authorization_id'', ''execution_id'', ''ciphertext_sha256'', ''result_sha256'', ''tree_sha'',
      ''unsigned_commit_sha'', ''base_sha'', ''task_scope_sha256'', ''validation_definition'', ''toolchain_sha256'', ''verdict'']"

text \<open>\<open>d.get(k) == e[k']\<close>\<close>

definition same_field :: "string \<Rightarrow> mapping \<Rightarrow> json \<Rightarrow> string \<Rightarrow> bool result" where
  "same_field k kvs e k' = rbind (getitem e k') (\<lambda>v. Inr (dget k kvs = v))"

text \<open>The proof group of a remediation.\<close>

definition group_matches :: "json \<Rightarrow> mapping \<Rightarrow> bool result" where
  "group_matches bound grp =
     rbind (getitem bound ''base_sha'') (\<lambda>base_sha.
     rbind (getitem bound ''remediation'') (\<lambda>remediation.
       conj_all
         [Inr (dget ''bound_head_sha'' grp = base_sha),
          rbind (getitem remediation ''bound_head_sha'') (\<lambda>v. Inr (base_sha = v)),
          same_field ''finding_ids'' grp remediation ''finding_ids'',
          (case dget ''proven_finding_ids'' grp of
             JArr proven \<Rightarrow>
               rbind (hashable proven) (\<lambda>u. rbind (getitem remediation ''finding_ids'') (\<lambda>ids. rbind (iterated ids) (\<lambda>known.
                 Inr (set proven \<subseteq> set known \<and> distinct proven))))
           | _ \<Rightarrow> Inr False),
          is_sorted_set (dget ''regression_tests'' grp),
          Inr (fullmatch rx_sha64 (pystr (dget ''promotion_sha256'' grp))),
          Inr ((dget ''proven_finding_ids'' grp \<noteq> JArr []) = (dget ''disposition'' grp \<noteq> JNull))]))"

definition receipt_matches :: "authorization_view \<Rightarrow> mapping \<Rightarrow> bool result" where
  "receipt_matches view receipt =
     rbind (evidence_at view AUTHORIZED) (\<lambda>bound. rbind (evidence_at view RESULT_BOUND) (\<lambda>outcome.
     rbind (conj_all
       [Inr (dget ''schema_version'' receipt = JStr RECEIPT_SCHEMA_VERSION),
        Inr (dget ''authorization_id'' receipt = JStr (av_authorization_id view)),
        rbind (view_execution_id view) (\<lambda>i. Inr (dget ''execution_id'' receipt = JStr i)),
        rbind (getitem outcome ''result_artifact'') (\<lambda>a. same_field ''ciphertext_sha256'' receipt a ''ciphertext_sha256'')]) (\<lambda>common.
     if \<not> common then Inr False
     else if dget ''verdict'' receipt = JStr ''REFUSED''
     then conj_result (Inr (set (map fst receipt) = set REFUSAL_FIELDS)) (is_member (dget ''code'' receipt) VALIDATION_REFUSAL_CODES)
     else
       let remediated = (jget ''remediation'' bound \<noteq> None)
       in rbind (conj_all
         [Inr (dget ''verdict'' receipt = JStr ''PASS''),
          Inr (set (map fst receipt) = set (RECEIPT_FIELDS @ (if remediated then [''remediation''] else []))),
          same_field ''result_sha256'' receipt outcome ''result_plaintext_sha256'',
          same_field ''base_sha'' receipt bound ''base_sha'',
          same_field ''task_scope_sha256'' receipt bound ''task_scope_sha256'',
          Inr (list_all (\<lambda>f. fullmatch rx_sha40 (pystr (dget f receipt))) [''tree_sha'', ''unsigned_commit_sha'']),
          Inr (list_all (\<lambda>f. fullmatch rx_sha64 (pystr (dget f receipt))) [''validation_definition'', ''toolchain_sha256''])]) (\<lambda>passed.
       if \<not> passed then Inr False
       else if \<not> remediated then Inr (map_of receipt ''remediation'' = None)
       else case dget ''remediation'' receipt of JObj grp \<Rightarrow> group_matches bound grp | _ \<Rightarrow> Inr False))))"

section \<open>The published commit\<close>

definition unsigned_commit_sha :: "string \<Rightarrow> string" where
  "unsigned_commit_sha payload =
     (let bytes = utf8 payload in sha1_hex (utf8 (''commit '' @ nat_text (length bytes) @ [CHR 0x00]) @ bytes))"

text \<open>\<open>d.get(k) if isinstance(d.get(k), Mapping) else {}\<close>\<close>

definition sub_object :: "string \<Rightarrow> mapping \<Rightarrow> mapping" where
  "sub_object k kvs = (case dget k kvs of JObj sub \<Rightarrow> sub | _ \<Rightarrow> [])"

definition remote_head_conforms :: "mapping \<Rightarrow> authorization_view \<Rightarrow> string \<Rightarrow> bool result" where
  "remote_head_conforms commit view login =
     rbind (evidence_at view AUTHORIZED) (\<lambda>bound. rbind (evidence_at view VALIDATED) (\<lambda>validated.
     rbind (iterated (dget ''parents'' commit)) (\<lambda>listed.
     let body = sub_object ''commit'' commit; verification = sub_object ''verification'' body;
         parents = map (dget ''sha'') (objects listed)
     in conj_all
       [rbind (getitem bound ''base_sha'') (\<lambda>base. Inr (parents = [base])),
        rbind (subget ''tree'' ''sha'' body) (\<lambda>tree. rbind (getitem validated ''tree_sha'') (\<lambda>v. Inr (tree = v))),
        Inr (dget ''verified'' verification = JBool True),
        Inr (dget ''reason'' verification = JStr ''valid''),
        (case dget ''payload'' verification of
           JStr payload \<Rightarrow> rbind (getitem validated ''unsigned_commit_sha'') (\<lambda>v. Inr (JStr (unsigned_commit_sha payload) = v))
         | _ \<Rightarrow> Inr False),
        rbind (subget ''author'' ''login'' commit) (\<lambda>v. Inr (v = JStr login)),
        rbind (subget ''committer'' ''login'' commit) (\<lambda>v. Inr (v = JStr login))])))"

section \<open>Pull requests, preflight and resume runs\<close>

definition pull_requests :: "env \<Rightarrow> ('k, 'p) configuration \<Rightarrow> string \<Rightarrow> mapping list job" where
  "pull_requests env cfg branch =
     jbind (get_json env (repo_path cfg (''/pulls?'' @ urlencode [(''state'', ''open''),
         (''head'', takeWhile (\<lambda>c. c \<noteq> CHR ''/'') (cf_repository cfg) @ '':'' @ branch), (''per_page'', ''100'')]))) (\<lambda>listing.
       case listing of
         JArr items \<Rightarrow> jresult (filterM (\<lambda>pr. rbind (subget ''head'' ''ref'' pr) (\<lambda>v. Inr (v = JStr branch))) (objects items))
       | _ \<Rightarrow> unavailable ''pull request listing missing'')"

text \<open>\<open>int(d.get(k, 0))\<close>\<close>

definition int_or_zero :: "string \<Rightarrow> mapping \<Rightarrow> int result" where
  "int_or_zero k kvs = (case map_of kvs k of None \<Rightarrow> Inr 0 | Some v \<Rightarrow> pyint v)"

text \<open>\<open>max\<close> by a pair of numbers: the first run that no later run exceeds.\<close>

fun latest_run :: "((int \<times> int) \<times> mapping) \<Rightarrow> ((int \<times> int) \<times> mapping) list \<Rightarrow> mapping" where
  "latest_run best [] = snd best"
| "latest_run best (r # rs) =
     latest_run (if fst (fst best) < fst (fst r) \<or> fst (fst best) = fst (fst r) \<and> snd (fst best) < snd (fst r) then r else best) rs"

definition run_key :: "mapping \<Rightarrow> ((int \<times> int) \<times> mapping) result" where
  "run_key run = rbind (int_or_zero ''run_number'' run) (\<lambda>n. rbind (int_or_zero ''id'' run) (\<lambda>i. Inr ((n, i), run)))"

definition preflight_result :: "string \<Rightarrow> json list \<Rightarrow> (string option \<times> int option) result" where
  "preflight_result head_sha items =
     rbind (mapM run_key (filter (\<lambda>run. dget ''head_sha'' run = JStr head_sha \<and> dget ''event'' run = JStr ''push'' \<and>
         dget ''head_branch'' run \<noteq> JNull \<and> eq_int (dget ''run_attempt'' run) 1) (objects items))) (\<lambda>runs.
       case runs of
         [] \<Rightarrow> Inr (None, None)
       | r # rs \<Rightarrow>
           (let latest = latest_run r rs
            in if dget ''status'' latest \<noteq> JStr ''completed'' then Inr (None, None)
               else rbind (ditem ''id'' latest) (\<lambda>i. rbind (pyint i) (\<lambda>n. Inr (Some (pystr (dget ''conclusion'' latest)), Some n)))))"

definition preflight :: "env \<Rightarrow> ('k, 'p) configuration \<Rightarrow> string \<Rightarrow> (string option \<times> int option) job" where
  "preflight env cfg head_sha =
     jbind (get_json env (repo_path cfg (''/actions/workflows/hunter-pre-pr-preflight.yml/runs?'' @
         urlencode [(''head_sha'', head_sha), (''event'', ''push''), (''per_page'', ''100'')]))) (\<lambda>listing.
       case listing of
         JObj kvs \<Rightarrow> (case dget ''workflow_runs'' kvs of
           JArr items \<Rightarrow> jresult (preflight_result head_sha items)
         | _ \<Rightarrow> unavailable ''preflight listing missing'')
       | _ \<Rightarrow> unavailable ''preflight listing missing'')"

text \<open>\<open>any(run.get("status") in statuses for run in runs)\<close>\<close>

fun any_active :: "mapping list \<Rightarrow> bool result" where
  "any_active [] = Inr False"
| "any_active (run # runs) =
     rbind (is_member (dget ''status'' run) ACTIVE_RUN_STATUSES) (\<lambda>active. if active then Inr True else any_active runs)"

definition carries :: "string \<Rightarrow> json \<Rightarrow> mapping option result" where
  "carries nonce run =
     (case run of
        JObj kvs \<Rightarrow>
          Inr (if occurs_in nonce (case map_of kvs ''display_title'' of None \<Rightarrow> '''' | Some v \<Rightarrow> pystr v) then Some kvs else None)
      | _ \<Rightarrow> Inl (AttributeError ''get''))"

definition unbound_status :: "string \<Rightarrow> json list \<Rightarrow> string option result" where
  "unbound_status nonce items =
     rbind (mapM (carries nonce) items) (\<lambda>found.
       let carrying = List.map_filter id found
       in if carrying = [] then Inr None
          else rbind (any_active carrying) (\<lambda>active. Inr (Some (if active then ''active'' else ''concluded''))))"

definition resume_run_status :: "env \<Rightarrow> ('k, 'p) configuration \<Rightarrow> authorization_view \<Rightarrow> string option job" where
  "resume_run_status env cfg view =
     (case av_pending_resume view of
        None \<Rightarrow> jraise (Raised (AssertionError ''''))
      | Some p \<Rightarrow>
          (case pr_bound_run_id p of
             Some run_id \<Rightarrow>
               jbind (get_json env (repo_path cfg (''/actions/runs/'' @ int_text run_id))) (\<lambda>run.
                 case run of
                   JObj kvs \<Rightarrow>
                     jbind (jresult (is_member (dget ''status'' kvs) ACTIVE_RUN_STATUSES)) (\<lambda>active.
                       if \<not> active then jreturn (Some ''concluded'')
                       else (case map_of STAGE_JOBS (av_state view) of
                         None \<Rightarrow> jraise (Raised (KeyError (av_state view)))
                       | Some name \<Rightarrow>
                           jbind (run_job env cfg run_id name) (\<lambda>(job, ended).
                             jreturn (Some (case job of
                               Some j \<Rightarrow> if dget ''status'' j = JStr ''completed'' then ''concluded'' else ''active''
                             | None \<Rightarrow> ''active'')))))
                 | _ \<Rightarrow> jreturn (Some ''concluded''))
           | None \<Rightarrow>
               jbind (get_json env (repo_path cfg (''/actions/workflows/hunter-issue-agent-trigger.yml/runs?'' @
                   urlencode [(''event'', ''workflow_dispatch''), (''branch'', ''main''), (''per_page'', ''100'')]))) (\<lambda>listing.
                 case listing of
                   JObj kvs \<Rightarrow> (case dget ''workflow_runs'' kvs of
                     JArr items \<Rightarrow> jresult (unbound_status (pr_nonce p) items)
                   | _ \<Rightarrow> unavailable ''resume run listing missing'')
                 | _ \<Rightarrow> unavailable ''resume run listing missing'')))"

section \<open>Observations\<close>

record observation =
  ob_facts :: facts
  ob_executor_job_id :: "int option"
  ob_receipt_run_id :: "int option"
  ob_pull_request :: "mapping option"
  ob_preflight_run_id :: "int option"

text \<open>What the jobs of the lifecycle hand over: untrusted outputs of the executor job, and evidence of a fallback run.\<close>

record hints =
  hi_advisory_code :: "string option"
  hi_stderr_category :: "string option"
  hi_probe_category :: "string option"
  hi_canary_refusal :: "mapping option"
  hi_attestation_sha256 :: "string option"
  hi_fallback_model :: "mapping option"

definition admitted :: "string list \<Rightarrow> string option \<Rightarrow> string option" where
  "admitted vocabulary code = (case code of Some c \<Rightarrow> if c \<in> set vocabulary then Some c else None | None \<Rightarrow> None)"

definition branch_head :: "env \<Rightarrow> ('k, 'p) configuration \<Rightarrow> string \<Rightarrow> string option job" where
  "branch_head env cfg branch =
     jbind (get_json env (repo_path cfg (''/git/ref/heads/'' @ branch))) (\<lambda>ref.
       case ref of
         JObj kvs \<Rightarrow>
           jbind (jresult (subget ''object'' ''sha'' kvs)) (\<lambda>sha.
             case sha of
               JStr s \<Rightarrow> (if fullmatch rx_sha40 s then jreturn (Some s) else unavailable ''malformed ref'')
             | _ \<Rightarrow> unavailable ''malformed ref'')
       | _ \<Rightarrow> jreturn None)"

text \<open>Whether the stage still runs, and the identifier and conclusion of the executor's job.\<close>

definition stage_status :: "env \<Rightarrow> ('k, 'p) configuration \<Rightarrow> authorization_view \<Rightarrow> (bool \<times> (int \<times> string) option) job" where
  "stage_status env cfg view =
     (case map_of STAGE_JOBS (av_state view) of
        None \<Rightarrow> jreturn (False, None)
      | Some name \<Rightarrow>
          jbind (jresult (owning_run view)) (\<lambda>run_id.
          jbind (run_job env cfg run_id name) (\<lambda>(job, ended).
            case job of
              None \<Rightarrow> jreturn (\<not> ended, None)
            | Some j \<Rightarrow>
                if av_state view = AUTHORIZED \<or> av_state view = FALLBACK_AUTHORIZED
                then jbind (jresult (rbind (ditem ''id'' j) pyint)) (\<lambda>i.
                  jreturn (dget ''status'' j \<noteq> JStr ''completed'', Some (i, pystr (dget ''conclusion'' j))))
                else jreturn (dget ''status'' j \<noteq> JStr ''completed'', None))))"

definition observed_resume :: "env \<Rightarrow> ('k, 'p) configuration \<Rightarrow> authorization_view \<Rightarrow> facts \<Rightarrow> facts job" where
  "observed_resume env cfg view f =
     (if av_pending_resume view = None then jreturn f
      else jbind (resume_run_status env cfg view) (\<lambda>status. jreturn (f\<lparr>fa_resume_run_status := Known status\<rparr>)))"

definition executor_facts :: "hints \<Rightarrow> (int \<times> string) option \<Rightarrow> artifact_fact list \<Rightarrow> facts \<Rightarrow> facts" where
  "executor_facts h executor artifacts f =
     f\<lparr>fa_result_artifacts := Known artifacts, fa_executor_conclusion := Known (map_option snd executor),
       fa_executor_advisory_code := admitted ADVISORY_CODES (hi_advisory_code h)\<rparr>"

definition observe_authorized ::
  "env \<Rightarrow> ('k, 'p) configuration \<Rightarrow> authorization_view \<Rightarrow> hints \<Rightarrow> (int \<times> string) option \<Rightarrow> facts \<Rightarrow> facts job" where
  "observe_authorized env cfg view h executor f =
     jbind (jresult (result_artifact_name (av_authorization_id view))) (\<lambda>name.
     jbind (jresult (rbind (binding view ''authorize_run_id'') pyint)) (\<lambda>run_id.
     jbind (listed_artifacts env cfg run_id name) (\<lambda>artifacts.
     jbind (jresult (canary_refusal_conforms (hi_canary_refusal h))) (\<lambda>conforms.
       jreturn ((executor_facts h executor artifacts f)
         \<lparr>fa_executor_stderr_category := admitted FALLBACK_SIGNAL_CATEGORIES (hi_stderr_category h),
          fa_executor_probe_category := admitted FALLBACK_SIGNAL_CATEGORIES (hi_probe_category h),
          fa_executor_canary_refusal := (if conforms then hi_canary_refusal h else None)\<rparr>)))))"

definition observe_fallback ::
  "env \<Rightarrow> ('k, 'p) configuration \<Rightarrow> authorization_view \<Rightarrow> hints \<Rightarrow> (int \<times> string) option \<Rightarrow> facts \<Rightarrow> facts job" where
  "observe_fallback env cfg view h executor f =
     jbind (jresult (owning_run view)) (\<lambda>run_id.
     jbind (jresult (result_artifact_name (av_authorization_id view))) (\<lambda>name.
     jbind (listed_artifacts env cfg run_id name) (\<lambda>primary.
     jbind (jresult (fallback_result_artifact_name (av_authorization_id view))) (\<lambda>second_name.
     jbind (listed_artifacts env cfg run_id second_name) (\<lambda>second.
       observed_resume env cfg view (executor_facts h executor (primary @ second) f))))))"

definition observe_bound :: "env \<Rightarrow> ('k, 'p) configuration \<Rightarrow> authorization_view \<Rightarrow> facts \<Rightarrow> facts job" where
  "observe_bound env cfg view f =
     jbind (jresult (rbind (evidence_at view RESULT_BOUND) (\<lambda>e. rbind (getitem e ''result_artifact'') (\<lambda>a. getitem a ''artifact_id'')))) (\<lambda>bound_id.
     jbind (get_json env (repo_path cfg (''/actions/artifacts/'' @ pystr bound_id))) (\<lambda>item.
     jbind (case item of JObj kvs \<Rightarrow> jresult (rbind (artifact_of kvs) (\<lambda>a. Inr [a])) | _ \<Rightarrow> jreturn []) (\<lambda>artifacts.
       observed_resume env cfg view (f\<lparr>fa_result_artifacts := Known artifacts\<rparr>))))"

definition observe_receipt ::
  "env \<Rightarrow> (8 word list \<Rightarrow> parsed) \<Rightarrow> ('k, 'p) configuration \<Rightarrow> authorization_view \<Rightarrow> facts \<Rightarrow> (facts \<times> int option) job" where
  "observe_receipt env loads cfg view f =
     jbind (stage_outcome env loads cfg view ''validation'') (\<lambda>(document, run_id).
       case document of
         None \<Rightarrow> jreturn (f\<lparr>fa_receipt := Known None\<rparr>, None)
       | Some receipt \<Rightarrow>
           jbind (jresult (receipt_matches view receipt)) (\<lambda>matches.
             if matches then jreturn (f\<lparr>fa_receipt := Known (Some receipt)\<rparr>, run_id)
             else jreturn (f\<lparr>fa_receipt := Known None\<rparr>, None)))"

definition OUTCOME_SCHEMA_VERSION :: string where
  "OUTCOME_SCHEMA_VERSION = ''hunter-issue-agent-stage-outcome-v1''"

definition reported_refusal :: "authorization_view \<Rightarrow> mapping \<Rightarrow> bool result" where
  "reported_refusal view outcome =
     conj_all
       [Inr (set (map fst outcome) = {''schema_version'', ''authorization_id'', ''verdict'', ''code''}),
        Inr (dget ''schema_version'' outcome = JStr OUTCOME_SCHEMA_VERSION),
        Inr (dget ''authorization_id'' outcome = JStr (av_authorization_id view)),
        Inr (dget ''verdict'' outcome = JStr ''REFUSED''),
        is_member (dget ''code'' outcome) PUBLICATION_REFUSAL_CODES]"

definition observe_publication ::
  "env \<Rightarrow> (8 word list \<Rightarrow> parsed) \<Rightarrow> ('k, 'p) configuration \<Rightarrow> authorization_view \<Rightarrow> string option \<Rightarrow> facts \<Rightarrow> facts job" where
  "observe_publication env loads cfg view head f =
     jbind (case head of
              None \<Rightarrow> jreturn f
            | Some sha \<Rightarrow>
                jbind (get_json env (repo_path cfg (''/commits/'' @ sha))) (\<lambda>commit.
                jbind (case commit of JObj kvs \<Rightarrow> jresult (remote_head_conforms kvs view (wi_login (cf_writer cfg))) | _ \<Rightarrow> jreturn False)
                  (\<lambda>conforms. jreturn (f\<lparr>fa_remote_head_conforms := Known conforms\<rparr>)))) (\<lambda>f.
     jbind (stage_outcome env loads cfg view ''publication'') (\<lambda>(outcome, run_id).
       case outcome of
         None \<Rightarrow> jreturn f
       | Some kvs \<Rightarrow>
           jbind (jresult (reported_refusal view kvs)) (\<lambda>reported.
             jreturn (if reported then f\<lparr>fa_publication_refusal_code := Some (pystr (dget ''code'' kvs))\<rparr> else f))))"

definition conforming_draft :: "json \<Rightarrow> mapping \<Rightarrow> bool result" where
  "conforming_draft head pr =
     conj_all
       [Inr (dget ''draft'' pr = JBool True), rbind (subget ''base'' ''ref'' pr) (\<lambda>v. Inr (v = JStr ''main'')),
        rbind (subget ''head'' ''sha'' pr) (\<lambda>v. Inr (v = head))]"

definition observe_published ::
  "env \<Rightarrow> ('k, 'p) configuration \<Rightarrow> authorization_view \<Rightarrow> mapping list \<Rightarrow> facts \<Rightarrow> (facts \<times> int option) job" where
  "observe_published env cfg view pulls f =
     jbind (jresult (rbind (evidence_at view PUBLISHED) (\<lambda>e. getitem e ''head_sha''))) (\<lambda>head.
     jbind (jresult (filterM (conforming_draft head) pulls)) (\<lambda>conforming.
     jbind (preflight env cfg (pystr head)) (\<lambda>(conclusion, run).
       jreturn (f\<lparr>fa_open_draft_pr := Known (case conforming of [pr] \<Rightarrow> Some pr | _ \<Rightarrow> None),
                 fa_preflight_conclusion := Known conclusion\<rparr>, run))))"

definition observe ::
  "env \<Rightarrow> (8 word list \<Rightarrow> parsed) \<Rightarrow> ('k, 'p) configuration \<Rightarrow> authorization_view \<Rightarrow> string \<Rightarrow> hints \<Rightarrow> observation job" where
  "observe env loads cfg view now h =
     jbind (jresult (binding view ''execution_branch'')) (\<lambda>b. let branch = pystr b in
     jbind (branch_head env cfg branch) (\<lambda>head.
     jbind (pull_requests env cfg branch) (\<lambda>pulls.
     jbind (stage_status env cfg view) (\<lambda>(active, executor).
     let state = av_state view;
         f = no_facts\<lparr>fa_stage_run_active := Known active, fa_remote_branch_head := Known head,
               fa_open_draft_pr := Known (case pulls of [] \<Rightarrow> None | pr # prs \<Rightarrow> Some pr), fa_now := now\<rparr>;
         seen = (\<lambda>f. \<lparr>ob_facts = f, ob_executor_job_id = None, ob_receipt_run_id = None, ob_pull_request = None, ob_preflight_run_id = None\<rparr>)
     in if state = AUTHORIZED then
          jbind (observe_authorized env cfg view h executor f) (\<lambda>f. jreturn ((seen f)\<lparr>ob_executor_job_id := map_option fst executor\<rparr>))
        else if state = FALLBACK_AUTHORIZED then
          jbind (observe_fallback env cfg view h executor f) (\<lambda>f. jreturn ((seen f)\<lparr>ob_executor_job_id := map_option fst executor\<rparr>))
        else if state = RESULT_BOUND then
          jbind (observe_bound env cfg view f) (\<lambda>f.
          jbind (observe_receipt env loads cfg view f) (\<lambda>(f, run_id). jreturn ((seen f)\<lparr>ob_receipt_run_id := run_id\<rparr>)))
        else if state = VALIDATED then
          jbind (observe_bound env cfg view f) (\<lambda>f.
          jbind (observe_publication env loads cfg view head f) (\<lambda>f. jreturn (seen f)))
        else if state = PUBLISHED then
          jbind (observe_published env cfg view pulls f) (\<lambda>(f, run).
            jreturn ((seen f)\<lparr>ob_pull_request := (case fa_open_draft_pr f of Known pr \<Rightarrow> pr | UNKNOWN \<Rightarrow> None), ob_preflight_run_id := run\<rparr>))
        else jreturn (seen f)))))"

end
