(* ===== verification/ControlSteps.thy ===== *)
theory ControlSteps
  imports ControlObserve
begin

text \<open>
  The control jobs (\<open>step\<close>, \<open>owner_decision\<close> and \<open>bind_resume\<close> of \<open>automation/issue_agent_control.py\<close>): each verifies the
  anchor and the ledger, decides at most one step for the active authorization and records it as one signed record, followed by a dispatch
  where a run is to be started. The evidence of a transition is built from what was observed.
\<close>

section \<open>Evidence\<close>

definition plus_hours :: "int \<Rightarrow> pydatetime \<Rightarrow> pydatetime" where
  "plus_hours h d = PyDateTime (dt_wall d + h * 3600000000) (dt_offset d)"

definition FALLBACK_PUBLISH_HOURS :: int where
  "FALLBACK_PUBLISH_HOURS = 6"

definition COMPLETION_HOURS :: int where
  "COMPLETION_HOURS = 24"

definition failure_evidence :: "string \<Rightarrow> authorization_view \<Rightarrow> document" where
  "failure_evidence code view = [(''code'', JStr code), (''failed_from_state'', JStr (av_state view))]"

definition first_record :: "authorization_view \<Rightarrow> json result" where
  "first_record view = (case av_records view of r # rs \<Rightarrow> Inr r | [] \<Rightarrow> Inl (IndexError ''list index out of range''))"

definition issue_of_view :: "authorization_view \<Rightarrow> json result" where
  "issue_of_view view = rbind (first_record view) (\<lambda>r. getitem r ''issue_number'')"

text \<open>The binding that a result of this authorization must declare.\<close>

definition expected_binding :: "('k, 'p) setting \<Rightarrow> authorization_view \<Rightarrow> transport_binding \<Rightarrow> transport_binding result" where
  "expected_binding st view declared =
     rbind (evidence_at view AUTHORIZED) (\<lambda>bound.
     rbind (issue_of_view view) (\<lambda>issue_number.
     rbind (getitem bound ''base_sha'') (\<lambda>base_sha.
     rbind (getitem bound ''task_scope_sha256'') (\<lambda>scope.
     rbind (view_execution_id view) (\<lambda>execution_id.
     rbind (getitem bound ''lineage'') (\<lambda>lineage. rbind (getitem lineage ''handoff_sha256'') (\<lambda>handoff.
       mk_binding
         [(''payload_kind'', JStr ''result''), (''repository_id'', JInt (cf_repository_id (st_configuration st))),
          (''issue_number'', issue_number), (''authorization_id'', JStr (av_authorization_id view)), (''base_sha'', base_sha),
          (''task_scope_sha256'', scope), (''execution_id'', JStr execution_id), (''handoff_sha256'', handoff),
          (''plaintext_sha256'', JStr (tb_plaintext_sha256 declared)),
          (''recipient_key_id'', JStr (sha256_hex (st_raw_key st (cf_result_recipient (st_configuration st)))))])))))))"

text \<open>The evidence of a bound result, or the code of its failure.\<close>

definition bound_evidence ::
  "('k, 'p) setting \<Rightarrow> authorization_view \<Rightarrow> artifact_fact \<Rightarrow> 8 word list option \<Rightarrow> (string + document) result" where
  "bound_evidence st view artifact content =
     (case content of
        None \<Rightarrow> Inr (Inl ''TRANSPORT_INTEGRITY_FAILED'')
      | Some ciphertext \<Rightarrow>
          if af_size artifact > int MAX_ARTIFACT_BYTES \<or> af_digest artifact = [] then Inr (Inl ''TRANSPORT_INTEGRITY_FAILED'')
          else
            let bindings = rbind (header (st_loads st) ciphertext) (\<lambda>declared.
                  rbind (expected_binding st view declared) (\<lambda>expected. Inr (declared, expected)))
            in (case bindings of
                 Inl (TransportIntegrityError why) \<Rightarrow> Inr (Inl ''TRANSPORT_INTEGRITY_FAILED'')
               | Inl e \<Rightarrow> Inl e
               | Inr (declared, expected) \<Rightarrow>
                   if declared \<noteq> expected then Inr (Inl ''TRANSPORT_INTEGRITY_FAILED'')
                   else rbind (owning_run view) (\<lambda>run_id. Inr (Inr
                     [(''result_artifact'', JObj
                        [(''run_id'', JInt run_id), (''artifact_id'', JInt (af_artifact_id artifact)),
                         (''artifact_digest'', JStr (af_digest artifact)), (''ciphertext_sha256'', JStr (sha256_hex ciphertext)),
                         (''aad_sha256'', JStr (binding_digest declared)), (''recipient_key_id'', JStr (tb_recipient_key_id declared))]),
                      (''result_plaintext_sha256'', JStr (tb_plaintext_sha256 declared))]))))"

text \<open>\<open>hint["..."]\<close> after \<open>assert decision.evidence_hint is not None\<close>\<close>

definition hint_field :: "step_decision \<Rightarrow> string \<Rightarrow> json result" where
  "hint_field d k = (case de_evidence_hint d of None \<Rightarrow> Inl (AssertionError '''') | Some kvs \<Rightarrow> ditem k kvs)"

type_synonym built = "(string \<times> document) option"

definition fallback_document :: "step_decision \<Rightarrow> authorization_view \<Rightarrow> observation \<Rightarrow> built result" where
  "fallback_document d view ob =
     rbind (evidence_at view AUTHORIZED) (\<lambda>bound.
     rbind (hint_field d ''cause'') (\<lambda>cause.
     case (ob_executor_job_id ob, fa_executor_conclusion (ob_facts ob)) of
       (Some job_id, Known (Some conclusion)) \<Rightarrow>
         if conclusion \<notin> set EXECUTOR_CONCLUSIONS then Inr None
         else
           rbind (getitem bound ''fallback'') (\<lambda>offered. rbind (getitem offered ''execution_id'') (\<lambda>execution_id.
           let document =
             [(''primary_executor_job_id'', JInt job_id), (''primary_executor_conclusion'', JStr conclusion), (''primary_cause'', cause),
              (''stderr_category'', opt_json JStr (fa_executor_stderr_category (ob_facts ob))),
              (''probe_category'', opt_json JStr (fa_executor_probe_category (ob_facts ob))),
              (''primary_result_artifacts'', JInt 0), (''fallback_executor'', JStr ''codex''), (''fallback_execution_id'', execution_id)]
           in if cause \<noteq> JStr CANARY_FALLBACK_CAUSE then Inr (Some (FALLBACK_AUTHORIZED, document))
              else rbind (canary_refusal_conforms (fa_executor_canary_refusal (ob_facts ob))) (\<lambda>conforms.
                if \<not> conforms then Inr None
                else Inr (Some (FALLBACK_AUTHORIZED, document @
                  [(''canary_refusal'', JObj (case fa_executor_canary_refusal (ob_facts ob) of Some r \<Rightarrow> r | None \<Rightarrow> []))])))))
     | _ \<Rightarrow> Inr None))"

text \<open>\<open>next(a for a in facts.result_artifacts if a.artifact_id == hint["artifact_id"])\<close>\<close>

definition chosen_artifact :: "step_decision \<Rightarrow> facts \<Rightarrow> artifact_fact result" where
  "chosen_artifact d f =
     (case fa_result_artifacts f of
        UNKNOWN \<Rightarrow> Inl (AssertionError '''')
      | Known artifacts \<Rightarrow> rbind (hint_field d ''artifact_id'') (\<lambda>i.
          case filter (\<lambda>a. eq_int i (af_artifact_id a)) artifacts of a # as \<Rightarrow> Inr a | [] \<Rightarrow> Inl (StopIteration '''')))"

definition fallback_result :: "hints \<Rightarrow> pydatetime \<Rightarrow> document option" where
  "fallback_result h now =
     (case hi_attestation_sha256 h of
        None \<Rightarrow> None
      | Some digest \<Rightarrow>
          if \<not> fullmatch rx_sha64 digest then None
          else Some
            ([(''execution_attempt'', JInt 2), (''executor'', JStr ''codex''), (''attestation_sha256'', JStr digest),
              (''deadline_published_at'', JStr (timestamp (plus_hours FALLBACK_PUBLISH_HOURS now)))] @
             (case hi_fallback_model h of
                Some m \<Rightarrow> if fallback_model_conforms (JObj m) then [(''model'', JObj m)] else []
              | None \<Rightarrow> [])))"

definition result_document ::
  "('k, 'p) setting \<Rightarrow> authorization_view \<Rightarrow> observation \<Rightarrow> artifact_fact \<Rightarrow> 8 word list option \<Rightarrow> hints \<Rightarrow> pydatetime \<Rightarrow> built result" where
  "result_document st view ob artifact content h now =
     rbind (bound_evidence st view artifact content) (\<lambda>outcome.
     case (outcome, ob_executor_job_id ob) of
       (Inl code, _) \<Rightarrow> Inr (Some (FAILED, failure_evidence code view))
     | (Inr evidence, None) \<Rightarrow> Inr (Some (FAILED, failure_evidence ''TRANSPORT_INTEGRITY_FAILED'' view))
     | (Inr evidence, Some job_id) \<Rightarrow>
         (case fa_executor_conclusion (ob_facts ob) of
            UNKNOWN \<Rightarrow> Inl (TypeError ''Object of type _Unknown is not JSON serializable'')
          | Known conclusion \<Rightarrow>
              let document = evidence @
                [(''executor_job_id'', JInt job_id), (''executor_conclusion'', opt_json JStr conclusion),
                 (''executor_advisory_code'', opt_json JStr (fa_executor_advisory_code (ob_facts ob)))]
              in if av_state view \<noteq> FALLBACK_AUTHORIZED then Inr (Some (RESULT_BOUND, document))
                 else (case fallback_result h now of
                   None \<Rightarrow> Inr (Some (FAILED, failure_evidence ''EXECUTOR_RESULT_REJECTED'' view))
                 | Some fallback \<Rightarrow> Inr (Some (RESULT_BOUND, document @ [(''fallback'', JObj fallback)])))))"

definition validated_document :: "authorization_view \<Rightarrow> observation \<Rightarrow> built result" where
  "validated_document view ob =
     (case (fa_receipt (ob_facts ob), ob_receipt_run_id ob) of
        (Known (Some receipt), Some run_id) \<Rightarrow>
          rbind (ditem ''result_sha256'' receipt) (\<lambda>result_sha256.
          rbind (ditem ''tree_sha'' receipt) (\<lambda>tree_sha.
          rbind (ditem ''unsigned_commit_sha'' receipt) (\<lambda>commit_sha.
          rbind (ditem ''validation_definition'' receipt) (\<lambda>validation_definition.
          rbind (ditem ''toolchain_sha256'' receipt) (\<lambda>toolchain.
          let document =
            [(''receipt_sha256'', JStr (sha256_hex (canonical_json (JObj receipt)))), (''result_sha256'', result_sha256),
             (''tree_sha'', tree_sha), (''unsigned_commit_sha'', commit_sha), (''validation_definition'', validation_definition),
             (''toolchain_sha256'', toolchain), (''validator_run_id'', JInt run_id),
             (''validation_attempts'', JInt (stage_attempt view ''validation''))]
          in case map_of receipt ''remediation'' of
               None \<Rightarrow> Inr (Some (VALIDATED, document))
             | Some (JObj proof_group) \<Rightarrow> Inr (Some (VALIDATED, document @ [(''remediation'', JObj proof_group)]))
             | Some v \<Rightarrow> Inl (TypeError ''dict() argument''))))))
      | _ \<Rightarrow> Inl (AssertionError ''''))"

text \<open>The texts of a verified ledger, which the digest of a publication is computed from.\<close>

definition text_item :: "json \<Rightarrow> string \<Rightarrow> string result" where
  "text_item v k = rbind (getitem v k) text_value"

definition published_document :: "('k, 'p) setting \<Rightarrow> authorization_view \<Rightarrow> observation \<Rightarrow> pydatetime \<Rightarrow> built result" where
  "published_document st view ob now =
     rbind (evidence_at view AUTHORIZED) (\<lambda>bound. rbind (evidence_at view VALIDATED) (\<lambda>validated.
     rbind (rbind (issue_of_view view) pyint) (\<lambda>issue_number.
     rbind (text_item bound ''base_sha'') (\<lambda>base_sha.
     rbind (text_item bound ''task_scope_sha256'') (\<lambda>scope.
     rbind (view_execution_id view) (\<lambda>execution_id.
     rbind (text_item validated ''result_sha256'') (\<lambda>result_sha256.
     rbind (text_item validated ''tree_sha'') (\<lambda>tree_sha.
     rbind (text_item validated ''unsigned_commit_sha'') (\<lambda>commit_sha.
     rbind (text_item bound ''control_sha'') (\<lambda>control_sha.
     let login = wi_login (cf_writer (st_configuration st))
     in Inr (Some (PUBLISHED,
       [(''writer_login'', JStr login),
        (''publication_identity'', JStr (publication_identity
           \<lparr>pb_repository_id = cf_repository_id (st_configuration st), pb_issue_number = issue_number,
            pb_authorization_id = av_authorization_id view, pb_base_sha = base_sha, pb_task_scope_sha256 = scope,
            pb_execution_id = execution_id, pb_result_sha256 = result_sha256, pb_tree_sha = tree_sha,
            pb_unsigned_commit_sha = commit_sha, pb_control_sha = control_sha, pb_writer_login = login\<rparr>)),
        (''head_sha'', case fa_remote_branch_head (ob_facts ob) of Known h \<Rightarrow> opt_json JStr h | UNKNOWN \<Rightarrow> JNull),
        (''commit_verified'', JBool True), (''publish_attempts'', JInt (stage_attempt view ''publication'')),
        (''deadline_completed_at'', JStr (timestamp (plus_hours COMPLETION_HOURS now)))]))))))))))))"

definition completed_document :: "observation \<Rightarrow> built result" where
  "completed_document ob =
     (case (ob_pull_request ob, ob_preflight_run_id ob) of
        (Some pr, Some run_id) \<Rightarrow>
          rbind (rbind (ditem ''number'' pr) pyint) (\<lambda>number.
          rbind (ditem ''node_id'' pr) (\<lambda>node_id.
          rbind (subget ''head'' ''sha'' pr) (\<lambda>sha.
            Inr (Some (COMPLETED,
              [(''pull_request_number'', JInt number), (''pull_request_node_id'', JStr (pystr node_id)),
               (''pull_request_head_sha'', JStr (pystr sha)), (''draft'', JBool True), (''preflight_run_id'', JInt run_id),
               (''preflight_conclusion'', JStr ''success'')])))))
      | _ \<Rightarrow> Inr None)"

text \<open>The target state and the evidence of a decided transition, or none while the evidence does not conform.\<close>

definition transition_evidence_of ::
  "env \<Rightarrow> ('k, 'p) setting \<Rightarrow> step_decision \<Rightarrow> authorization_view \<Rightarrow> observation \<Rightarrow> hints \<Rightarrow> pydatetime \<Rightarrow> built job" where
  "transition_evidence_of env st d view ob h now =
     jbind (jresult (evidence_at view AUTHORIZED)) (\<lambda>bound.
      if de_target_state d = Some FALLBACK_AUTHORIZED then jresult (fallback_document d view ob)
      else if de_target_state d = Some RESULT_BOUND then
        jbind (jresult (chosen_artifact d (ob_facts ob))) (\<lambda>artifact.
        jbind (download env (af_artifact_id artifact)) (\<lambda>content.
          jresult (result_document st view ob artifact content h now)))
      else if de_target_state d = Some VALIDATED then jresult (validated_document view ob)
      else if de_target_state d = Some PUBLISHED then jresult (published_document st view ob now)
      else if de_target_state d = Some COMPLETED then jresult (completed_document ob)
      else jraise (Raised (ValueError (''no evidence builder for '' @ str_opt (de_target_state d)))))"

section \<open>Starting a job\<close>

text \<open>The anchor is verified and the ledger read; the provenance check of the job remembers its reads.\<close>

definition begin_job :: "env \<Rightarrow> ('k, 'p) setting \<Rightarrow> (provenance_check \<times> ledger_view) job" where
  "begin_job env st =
     jbind (jresult (ledger_ref (st_issue st))) (\<lambda>ref.
     jbind (require_anchor env (st_configuration st) ref) (\<lambda>u s.
       let check = run_provenance (st_configuration st) (en_runs env (js_time s))
       in jbind (load_view env st check) (\<lambda>view. jreturn (check, view)) s))"

definition active_view :: "ledger_view \<Rightarrow> string \<Rightarrow> authorization_view result" where
  "active_view view a = (case lv_authorizations view a of Some v \<Rightarrow> Inr v | None \<Rightarrow> Inl (KeyError a))"

definition dispatch_resume :: "('k, 'p) setting \<Rightarrow> string \<Rightarrow> string \<Rightarrow> string \<Rightarrow> unit job" where
  "dispatch_resume st authorization_id stage nonce =
     send [(''issue'', int_text (st_issue st)), (''authorization_id'', authorization_id), (''stage'', stage), (''nonce'', nonce)]"

definition request_resume ::
  "env \<Rightarrow> ('k, 'p) setting \<Rightarrow> provenance_check \<Rightarrow> authorization_view \<Rightarrow> string \<Rightarrow> string \<Rightarrow> unit job" where
  "request_resume env st check view stage now =
     jbind (new_nonce env) (\<lambda>nonce.
     jbind (append_record env st check (av_authorization_id view) ''resume_requested'' (av_state view)
         [(''stage'', JStr stage), (''nonce'', JStr nonce), (''attempt'', JInt (stage_attempt view stage)), (''dispatched_at'', JStr now)] now) (\<lambda>u.
       dispatch_resume st (av_authorization_id view) stage nonce))"

definition no_step :: "string \<Rightarrow> step_decision" where
  "no_step reason = decide ''noop'' None None None reason"

section \<open>One step\<close>

definition record_transition ::
  "env \<Rightarrow> ('k, 'p) setting \<Rightarrow> provenance_check \<Rightarrow> authorization_view \<Rightarrow> step_decision \<Rightarrow> built \<Rightarrow> string \<Rightarrow> step_decision job" where
  "record_transition env st check view d built now =
     (case built of
        None \<Rightarrow> jreturn (no_step ''transition evidence not conforming yet'')
      | Some (target, evidence) \<Rightarrow>
          if wr_role (st_writer st) \<notin> set (writers_of target)
          then jreturn (no_step (wr_role (st_writer st) @ '' does not write '' @ target))
          else jbind (append_record env st check (av_authorization_id view) ''transition'' target evidence now) (\<lambda>u.
            if Some target = de_target_state d then jreturn d
            else jbind (jresult (ditem ''code'' evidence)) (\<lambda>code. jreturn (decide ''fail'' None (Some (pystr code)) None ''''))))"

definition freeze_code :: "step_decision \<Rightarrow> string" where
  "freeze_code d = (case de_code d of Some c \<Rightarrow> if c = [] then ''STATE_ROLLBACK_SUSPECTED'' else c | None \<Rightarrow> ''STATE_ROLLBACK_SUSPECTED'')"

text \<open>What is done with a decision; \<open>next\<close> is run after an abandonment.\<close>

definition act ::
  "env \<Rightarrow> ('k, 'p) setting \<Rightarrow> hints \<Rightarrow> step_decision job \<Rightarrow> provenance_check \<Rightarrow> authorization_view \<Rightarrow> pydatetime \<Rightarrow> observation \<Rightarrow>
   step_decision \<Rightarrow> step_decision job" where
  "act env st h following check view moment ob d =
     (let now = timestamp moment; a = av_authorization_id view
      in if de_action d = ''freeze'' then
           (if freeze_code d \<in> set FREEZE_CODES then jraise (Frozen (freeze_code d) (de_reason d))
            else jraise (Raised (ValueError (freeze_code d @ '' is not a freeze code''))))
         else if de_action d = ''fail'' then
           (case de_code d of
              None \<Rightarrow> jraise (Raised (AssertionError ''''))
            | Some code \<Rightarrow> jbind (append_record env st check a ''transition'' FAILED (failure_evidence code view) now) (\<lambda>u. jreturn d))
         else if de_action d = ''transition'' then
           jbind (transition_evidence_of env st d view ob h moment) (\<lambda>built. record_transition env st check view d built now)
         else if de_action d \<in> {''resume'', ''redispatch'', ''abandon_resume''} \<and> wr_role (st_writer st) \<notin> set RESUME_ROLES then
           jreturn (no_step (wr_role (st_writer st) @ '' does not manage resumes''))
         else if de_action d = ''resume'' then
           (case de_stage d of
              None \<Rightarrow> jraise (Raised (AssertionError ''''))
            | Some stage \<Rightarrow> jbind (request_resume env st check view stage now) (\<lambda>u. jreturn d))
         else if de_action d = ''redispatch'' then
           (case (av_pending_resume view, de_stage d) of
              (Some p, Some stage) \<Rightarrow> jbind (dispatch_resume st a stage (pr_nonce p)) (\<lambda>u. jreturn d)
            | _ \<Rightarrow> jraise (Raised (AssertionError '''')))
         else if de_action d = ''abandon_resume'' then
           (case av_pending_resume view of
              None \<Rightarrow> jraise (Raised (AssertionError ''''))
            | Some p \<Rightarrow>
                jbind (append_record env st check a ''resume_abandoned'' (av_state view)
                    [(''nonce'', JStr (pr_nonce p)), (''reason'', JStr ''run_concluded_without_output'')] now) (\<lambda>u. following))
         else jreturn d)"

text \<open>\<open>step\<close> up to the point where an abandonment may be followed by one further step.\<close>

definition step_then :: "env \<Rightarrow> ('k, 'p) setting \<Rightarrow> hints \<Rightarrow> (step_decision \<Rightarrow> step_decision job) \<Rightarrow> step_decision job" where
  "step_then env st h following =
     jbind (begin_job env st) (\<lambda>(check, ledger).
       case lv_active ledger of
         None \<Rightarrow> jreturn (no_step ''no active authorization'')
       | Some a \<Rightarrow>
           jbind (jresult (active_view ledger a)) (\<lambda>view.
           jbind (read_clock env) (\<lambda>moment.
           jbind (observe env (st_loads st) (st_configuration st) view (timestamp moment) h) (\<lambda>ob.
           jbind (jresult (advance view (ob_facts ob))) (\<lambda>d.
             act env st h (following d) check view moment ob d)))))"

definition control_step :: "env \<Rightarrow> ('k, 'p) setting \<Rightarrow> hints \<Rightarrow> bool \<Rightarrow> step_decision job" where
  "control_step env st h chain = step_then env st h (\<lambda>d. if chain then step_then env st h jreturn else jreturn d)"

section \<open>The owner's decision and the start of a resumed run\<close>

definition FALLBACK_DECISIONS :: "string list" where
  "FALLBACK_DECISIONS = [''approve'', ''reject'']"

definition owner_decision :: "env \<Rightarrow> ('k, 'p) setting \<Rightarrow> string \<Rightarrow> step_decision job" where
  "owner_decision env st verdict =
     (if verdict \<notin> set FALLBACK_DECISIONS \<or> wr_role (st_writer st) \<noteq> ''owner-decision''
      then jraise (ControlRefused ''MISSING_CONFIGURATION'' ''unknown fallback decision or writer'')
      else jbind (begin_job env st) (\<lambda>(check, ledger).
        case lv_active ledger of
          None \<Rightarrow> jreturn (no_step ''no active authorization'')
        | Some a \<Rightarrow>
            jbind (jresult (active_view ledger a)) (\<lambda>view.
              if av_state view \<noteq> FALLBACK_AUTHORIZED then jreturn (no_step ''no fallback awaits an owner decision'')
              else jbind (read_clock env) (\<lambda>moment.
                let now = timestamp moment
                in if av_pending_resume view \<noteq> None
                   then jreturn (no_step ''an owner-approved fallback run is already pending or in flight'')
                   else if verdict = ''reject'' then
                     jbind (append_record env st check (av_authorization_id view) ''transition'' FAILED
                         (failure_evidence ''OWNER_WITHDREW'' view) now) (\<lambda>u.
                       jreturn (decide ''fail'' None (Some ''OWNER_WITHDREW'') None ''''))
                   else
                     jbind (request_resume env st check view ''fallback'' now) (\<lambda>u.
                       jreturn (decide ''resume'' None None (Some ''fallback'') ''''))))))"

text \<open>A resumed run claims its nonce and gets the commit that it must check out.\<close>

definition bind_resume :: "env \<Rightarrow> ('k, 'p) setting \<Rightarrow> string \<Rightarrow> string \<Rightarrow> string \<Rightarrow> string job" where
  "bind_resume env st authorization_id stage nonce =
     jbind (begin_job env st) (\<lambda>(check, ledger).
       let pending = Option.bind (lv_authorizations ledger authorization_id) av_pending_resume
       in case (lv_authorizations ledger authorization_id, pending) of
            (Some view, Some p) \<Rightarrow>
              if lv_active ledger \<noteq> Some authorization_id \<or> pr_nonce p \<noteq> nonce \<or> pr_stage p \<noteq> stage \<or> pr_bound_run_id p \<noteq> None
              then jraise (ControlRefused ''RERUN_REFUSED'' ''no unbound pending resume carries this nonce'')
              else
                jbind (jresult (binding view ''control_sha'')) (\<lambda>sha. let control_sha = pystr sha in
                jbind (get_json env (repo_path (st_configuration st) (''/compare/'' @ control_sha @ ''...main''))) (\<lambda>compare.
                let on_main = (case compare of JObj kvs \<Rightarrow> dget ''status'' kvs \<in> {JStr ''ahead'', JStr ''identical''} | _ \<Rightarrow> False)
                in if \<not> on_main then
                     jbind (read_clock env) (\<lambda>moment.
                     jbind (append_record env st check authorization_id ''transition'' FAILED
                         (failure_evidence ''CONTROL_SHA_NOT_ON_MAIN'' view) (timestamp moment)) (\<lambda>u.
                       jraise (ControlRefused ''CONTROL_SHA_NOT_ON_MAIN'' ''the bound control commit is no longer on main'')))
                   else
                     jbind (read_clock env) (\<lambda>moment.
                     jbind (append_record env st check authorization_id ''resume_bound'' (av_state view)
                         [(''nonce'', JStr nonce), (''run_id'', JInt (wr_run_id (st_writer st)))] (timestamp moment)) (\<lambda>u.
                       jreturn control_sha))))
          | _ \<Rightarrow> jraise (ControlRefused ''RERUN_REFUSED'' ''no unbound pending resume carries this nonce''))"

end
