(* ===== verification/ControlJobs.thy ===== *)
theory ControlJobs
  imports ControlSteps LedgerDecisions "HOL-Library.Sublist"
begin

text \<open>
  What a control job can do to the world. A job is a sequence of moves: time passes, others move the ledger, the job writes a
  record that it prepared on exactly the chain it writes on, or it sends a dispatch. Every job is shown to be such a sequence with a
  bounded number of writes and dispatches, each dispatch for a run that a record of the ledger requests.
\<close>

section \<open>Moves\<close>

text \<open>A record that the job may write on a chain: it was prepared on that chain, under provenance answers of some moment.\<close>

definition prepared_by :: "env \<Rightarrow> ('k, 'p) setting \<Rightarrow> entry list \<Rightarrow> entry \<Rightarrow> bool" where
  "prepared_by env st es e =
     (\<exists>t a kind target evidence now.
        ledger_prepare (st_verify st) (cf_trust (st_configuration st)) (run_provenance (st_configuration st) (en_runs env t))
          (cf_repository_id (st_configuration st)) (st_issue st) (st_key st) (st_writer st) es a kind target evidence now = Inr e)"

text \<open>A dispatch that a record of the ledger requests, with its nonce.\<close>

definition dispatch_inputs :: "int \<Rightarrow> string \<Rightarrow> string \<Rightarrow> string \<Rightarrow> (string \<times> string) list" where
  "dispatch_inputs issue a stage nonce =
     [(''issue'', int_text issue), (''authorization_id'', a), (''stage'', stage), (''nonce'', nonce)]"

definition requested_by :: "string \<Rightarrow> string \<Rightarrow> string \<Rightarrow> entry \<Rightarrow> bool" where
  "requested_by a stage nonce e = (requests a stage (fst e) \<and> sfield ''nonce'' (jfield ''evidence'' (fst e)) = nonce)"

definition on_ledger :: "int \<Rightarrow> entry list \<Rightarrow> (string \<times> string) list \<Rightarrow> bool" where
  "on_ledger issue es inputs =
     (\<exists>a stage nonce. inputs = dispatch_inputs issue a stage nonce \<and> (\<exists>e \<in> set es. requested_by a stage nonce e))"

inductive waits :: "env \<Rightarrow> job_state \<Rightarrow> job_state \<Rightarrow> bool" for env where
  same: "waits env s s"
| ticks: "waits env s t \<Longrightarrow> waits env s (tick t)"
| arrives: "waits env s t \<Longrightarrow> waits env s (arrive env t)"

inductive moves :: "env \<Rightarrow> ('k, 'p) setting \<Rightarrow> job_state \<Rightarrow> nat \<Rightarrow> nat \<Rightarrow> job_state \<Rightarrow> bool" for env st s where
  begins: "moves env st s 0 0 s"
| waiting: "moves env st s n k t \<Longrightarrow> waits env t u \<Longrightarrow> moves env st s n k u"
| writing: "moves env st s n k t \<Longrightarrow> prepared_by env st (js_chain t) e \<Longrightarrow>
    moves env st s (Suc n) k (t\<lparr>js_chain := js_chain t @ [e]\<rparr>)"
| sending: "moves env st s n k t \<Longrightarrow> on_ledger (st_issue st) (js_chain t) inputs \<Longrightarrow>
    moves env st s n (Suc k) (t\<lparr>js_sent := js_sent t @ [inputs]\<rparr>)"

lemma waits_trans: "waits env t u \<Longrightarrow> waits env s t \<Longrightarrow> waits env s u"
  by (induction rule: waits.induct) (auto intro: waits.intros)

lemma moves_trans: "moves env st t m j u \<Longrightarrow> moves env st s n k t \<Longrightarrow> moves env st s (n + m) (k + j) u"
  by (induction rule: moves.induct) (auto intro: moves.intros)

section \<open>Jobs as moves\<close>

text \<open>The ledger branch only grows: the anchor's rules forbid deletion and forced pushes.\<close>

definition append_only :: "env \<Rightarrow> bool" where
  "append_only env = (\<forall>t es. prefix es (en_others env t es))"

definition silent :: "env \<Rightarrow> 'a job \<Rightarrow> bool" where
  "silent env m = (\<forall>s. waits env s (snd (m s)))"

text \<open>\<open>V\<close> is what is known of the chain when the job starts.\<close>

definition spends :: "env \<Rightarrow> ('k, 'p) setting \<Rightarrow> (entry list \<Rightarrow> bool) \<Rightarrow> nat \<Rightarrow> nat \<Rightarrow> 'a job \<Rightarrow> bool" where
  "spends env st V n k m = (\<forall>s. V (js_chain s) \<longrightarrow> (\<exists>i j. i \<le> n \<and> j \<le> k \<and> moves env st s i j (snd (m s))))"

definition monotone :: "(entry list \<Rightarrow> bool) \<Rightarrow> bool" where
  "monotone V = (\<forall>es fs. V es \<longrightarrow> prefix es fs \<longrightarrow> V fs)"

lemma monotoneD: "monotone V \<Longrightarrow> V es \<Longrightarrow> prefix es fs \<Longrightarrow> V fs"
  by (simp add: monotone_def)

lemma waits_extends: "waits env s t \<Longrightarrow> append_only env \<Longrightarrow> prefix (js_chain s) (js_chain t)"
proof (induction rule: waits.induct)
  case (arrives s t)
  then show ?case by (auto simp: append_only_def arrive_def intro: prefix_order.trans)
qed (simp_all add: tick_def)

lemma moves_extends: "moves env st s n k t \<Longrightarrow> append_only env \<Longrightarrow> prefix (js_chain s) (js_chain t)"
proof (induction rule: moves.induct)
  case (waiting n k t u)
  then show ?case using waits_extends prefix_order.trans by blast
qed auto

lemma silent_bind: "silent env m \<Longrightarrow> (\<And>x. silent env (f x)) \<Longrightarrow> silent env (jbind m f)"
  unfolding silent_def jbind_def by (auto split: prod.split sum.split) (metis snd_conv, metis snd_conv waits_trans)

lemma silent_basic [simp]:
  "silent env (jreturn x)" "silent env (jraise e)" "silent env (jlift c)" "silent env (jresult r)"
  "silent env (get_json env path)" "silent env (download env i)" "silent env (read_clock env)" "silent env (new_nonce env)"
  "silent env (read_chain env)"
  by (simp_all add: silent_def jreturn_def jraise_def jlift_def jresult_def get_json_def download_def read_clock_def new_nonce_def
      read_chain_def waits.intros)

lemma spends_silent: "silent env m \<Longrightarrow> spends env st V n k m"
  unfolding spends_def silent_def by (meson le0 moves.begins moves.waiting)

lemma spends_bind:
  assumes "append_only env" and "monotone V" and "spends env st V n k m" and "\<And>x. spends env st V n' k' (f x)"
  shows "spends env st V (n + n') (k + k') (jbind m f)"
  unfolding spends_def
proof (intro allI impI)
  fix s :: job_state
  assume V: "V (js_chain s)"
  then obtain i j where ij: "i \<le> n" "j \<le> k" "moves env st s i j (snd (m s))" using assms(3) by (auto simp: spends_def)
  have V': "V (js_chain (snd (m s)))" using monotoneD [OF assms(2) V] moves_extends [OF ij(3) assms(1)] by blast
  show "\<exists>i j. i \<le> n + n' \<and> j \<le> k + k' \<and> moves env st s i j (snd (jbind m f s))"
  proof (cases "m s")
    case (Pair out t)
    show ?thesis
    proof (cases out)
      case (Inl e)
      then show ?thesis using ij by (intro exI [of _ i] exI [of _ j]) (simp add: jbind_def Pair)
    next
      case (Inr x)
      from V' assms(4) [of x] obtain i' j' where "i' \<le> n'" "j' \<le> k'" "moves env st t i' j' (snd (f x t))"
        by (auto simp: spends_def Pair)
      with ij show ?thesis
        by (intro exI [of _ "i + i'"] exI [of _ "j + j'"]) (simp add: jbind_def Pair Inr moves_trans)
    qed
  qed
qed

lemma spends_mono: "spends env st V n k m \<Longrightarrow> n \<le> n' \<Longrightarrow> k \<le> k' \<Longrightarrow> spends env st V n' k' m"
  unfolding spends_def by (meson order_trans)

lemma spends_silent_bind:
  assumes "append_only env" and "monotone V" and "silent env m" and "\<And>x. spends env st V n k (f x)"
  shows "spends env st V n k (jbind m f)"
  using spends_bind [OF assms(1,2) spends_silent [OF assms(3), where n = 0 and k = 0] assms(4)] by simp

section \<open>Reading jobs are silent\<close>

lemmas silent_splits = option.split sum.split prod.split json.split list.split parsed.split pyexc.split fact.split

lemma silent_anchor: "silent env (require_anchor env cfg ref)"
  by (simp add: require_anchor_def silent_bind)

lemma silent_view: "silent env (load_view env st check)"
  by (simp add: load_view_def silent_bind)

lemma silent_run_job [simp]: "silent env (run_job env cfg run_id name)"
  unfolding run_job_def by (intro silent_bind) (simp_all split: silent_splits)

lemma silent_artifacts [simp]: "silent env (listed_artifacts env cfg run_id name)"
  unfolding listed_artifacts_def by (intro silent_bind) (simp_all split: silent_splits)

lemma silent_single_json [simp]: "silent env (single_json env loads artifact)"
  unfolding single_json_def by (intro silent_bind) (simp_all split: silent_splits)

lemma silent_stage_outcome [simp]: "silent env (stage_outcome env loads cfg view stage)"
  unfolding stage_outcome_def by (intro silent_bind) (simp_all add: silent_bind split: silent_splits)

lemma silent_pull_requests [simp]: "silent env (pull_requests env cfg branch)"
  unfolding pull_requests_def by (intro silent_bind) (simp_all split: silent_splits)

lemma silent_preflight [simp]: "silent env (preflight env cfg head)"
  unfolding preflight_def by (intro silent_bind) (simp_all split: silent_splits)

lemma silent_resume_run_status [simp]: "silent env (resume_run_status env cfg view)"
  unfolding resume_run_status_def by (auto intro!: silent_bind split: silent_splits)

lemma silent_branch_head [simp]: "silent env (branch_head env cfg branch)"
  unfolding branch_head_def by (auto intro!: silent_bind split: silent_splits)

lemma silent_stage_status [simp]: "silent env (stage_status env cfg view)"
  unfolding stage_status_def by (auto intro!: silent_bind split: silent_splits)

lemma silent_observed_resume [simp]: "silent env (observed_resume env cfg view f)"
  by (simp add: observed_resume_def silent_bind)

lemma silent_states [simp]:
  "silent env (observe_authorized env cfg view h executor f)" "silent env (observe_fallback env cfg view h executor f)"
  "silent env (observe_bound env cfg view f)" "silent env (observe_receipt env loads cfg view f)"
  "silent env (observe_publication env loads cfg view head f)" "silent env (observe_published env cfg view pulls f)"
  unfolding observe_authorized_def observe_fallback_def observe_bound_def observe_receipt_def observe_publication_def
    observe_published_def
  by (auto intro!: silent_bind split: silent_splits)

lemma silent_observe [simp]: "silent env (observe env loads cfg view now h)"
  unfolding observe_def Let_def by (auto intro!: silent_bind)

lemma silent_evidence [simp]: "silent env (transition_evidence_of env st d view ob h now)"
  unfolding transition_evidence_of_def by (auto intro!: silent_bind)

section \<open>Writing and dispatching\<close>

definition written_record :: "('k, 'p) setting \<Rightarrow> string \<Rightarrow> string \<Rightarrow> string \<Rightarrow> document \<Rightarrow> string \<Rightarrow> entry \<Rightarrow> bool" where
  "written_record st a kind target evidence now e =
     (\<exists>view. fst e = json_sorted (ledger_record (st_key st) (st_writer st) (cf_repository_id (st_configuration st)) (st_issue st) view
        a kind target evidence now))"

lemma ledger_write_effect:
  assumes "ledger_write weather current seen e = (out, entries)"
  shows "entries = current \<or> current = seen \<and> entries = current @ [e]" and "out = Inr () \<Longrightarrow> e \<in> set entries"
proof -
  obtain r where r: "store_append weather current (git_head seen) e = (r, entries)"
    using assms by (auto simp: ledger_write_def split: prod.splits sum.splits pyexc.splits)
  show "entries = current \<or> current = seen \<and> entries = current @ [e]" by (rule git.lease [OF r])
  show "e \<in> set entries" if "out = Inr ()"
  proof -
    have "r = Inr ()" using assms that by (auto simp: ledger_write_def r split: sum.splits pyexc.splits)
    with r have "entries = seen @ [e]"
      by (auto simp: store_append_def Let_def git_head_snoc [symmetric] git_head_inject split: if_splits)
    then show ?thesis by simp
  qed
qed

lemma write_entry_moves:
  assumes "write_entry env seen e s = (out, t)" and "prepared_by env st seen e"
  shows "\<exists>i \<le> 1. moves env st s i 0 t \<and> (out = Inr () \<longrightarrow> e \<in> set (js_chain t))"
proof -
  define s' where "s' = arrive env s"
  obtain outcome entries where wrote: "ledger_write (en_weather env (js_time s)) (js_chain s') seen e = (outcome, entries)" by fastforce
  note effect = ledger_write_effect [OF wrote]
  have t: "out = outcome" "t = tick (s'\<lparr>js_chain := entries\<rparr>)"
    using assms(1) by (simp_all add: write_entry_def wrote [unfolded s'_def]) (simp add: s'_def arrive_def)
  have s': "moves env st s 0 0 s'" unfolding s'_def by (intro moves.waiting [OF moves.begins] waits.intros)
  have written: "e \<in> set (js_chain t)" if "out = Inr ()" using effect(2) that by (simp add: t tick_def)
  from effect(1) show ?thesis
  proof
    assume "entries = js_chain s'"
    then have "t = tick s'" by (simp add: t)
    then have "moves env st s 0 0 t" using moves.waiting [OF s' waits.ticks [OF waits.same]] by simp
    then show ?thesis using written by blast
  next
    assume "js_chain s' = seen \<and> entries = js_chain s' @ [e]"
    then have "moves env st s 1 0 t"
      using moves.waiting [OF moves.writing [OF s'] waits.ticks [OF waits.same], of e] assms(2) by (simp add: t)
    then show ?thesis using written by blast
  qed
qed

lemma append_record_moves:
  assumes "append_record env st (run_provenance (st_configuration st) (en_runs env t0)) a kind target evidence now s = (out, t)"
  shows "\<exists>i \<le> 1. moves env st s i 0 t \<and>
    (out = Inr () \<longrightarrow> (\<exists>e \<in> set (js_chain t). written_record st a kind target evidence now e))"
proof -
  let ?prepare = "\<lambda>seen. ledger_prepare (st_verify st) (cf_trust (st_configuration st))
      (run_provenance (st_configuration st) (en_runs env t0)) (cf_repository_id (st_configuration st)) (st_issue st) (st_key st)
      (st_writer st) seen a kind target evidence now"
  obtain seen s' where read: "read_chain env s = (seen, s')" by fastforce
  have "silent env (read_chain env)" by simp
  then have "waits env s s'" unfolding silent_def by (metis read snd_conv)
  then have s': "moves env st s 0 0 s'" by (intro moves.waiting [OF moves.begins])
  show ?thesis
  proof (cases "\<exists>es e. seen = Inr es \<and> ?prepare es = Inr e")
    case False
    then have "(\<exists>x. out = Inl x) \<and> t = s'"
      using assms by (auto simp: append_record_def jbind_def read jlift_def split: sum.splits prod.splits)
    then show ?thesis using s' by auto
  next
    case True
    then obtain es e where e: "seen = Inr es" "?prepare es = Inr e" by blast
    have "write_entry env es e s' = (out, t)"
      using assms by (simp add: append_record_def jbind_def read e jlift_def)
    moreover have "prepared_by env st es e" unfolding prepared_by_def using e(2) by blast
    ultimately obtain i where i: "i \<le> 1" "moves env st s' i 0 t" "out = Inr () \<longrightarrow> e \<in> set (js_chain t)"
      using write_entry_moves by blast
    have "written_record st a kind target evidence now e"
      using e(2) by (auto elim!: ledger_prepareE simp: written_record_def stored_def)
    then show ?thesis using i moves_trans [OF i(2) s'] by auto
  qed
qed

lemma spends_append: "spends env st V 1 k (append_record env st (run_provenance (st_configuration st) (en_runs env t0)) a kind target evidence now)"
  unfolding spends_def by (metis append_record_moves prod.collapse zero_le)

lemma spends_dispatch: "spends env st (\<lambda>es. \<exists>e \<in> set es. requested_by a stage nonce e) n 1 (dispatch_resume st a stage nonce)"
  unfolding spends_def
proof (intro allI impI)
  fix s :: job_state
  assume "\<exists>e \<in> set (js_chain s). requested_by a stage nonce e"
  then have "on_ledger (st_issue st) (js_chain s) (dispatch_inputs (st_issue st) a stage nonce)" by (auto simp: on_ledger_def)
  from moves.waiting [OF moves.sending [OF moves.begins this] waits.ticks [OF waits.same]]
  show "\<exists>i j. i \<le> n \<and> j \<le> 1 \<and> moves env st s i j (snd (dispatch_resume st a stage nonce s))"
    by (intro exI [of _ 0] exI [of _ 1]) (simp add: dispatch_resume_def send_def dispatch_inputs_def)
qed

section \<open>A pending resume is recorded\<close>

definition pending_recorded :: "entry list \<Rightarrow> ledger_view \<Rightarrow> bool" where
  "pending_recorded es view =
     (\<forall>a v p. lv_authorizations view a = Some v \<longrightarrow> av_pending_resume v = Some p \<longrightarrow>
        (\<exists>e \<in> set es. requested_by a (pr_stage p) (pr_nonce p) e))"

lemma apply_record_pending:
  assumes "apply_record verify trust provenance view r index = Inr view'" and "pending_recorded es view"
  shows "pending_recorded (es @ [(r, index)]) view'"
  unfolding pending_recorded_def
proof (intro allI impI)
  fix a v p assume v: "lv_authorizations view' a = Some v" and p: "av_pending_resume v = Some p"
  from assms(1) obtain v1 where fold: "(if sfield ''kind'' (json_sorted r) = ''transition'' then apply_transition view (json_sorted r)
      else apply_resume view (json_sorted r)) = Inr v1" and view': "view' = record_applied (json_sorted r) v1"
    by (rule apply_recordE)
  from v p view' obtain v0 where v0: "lv_authorizations v1 a = Some v0" "av_pending_resume v0 = Some p"
    by (auto simp: record_applied_auth split: if_splits)
  have old: "\<exists>e \<in> set (es @ [(r, index)]). requested_by a (pr_stage p) (pr_nonce p) e" if "lv_authorizations view a = Some w" "av_pending_resume w = Some q" "pr_stage p = pr_stage q" "pr_nonce p = pr_nonce q" for w q
    using assms(2) that by (fastforce simp: pending_recorded_def)
  show "\<exists>e \<in> set (es @ [(r, index)]). requested_by a (pr_stage p) (pr_nonce p) e"
  proof (cases "sfield ''kind'' r = ''transition''")
    case True
    with fold have "apply_transition view (json_sorted r) = Inr v1" by simp
    then have "lv_authorizations view a = Some v0"
      by (cases rule: apply_transitionE) (use v0 in \<open>auto simp: set_authorization_auth split: if_splits\<close>)
    then show ?thesis using old v0(2) by blast
  next
    case False
    with fold have "apply_resume view (json_sorted r) = Inr v1" by simp
    then show ?thesis
    proof (cases rule: apply_resumeE)
      case (1 w w')
      show ?thesis
      proof (cases "a = sfield ''authorization_id'' r")
        case same: True
        with 1 v0 have "w' = v0" by (simp add: set_authorization_auth)
        with 1(6) v0(2) have "(\<exists>q. av_pending_resume w = Some q \<and> pr_stage p = pr_stage q \<and> pr_nonce p = pr_nonce q) \<or>
            sfield ''kind'' r = ''resume_requested'' \<and> pr_stage p = sfield ''stage'' (jfield ''evidence'' r) \<and>
            pr_nonce p = sfield ''nonce'' (jfield ''evidence'' r)"
          by (auto simp: jfield_sorted split: if_splits elim!: apply_resume_requestedE apply_resume_abandonedE apply_resume_boundE)
        then show ?thesis
        proof
          assume "\<exists>q. av_pending_resume w = Some q \<and> pr_stage p = pr_stage q \<and> pr_nonce p = pr_nonce q"
          then obtain q where "av_pending_resume w = Some q" "pr_stage p = pr_stage q" "pr_nonce p = pr_nonce q" by blast
          with old [of w q] 1(1) same show ?thesis by simp
        next
          assume "sfield ''kind'' r = ''resume_requested'' \<and> pr_stage p = sfield ''stage'' (jfield ''evidence'' r) \<and>
            pr_nonce p = sfield ''nonce'' (jfield ''evidence'' r)"
          then have "requested_by a (pr_stage p) (pr_nonce p) (r, index)" by (simp add: requested_by_def requests_def same)
          then show ?thesis by simp
        qed
      next
        case other: False
        with 1 v0 have "lv_authorizations view a = Some v0" by (simp add: set_authorization_auth)
        then show ?thesis using old v0(2) by blast
      qed
    qed
  qed
qed

lemma verify_from_pending:
  assumes "verify_from verify trust provenance view entries = Inr view'" and "pending_recorded es view"
  shows "pending_recorded (es @ entries) view'"
  using assms
proof (induction entries arbitrary: view es)
  case (Cons e entries)
  obtain r index where e: "e = (r, index)" by (cases e)
  obtain w where w: "apply_record verify trust provenance view r index = Inr w" "verify_from verify trust provenance w entries = Inr view'"
    using Cons.prems(1) by (auto simp: e rbind_Inr_iff)
  from Cons.IH [OF w(2) apply_record_pending [OF w(1) Cons.prems(2)]] show ?case by (simp add: e)
qed simp

lemma verify_chain_pending: "verify_chain verify trust provenance repo issue es = Inr view \<Longrightarrow> pending_recorded es view"
  using verify_from_pending [of verify trust provenance "empty_view repo issue" es view "[]"]
  by (simp add: verify_chain_def pending_recorded_def empty_view_def)

section \<open>Jobs on a ledger that was read\<close>

definition read_from :: "('k, 'p) setting \<Rightarrow> ledger_view \<Rightarrow> entry list \<Rightarrow> bool" where
  "read_from st view es =
     (\<exists>seen provenance. prefix seen es \<and> verify_chain (st_verify st) (cf_trust (st_configuration st)) provenance
        (cf_repository_id (st_configuration st)) (st_issue st) seen = Inr view)"

lemma monotone_read [simp]: "monotone (read_from st view)"
  unfolding monotone_def read_from_def by (metis prefix_order.trans)

lemma monotone_any [simp]: "monotone (\<lambda>es. True)"
  by (simp add: monotone_def)

lemma read_from_pending:
  assumes "read_from st view es" and "lv_authorizations view a = Some v" and "av_pending_resume v = Some p"
  shows "\<exists>e \<in> set es. requested_by a (pr_stage p) (pr_nonce p) e"
  using assms verify_chain_pending unfolding read_from_def pending_recorded_def by (metis set_mono_prefix subsetD)

lemma load_view_reads:
  assumes "load_view env st check s = (Inr view, t)"
  shows "read_from st view (js_chain t)"
  using assms by (auto simp: load_view_def jbind_def read_chain_def jlift_def read_from_def tick_def split: if_splits sum.splits prod.splits)

lemma begin_job_reads:
  assumes "begin_job env st s = (out, t)"
  shows "waits env s t"
    and "out = Inr (check, view) \<Longrightarrow> \<exists>t0. check = run_provenance (st_configuration st) (en_runs env t0) \<and> read_from st view (js_chain t)"
proof -
  let ?check = "\<lambda>u. run_provenance (st_configuration st) (en_runs env (js_time u))"
  have silent: "silent env (jresult (ledger_ref (st_issue st)))" "\<And>ref. silent env (require_anchor env (st_configuration st) ref)"
    "\<And>check. silent env (jbind (load_view env st check) (\<lambda>view. jreturn (check, view)))"
    by (simp_all add: silent_anchor silent_bind silent_view)
  have "silent env (begin_job env st)"
    unfolding begin_job_def
    by (intro silent_bind silent(1,2)) (use silent(3) in \<open>auto simp: silent_def Let_def\<close>)
  then show "waits env s t" unfolding silent_def by (metis assms snd_conv)
  show "\<exists>t0. check = run_provenance (st_configuration st) (en_runs env t0) \<and> read_from st view (js_chain t)" if "out = Inr (check, view)"
    using assms that
    by (auto simp: begin_job_def jbind_def jresult_def jlift_def jreturn_def Let_def dest: load_view_reads split: prod.splits sum.splits)
qed

lemma spends_begin:
  assumes "append_only env"
    and "\<And>t view. spends env st (read_from st view) n k (f (run_provenance (st_configuration st) (en_runs env t), view))"
  shows "spends env st V n k (jbind (begin_job env st) f)"
  unfolding spends_def
proof (intro allI impI)
  fix s :: job_state
  obtain out t where run: "begin_job env st s = (out, t)" by fastforce
  note w = moves.waiting [OF moves.begins begin_job_reads(1) [OF run]]
  show "\<exists>i j. i \<le> n \<and> j \<le> k \<and> moves env st s i j (snd (jbind (begin_job env st) f s))"
  proof (cases out)
    case (Inl e)
    then show ?thesis using w [of st] by (intro exI [of _ 0]) (simp add: jbind_def run)
  next
    case (Inr cv)
    obtain check view where cv: "cv = (check, view)" by fastforce
    obtain t0 where t0: "check = run_provenance (st_configuration st) (en_runs env t0)" "read_from st view (js_chain t)"
      using begin_job_reads(2) [OF run] Inr cv by blast
    from assms(2) [of view t0] t0 obtain i j where "i \<le> n" "j \<le> k" "moves env st t i j (snd (f cv t))"
      by (auto simp: spends_def cv)
    with moves_trans [OF this(3) w] show ?thesis by (intro exI [of _ i] exI [of _ j]) (simp add: jbind_def run Inr)
  qed
qed

section \<open>The three jobs\<close>

lemma ledger_record_fields:
  "jget ''kind'' (ledger_record key writer repo issue view a kind target evidence now) = Some (JStr kind)"
  "jget ''authorization_id'' (ledger_record key writer repo issue view a kind target evidence now) = Some (JStr a)"
  "jget ''evidence'' (ledger_record key writer repo issue view a kind target evidence now) = Some (JObj evidence)"
  by (simp_all add: ledger_record_def sign_record_def Let_def)

lemma written_fields:
  assumes "written_record st a kind target evidence now e"
  shows "sfield ''kind'' (fst e) = kind" and "sfield ''authorization_id'' (fst e) = a"
    and "sfield k (jfield ''evidence'' (fst e)) = sfield k (JObj evidence)"
  using assms unfolding written_record_def
  by (auto simp only: sfield_sorted jfield_sorted) (simp_all add: sfield_def jfield_def ledger_record_fields)

lemma written_request:
  assumes "written_record st a ''resume_requested'' target
     [(''stage'', JStr stage), (''nonce'', JStr nonce), (''attempt'', JInt n), (''dispatched_at'', JStr now)] now e"
  shows "requested_by a stage nonce e"
  by (simp add: requested_by_def requests_def written_fields [OF assms]) (simp add: sfield_def)

lemma spends_request:
  assumes "append_only env"
  shows "spends env st V 1 1 (request_resume env st (run_provenance (st_configuration st) (en_runs env t0)) view stage now)"
proof -
  let ?check = "run_provenance (st_configuration st) (en_runs env t0)"
  let ?a = "av_authorization_id view"
  have "spends env st (\<lambda>es. True) 1 1 (jbind (append_record env st ?check ?a ''resume_requested'' (av_state view)
         [(''stage'', JStr stage), (''nonce'', JStr nonce), (''attempt'', JInt (stage_attempt view stage)), (''dispatched_at'', JStr now)] now)
       (\<lambda>u. dispatch_resume st ?a stage nonce))" (is "spends env st _ 1 1 (jbind ?append _)") for nonce
    unfolding spends_def
  proof (intro allI impI)
    fix s :: job_state
    obtain out t where run: "?append s = (out, t)" by fastforce
    from append_record_moves [OF this] obtain i where i: "i \<le> 1" "moves env st s i 0 t"
      "out = Inr () \<longrightarrow> (\<exists>e \<in> set (js_chain t). written_record st ?a ''resume_requested'' (av_state view)
         [(''stage'', JStr stage), (''nonce'', JStr nonce), (''attempt'', JInt (stage_attempt view stage)), (''dispatched_at'', JStr now)] now e)"
      by blast
    show "\<exists>i j. i \<le> 1 \<and> j \<le> 1 \<and> moves env st s i j (snd (jbind ?append (\<lambda>u. dispatch_resume st ?a stage nonce) s))"
    proof (cases out)
      case (Inl e)
      then show ?thesis using i by (intro exI [of _ i] exI [of _ 0]) (simp add: jbind_def run)
    next
      case (Inr u)
      then have "\<exists>e \<in> set (js_chain t). requested_by ?a stage nonce e"
        using i(3) written_request by (cases u) blast
      with spends_dispatch [of env st ?a stage nonce 0] obtain j where "j \<le> 1" "moves env st t 0 j (snd (dispatch_resume st ?a stage nonce t))"
        by (auto simp: spends_def)
      with i(1) moves_trans [OF this(2) i(2)] show ?thesis
        by (intro exI [of _ i] exI [of _ j]) (simp add: jbind_def run Inr)
    qed
  qed
  note once = this
  have "spends env st (\<lambda>es. True) 1 1 (request_resume env st ?check view stage now)"
    unfolding request_resume_def by (rule spends_silent_bind [OF assms monotone_any silent_basic(8)]) (rule once)
  then show ?thesis by (simp add: spends_def)
qed

text \<open>A dispatch that is repeated is one of the pending resume, with the nonce that the ledger holds.\<close>

lemma advance_redispatch:
  assumes "advance v f = Inr d" and "de_action d = ''redispatch''" and "auth_ok v"
  shows "\<exists>p. av_pending_resume v = Some p \<and> de_stage d = Some (pr_stage p)"
proof -
  have "acceptable v d" using advance_decides [OF assms(3), of f] assms(1) by (simp add: settles_def)
  then show ?thesis using assms(2) by (auto simp: acceptable_def Let_def)
qed

lemma read_from_auth: "read_from st view es \<Longrightarrow> lv_authorizations view a = Some v \<Longrightarrow> auth_ok v \<and> av_authorization_id v = a"
  unfolding read_from_def using auth_okI view_okD(1) verify_chain_view(1) by blast

text \<open>What is done with a decision.\<close>

lemma spends_act:
  assumes "append_only env"
    and "lv_authorizations ledger a = Some view" and "read_from st ledger es" and "advance view (ob_facts ob) = Inr d"
    and following: "spends env st (read_from st ledger) n (Suc 0) following"
  shows "spends env st (read_from st ledger) (Suc n) (Suc 0)
    (act env st h following (run_provenance (st_configuration st) (en_runs env t0)) view moment ob d)"
proof -
  let ?check = "run_provenance (st_configuration st) (en_runs env t0)"
  note ok = read_from_auth [OF assms(3,2)]
  note appended = spends_bind [OF assms(1) monotone_read spends_append [where k = 0]]
  have stop: "spends env st (read_from st ledger) i j m" if "silent env m" for i j and m :: "'c job" by (rule spends_silent [OF that])
  have append_then: "spends env st (read_from st ledger) (Suc n) (Suc 0) (jbind (append_record env st ?check b kind target evidence now) f)"
    if "\<And>u. spends env st (read_from st ledger) n (Suc 0) (f u)" for b kind target evidence now and f :: "unit \<Rightarrow> 'c job"
    using appended [OF that] by simp
  have request: "spends env st (read_from st ledger) (Suc n) (Suc 0) (jbind (request_resume env st ?check view stage now) (\<lambda>u. jreturn d))" for stage now
    using spends_bind [OF assms(1) monotone_read spends_request [OF assms(1)] stop [of "jreturn d" n 0]] by simp
  have again: "spends env st (read_from st ledger) (Suc n) (Suc 0) (jbind (dispatch_resume st (av_authorization_id view) stage (pr_nonce p)) (\<lambda>u. jreturn d))"
    if "av_pending_resume view = Some p" "de_stage d = Some stage" "de_action d = ''redispatch''" for p stage
  proof -
    have "stage = pr_stage p" using advance_redispatch [OF assms(4) that(3)] ok that(1,2) by auto
    with read_from_pending [OF _ assms(2) that(1)] ok
    have "\<exists>e \<in> set es. requested_by (av_authorization_id view) stage (pr_nonce p) e" if "read_from st ledger es" for es
      using that by simp
    then have "spends env st (read_from st ledger) 0 1 (dispatch_resume st (av_authorization_id view) stage (pr_nonce p))"
      using spends_dispatch [of env st "av_authorization_id view" stage "pr_nonce p" 0] by (auto simp: spends_def)
    from spends_bind [OF assms(1) monotone_read this stop [of "jreturn d" "Suc n" 0]] show ?thesis by simp
  qed
  have recorded: "spends env st (read_from st ledger) (Suc n) (Suc 0) (record_transition env st ?check view d built now)" for built now
    unfolding record_transition_def
    by (simp add: append_then stop silent_bind split: option.split)
  show ?thesis
    unfolding act_def Let_def
    by (simp add: append_then stop request again recorded following spends_silent_bind [OF assms(1) monotone_read] split: option.split)
qed

lemma spends_step_then:
  assumes "append_only env" and following: "\<And>V d. monotone V \<Longrightarrow> spends env st V n (Suc 0) (following d)"
  shows "spends env st V (Suc n) (Suc 0) (step_then env st h following)"
  unfolding step_then_def
proof (rule spends_begin [OF assms(1)])
  fix t0 ledger
  let ?check = "run_provenance (st_configuration st) (en_runs env t0)"
  note rules = spends_silent_bind [OF assms(1) monotone_read] spends_silent
  have active: "spends env st (read_from st ledger) (Suc n) (Suc 0) (jbind (jresult (active_view ledger a)) (\<lambda>view.
      jbind (read_clock env) (\<lambda>moment.
      jbind (observe env (st_loads st) (st_configuration st) view (timestamp moment) h) (\<lambda>ob.
      jbind (jresult (advance view (ob_facts ob))) (\<lambda>d. act env st h (following d) ?check view moment ob d)))))" for a
  proof (cases "lv_authorizations ledger a")
    case None
    then show ?thesis by (simp add: active_view_def jresult_def jlift_def lift_def jbind_def spends_def moves.begins)
        (metis le0 moves.begins)
  next
    case (Some view)
    have decided: "spends env st (read_from st ledger) (Suc n) (Suc 0)
        (jbind (jresult (advance view (ob_facts ob))) (\<lambda>d. act env st h (following d) ?check view moment ob d))" for moment ob
    proof (cases "advance view (ob_facts ob)")
      case (Inl e)
      then show ?thesis by (simp add: jresult_def jlift_def lift_def jbind_def spends_def) (metis le0 moves.begins)
    next
      case (Inr d)
      have "spends env st (read_from st ledger) (Suc n) (Suc 0) (act env st h (following d) ?check view moment ob d)"
      proof (cases "\<exists>es. read_from st ledger es")
        case True
        then show ?thesis using spends_act [OF assms(1) Some _ Inr following [OF monotone_read]] by auto
      next
        case False
        then show ?thesis by (simp add: spends_def)
      qed
      then show ?thesis by (simp add: Inr jresult_def jlift_def lift_def jbind_def spends_def)
    qed
    have "spends env st (read_from st ledger) (Suc n) (Suc 0) (jbind (jresult (active_view ledger a)) (\<lambda>view.
      jbind (read_clock env) (\<lambda>moment.
      jbind (observe env (st_loads st) (st_configuration st) view (timestamp moment) h) (\<lambda>ob.
      jbind (jresult (advance view (ob_facts ob))) (\<lambda>d. act env st h (following d) ?check view moment ob d))))) =
      spends env st (read_from st ledger) (Suc n) (Suc 0) (
      jbind (read_clock env) (\<lambda>moment.
      jbind (observe env (st_loads st) (st_configuration st) view (timestamp moment) h) (\<lambda>ob.
      jbind (jresult (advance view (ob_facts ob))) (\<lambda>d. act env st h (following d) ?check view moment ob d))))"
      by (simp add: active_view_def Some jresult_def jlift_def jbind_def spends_def)
    then show ?thesis by (simp add: rules decided)
  qed
  show "spends env st (read_from st ledger) (Suc n) (Suc 0)
     (case (?check, ledger) of (check, ledger) \<Rightarrow>
        (case lv_active ledger of
          None \<Rightarrow> jreturn (no_step ''no active authorization'')
        | Some a \<Rightarrow> jbind (jresult (active_view ledger a)) (\<lambda>view.
            jbind (read_clock env) (\<lambda>moment.
            jbind (observe env (st_loads st) (st_configuration st) view (timestamp moment) h) (\<lambda>ob.
            jbind (jresult (advance view (ob_facts ob))) (\<lambda>d. act env st h (following d) check view moment ob d))))))"
    using active by (simp add: rules split: option.split)
qed

lemma spends_step:
  assumes "append_only env"
  shows "spends env st V (if chain then 2 else 1) 1 (control_step env st h chain)"
proof -
  have plain: "spends env st V (Suc 0) (Suc 0) (step_then env st h jreturn)" for V
    using spends_step_then [OF assms, of st 0 jreturn] by (simp add: spends_silent)
  have "spends env st V (Suc (if chain then 1 else 0)) (Suc 0) (control_step env st h chain)"
    unfolding control_step_def by (rule spends_step_then [OF assms]) (auto simp: spends_silent plain)
  then show ?thesis by (simp add: numeral_2_eq_2 split: if_splits)
qed

lemma spends_owner_decision:
  assumes "append_only env"
  shows "spends env st V 1 1 (owner_decision env st verdict)"
proof -
  note rules = spends_silent_bind [OF assms monotone_read] spends_silent
  have append_then: "spends env st (read_from st ledger) (Suc 0) (Suc 0)
      (jbind (append_record env st (run_provenance (st_configuration st) (en_runs env t0)) b kind target evidence now) (\<lambda>u. jreturn d))"
    for ledger t0 b kind target evidence now and d :: step_decision
  proof -
    have "spends env st (read_from st ledger) 0 1 (jreturn d)" by (simp add: spends_silent)
    from spends_bind [OF assms monotone_read spends_append [where k = 0] this] show ?thesis by simp
  qed
  have request_then: "spends env st (read_from st ledger) (Suc 0) (Suc 0)
      (jbind (request_resume env st (run_provenance (st_configuration st) (en_runs env t0)) view stage now) (\<lambda>u. jreturn d))"
    for ledger t0 view stage now and d :: step_decision
  proof -
    have "spends env st (read_from st ledger) 0 0 (jreturn d)" by (simp add: spends_silent)
    from spends_bind [OF assms monotone_read spends_request [OF assms] this] show ?thesis by simp
  qed
  have "spends env st V (Suc 0) (Suc 0) (jbind (begin_job env st) f)"
    if "\<And>t view. spends env st (read_from st view) (Suc 0) (Suc 0) (f (run_provenance (st_configuration st) (en_runs env t), view))" for f :: "_ \<Rightarrow> step_decision job"
    using spends_begin [OF assms that] .
  then show ?thesis
    by (simp add: owner_decision_def rules Let_def append_then request_then split: option.split)
qed

lemma spends_bind_resume:
  assumes "append_only env"
  shows "spends env st V 1 0 (bind_resume env st a stage nonce)"
proof -
  note rules = spends_silent_bind [OF assms monotone_read] spends_silent
  have append_then: "spends env st (read_from st ledger) (Suc 0) 0
      (jbind (append_record env st (run_provenance (st_configuration st) (en_runs env t0)) b kind target evidence now) (\<lambda>u. f))"
    if "silent env f" for ledger t0 b kind target evidence now and f :: "string job"
  proof -
    have "spends env st (read_from st ledger) 0 0 f" using that by (simp add: spends_silent)
    from spends_bind [OF assms monotone_read spends_append [where k = 0] this] show ?thesis by simp
  qed
  have "spends env st V (Suc 0) 0 (jbind (begin_job env st) f)"
    if "\<And>t view. spends env st (read_from st view) (Suc 0) 0 (f (run_provenance (st_configuration st) (en_runs env t), view))" for f :: "_ \<Rightarrow> string job"
    using spends_begin [OF assms that] .
  then show ?thesis
    by (simp add: bind_resume_def rules Let_def append_then split: option.split)
qed

end
