(* ===== verification/ControlProperties.thy ===== *)
theory ControlProperties
  imports ControlJobs
begin

text \<open>
  What the control jobs promise, whatever other jobs do to the ledger at the same time: the ledger stays verifiable, runs are
  dispatched only for requests on the ledger, and a job writes and dispatches at most what its decision needs.
\<close>

section \<open>More provenance accepts more\<close>

lemma apply_record_provenance:
  assumes "apply_record verify trust provenance view r index = Inr view'"
    and "provenance' (jfield ''recorded_by'' (json_sorted r)) (json_sorted r)"
  shows "apply_record verify trust provenance' view r index = Inr view'"
proof -
  have valid: "validate_record_schema (json_sorted r) = Inr (json_sorted r)" using apply_record_links(1) [OF assms(1)] .
  note applied = apply_record_valid [OF apply_record_encodes [OF assms(1)] valid]
  show ?thesis
    using assms unfolding applied by (auto simp: apply_validated_def rbind_Inr_iff ledger_simps)
qed

lemma verify_from_provenance:
  assumes "verify_from verify trust provenance view entries = Inr view'" and "\<And>w x. provenance w x \<Longrightarrow> provenance' w x"
  shows "verify_from verify trust provenance' view entries = Inr view'"
  using assms(1)
proof (induction entries arbitrary: view)
  case (Cons e entries)
  obtain r index where e: "e = (r, index)" by (cases e)
  obtain w where w: "apply_record verify trust provenance view r index = Inr w" "verify_from verify trust provenance w entries = Inr view'"
    using Cons.prems by (auto simp: e rbind_Inr_iff)
  have "provenance' (jfield ''recorded_by'' (json_sorted r)) (json_sorted r)" using apply_record_links(3) [OF w(1)] assms(2) by blast
  with apply_record_provenance [OF w(1)] Cons.IH [OF w(2)] show ?case by (simp add: e)
qed simp

lemma verify_chain_provenance:
  "verify_chain verify trust provenance repo issue entries = Inr view \<Longrightarrow> (\<And>w x. provenance w x \<Longrightarrow> provenance' w x) \<Longrightarrow>
   verify_chain verify trust provenance' repo issue entries = Inr view"
  unfolding verify_chain_def by (rule verify_from_provenance)

section \<open>The ledger stays verifiable\<close>

text \<open>The chain verifies when the records that \<open>truth\<close> tells were written by lifecycle runs are trusted.\<close>

definition sound_ledger :: "('k, 'p) setting \<Rightarrow> (json \<Rightarrow> json \<Rightarrow> bool) \<Rightarrow> entry list \<Rightarrow> bool" where
  "sound_ledger st truth es =
     (length es \<le> 10000 \<longrightarrow> (\<exists>view. verify_chain (st_verify st) (cf_trust (st_configuration st)) truth
        (cf_repository_id (st_configuration st)) (st_issue st) es = Inr view))"

definition honest_runs :: "env \<Rightarrow> ('k, 'p) setting \<Rightarrow> (json \<Rightarrow> json \<Rightarrow> bool) \<Rightarrow> bool" where
  "honest_runs env st truth = (\<forall>t w r. run_provenance (st_configuration st) (en_runs env t) w r = Inr True \<longrightarrow> truth w r)"

lemma waits_sound:
  assumes "waits env s t" and "\<And>t es. sound_ledger st truth es \<Longrightarrow> sound_ledger st truth (en_others env t es)"
    and "sound_ledger st truth (js_chain s)"
  shows "sound_ledger st truth (js_chain t)"
  using assms(1,3) by induction (simp_all add: tick_def arrive_def assms(2))

lemma prepared_sound:
  assumes "prepared_by env st es e" and "honest_runs env st truth"
  shows "sound_ledger st truth (es @ [e])"
  unfolding sound_ledger_def
proof
  assume "length (es @ [e]) \<le> 10000"
  then have short: "length es < 10000" by simp
  obtain t a kind target evidence now where
    "ledger_prepare (st_verify st) (cf_trust (st_configuration st)) (run_provenance (st_configuration st) (en_runs env t))
      (cf_repository_id (st_configuration st)) (st_issue st) (st_key st) (st_writer st) es a kind target evidence now = Inr e"
    using assms(1) unfolding prepared_by_def by blast
  from prepare_verifies [OF this short] obtain view where "verify_chain (st_verify st) (cf_trust (st_configuration st))
      (trusted (run_provenance (st_configuration st) (en_runs env t))) (cf_repository_id (st_configuration st)) (st_issue st) (es @ [e]) = Inr view" ..
  from verify_chain_provenance [OF this, of truth] assms(2)
  show "\<exists>view. verify_chain (st_verify st) (cf_trust (st_configuration st)) truth (cf_repository_id (st_configuration st)) (st_issue st)
      (es @ [e]) = Inr view"
    by (auto simp: honest_runs_def trusted_def)
qed

lemma moves_sound:
  assumes "moves env st s n k t" and "honest_runs env st truth"
    and "\<And>t es. sound_ledger st truth es \<Longrightarrow> sound_ledger st truth (en_others env t es)" and "sound_ledger st truth (js_chain s)"
  shows "sound_ledger st truth (js_chain t)"
  using assms(1,4)
proof induction
  case (waiting n k t u)
  then show ?case using waits_sound [OF _ assms(3)] by blast
next
  case (writing n k t e)
  then show ?case using prepared_sound [OF _ assms(2)] by simp
qed simp_all

section \<open>Dispatches are recorded\<close>

definition dispatches_recorded :: "('k, 'p) setting \<Rightarrow> job_state \<Rightarrow> bool" where
  "dispatches_recorded st s = (\<forall>inputs \<in> set (js_sent s). on_ledger (st_issue st) (js_chain s) inputs)"

lemma on_ledger_grows: "on_ledger issue es inputs \<Longrightarrow> prefix es fs \<Longrightarrow> on_ledger issue fs inputs"
  unfolding on_ledger_def by (drule set_mono_prefix) (metis subsetD)

lemma waits_sent: "waits env s t \<Longrightarrow> js_sent t = js_sent s"
  by (induction rule: waits.induct) (simp_all add: tick_def arrive_def)

lemma moves_recorded:
  assumes "moves env st s n k t" and "append_only env" and "dispatches_recorded st s"
  shows "dispatches_recorded st t"
  using assms(1,3)
proof induction
  case (waiting n k t u)
  then show ?case
    using waits_sent [OF waiting.hyps(2)] on_ledger_grows [OF _ waits_extends [OF waiting.hyps(2) assms(2)]]
    by (auto simp: dispatches_recorded_def)
next
  case (writing n k t e)
  then show ?case using on_ledger_grows [of "st_issue st" "js_chain t" _ "js_chain t @ [e]"] by (auto simp: dispatches_recorded_def)
qed (auto simp: dispatches_recorded_def)

section \<open>What a job leaves behind\<close>

text \<open>A record that other jobs may add to the branch.\<close>

definition foreign :: "env \<Rightarrow> entry \<Rightarrow> bool" where
  "foreign env e = (\<exists>t es. e \<in> set (drop (length es) (en_others env t es)))"

text \<open>What a job leaves behind: the ledger only grew; of the records that were added, at most \<open>n\<close> are the job's own, each prepared on
  exactly the records before it, and all the others were added by others; at most \<open>k\<close> dispatches were sent.\<close>

definition leaves :: "env \<Rightarrow> ('k, 'p) setting \<Rightarrow> job_state \<Rightarrow> nat \<Rightarrow> nat \<Rightarrow> job_state \<Rightarrow> bool" where
  "leaves env st s n k t =
     (prefix (js_chain s) (js_chain t) \<and>
      (\<exists>own. own \<subseteq> {length (js_chain s)..<length (js_chain t)} \<and> card own \<le> n \<and>
        (\<forall>i \<in> own. prepared_by env st (take i (js_chain t)) (js_chain t ! i)) \<and>
        (\<forall>i \<in> {length (js_chain s)..<length (js_chain t)} - own. foreign env (js_chain t ! i))) \<and>
      (\<exists>ds. js_sent t = js_sent s @ ds \<and> length ds \<le> k))"

lemma waits_foreign:
  assumes "waits env s t" and "append_only env"
  shows "\<forall>i \<in> {length (js_chain s)..<length (js_chain t)}. foreign env (js_chain t ! i)"
  using assms(1)
proof induction
  case (arrives s t)
  obtain es where es: "js_chain (arrive env t) = js_chain t @ es"
    using assms(2) by (auto simp: append_only_def arrive_def prefix_def)
  have new: "foreign env e" if "e \<in> set es" for e
    unfolding foreign_def using that es by (intro exI [of _ "js_time t"] exI [of _ "js_chain t"]) (simp add: arrive_def)
  show ?case
  proof
    fix i assume i: "i \<in> {length (js_chain s)..<length (js_chain (arrive env t))}"
    show "foreign env (js_chain (arrive env t) ! i)"
    proof (cases "i < length (js_chain t)")
      case True
      then show ?thesis using arrives.IH i by (simp add: es nth_append)
    next
      case False
      then have "js_chain (arrive env t) ! i \<in> set es" using i by (auto simp: es nth_append)
      then show ?thesis by (rule new)
    qed
  qed
qed (simp_all add: tick_def)

lemma leaves_grow:
  assumes "leaves env st s n k t" and "js_chain u = js_chain t @ es" and "js_sent u = js_sent t"
    and "\<forall>i \<in> {length (js_chain t)..<length (js_chain u)}. foreign env (js_chain u ! i)"
  shows "leaves env st s n k u"
proof -
  obtain own ds where own: "own \<subseteq> {length (js_chain s)..<length (js_chain t)}" "card own \<le> n"
      "\<forall>i \<in> own. prepared_by env st (take i (js_chain t)) (js_chain t ! i)"
      "\<forall>i \<in> {length (js_chain s)..<length (js_chain t)} - own. foreign env (js_chain t ! i)"
    and ds: "js_sent t = js_sent s @ ds" "length ds \<le> k" and p: "prefix (js_chain s) (js_chain t)"
    using assms(1) unfolding leaves_def by blast
  have old: "js_chain u ! i = js_chain t ! i" "take i (js_chain u) = take i (js_chain t)" if "i < length (js_chain t)" for i
    using that by (simp_all add: assms(2) nth_append)
  have prepared: "\<forall>i \<in> own. prepared_by env st (take i (js_chain u)) (js_chain u ! i)"
    using own(1,3) old by (metis atLeastLessThan_iff subsetD)
  have rest: "\<forall>i \<in> {length (js_chain s)..<length (js_chain u)} - own. foreign env (js_chain u ! i)"
    using own(4) assms(4) old(1) by (metis DiffE DiffI atLeastLessThan_iff leI)
  have "own \<subseteq> {length (js_chain s)..<length (js_chain u)}" using own(1) by (auto simp: assms(2))
  moreover have "prefix (js_chain s) (js_chain u)" using p by (simp add: assms(2))
  ultimately show ?thesis unfolding leaves_def using own(2) prepared rest ds assms(3) by metis
qed

lemma leaves_write:
  assumes "leaves env st s n k t" and "prepared_by env st (js_chain t) e"
  shows "leaves env st s (Suc n) k (t\<lparr>js_chain := js_chain t @ [e]\<rparr>)"
proof -
  obtain own ds where own: "own \<subseteq> {length (js_chain s)..<length (js_chain t)}" "card own \<le> n"
      "\<forall>i \<in> own. prepared_by env st (take i (js_chain t)) (js_chain t ! i)"
      "\<forall>i \<in> {length (js_chain s)..<length (js_chain t)} - own. foreign env (js_chain t ! i)"
    and ds: "js_sent t = js_sent s @ ds" "length ds \<le> k" and p: "prefix (js_chain s) (js_chain t)"
    using assms(1) unfolding leaves_def by blast
  let ?l = "length (js_chain t)" and ?u = "js_chain t @ [e]"
  have old: "?u ! i = js_chain t ! i" "take i ?u = take i (js_chain t)" if "i < ?l" for i
    using that by (simp_all add: nth_append)
  have "finite own" using own(1) by (rule finite_subset) simp
  then have "card (insert ?l own) \<le> Suc n" using own(2) by (simp add: card_insert_if)
  moreover have "insert ?l own \<subseteq> {length (js_chain s)..<length ?u}"
    using own(1) prefix_length_le [OF p] by auto
  moreover have "prepared_by env st (take i ?u) (?u ! i)" if "i \<in> insert ?l own" for i
  proof (cases "i = ?l")
    case True
    then show ?thesis using assms(2) by simp
  next
    case False
    then have "i \<in> own" using that by simp
    moreover from this have "i < ?l" using own(1) by auto
    ultimately show ?thesis using own(3) by (simp add: old)
  qed
  moreover have "\<forall>i \<in> {length (js_chain s)..<length ?u} - insert ?l own. foreign env (?u ! i)"
    using own(4) old(1) by (auto simp: less_Suc_eq)
  moreover have "prefix (js_chain s) ?u" using p by simp
  ultimately show ?thesis
    unfolding leaves_def using ds by (intro conjI exI [of _ "insert ?l own"] exI [of _ ds]) simp_all
qed

lemma moves_leave:
  assumes "moves env st s n k t" and "append_only env"
  shows "leaves env st s n k t"
  using assms(1)
proof induction
  case begins
  then show ?case by (simp add: leaves_def)
next
  case (waiting n k t u)
  from waits_extends [OF waiting.hyps(2) assms(2)] obtain es where "js_chain u = js_chain t @ es" by (auto simp: prefix_def)
  from leaves_grow [OF waiting.IH this waits_sent [OF waiting.hyps(2)] waits_foreign [OF waiting.hyps(2) assms(2)]] show ?case .
next
  case (writing n k t e)
  then show ?case by (intro leaves_write)
next
  case (sending n k t inputs)
  then obtain ds where "js_sent t = js_sent s @ ds" "length ds \<le> k" by (auto simp: leaves_def)
  then have "\<exists>ds. js_sent t @ [inputs] = js_sent s @ ds \<and> length ds \<le> Suc k" by (intro exI [of _ "ds @ [inputs]"]) simp
  with sending.IH show ?case by (simp add: leaves_def)
qed

lemma leaves_mono: "leaves env st s n k t \<Longrightarrow> n \<le> n' \<Longrightarrow> k \<le> k' \<Longrightarrow> leaves env st s n' k' t"
  unfolding leaves_def by (meson order_trans)

lemma waits_alone: "waits env s t \<Longrightarrow> en_others env = (\<lambda>t es. es) \<Longrightarrow> js_chain t = js_chain s"
  by (induction rule: waits.induct) (simp_all add: tick_def arrive_def)

text \<open>Alone, every added record is the job's own.\<close>

lemma leaves_alone:
  assumes "leaves env st s n k t" and "en_others env = (\<lambda>t es. es)"
  shows "length (js_chain t) \<le> length (js_chain s) + n"
proof -
  obtain own where own: "own \<subseteq> {length (js_chain s)..<length (js_chain t)}" "card own \<le> n"
      "\<forall>i \<in> {length (js_chain s)..<length (js_chain t)} - own. foreign env (js_chain t ! i)"
    using assms(1) unfolding leaves_def by blast
  have "\<not> foreign env e" for e by (simp add: foreign_def assms(2))
  then have "own = {length (js_chain s)..<length (js_chain t)}" using own(1,3) by blast
  then show ?thesis using own(2) by simp
qed

lemma job_moves:
  assumes "append_only env"
  shows "\<exists>i j. i \<le> (if chain then 2 else 1) \<and> j \<le> 1 \<and> moves env st s i j (snd (control_step env st h chain s))"
    and "\<exists>i j. i \<le> 1 \<and> j \<le> 1 \<and> moves env st s i j (snd (owner_decision env st verdict s))"
    and "\<exists>i j. i \<le> 1 \<and> j \<le> 0 \<and> moves env st s i j (snd (bind_resume env st a stage nonce s))"
  using spends_step [OF assms, of st "\<lambda>es. True" chain h] spends_owner_decision [OF assms, of st "\<lambda>es. True" verdict]
    spends_bind_resume [OF assms, of st "\<lambda>es. True" a stage nonce]
  unfolding spends_def by blast+

text \<open>What all sequences of moves of a bounded length keep, the jobs keep.\<close>

lemma jobs_keep:
  assumes "append_only env" and "\<And>n k t. moves env st s n k t \<Longrightarrow> P n k t" and "\<And>i j n k t. P i j t \<Longrightarrow> i \<le> n \<Longrightarrow> j \<le> k \<Longrightarrow> P n k t"
  shows "P (if chain then 2 else 1) 1 (snd (control_step env st h chain s)) \<and> P 1 1 (snd (owner_decision env st verdict s)) \<and>
    P 1 0 (snd (bind_resume env st a stage nonce s))"
  using job_moves [OF assms(1)] assms(2,3) by meson

section \<open>A request is claimed once\<close>

lemma jbind_Inr: "jbind m f s = (Inr y, u) \<longleftrightarrow> (\<exists>x t. m s = (Inr x, t) \<and> f x t = (Inr y, u))"
  by (auto simp: jbind_def split: prod.splits sum.splits)

lemma begin_job_verified:
  assumes "begin_job env st s = (Inr (check, view), t)"
  shows "verify_chain (st_verify st) (cf_trust (st_configuration st)) (trusted check) (cf_repository_id (st_configuration st)) (st_issue st)
    (js_chain t) = Inr view"
  using assms
  by (auto simp: begin_job_def jbind_Inr jreturn_def Let_def load_view_def read_chain_def jlift_def tick_def split: if_splits)

lemma append_record_prepared:
  assumes "append_record env st check a kind target evidence now s = (Inr (), t)"
  obtains seen e view view' where "js_chain t = seen @ [e]" and "written_record st a kind target evidence now e"
    and "verify_chain (st_verify st) (cf_trust (st_configuration st)) (trusted check) (cf_repository_id (st_configuration st)) (st_issue st)
      seen = Inr view"
    and "apply_record (st_verify st) (cf_trust (st_configuration st)) (trusted check) view (fst e) None = Inr view'"
proof -
  from assms obtain seen s' e where e: "ledger_prepare (st_verify st) (cf_trust (st_configuration st)) check
      (cf_repository_id (st_configuration st)) (st_issue st) (st_key st) (st_writer st) seen a kind target evidence now = Inr e"
    "write_entry env seen e s' = (Inr (), t)"
    by (auto simp: append_record_def jbind_Inr jlift_def)
  have chain: "js_chain t = seen @ [e]"
    using e(2) by (auto simp: write_entry_def ledger_write_def store_append_def Let_def tick_def git_head_snoc [symmetric] git_head_inject
        split: prod.splits sum.splits pyexc.splits if_splits)
  from e(1) show thesis
  proof (rule ledger_prepareE)
    fix view view' index
    let ?r = "ledger_record (st_key st) (st_writer st) (cf_repository_id (st_configuration st)) (st_issue st) view a kind target evidence now"
    assume view: "verify_chain (st_verify st) (cf_trust (st_configuration st)) (trusted check) (cf_repository_id (st_configuration st))
        (st_issue st) seen = Inr view"
      and step: "apply_record (st_verify st) (cf_trust (st_configuration st)) (trusted check) view ?r None = Inr view'"
      and e': "e = stored ?r index"
    have fst: "fst e = json_sorted ?r" by (simp add: e' stored_def)
    have "apply_record (st_verify st) (cf_trust (st_configuration st)) (trusted check) view (fst e) None = Inr view'"
      using step by (simp only: fst apply_record_sorted [OF json_sorted_idem])
    moreover have "written_record st a kind target evidence now e" unfolding written_record_def fst by blast
    ultimately show thesis using that [OF chain _ view] by blast
  qed
qed

lemma bind_resume_append:
  assumes "bind_resume env st a stage nonce s = (Inr sha, t)"
  obtains check target now s' where "append_record env st check a ''resume_bound'' target
      [(''nonce'', JStr nonce), (''run_id'', JInt (wr_run_id (st_writer st)))] now s' = (Inr (), t)"
proof -
  obtain check ledger s1 where begun: "begin_job env st s = (Inr (check, ledger), s1)"
    using assms by (auto simp: bind_resume_def jbind_Inr)
  have "\<exists>target now s'. append_record env st check a ''resume_bound'' target
      [(''nonce'', JStr nonce), (''run_id'', JInt (wr_run_id (st_writer st)))] now s' = (Inr (), t)"
  proof (cases "lv_authorizations ledger a")
    case None
    then show ?thesis using assms by (simp add: bind_resume_def jbind_def begun jraise_def)
  next
    case (Some view)
    then show ?thesis using assms
      by (cases "av_pending_resume view") (auto simp: bind_resume_def jbind_Inr begun jraise_def jreturn_def Let_def split: if_splits)
  qed
  then show thesis using that by blast
qed

text \<open>An authorization whose request waits for a run, and the record that makes it so.\<close>

definition claimable :: "ledger_view \<Rightarrow> string \<Rightarrow> string \<Rightarrow> bool" where
  "claimable view a nonce = (lv_active view = Some a \<and>
     (\<exists>v p. lv_authorizations view a = Some v \<and> av_pending_resume v = Some p \<and> pr_bound_run_id p = None \<and> pr_nonce p = nonce))"

definition requested_anew :: "string \<Rightarrow> string \<Rightarrow> json \<Rightarrow> bool" where
  "requested_anew a nonce r = (sfield ''kind'' r = ''resume_requested'' \<and> sfield ''authorization_id'' r = a \<and>
     sfield ''nonce'' (jfield ''evidence'' r) = nonce)"

lemma claimable_applied [simp]: "claimable (record_applied r view) a nonce = claimable view a nonce"
  by (auto simp: claimable_def record_applied_def Let_def)

lemma claimable_transition:
  assumes "apply_transition w r = Inr v1" and "claimable v1 a nonce"
  shows "claimable w a nonce"
  using assms(1)
proof (cases rule: apply_transitionE)
  case claim
  then show ?thesis using assms(2) by (auto simp: claimable_def set_authorization_def)
next
  case (move v)
  let ?b = "sfield ''authorization_id'' r"
  have "a \<noteq> ?b" using assms(2) by (auto simp: move(7) claimable_def set_authorization_def)
  then show ?thesis using assms(2) by (simp add: move(7) claimable_def set_authorization_def split: if_splits)
qed

lemma claimable_resume:
  assumes "apply_resume w r = Inr v1" and "claimable v1 a nonce"
  shows "sfield ''kind'' r = ''resume_requested'' \<and> sfield ''authorization_id'' r = a \<and> sfield ''nonce'' (jfield ''evidence'' r) = nonce"
  using assms(1)
proof (rule apply_resumeE)
  fix v v' assume v: "lv_active w = Some (sfield ''authorization_id'' r)" "v1 = set_authorization (sfield ''authorization_id'' r) v' w"
    "(if sfield ''kind'' r = ''resume_requested'' then apply_resume_requested v (jfield ''evidence'' r)
      else if sfield ''kind'' r = ''resume_abandoned'' then apply_resume_abandoned v (jfield ''evidence'' r)
      else apply_resume_bound v r) = Inr v'"
  have a: "sfield ''authorization_id'' r = a" using assms(2) v(1) by (simp add: v(2) claimable_def set_authorization_def)
  obtain p where p: "av_pending_resume v' = Some p" "pr_bound_run_id p = None" "pr_nonce p = nonce"
    using assms(2) by (auto simp: v(2) a claimable_def set_authorization_def)
  have "apply_resume_abandoned v e \<noteq> Inr v'" "apply_resume_bound v r \<noteq> Inr v'" for e
    using p(1,2) by (auto elim!: apply_resume_abandonedE apply_resume_boundE)
  with v(3) have k: "sfield ''kind'' r = ''resume_requested''" "apply_resume_requested v (jfield ''evidence'' r) = Inr v'"
    by (simp_all split: if_splits)
  from k(2) have "sfield ''nonce'' (jfield ''evidence'' r) = nonce"
    by (rule apply_resume_requestedE) (use p in auto)
  with k a show ?thesis by simp
qed

lemma claimable_step:
  assumes "apply_record verify trust provenance w r index = Inr w'" and "claimable w' a nonce"
  shows "claimable w a nonce \<or> requested_anew a nonce r"
  using assms(1)
proof (rule apply_recordE)
  let ?r = "json_sorted r"
  fix v1 assume v1: "(if sfield ''kind'' ?r = ''transition'' then apply_transition w ?r else apply_resume w ?r) = Inr v1"
    and w': "w' = record_applied ?r v1"
  have c: "claimable v1 a nonce" using assms(2) unfolding w' claimable_applied .
  show ?thesis
  proof (cases "sfield ''kind'' ?r = ''transition''")
    case True
    then have "apply_transition w ?r = Inr v1" using v1 by simp
    from claimable_transition [OF this c] show ?thesis ..
  next
    case False
    then have "apply_resume w ?r = Inr v1" using v1 by simp
    from claimable_resume [OF this c] show ?thesis by (simp add: requested_anew_def jfield_sorted)
  qed
qed

lemma claimable_from:
  assumes "verify_from verify trust provenance w es = Inr w'" and "claimable w' a nonce"
  shows "claimable w a nonce \<or> (\<exists>e \<in> set es. requested_anew a nonce (fst e))"
  using assms(1)
proof (induction es arbitrary: w)
  case Nil
  then show ?case using assms(2) by simp
next
  case (Cons e es)
  obtain r index where e: "e = (r, index)" by (cases e)
  then obtain w1 where w1: "apply_record verify trust provenance w r index = Inr w1" "verify_from verify trust provenance w1 es = Inr w'"
    using Cons.prems by (auto simp: rbind_Inr_iff)
  from Cons.IH [OF w1(2)] claimable_step [OF w1(1)] show ?case by (auto simp: e)
qed

lemma bound_step:
  assumes "apply_record verify trust provenance w r index = Inr w'" and "sfield ''kind'' r = ''resume_bound''"
  shows "claimable w (sfield ''authorization_id'' r) (sfield ''nonce'' (jfield ''evidence'' r))" and "\<not> claimable w' a nonce"
proof -
  let ?r = "json_sorted r"
  from assms obtain v1 where v1: "apply_resume w ?r = Inr v1" "w' = record_applied ?r v1"
    by (elim apply_recordE) simp
  from v1(1) obtain v v' where v: "lv_authorizations w (sfield ''authorization_id'' r) = Some v"
      "lv_active w = Some (sfield ''authorization_id'' r)" "apply_resume_bound v ?r = Inr v'"
      "v1 = set_authorization (sfield ''authorization_id'' r) v' w"
    by (rule apply_resumeE) (use assms(2) in simp)
  from v(3) obtain p where p: "av_pending_resume v = Some p" "pr_bound_run_id p = None" "pr_nonce p = sfield ''nonce'' (jfield ''evidence'' r)"
      "\<exists>q. av_pending_resume v' = Some q \<and> pr_bound_run_id q \<noteq> None"
    by (rule apply_resume_boundE) (simp add: jfield_sorted)
  show "claimable w (sfield ''authorization_id'' r) (sfield ''nonce'' (jfield ''evidence'' r))"
    using v(1,2) p by (simp add: claimable_def)
  show "\<not> claimable w' a nonce"
    unfolding v1(2) claimable_applied v(4) using v(2) p(4) by (auto simp: claimable_def set_authorization_def)
qed

lemma bind_resume_last:
  assumes "bind_resume env st a stage nonce s = (Inr sha, t)"
  obtains es e view where "js_chain t = es @ [e]" and "sfield ''kind'' (fst e) = ''resume_bound''"
    and "ifield ''run_id'' (jfield ''evidence'' (fst e)) = wr_run_id (st_writer st)" and "claimable view a nonce"
    and "\<exists>check. verify_chain (st_verify st) (cf_trust (st_configuration st)) (trusted check) (cf_repository_id (st_configuration st))
      (st_issue st) es = Inr view"
proof -
  obtain check target now s' where append: "append_record env st check a ''resume_bound'' target
      [(''nonce'', JStr nonce), (''run_id'', JInt (wr_run_id (st_writer st)))] now s' = (Inr (), t)"
    using bind_resume_append [OF assms] .
  then show thesis
  proof (rule append_record_prepared)
    fix es e view view'
    assume chain: "js_chain t = es @ [e]" and e: "written_record st a ''resume_bound'' target
        [(''nonce'', JStr nonce), (''run_id'', JInt (wr_run_id (st_writer st)))] now e"
      and view: "verify_chain (st_verify st) (cf_trust (st_configuration st)) (trusted check) (cf_repository_id (st_configuration st))
        (st_issue st) es = Inr view"
      and step: "apply_record (st_verify st) (cf_trust (st_configuration st)) (trusted check) view (fst e) None = Inr view'"
    have fields: "sfield ''nonce'' (jfield ''evidence'' (fst e)) = nonce"
      "ifield ''run_id'' (jfield ''evidence'' (fst e)) = wr_run_id (st_writer st)"
      using e unfolding written_record_def
      by (auto simp only: sfield_sorted ifield_sorted jfield_sorted) (simp_all add: sfield_def ifield_def jfield_def ledger_record_fields)
    from bound_step(1) [OF step written_fields(1) [OF e]] have "claimable view a nonce"
      by (simp add: written_fields(2) [OF e] fields(1))
    with view show thesis using that [OF chain written_fields(1) [OF e] fields(2)] by blast
  qed
qed

lemma bound_twice:
  assumes "bind_resume env st a stage nonce s = (Inr sha, t)" and "bind_resume env' st' a' stage' nonce' s' = (Inr sha', u)"
    and "prefix (js_chain t) (js_chain u)" and "wr_run_id (st_writer st') \<noteq> wr_run_id (st_writer st)"
  shows "\<exists>e \<in> set (drop (length (js_chain t)) (js_chain u)). requested_anew a' nonce' (fst e)"
proof -
  obtain es e where t: "js_chain t = es @ [e]" "sfield ''kind'' (fst e) = ''resume_bound''"
      "ifield ''run_id'' (jfield ''evidence'' (fst e)) = wr_run_id (st_writer st)"
    by (rule bind_resume_last [OF assms(1)])
  obtain fs f view check where u: "js_chain u = fs @ [f]" "ifield ''run_id'' (jfield ''evidence'' (fst f)) = wr_run_id (st_writer st')"
      "claimable view a' nonce'" "verify_chain (st_verify st') (cf_trust (st_configuration st')) (trusted check)
        (cf_repository_id (st_configuration st')) (st_issue st') fs = Inr view"
    by (rule bind_resume_last [OF assms(2)]) blast
  have "js_chain t \<noteq> js_chain u" using t(1,3) u(1,2) assms(4) by auto
  with assms(3) have "prefix (js_chain t) fs" by (simp add: u(1))
  then obtain gs where fs: "fs = es @ e # gs" by (auto simp: prefix_def t(1))
  obtain w w1 where w: "apply_record (st_verify st') (cf_trust (st_configuration st')) (trusted check) w (fst e) (snd e) = Inr w1"
      "verify_from (st_verify st') (cf_trust (st_configuration st')) (trusted check) w1 gs = Inr view"
    using u(4) unfolding fs by (cases e) (auto simp: verify_chain_def verify_from_append rbind_Inr_iff)
  from claimable_from [OF w(2) u(3)] bound_step(2) [OF w(1) t(2)] have "\<exists>g \<in> set gs. requested_anew a' nonce' (fst g)" by blast
  then show ?thesis by (auto simp: u(1) t(1) fs)
qed

text \<open>Nothing to claim: the run is refused and writes nothing. So it is on the chain that another run left, as long as nothing is added.\<close>

lemma bind_refused:
  assumes "begin_job env st s = (Inr (check, view), t)" and "\<not> claimable view a nonce"
  shows "bind_resume env st a stage nonce s = (Inl (ControlRefused ''RERUN_REFUSED'' ''no unbound pending resume carries this nonce''), t)"
  using assms(2) by (auto simp: bind_resume_def jbind_def assms(1) jraise_def Let_def claimable_def split: option.splits)

lemma bound_again_alone:
  assumes "bind_resume env st a stage nonce s = (Inr sha, t)" and "js_chain u = js_chain t" and "en_others env' = (\<lambda>t es. es)"
  shows "js_chain (snd (bind_resume env' st' a' stage' nonce' u)) = js_chain u"
proof -
  obtain answer u' where run: "begin_job env' st' u = (answer, u')" by fastforce
  have same: "js_chain u' = js_chain u" using waits_alone [OF begin_job_reads(1) [OF run] assms(3)] .
  show ?thesis
  proof (cases answer)
    case (Inl e)
    then show ?thesis using same by (simp add: bind_resume_def jbind_def run)
  next
    case (Inr cv)
    obtain check view where cv: "cv = (check, view)" by fastforce
    obtain es e where last: "js_chain t = es @ [e]" "sfield ''kind'' (fst e) = ''resume_bound''" by (rule bind_resume_last [OF assms(1)])
    have "verify_chain (st_verify st') (cf_trust (st_configuration st')) (trusted check) (cf_repository_id (st_configuration st'))
        (st_issue st') (es @ [e]) = Inr view"
      using begin_job_verified [of env' st' u check view u'] run Inr cv same assms(2) last(1) by simp
    then obtain w where "apply_record (st_verify st') (cf_trust (st_configuration st')) (trusted check) w (fst e) (snd e) = Inr view"
      by (cases e) (auto simp: verify_chain_def verify_from_append rbind_Inr_iff)
    from bind_refused [OF run [unfolded Inr cv] bound_step(2) [OF this last(2)]] same show ?thesis by simp
  qed
qed

section \<open>Properties\<close>

text \<open>C6. Control jobs keep the ledger verifiable: whatever other jobs add to the branch in between, as long as they keep it verifiable
  too, after a step (with or without its continuation), an owner's decision or the start of a resumed run the chain verifies, with
  every run that the service confirmed to a job being trusted, up to ten thousand records.\<close>

theorem jobs_keep_ledger:
  assumes "append_only env" and "honest_runs env st truth"
    and "\<And>t es. sound_ledger st truth es \<Longrightarrow> sound_ledger st truth (en_others env t es)" and "sound_ledger st truth (js_chain s)"
  shows "sound_ledger st truth (js_chain (snd (control_step env st h chain s))) \<and>
    sound_ledger st truth (js_chain (snd (owner_decision env st verdict s))) \<and>
    sound_ledger st truth (js_chain (snd (bind_resume env st a stage nonce s)))"
  by (rule jobs_keep [OF assms(1)]) (rule moves_sound [OF _ assms(2-4)])

text \<open>C8. No run is dispatched without a request on the ledger: every dispatch that a job sends carries the authorization, the stage and the
  nonce of a record that was on the ledger when it was sent, also when a dispatch is repeated or an abandoned run is followed by another.\<close>

theorem jobs_dispatch_recorded:
  assumes "append_only env" and "dispatches_recorded st s"
  shows "dispatches_recorded st (snd (control_step env st h chain s)) \<and> dispatches_recorded st (snd (owner_decision env st verdict s)) \<and>
    dispatches_recorded st (snd (bind_resume env st a stage nonce s))"
  by (rule jobs_keep [OF assms(1)]) (rule moves_recorded [OF _ assms])

text \<open>C10. What a job leaves behind, whatever other jobs add to the branch in between: records are only added, never changed; a step adds at
  most one record of its own, or two when it may go on after an abandonment, and sends at most one dispatch; an owner's decision
  adds and sends at most one; the start of a resumed run adds at most one record and sends nothing. Each of its records was prepared on
  exactly the records before it, and every other record that was added is of another job.\<close>

theorem jobs_leave:
  assumes "append_only env"
  shows "leaves env st s (if chain then 2 else 1) 1 (snd (control_step env st h chain s)) \<and>
    leaves env st s 1 1 (snd (owner_decision env st verdict s)) \<and> leaves env st s 1 0 (snd (bind_resume env st a stage nonce s))"
  by (rule jobs_keep [OF assms]) (fact moves_leave [OF _ assms] leaves_mono)+

text \<open>C9. A request is claimed by one run only, whatever other jobs do at the same time: after one run bound a request, every other run that wants
  to bind on the same branch fails, unless a new request with its authorization and nonce was recorded in between. (The branch the other
  run leaves extends the one that the first run left: the two runs may overlap in any way.)\<close>

theorem resume_bound_once:
  assumes "bind_resume env st a stage nonce s = (Inr sha, t)" and "bind_resume env' st' a' stage' nonce' s' = (answer, u)"
    and "prefix (js_chain t) (js_chain u)" and "wr_run_id (st_writer st') \<noteq> wr_run_id (st_writer st)"
    and "\<forall>e \<in> set (drop (length (js_chain t)) (js_chain u)). \<not> requested_anew a' nonce' (fst e)"
  shows "\<exists>why. answer = Inl why"
proof (rule ccontr)
  assume "\<nexists>why. answer = Inl why"
  then obtain sha' where "answer = Inr sha'" by (cases answer) auto
  from bound_twice [OF assms(1) assms(2) [unfolded this] assms(3,4)] assms(5) show False by blast
qed

end
