(* ===== verification/ControlFacts.thy ===== *)
theory ControlFacts
  imports ControlObserve LedgerDecisions
begin

text \<open>
  What an observation is worth to the decision: the facts that the decision reads in a state are known after an observation in that
  state, and refusal codes from outside are admitted only from their vocabulary. So an observed step is always decided, and
  when nothing is done, something definite is being waited for.
\<close>

section \<open>Results of jobs\<close>

definition yields :: "'a job \<Rightarrow> ('a \<Rightarrow> bool) \<Rightarrow> bool" where
  "yields m Q = (\<forall>s x t. m s = (Inr x, t) \<longrightarrow> Q x)"

lemma yieldsD: "yields m Q \<Longrightarrow> m s = (Inr x, t) \<Longrightarrow> Q x"
  by (auto simp: yields_def)

lemma yields_bind: "yields m P \<Longrightarrow> (\<And>x. P x \<Longrightarrow> yields (f x) Q) \<Longrightarrow> yields (jbind m f) Q"
  by (fastforce simp: yields_def jbind_def split: prod.splits sum.splits)

lemma yields_any: "(\<And>x. yields (f x) Q) \<Longrightarrow> yields (jbind m f) Q"
  by (rule yields_bind [where P = "\<lambda>x. True"]) (simp_all add: yields_def)

lemma yields_simps [simp]: "yields (jreturn x) Q = Q x" "yields (jraise e) Q"
  by (simp_all add: yields_def jreturn_def jraise_def)

lemma yields_result: "yields (jresult r) (\<lambda>x. r = Inr x)"
  by (simp add: yields_def jresult_def jlift_def)

section \<open>Facts of a state\<close>

text \<open>The facts that the decision reads in the state of the authorization.\<close>

definition seen_enough :: "authorization_view \<Rightarrow> facts \<Rightarrow> bool" where
  "seen_enough v f =
     (fa_stage_run_active f \<noteq> UNKNOWN \<and> fa_remote_branch_head f \<noteq> UNKNOWN \<and> fa_open_draft_pr f \<noteq> UNKNOWN \<and>
      (av_state v = AUTHORIZED \<or> av_state v = FALLBACK_AUTHORIZED \<longrightarrow> fa_result_artifacts f \<noteq> UNKNOWN \<and> fa_executor_conclusion f \<noteq> UNKNOWN) \<and>
      (av_state v = RESULT_BOUND \<longrightarrow> fa_result_artifacts f \<noteq> UNKNOWN \<and> fa_receipt f \<noteq> UNKNOWN) \<and>
      (av_state v = VALIDATED \<longrightarrow> fa_result_artifacts f \<noteq> UNKNOWN \<and> (fa_remote_branch_head f \<noteq> Known None \<longrightarrow> fa_remote_head_conforms f \<noteq> UNKNOWN)) \<and>
      (av_state v = PUBLISHED \<longrightarrow> fa_preflight_conclusion f \<noteq> UNKNOWN) \<and>
      (av_state v \<noteq> AUTHORIZED \<and> av_state v \<noteq> PUBLISHED \<and> av_pending_resume v \<noteq> None \<longrightarrow> fa_resume_run_status f \<noteq> UNKNOWN))"

text \<open>What is kept while facts are added: the facts of every state, the time, and no refusal.\<close>

definition basic_facts :: "string \<Rightarrow> facts \<Rightarrow> bool" where
  "basic_facts now f =
     (fa_stage_run_active f \<noteq> UNKNOWN \<and> fa_remote_branch_head f \<noteq> UNKNOWN \<and> fa_open_draft_pr f \<noteq> UNKNOWN \<and> fa_now f = now \<and>
      fa_receipt f = UNKNOWN \<and> fa_publication_refusal_code f = None)"

definition resume_seen :: "authorization_view \<Rightarrow> facts \<Rightarrow> bool" where
  "resume_seen v f = (av_pending_resume v \<noteq> None \<longrightarrow> fa_resume_run_status f \<noteq> UNKNOWN)"

definition kept :: "facts \<Rightarrow> facts \<Rightarrow> bool" where
  "kept f g =
     (fa_stage_run_active g = fa_stage_run_active f \<and> fa_remote_branch_head g = fa_remote_branch_head f \<and>
      fa_open_draft_pr g = fa_open_draft_pr f \<and> fa_now g = fa_now f \<and> fa_result_artifacts g = fa_result_artifacts f \<and>
      fa_executor_conclusion g = fa_executor_conclusion f)"

lemma observed_resume_facts:
  "yields (observed_resume env cfg v f) (\<lambda>g. resume_seen v g \<and> kept f g \<and> fa_receipt g = fa_receipt f \<and>
     fa_publication_refusal_code g = fa_publication_refusal_code f)"
  by (auto simp: observed_resume_def resume_seen_def kept_def intro!: yields_any)

lemma executor_facts_simps [simp]:
  "fa_stage_run_active (executor_facts h x as f) = fa_stage_run_active f" "fa_remote_branch_head (executor_facts h x as f) = fa_remote_branch_head f"
  "fa_open_draft_pr (executor_facts h x as f) = fa_open_draft_pr f" "fa_now (executor_facts h x as f) = fa_now f"
  "fa_receipt (executor_facts h x as f) = fa_receipt f" "fa_publication_refusal_code (executor_facts h x as f) = fa_publication_refusal_code f"
  "fa_result_artifacts (executor_facts h x as f) = Known as" "fa_executor_conclusion (executor_facts h x as f) = Known (map_option snd x)"
  by (simp_all add: executor_facts_def)

lemma observe_authorized_facts:
  assumes "basic_facts now f"
  shows "yields (observe_authorized env cfg v h x f) (\<lambda>g. basic_facts now g \<and> fa_result_artifacts g \<noteq> UNKNOWN \<and> fa_executor_conclusion g \<noteq> UNKNOWN)"
  unfolding observe_authorized_def by (intro yields_any) (use assms in \<open>simp add: basic_facts_def\<close>)

lemma observe_fallback_facts:
  assumes "basic_facts now f"
  shows "yields (observe_fallback env cfg v h x f)
    (\<lambda>g. basic_facts now g \<and> fa_result_artifacts g \<noteq> UNKNOWN \<and> fa_executor_conclusion g \<noteq> UNKNOWN \<and> resume_seen v g)"
  unfolding observe_fallback_def
  by (intro yields_any) (use assms in \<open>fastforce simp: yields_def basic_facts_def kept_def dest: yieldsD [OF observed_resume_facts]\<close>)

lemma observe_bound_facts:
  assumes "basic_facts now f"
  shows "yields (observe_bound env cfg v f) (\<lambda>g. basic_facts now g \<and> fa_result_artifacts g \<noteq> UNKNOWN \<and> resume_seen v g \<and>
    fa_remote_branch_head g = fa_remote_branch_head f)"
  unfolding observe_bound_def
  by (intro yields_any) (use assms in \<open>fastforce simp: yields_def basic_facts_def kept_def dest: yieldsD [OF observed_resume_facts]\<close>)

section \<open>Refusals from outside\<close>

lemma is_member_Inr: "is_member v xs = Inr True \<Longrightarrow> \<exists>c \<in> set xs. v = JStr c"
  by (auto simp: is_member_def split: json.splits)

lemma dget_JStr: "dget k kvs = JStr c \<longleftrightarrow> jget k (JObj kvs) = Some (JStr c)"
  by (auto simp: dget_def split: option.splits)

lemma matched_refusal:
  assumes "receipt_matches v receipt = Inr True" and "jget ''verdict'' (JObj receipt) = Some (JStr ''REFUSED'')"
  shows "\<exists>c \<in> set VALIDATION_REFUSAL_CODES. jget ''code'' (JObj receipt) = Some (JStr c)"
proof -
  have "dget ''verdict'' receipt = JStr ''REFUSED''" using assms(2) by (simp add: dget_JStr)
  with assms(1) have "is_member (dget ''code'' receipt) VALIDATION_REFUSAL_CODES = Inr True"
    by (auto simp: receipt_matches_def rbind_Inr_iff conj_result_def split: if_splits)
  from is_member_Inr [OF this] show ?thesis by (auto simp: dget_JStr)
qed

lemma conj_all_True: "conj_all bs = Inr True \<longleftrightarrow> (\<forall>b \<in> set bs. b = Inr True)"
  by (induction bs) (auto simp: conj_result_def rbind_Inr_iff)

lemma observe_receipt_facts:
  "yields (observe_receipt env loads cfg v f) (\<lambda>(g, run). kept f g \<and> fa_receipt g \<noteq> UNKNOWN \<and>
     fa_resume_run_status g = fa_resume_run_status f \<and> fa_publication_refusal_code g = fa_publication_refusal_code f \<and>
     (\<forall>r. fa_receipt g = Known (Some r) \<longrightarrow> receipt_matches v r = Inr True))"
  unfolding observe_receipt_def
  by (rule yields_any) (auto simp: kept_def split: option.split intro!: yields_bind [OF yields_result])

lemma reported_code:
  assumes "reported_refusal v kvs = Inr True"
  shows "pystr (dget ''code'' kvs) \<in> set PUBLICATION_REFUSAL_CODES"
proof -
  have "is_member (dget ''code'' kvs) PUBLICATION_REFUSAL_CODES = Inr True"
    using assms unfolding reported_refusal_def conj_all_True by (simp only: list.set ball_simps)
  from is_member_Inr [OF this] show ?thesis by (auto simp: pystr_def)
qed

lemma observe_publication_facts:
  assumes "fa_publication_refusal_code f = None"
  shows "yields (observe_publication env loads cfg v head f) (\<lambda>g. kept f g \<and> fa_receipt g = fa_receipt f \<and>
    fa_resume_run_status g = fa_resume_run_status f \<and> (head \<noteq> None \<longrightarrow> fa_remote_head_conforms g \<noteq> UNKNOWN) \<and>
    (\<forall>c. fa_publication_refusal_code g = Some c \<longrightarrow> c \<in> set PUBLICATION_REFUSAL_CODES))"
  unfolding observe_publication_def
proof (rule yields_bind, rule_tac [2] yields_any)
  let ?P = "\<lambda>g. kept f g \<and> fa_receipt g = fa_receipt f \<and> fa_resume_run_status g = fa_resume_run_status f \<and>
    fa_publication_refusal_code g = None \<and> (head \<noteq> None \<longrightarrow> fa_remote_head_conforms g \<noteq> UNKNOWN)"
  show "yields (case head of
              None \<Rightarrow> jreturn f
            | Some sha \<Rightarrow>
                jbind (get_json env (repo_path cfg (''/commits/'' @ sha))) (\<lambda>commit.
                jbind (case commit of JObj kvs \<Rightarrow> jresult (remote_head_conforms kvs v (wi_login (cf_writer cfg))) | _ \<Rightarrow> jreturn False)
                  (\<lambda>conforms. jreturn (f\<lparr>fa_remote_head_conforms := Known conforms\<rparr>)))) ?P"
    using assms by (auto simp: kept_def intro!: yields_any split: option.split)
  fix g x
  assume "?P g"
  then show "yields (case x of (document, run_id) \<Rightarrow> (case document of None \<Rightarrow> jreturn g
     | Some kvs \<Rightarrow> jbind (jresult (reported_refusal v kvs)) (\<lambda>reported.
           jreturn (if reported then g\<lparr>fa_publication_refusal_code := Some (pystr (dget ''code'' kvs))\<rparr> else g))))
    (\<lambda>g. kept f g \<and> fa_receipt g = fa_receipt f \<and> fa_resume_run_status g = fa_resume_run_status f \<and>
      (head \<noteq> None \<longrightarrow> fa_remote_head_conforms g \<noteq> UNKNOWN) \<and>
      (\<forall>c. fa_publication_refusal_code g = Some c \<longrightarrow> c \<in> set PUBLICATION_REFUSAL_CODES))"
    using reported_code by (auto simp: kept_def split: prod.split option.split intro!: yields_bind [OF yields_result])
qed

section \<open>Observations\<close>

text \<open>What the decision function relies on.\<close>

definition good_facts :: "authorization_view \<Rightarrow> string \<Rightarrow> facts \<Rightarrow> bool" where
  "good_facts v now f =
     (fa_now f = now \<and> seen_enough v f \<and>
      (\<forall>r. fa_receipt f = Known (Some r) \<and> jget ''verdict'' (JObj r) = Some (JStr ''REFUSED'') \<longrightarrow>
         (\<exists>c \<in> set VALIDATION_REFUSAL_CODES. jget ''code'' (JObj r) = Some (JStr c))) \<and>
      (\<forall>c. fa_publication_refusal_code f = Some c \<longrightarrow> c \<in> set PUBLICATION_REFUSAL_CODES))"

lemma good_state:
  assumes "av_state v = s" and "basic_facts now f"
  shows "s = AUTHORIZED \<Longrightarrow> fa_result_artifacts f \<noteq> UNKNOWN \<Longrightarrow> fa_executor_conclusion f \<noteq> UNKNOWN \<Longrightarrow> good_facts v now f"
    and "s = FALLBACK_AUTHORIZED \<Longrightarrow> fa_result_artifacts f \<noteq> UNKNOWN \<Longrightarrow> fa_executor_conclusion f \<noteq> UNKNOWN \<Longrightarrow> resume_seen v f \<Longrightarrow> good_facts v now f"
    and "s = PUBLISHED \<Longrightarrow> kept f g \<Longrightarrow> fa_preflight_conclusion f \<noteq> UNKNOWN \<Longrightarrow> good_facts v now f"
  using assms by (auto simp: good_facts_def seen_enough_def basic_facts_def resume_seen_def)

lemma good_receipt:
  assumes "av_state v = RESULT_BOUND" and "basic_facts now f" and "fa_result_artifacts f \<noteq> UNKNOWN" and "resume_seen v f" and "kept f g"
    and "fa_receipt g \<noteq> UNKNOWN" and "fa_resume_run_status g = fa_resume_run_status f"
    and "fa_publication_refusal_code g = fa_publication_refusal_code f"
    and "\<And>r. fa_receipt g = Known (Some r) \<Longrightarrow> receipt_matches v r = Inr True"
  shows "good_facts v now g"
  unfolding good_facts_def
proof (intro conjI allI impI)
  fix r assume "fa_receipt g = Known (Some r) \<and> jget ''verdict'' (JObj r) = Some (JStr ''REFUSED'')"
  then show "\<exists>c \<in> set VALIDATION_REFUSAL_CODES. jget ''code'' (JObj r) = Some (JStr c)" using matched_refusal assms(9) by blast
qed (use assms in \<open>auto simp: seen_enough_def basic_facts_def resume_seen_def kept_def\<close>)

lemma good_publication:
  assumes "av_state v = VALIDATED" and "basic_facts now f" and "fa_result_artifacts f \<noteq> UNKNOWN" and "resume_seen v f" and "kept f g"
    and "fa_receipt g = fa_receipt f" and "fa_resume_run_status g = fa_resume_run_status f"
    and "fa_remote_branch_head f = Known head" and "head \<noteq> None \<longrightarrow> fa_remote_head_conforms g \<noteq> UNKNOWN"
    and "\<forall>c. fa_publication_refusal_code g = Some c \<longrightarrow> c \<in> set PUBLICATION_REFUSAL_CODES"
  shows "good_facts v now g"
  using assms by (auto simp: good_facts_def seen_enough_def basic_facts_def resume_seen_def kept_def)

lemma observe_good:
  assumes "auth_ok v" and "\<not> av_terminal v"
  shows "yields (observe env loads cfg v now h) (\<lambda>ob. good_facts v now (ob_facts ob))"
proof -
  have base: "basic_facts now (no_facts\<lparr>fa_stage_run_active := Known active, fa_remote_branch_head := Known head,
      fa_open_draft_pr := Known pr, fa_now := now\<rparr>)" for active head pr
    by (simp add: basic_facts_def no_facts_def)
  note states = observe_authorized_facts [OF base] observe_fallback_facts [OF base] observe_bound_facts [OF base]
  have none: "fa_publication_refusal_code f = None" if "basic_facts now f" for f using that by (simp add: basic_facts_def)
  have pr: "good_facts v now (f\<lparr>fa_open_draft_pr := Known pr, fa_preflight_conclusion := Known c\<rparr>)"
    if "basic_facts now f" "av_state v = PUBLISHED" for f pr c
    using that by (auto simp: good_facts_def seen_enough_def basic_facts_def)
  from working_states [OF assms] show ?thesis
  proof (elim disjE)
    assume s: "av_state v = AUTHORIZED"
    show ?thesis unfolding observe_def Let_def
      by (intro yields_any) (auto simp: s intro!: yields_bind [OF states(1)] good_state(1) [OF s])
  next
    assume s: "av_state v = FALLBACK_AUTHORIZED"
    show ?thesis unfolding observe_def Let_def
      by (intro yields_any) (auto simp: s intro!: yields_bind [OF states(2)] good_state(2) [OF s])
  next
    assume s: "av_state v = RESULT_BOUND"
    show ?thesis unfolding observe_def Let_def
      by (intro yields_any) (auto simp: s intro!: yields_bind [OF states(3)] yields_bind [OF observe_receipt_facts] good_receipt [OF s])
  next
    assume s: "av_state v = VALIDATED"
    show ?thesis unfolding observe_def Let_def
      by (intro yields_any) (auto simp: s intro!: yields_bind [OF states(3)] yields_bind [OF observe_publication_facts] good_publication [OF s] none)
  next
    assume s: "av_state v = PUBLISHED"
    have "yields (observe_published env cfg v pulls f) (\<lambda>(g, run). good_facts v now g)" if "basic_facts now f" for pulls f
      unfolding observe_published_def by (intro yields_any) (auto simp: s intro!: pr that split: prod.split)
    note published = this [OF base]
    show ?thesis unfolding observe_def Let_def
      by (intro yields_any) (auto simp: s intro!: yields_bind [OF published])
  qed
qed

section \<open>Observed steps\<close>

text \<open>Something definite is being waited for: the run of the stage, the owner, a pending run, or the preflight of the published head.\<close>

definition waits_for :: "authorization_view \<Rightarrow> facts \<Rightarrow> bool" where
  "waits_for v f =
     (av_terminal v \<or> fa_stage_run_active f = Known True \<or>
      (case av_pending_resume v of
         None \<Rightarrow> av_state v = FALLBACK_AUTHORIZED
       | Some p \<Rightarrow> av_state v \<noteq> AUTHORIZED \<and> av_state v \<noteq> PUBLISHED \<and>
           (fa_resume_run_status f = Known (Some ''active'') \<or>
            fa_resume_run_status f \<noteq> UNKNOWN \<and> fa_resume_run_status f \<noteq> Known (Some ''concluded'') \<and>
              (pr_bound_run_id p \<noteq> None \<or> within_grace (fa_now f) (pr_dispatched_at p) = Inr True))) \<or>
      av_state v = PUBLISHED \<and> (fa_preflight_conclusion f = Known None \<or>
         fa_preflight_conclusion f = Known (Some ''success'') \<and> fa_open_draft_pr f = Known None))"

lemma fact_known: "f \<noteq> UNKNOWN \<longleftrightarrow> (\<exists>x. f = Known x)"
  by (cases f) simp_all

lemma waits_forI:
  "av_state v = FALLBACK_AUTHORIZED \<Longrightarrow> av_pending_resume v = None \<Longrightarrow> waits_for v f"
  "av_pending_resume v = Some p \<Longrightarrow> av_state v \<noteq> AUTHORIZED \<Longrightarrow> av_state v \<noteq> PUBLISHED \<Longrightarrow>
   fa_resume_run_status f = Known (Some ''active'') \<Longrightarrow> waits_for v f"
  "av_pending_resume v = Some p \<Longrightarrow> av_state v \<noteq> AUTHORIZED \<Longrightarrow> av_state v \<noteq> PUBLISHED \<Longrightarrow> fa_resume_run_status f \<noteq> UNKNOWN \<Longrightarrow>
   fa_resume_run_status f \<noteq> Known (Some ''concluded'') \<Longrightarrow> pr_bound_run_id p \<noteq> None \<Longrightarrow> waits_for v f"
  by (auto simp: waits_for_def)

abbreviation acts_or_waits :: "authorization_view \<Rightarrow> facts \<Rightarrow> step_decision result \<Rightarrow> bool" where
  "acts_or_waits v f r \<equiv> on_success (\<lambda>d. de_action d = ''noop'' \<longrightarrow> waits_for v f) r"

lemma dispatch_waits:
  assumes "av_pending_resume v = Some p" and "av_state v \<noteq> AUTHORIZED" and "av_state v \<noteq> PUBLISHED"
    and "fa_resume_run_status f \<noteq> UNKNOWN" and "fa_resume_run_status f \<noteq> Known (Some ''concluded'')"
  shows "acts_or_waits v f (unobserved_dispatch p f stage why again)"
  unfolding unobserved_dispatch_def
  by (rule on_success_bind) (use assms in \<open>auto simp: waits_for_def decide_def\<close>)

lemma resume_waits:
  assumes "fa_result_artifacts f \<noteq> UNKNOWN" and "av_state v \<noteq> AUTHORIZED" and "av_state v \<noteq> PUBLISHED"
    and "av_pending_resume v \<noteq> None \<longrightarrow> fa_resume_run_status f \<noteq> UNKNOWN"
  shows "acts_or_waits v f (resume_or_fail v stage f code)"
  using assms
  by (auto simp: resume_or_fail_def waits_forI decide_def dispatch_waits intro!: on_success_bind split: fact.split option.split list.split)

lemma fallback_waits:
  assumes "fa_result_artifacts f \<noteq> UNKNOWN" and "fa_executor_conclusion f \<noteq> UNKNOWN" and "av_state v = FALLBACK_AUTHORIZED"
    and "av_pending_resume v \<noteq> None \<longrightarrow> fa_resume_run_status f \<noteq> UNKNOWN"
  shows "acts_or_waits v f (fallback_decision v f)"
  using assms
  by (auto simp: fallback_decision_def bind_artifact_def executor_failure_def waits_forI decide_def dispatch_waits
      intro!: on_success_bind split: fact.split option.split list.split)

lemma authorized_waits:
  assumes "fa_result_artifacts f \<noteq> UNKNOWN" and "fa_executor_conclusion f \<noteq> UNKNOWN"
  shows "acts_or_waits v f (advance_authorized v f)"
  using assms
  by (auto simp: advance_authorized_def bind_artifact_def executor_failure_def decide_def intro!: on_success_bind split: fact.split list.split)

lemma noop_waits:
  assumes "auth_ok v" and "seen_enough v f"
  shows "acts_or_waits v f (advance v f)"
proof (cases "av_terminal v \<or> fa_stage_run_active f = Known True")
  case True
  then show ?thesis by (auto simp: waits_for_def on_success_def)
next
  case False
  then have live: "\<not> av_terminal v" "fa_stage_run_active f = Known False"
    using assms(2) by (auto simp: seen_enough_def fact_known)
  note unfolds = advance_def Let_def live seen_enough_def decide_def fact_known
  from working_states [OF assms(1) live(1)] show ?thesis
  proof (elim disjE)
    assume "av_state v = AUTHORIZED"
    then show ?thesis using assms(2) by (auto simp: unfolds intro!: on_success_bind authorized_waits)
  next
    assume "av_state v = FALLBACK_AUTHORIZED"
    then show ?thesis using assms(2) by (auto simp: unfolds intro!: on_success_bind fallback_waits)
  next
    assume "av_state v = RESULT_BOUND"
    then show ?thesis
      using assms(2) by (auto simp: unfolds advance_result_bound_def intro!: on_success_bind resume_waits split: option.split)
  next
    assume "av_state v = VALIDATED"
    then show ?thesis
      using assms(2) by (auto simp: unfolds advance_validated_def intro!: on_success_bind resume_waits split: option.split)
  next
    assume "av_state v = PUBLISHED"
    then show ?thesis
      using assms(2) by (auto simp: unfolds advance_published_def waits_for_def intro!: on_success_bind)
  qed
qed

text \<open>C7. An observation can always be decided, and doing nothing means waiting for something definite: when the facts of a verified
  authorization were observed at a well-formed time, the decision is taken (unless a time of the evidence has no date in the calendar), no
  refusal code from outside stops it, and when it is to do nothing, the stage's run or a pending run is still at work or within its grace
  period, the owner's decision is outstanding, or the preflight or the draft of the published head is.\<close>

theorem observed_step:
  assumes "verify_chain verify trust provenance repo issue entries = Inr view" and "lv_authorizations view a = Some v"
    and "observe env loads cfg v now h s = (Inr ob, t)" and "fullmatch rx_timestamp now"
  shows "(\<exists>d. advance v (ob_facts ob) = Inr d \<and> (de_action d = ''noop'' \<longrightarrow> waits_for v (ob_facts ob))) \<or>
    (\<not> times_real v (ob_facts ob) \<and> (\<exists>m. advance v (ob_facts ob) = Inl (ValueError m)))"
proof (cases "av_terminal v")
  case True
  then show ?thesis by (simp add: advance_def waits_for_def)
next
  case False
  note ok = auth_okI [OF assms(1,2)]
  have good: "good_facts v now (ob_facts ob)" by (rule yieldsD [OF observe_good [OF ok False] assms(3)])
  then have "refusals_known (ob_facts ob)" using assms(4) by (simp add: good_facts_def refusals_known_def)
  moreover have "seen_enough v (ob_facts ob)" using good by (simp add: good_facts_def)
  ultimately show ?thesis
    using advance_decides [OF ok, of "ob_facts ob"] noop_waits [OF ok, of "ob_facts ob"] unfolding outcome_cases on_success_def by blast
qed

end
