(* ===== verification/ControlTrust.thy ===== *)
theory ControlTrust
  imports ControlWorld
begin

text \<open>
  The trust roots pinned in the repository (\<open>load_configuration\<close> of \<open>automation/issue_agent_control.py\<close>): a closed JSON document,
  read before any job does anything. Reading 32 raw bytes as a key always succeeds; how keys are represented is left open.
\<close>

definition TRUST_ROOTS_SCHEMA_VERSION :: string where
  "TRUST_ROOTS_SCHEMA_VERSION = ''hunter-issue-agent-trust-roots-v1''"

definition rx_repository :: rx where
  "rx_repository = rseq [between (alnum_or ''-'') 1 39, RLit ''/'', between (alnum_or ''._-'') 1 100]"

definition missing :: "string \<Rightarrow> 'a control" where
  "missing why = Inl (ControlRefused ''MISSING_CONFIGURATION'' why)"

definition demand :: "bool \<Rightarrow> string \<Rightarrow> 'a control \<Rightarrow> 'a control" where
  "demand b why k = (if b then k else missing why)"

text \<open>\<open>_field\<close> by the type that is asked for\<close>

definition no_field :: "string \<Rightarrow> 'a control" where
  "no_field k = missing (''trust roots field '' @ k @ '' is missing or malformed'')"

definition str_field :: "mapping \<Rightarrow> string \<Rightarrow> string control" where
  "str_field d k = (case dget k d of JStr s \<Rightarrow> Inr s | _ \<Rightarrow> no_field k)"

definition int_field :: "mapping \<Rightarrow> string \<Rightarrow> int control" where
  "int_field d k = (case dget k d of JInt i \<Rightarrow> Inr i | _ \<Rightarrow> no_field k)"

definition list_field :: "mapping \<Rightarrow> string \<Rightarrow> json list control" where
  "list_field d k = (case dget k d of JArr vs \<Rightarrow> Inr vs | _ \<Rightarrow> no_field k)"

definition dict_field :: "mapping \<Rightarrow> string \<Rightarrow> mapping control" where
  "dict_field d k = (case dget k d of JObj kvs \<Rightarrow> Inr kvs | _ \<Rightarrow> no_field k)"

definition raw_key :: "json \<Rightarrow> string \<Rightarrow> 8 word list control" where
  "raw_key v name =
     (case v of
        JStr s \<Rightarrow>
          (if fullmatch rx_sha64 s then (case fromhex s of Some bs \<Rightarrow> Inr bs | None \<Rightarrow> Inl (Raised (ValueError ''fromhex'')))
           else missing (''trust roots key '' @ name @ '' must be 32 bytes of lowercase hex''))
      | _ \<Rightarrow> missing (''trust roots key '' @ name @ '' must be 32 bytes of lowercase hex''))"

definition expected_fields :: "string list" where
  "expected_fields =
     [''schema_version'', ''provisioned'', ''repository'', ''repository_id'', ''owner_login'', ''state_keys'', ''anchor'',
      ''handoff_recipient'', ''result_recipient'', ''writer'', ''authorization_verifying_key'', ''prompt_verifying_key'',
      ''source_handling'']"

definition same_keys :: "mapping \<Rightarrow> string list \<Rightarrow> bool" where
  "same_keys d ks \<longleftrightarrow> set (map fst d) = set ks"

definition text_given :: "json \<Rightarrow> bool" where
  "text_given v = (case v of JStr s \<Rightarrow> s \<noteq> [] | _ \<Rightarrow> False)"

text \<open>The recipient of fallback handoffs, if one is pinned.\<close>

definition fallback_recipient :: "mapping \<Rightarrow> 8 word list option control" where
  "fallback_recipient d =
     (case map_of d ''fallback_handoff_recipient'' of
        None \<Rightarrow> Inr None
      | Some v \<Rightarrow>
          cbind (raw_key v ''fallback_handoff_recipient'') (\<lambda>raw.
          cbind (raw_key (dget ''handoff_recipient'' d) ''handoff'') (\<lambda>primary.
            demand (raw \<noteq> primary) ''the fallback recipient must be distinct from the primary handoff recipient'' (Inr (Some raw)))))"

fun state_key_map :: "(8 word list \<Rightarrow> 'k) \<Rightarrow> ('k \<Rightarrow> string) \<Rightarrow> json list \<Rightarrow> (string \<rightharpoonup> 'k) control" where
  "state_key_map signing key_id [] = Inr Map.empty"
| "state_key_map signing key_id (v # vs) =
     cbind (raw_key v ''state_keys'') (\<lambda>raw. cbind (state_key_map signing key_id vs) (\<lambda>m.
       Inr (\<lambda>i. case m i of Some k \<Rightarrow> Some k | None \<Rightarrow> if i = key_id (signing raw) then Some (signing raw) else None)))"

definition anchor_field :: "mapping \<Rightarrow> anchor_pin control" where
  "anchor_field d =
     cbind (dict_field d ''anchor'') (\<lambda>a.
       case (same_keys a [''ruleset_id'', ''updated_at''], dget ''ruleset_id'' a) of
         (True, JInt ruleset_id) \<Rightarrow>
           demand (text_given (dget ''updated_at'' a)) ''trust roots anchor updated_at is malformed''
             (Inr \<lparr>ap_ruleset_id = ruleset_id, ap_updated_at = str_of (dget ''updated_at'' a)\<rparr>)
       | _ \<Rightarrow> missing ''trust roots anchor must pin exactly a ruleset id and its updated_at'')"

definition writer_field :: "mapping \<Rightarrow> writer_identity control" where
  "writer_field d =
     cbind (dict_field d ''writer'') (\<lambda>w.
       demand (same_keys w [''login'', ''name'', ''email''] \<and> list_all (\<lambda>kv. text_given (snd kv)) w)
         ''trust roots writer must be exactly a login, a name and an email''
         (Inr \<lparr>wi_login = str_of (dget ''login'' w), wi_name = str_of (dget ''name'' w), wi_email = str_of (dget ''email'' w)\<rparr>))"

fun all_raw_keys :: "mapping \<Rightarrow> unit control" where
  "all_raw_keys [] = Inr ()"
| "all_raw_keys ((k, v) # kvs) = cbind (raw_key v (''source_handling.'' @ k)) (\<lambda>raw. all_raw_keys kvs)"

definition source_field :: "mapping \<Rightarrow> source_handling_root control" where
  "source_field d =
     cbind (dict_field d ''source_handling'') (\<lambda>s.
       demand (same_keys s [''verification_key'', ''verification_key_sha256'', ''genesis_rule_sha256''])
         ''trust roots source_handling must pin exactly its key, key digest and genesis digest''
         (cbind (all_raw_keys s) (\<lambda>u.
          cbind (raw_key (dget ''verification_key'' s) ''source_handling.verification_key'') (\<lambda>raw.
            demand (sha256_hex raw = str_of (dget ''verification_key_sha256'' s))
              ''trust roots source_handling key digest does not match its key''
              (Inr \<lparr>sh_verification_key = str_of (dget ''verification_key'' s),
                    sh_verification_key_sha256 = str_of (dget ''verification_key_sha256'' s),
                    sh_genesis_rule_sha256 = str_of (dget ''genesis_rule_sha256'' s)\<rparr>)))))"

definition read_trust_roots ::
  "(8 word list \<Rightarrow> 'k) \<Rightarrow> ('k \<Rightarrow> string) \<Rightarrow> (8 word list \<Rightarrow> 'p) \<Rightarrow> mapping \<Rightarrow> ('k, 'p) configuration control" where
  "read_trust_roots signing key_id recipient d =
     cbind (fallback_recipient d) (\<lambda>fallback.
     cbind (str_field d ''repository'') (\<lambda>repository.
     demand (fullmatch rx_repository repository) ''trust roots repository is malformed'' (
     cbind (int_field d ''repository_id'') (\<lambda>repository_id.
     demand (1 \<le> repository_id) ''trust roots repository_id must be positive'' (
     cbind (list_field d ''state_keys'') (\<lambda>keys.
     demand (keys \<noteq> []) ''trust roots must pin at least one K_STATE public key'' (
     cbind (state_key_map signing key_id keys) (\<lambda>state_keys.
     cbind (anchor_field d) (\<lambda>anchor.
     cbind (writer_field d) (\<lambda>writer.
     cbind (raw_key (dget ''authorization_verifying_key'' d) ''authorization_verifying_key'') (\<lambda>authorization_raw.
     cbind (raw_key (dget ''prompt_verifying_key'' d) ''prompt_verifying_key'') (\<lambda>prompt_raw.
     cbind (source_field d) (\<lambda>source.
     cbind (str_field d ''owner_login'') (\<lambda>owner_login.
     cbind (raw_key (dget ''handoff_recipient'' d) ''handoff'') (\<lambda>handoff.
     cbind (raw_key (dget ''result_recipient'' d) ''result'') (\<lambda>result_raw.
       Inr \<lparr>cf_repository = repository, cf_repository_id = repository_id, cf_owner_login = owner_login, cf_state_keys = state_keys,
         cf_anchor = anchor, cf_handoff_recipient = recipient handoff, cf_result_recipient = recipient result_raw, cf_writer = writer,
         cf_authorization_verifying_key = str_of (dget ''authorization_verifying_key'' d),
         cf_prompt_verifying_key = str_of (dget ''prompt_verifying_key'' d), cf_source_handling = source,
         cf_fallback_handoff_recipient = map_option recipient fallback\<rparr>))))))))))))))))"

text \<open>\<open>content\<close> is what the file of the trust roots holds, if it can be read.\<close>

definition load_configuration ::
  "(8 word list \<Rightarrow> parsed) \<Rightarrow> (8 word list \<Rightarrow> 'k) \<Rightarrow> ('k \<Rightarrow> string) \<Rightarrow> (8 word list \<Rightarrow> 'p) \<Rightarrow> 8 word list option \<Rightarrow>
   ('k, 'p) configuration control" where
  "load_configuration loads signing key_id recipient content =
     (case content of
        None \<Rightarrow> missing ''the repository-pinned trust roots are absent or unreadable''
      | Some bs \<Rightarrow>
          (case loads bs of
             NotJson \<Rightarrow> missing ''the repository-pinned trust roots are absent or unreadable''
           | Unreadable (ValueError why) \<Rightarrow> missing ''the repository-pinned trust roots are absent or unreadable''
           | Unreadable e \<Rightarrow> Inl (Raised e)
           | Parsed v \<Rightarrow>
               (case as_object v of
                  None \<Rightarrow> missing ''the trust roots document has an unknown schema''
                | Some d \<Rightarrow>
                    if dget ''schema_version'' d \<noteq> JStr TRUST_ROOTS_SCHEMA_VERSION
                    then missing ''the trust roots document has an unknown schema''
                    else if dget ''provisioned'' d \<noteq> JBool True
                    then missing ''the GitHub-native Issue agent is not provisioned (S6 owner action)''
                    else if set (map fst d) - {''fallback_handoff_recipient''} \<noteq> set expected_fields
                    then missing ''the trust roots document carries unknown or missing fields''
                    else read_trust_roots signing key_id recipient d)))"

section \<open>Refusals\<close>

lemma hex_bytes: "list_all is_hex s \<Longrightarrow> even (length s) \<Longrightarrow> \<exists>bs. fromhex s = Some bs \<and> length bs = length s div 2"
proof (induction s rule: fromhex.induct)
  case (3 c d s)
  have hex: "\<not> is_ascii_space x \<and> (\<exists>n. hex_value x = Some n)" if "is_hex x" for x
    using that by (auto simp: is_hex_def is_ascii_space_def hex_value_def Let_def)
  obtain h l where "hex_value c = Some h" "hex_value d = Some l" "\<not> is_ascii_space c"
    using hex [of c] hex [of d] "3.prems"(1) by auto
  moreover obtain bs where "fromhex s = Some bs" "length bs = length s div 2" using "3.IH"(2) "3.prems" calculation by auto
  ultimately show ?case by simp
qed simp_all

text \<open>A failure that says what is missing.\<close>

definition explained :: "'a control \<Rightarrow> bool" where
  "explained r = (\<forall>e. r = Inl e \<longrightarrow> (\<exists>why. e = ControlRefused ''MISSING_CONFIGURATION'' why))"

lemma explained_rules:
  "explained (Inr x)" "explained (missing why)" "explained (no_field k)"
  "explained m \<Longrightarrow> (\<And>x. m = Inr x \<Longrightarrow> explained (f x)) \<Longrightarrow> explained (cbind m f)"
  "explained m \<Longrightarrow> explained (demand b why m)"
  by (auto simp: explained_def missing_def no_field_def demand_def cbind_def split: sum.splits)

lemma raw_key_Inr: "raw_key v name = Inr bs \<longleftrightarrow> (\<exists>s. v = JStr s \<and> fullmatch rx_sha64 s \<and> fromhex s = Some bs)"
  by (auto simp: raw_key_def missing_def split: json.splits option.splits)

lemma explained_raw_key: "explained (raw_key v name)"
  using hex_bytes
  by (fastforce simp: raw_key_def explained_rules rx_sha64_def fullmatch_chars split: json.split option.split)

lemma explained_fields:
  "explained (str_field d k)" "explained (int_field d k)" "explained (list_field d k)" "explained (dict_field d k)"
  by (simp_all add: str_field_def int_field_def list_field_def dict_field_def explained_rules split: json.split)

lemma explained_keys: "explained (state_key_map signing key_id vs)" "explained (all_raw_keys kvs)"
  by (induction vs; simp add: explained_rules explained_raw_key)
    (induction kvs rule: all_raw_keys.induct; simp add: explained_rules explained_raw_key)

lemma explained_parts:
  "explained (fallback_recipient d)" "explained (anchor_field d)" "explained (writer_field d)" "explained (source_field d)"
  by (auto simp: fallback_recipient_def anchor_field_def writer_field_def source_field_def explained_rules explained_raw_key
      explained_fields explained_keys intro!: explained_rules(4,5) split: option.split json.split bool.split prod.split)

lemma explained_trust_roots: "explained (read_trust_roots signing key_id recipient d)"
  unfolding read_trust_roots_def
  by (intro explained_rules explained_parts explained_fields explained_keys explained_raw_key)

lemma state_keys_named:
  assumes "state_key_map signing key_id vs = Inr m"
  shows "(\<forall>i k. m i = Some k \<longrightarrow> key_id k = i) \<and> (vs \<noteq> [] \<longrightarrow> (\<exists>i k. m i = Some k))"
  using assms
proof (induction vs arbitrary: m)
  case (Cons v vs)
  then obtain raw m' where m': "state_key_map signing key_id vs = Inr m'"
    "m = (\<lambda>i. case m' i of Some k \<Rightarrow> Some k | None \<Rightarrow> if i = key_id (signing raw) then Some (signing raw) else None)"
    by (auto simp: cbind_Inr_iff)
  have "\<exists>k. m (key_id (signing raw)) = Some k" by (auto simp: m'(2) split: option.split)
  then show ?case using Cons.IH [OF m'(1)] by (auto simp: m'(2) split: option.splits if_splits)
qed simp

section \<open>Properties\<close>

text \<open>What the jobs rely on.\<close>

definition pinned :: "('k \<Rightarrow> string) \<Rightarrow> (8 word list \<Rightarrow> 'p) \<Rightarrow> ('k, 'p) configuration \<Rightarrow> bool" where
  "pinned key_id recipient cfg \<longleftrightarrow>
     1 \<le> cf_repository_id cfg \<and> fullmatch rx_repository (cf_repository cfg) \<and>
     (\<exists>i k. cf_state_keys cfg i = Some k) \<and> (\<forall>i k. cf_state_keys cfg i = Some k \<longrightarrow> key_id k = i) \<and>
     ap_updated_at (cf_anchor cfg) \<noteq> [] \<and>
     wi_login (cf_writer cfg) \<noteq> [] \<and> wi_name (cf_writer cfg) \<noteq> [] \<and> wi_email (cf_writer cfg) \<noteq> [] \<and>
     fullmatch rx_sha64 (cf_authorization_verifying_key cfg) \<and> fullmatch rx_sha64 (cf_prompt_verifying_key cfg) \<and>
     (\<exists>raw. fromhex (sh_verification_key (cf_source_handling cfg)) = Some raw \<and>
        sha256_hex raw = sh_verification_key_sha256 (cf_source_handling cfg)) \<and>
     (\<forall>fallback. cf_fallback_handoff_recipient cfg = Some fallback \<longrightarrow>
        (\<exists>raw raw'. raw \<noteq> raw' \<and> fallback = recipient raw \<and> cf_handoff_recipient cfg = recipient raw'))"

lemma demand_Inr: "demand b why m = Inr x \<longleftrightarrow> b \<and> m = Inr x"
  by (simp add: demand_def missing_def)

lemma field_Inr:
  "str_field d k = Inr s \<longleftrightarrow> dget k d = JStr s" "int_field d k = Inr i \<longleftrightarrow> dget k d = JInt i"
  "dict_field d k = Inr kvs \<longleftrightarrow> dget k d = JObj kvs" "list_field d k = Inr vs \<longleftrightarrow> dget k d = JArr vs"
  by (auto simp: str_field_def int_field_def list_field_def dict_field_def no_field_def missing_def split: json.splits)

lemma text_given_str: "text_given v \<Longrightarrow> str_of v \<noteq> []"
  by (auto simp: text_given_def str_of_def split: json.splits)

lemma anchor_dated: "anchor_field d = Inr a \<Longrightarrow> ap_updated_at a \<noteq> []"
  by (auto simp: anchor_field_def cbind_Inr_iff demand_Inr missing_def dest: text_given_str split: bool.splits json.splits)

lemma writer_named:
  assumes "writer_field d = Inr w"
  shows "wi_login w \<noteq> []" "wi_name w \<noteq> []" "wi_email w \<noteq> []"
proof -
  obtain kvs where kvs: "same_keys kvs [''login'', ''name'', ''email'']" "list_all (\<lambda>kv. text_given (snd kv)) kvs"
    "wi_login w = str_of (dget ''login'' kvs)" "wi_name w = str_of (dget ''name'' kvs)" "wi_email w = str_of (dget ''email'' kvs)"
    using assms by (auto simp: writer_field_def cbind_Inr_iff demand_Inr)
  have given: "str_of (dget k kvs) \<noteq> []" if "k \<in> {''login'', ''name'', ''email''}" for k
  proof -
    have "k \<in> set (map fst kvs)" using that kvs(1) by (simp add: same_keys_def)
    then obtain v where "map_of kvs k = Some v" by (metis map_of_eq_None_iff option.exhaust set_map)
    then have "text_given (dget k kvs)" using map_of_SomeD [of kvs k v] kvs(2) by (auto simp: dget_def list_all_iff)
    then show ?thesis by (rule text_given_str)
  qed
  show "wi_login w \<noteq> []" "wi_name w \<noteq> []" "wi_email w \<noteq> []" unfolding kvs(3-5) by (rule given, simp)+
qed

lemma source_matches:
  assumes "source_field d = Inr s"
  shows "\<exists>raw. fromhex (sh_verification_key s) = Some raw \<and> sha256_hex raw = sh_verification_key_sha256 s"
  using assms by (auto simp: source_field_def cbind_Inr_iff demand_Inr raw_key_Inr str_of_def)

lemma fallback_distinct:
  assumes "fallback_recipient d = Inr (Some raw)" and "raw_key (dget ''handoff_recipient'' d) name = Inr primary"
  shows "raw \<noteq> primary"
  using assms by (auto simp: fallback_recipient_def cbind_Inr_iff demand_Inr raw_key_Inr split: option.splits)

lemma read_pinned:
  assumes "read_trust_roots signing key_id recipient d = Inr cfg"
  shows "pinned key_id recipient cfg"
proof -
  obtain fallback keys state_keys primary araw praw where parts:
    "fallback_recipient d = Inr fallback" "cf_fallback_handoff_recipient cfg = map_option recipient fallback"
    "1 \<le> cf_repository_id cfg" "fullmatch rx_repository (cf_repository cfg)"
    "keys \<noteq> []" "state_key_map signing key_id keys = Inr state_keys" "cf_state_keys cfg = state_keys"
    "anchor_field d = Inr (cf_anchor cfg)" "writer_field d = Inr (cf_writer cfg)"
    "raw_key (dget ''handoff_recipient'' d) ''handoff'' = Inr primary" "cf_handoff_recipient cfg = recipient primary"
    "source_field d = Inr (cf_source_handling cfg)"
    "raw_key (dget ''authorization_verifying_key'' d) ''authorization_verifying_key'' = Inr araw"
    "cf_authorization_verifying_key cfg = str_of (dget ''authorization_verifying_key'' d)"
    "raw_key (dget ''prompt_verifying_key'' d) ''prompt_verifying_key'' = Inr praw"
    "cf_prompt_verifying_key cfg = str_of (dget ''prompt_verifying_key'' d)"
    using assms unfolding read_trust_roots_def cbind_Inr_iff demand_Inr by (elim exE conjE) auto
  have "fullmatch rx_sha64 (cf_authorization_verifying_key cfg)" "fullmatch rx_sha64 (cf_prompt_verifying_key cfg)"
    using parts(13-16) by (auto simp: raw_key_Inr str_of_def)
  then show ?thesis
    unfolding pinned_def
    using parts(1-11) source_matches [OF parts(12)] state_keys_named [OF parts(6)] anchor_dated [OF parts(8)] writer_named [OF parts(9)] fallback_distinct [OF _ parts(10)]
    by (cases fallback) auto
qed

lemma load_explained:
  "case load_configuration loads signing key_id recipient content of
     Inr cfg \<Rightarrow> pinned key_id recipient cfg
   | Inl e \<Rightarrow> (\<exists>why. e = ControlRefused ''MISSING_CONFIGURATION'' why) \<or>
       (\<exists>bs x. content = Some bs \<and> loads bs = Unreadable x \<and> e = Raised x \<and> (\<nexists>m. x = ValueError m))"
proof (cases "\<exists>bs v d. content = Some bs \<and> loads bs = Parsed v \<and> as_object v = Some d \<and>
    load_configuration loads signing key_id recipient content = read_trust_roots signing key_id recipient d")
  case True
  then obtain d where "load_configuration loads signing key_id recipient content = read_trust_roots signing key_id recipient d" by blast
  then show ?thesis
    using read_pinned [of signing key_id recipient d] explained_trust_roots [of signing key_id recipient d]
    by (auto simp: explained_def split: sum.split)
next
  case False
  then show ?thesis
    by (auto simp: load_configuration_def missing_def split: option.splits parsed.splits pyexc.splits if_splits)
qed

text \<open>C29. A configuration that loads can be relied on, and any failure says that configuration is missing, provided the JSON reader fails
  only with \<open>ValueError\<close> (as it does on malformed text): a loaded configuration has a positive repository with a well-formed name, at least
  one key for records and every key under its own identifier, a dated anchor, a writer with a login, a name and an e-mail address,
  well-formed keys for authorizations and prompts, a source-handling key with its own digest, and a fallback recipient, if there is
  one, with key material other than the primary's.\<close>

theorem configuration_pinned:
  assumes "\<And>bs x. content = Some bs \<Longrightarrow> loads bs = Unreadable x \<Longrightarrow> \<exists>m. x = ValueError m"
  shows "case load_configuration loads signing key_id recipient content of
     Inr cfg \<Rightarrow> pinned key_id recipient cfg
   | Inl e \<Rightarrow> \<exists>why. e = ControlRefused ''MISSING_CONFIGURATION'' why"
  using load_explained [where loads = loads and signing = signing and key_id = key_id and recipient = recipient and content = content] assms
  by (fastforce split: sum.splits)

text \<open>A document of trust roots, and the configuration that it pins.\<close>

definition sample_raw :: "8 word list" where
  "sample_raw = the (fromhex hex64)"

definition sample_roots :: mapping where
  "sample_roots =
     [(''schema_version'', JStr TRUST_ROOTS_SCHEMA_VERSION), (''provisioned'', JBool True), (''repository'', JStr ''o/r''),
      (''repository_id'', JInt 3), (''owner_login'', JStr ''o''), (''state_keys'', JArr [JStr hex64]),
      (''anchor'', JObj [(''ruleset_id'', JInt 1), (''updated_at'', JStr ''t'')]),
      (''handoff_recipient'', JStr hex64), (''result_recipient'', JStr hex64),
      (''writer'', JObj [(''login'', JStr ''l''), (''name'', JStr ''n''), (''email'', JStr ''e'')]),
      (''authorization_verifying_key'', JStr hex64), (''prompt_verifying_key'', JStr hex64),
      (''source_handling'', JObj [(''verification_key'', JStr hex64), (''verification_key_sha256'', JStr (sha256_hex sample_raw)),
         (''genesis_rule_sha256'', JStr hex64)]), (''fallback_handoff_recipient'', JStr other64)]"

lemma raw_hex:
  "fullmatch rx_sha64 s \<Longrightarrow> raw_key (JStr s) n = Inr (the (fromhex s))"
  using hex_bytes [of s] by (auto simp: raw_key_def rx_sha64_def fullmatch_chars)

lemma sample_hex: "fullmatch rx_sha64 hex64" "fullmatch rx_sha64 other64"
  by (simp_all add: rx_sha64_def fullmatch_chars) (simp_all add: hex64_def other64_def list_all_iff is_hex_def)

lemma other_raw: "the (fromhex other64) \<noteq> sample_raw"
  unfolding sample_raw_def by code_simp

lemma sample_loads: "\<exists>cfg. load_configuration (\<lambda>bs. Parsed (JObj sample_roots)) id sha256_hex id (Some []) = Inr cfg"
proof -
  note raws = raw_hex [OF sample_hex(1), folded sample_raw_def] raw_hex [OF sample_hex(2)] raw_hex [OF fullmatch_sha64]
  have repo: "fullmatch rx_repository ''o/r''" by (simp add: rx_repository_def) code_simp
  have look: "dget ''handoff_recipient'' sample_roots = JStr hex64"
    "map_of sample_roots ''fallback_handoff_recipient'' = Some (JStr other64)" "dget ''repository'' sample_roots = JStr ''o/r''"
    "dget ''repository_id'' sample_roots = JInt 3" "dget ''state_keys'' sample_roots = JArr [JStr hex64]"
    "dget ''owner_login'' sample_roots = JStr ''o''" "dget ''result_recipient'' sample_roots = JStr hex64"
    "dget ''authorization_verifying_key'' sample_roots = JStr hex64" "dget ''prompt_verifying_key'' sample_roots = JStr hex64"
    "dget ''anchor'' sample_roots = JObj [(''ruleset_id'', JInt 1), (''updated_at'', JStr ''t'')]"
    "dget ''writer'' sample_roots = JObj [(''login'', JStr ''l''), (''name'', JStr ''n''), (''email'', JStr ''e'')]"
    "dget ''source_handling'' sample_roots = JObj [(''verification_key'', JStr hex64),
       (''verification_key_sha256'', JStr (sha256_hex sample_raw)), (''genesis_rule_sha256'', JStr hex64)]"
    "dget ''schema_version'' sample_roots = JStr TRUST_ROOTS_SCHEMA_VERSION" "dget ''provisioned'' sample_roots = JBool True"
    by (simp_all add: sample_roots_def dget_def)
  have closed: "set (map fst sample_roots) - {''fallback_handoff_recipient''} = set expected_fields"
    by (auto simp: sample_roots_def expected_fields_def)
  have anchor: "\<exists>a. anchor_field sample_roots = Inr a"
    by (simp add: anchor_field_def dict_field_def look same_keys_def) (simp add: dget_def text_given_def demand_def)
  have writer: "\<exists>w. writer_field sample_roots = Inr w"
    by (simp add: writer_field_def dict_field_def look same_keys_def text_given_def demand_def)
  have source: "\<exists>s. source_field sample_roots = Inr s"
    by (simp add: source_field_def dict_field_def look same_keys_def demand_def) (simp add: dget_def raws str_of_def)
  have fallback: "fallback_recipient sample_roots = Inr (Some (the (fromhex other64)))"
    by (simp add: fallback_recipient_def look raws demand_def other_raw)
  have "\<exists>cfg. read_trust_roots id sha256_hex id sample_roots = Inr cfg"
    using anchor writer source
    by (auto simp: read_trust_roots_def fallback str_field_def int_field_def list_field_def look repo demand_def raws)
  then show ?thesis by (simp add: load_configuration_def as_object_def look closed del: set_map)
qed

lemma configuration_pinned_witness:
  "(\<exists>cfg. load_configuration (\<lambda>bs. Parsed (JObj sample_roots)) id sha256_hex id (Some []) = Inr cfg \<and> pinned sha256_hex id cfg) \<and>
   (\<exists>why. load_configuration (\<lambda>bs. Unreadable (ValueError ''utf-8'')) id sha256_hex id (Some []) =
     (Inl (ControlRefused ''MISSING_CONFIGURATION'' why) :: (8 word list, 8 word list) configuration control))"
proof
  show "\<exists>cfg. load_configuration (\<lambda>bs. Parsed (JObj sample_roots)) id sha256_hex id (Some []) = Inr cfg \<and> pinned sha256_hex id cfg"
    using sample_loads configuration_pinned [where content = "Some []" and loads = "\<lambda>bs. Parsed (JObj sample_roots)" and signing = id and key_id = sha256_hex and
      recipient = id] by auto
  show "\<exists>why. load_configuration (\<lambda>bs. Unreadable (ValueError ''utf-8'')) id sha256_hex id (Some []) =
     (Inl (ControlRefused ''MISSING_CONFIGURATION'' why) :: (8 word list, 8 word list) configuration control)"
    using configuration_pinned [where content = "Some []" and loads = "\<lambda>bs. Unreadable (ValueError ''utf-8'')" and
        signing = "id :: 8 word list \<Rightarrow> 8 word list" and key_id = sha256_hex and recipient = "id :: 8 word list \<Rightarrow> 8 word list"]
    by (auto simp: load_configuration_def missing_def)
qed

end
