(* ===== verification/ControlSample.thy ===== *)
theory ControlSample
  imports ControlProperties ControlFacts ControlTrust
begin

text \<open>
  A run of the jobs on a concrete ledger: a result is bound, a validation run is requested, and the requested run binds its nonce.
  The records are those of the sample ledger, written by runs that the hosting service confirms.
\<close>

section \<open>A world\<close>

definition sample_configuration :: "(unit, unit) configuration" where
  "sample_configuration =
     \<lparr>cf_repository = ''owner/repo'', cf_repository_id = 3, cf_owner_login = ''owner'', cf_state_keys = [hex64 \<mapsto> ()],
      cf_anchor = \<lparr>ap_ruleset_id = 1, ap_updated_at = sample_time\<rparr>, cf_handoff_recipient = (), cf_result_recipient = (),
      cf_writer = \<lparr>wi_login = ''bot'', wi_name = ''Bot'', wi_email = ''bot@example.org''\<rparr>, cf_authorization_verifying_key = hex64,
      cf_prompt_verifying_key = hex64,
      cf_source_handling = \<lparr>sh_verification_key = hex64, sh_verification_key_sha256 = hex64, sh_genesis_rule_sha256 = hex64\<rparr>,
      cf_fallback_handoff_recipient = None\<rparr>"

definition sample_setting :: "(unit, unit) setting" where
  "sample_setting =
     \<lparr>st_configuration = sample_configuration, st_verify = sample_verify, st_loads = \<lambda>bs. NotJson, st_raw_key = \<lambda>k. [],
      st_key = sample_key,
      st_writer = \<lparr>wr_workflow_path = sample_workflow, wr_job = ''bind'', wr_role = ''bind'', wr_run_id = 5, wr_run_attempt = 1,
        wr_head_sha = hex40\<rparr>,
      st_issue = 7\<rparr>"

definition sample_run :: mapping where
  "sample_run =
     [(''id'', JInt 5), (''run_attempt'', JInt 1), (''path'', JStr sample_workflow), (''event'', JStr ''issues''),
      (''head_branch'', JStr ''main''), (''head_sha'', JStr hex40), (''repository'', JObj [(''id'', JInt 3)]),
      (''head_repository'', JObj [(''id'', JInt 3)])]"

definition sample_rules :: "json list" where
  "sample_rules =
     [JObj [(''ruleset_id'', JInt 1), (''type'', JStr ''deletion'')], JObj [(''ruleset_id'', JInt 1), (''type'', JStr ''non_fast_forward'')]]"

definition sample_ruleset :: mapping where
  "sample_ruleset =
     [(''id'', JInt 1), (''enforcement'', JStr ''active''), (''updated_at'', JStr sample_time), (''rules'', JArr sample_rules)]"

text \<open>The answers of the service in the order in which they are asked for.\<close>

definition sample_env :: env where
  "sample_env =
     \<lparr>en_get = \<lambda>t path. if t = 0 then Answer (JObj sample_ruleset) else if t = 1 then Answer (JArr sample_rules)
        else Answer (JObj [(''status'', JStr ''identical'')]),
      en_download = \<lambda>t i. Absent, en_runs = \<lambda>t path. Answer (JObj sample_run), en_clock = \<lambda>t. utc 63902822400000000,
      en_nonce = \<lambda>t. other64, en_git = \<lambda>t. True, en_weather = \<lambda>t. Fair, en_others = \<lambda>t es. es\<rparr>"

section \<open>A requested run\<close>

definition request_evidence :: json where
  "request_evidence = JObj [(''attempt'', JInt 1), (''dispatched_at'', JStr sample_time), (''nonce'', JStr hex64), (''stage'', JStr ''validation'')]"

definition claim_evidence :: json where
  "claim_evidence = JObj [(''nonce'', JStr hex64), (''run_id'', JInt 5)]"

definition request_2 :: json where
  "request_2 = sample_record ''resume_requested'' RESULT_BOUND 2 (JStr (record_digest record_1)) ''bind'' request_evidence"

definition claim_3 :: json where
  "claim_3 = sample_record ''resume_bound'' RESULT_BOUND 3 (JStr (record_digest request_2)) ''bind'' claim_evidence"

definition waiting_entries :: "entry list" where
  "waiting_entries = [(record_0, None), (record_1, None), (request_2, None)]"

definition waiting_auth :: authorization_view where
  "waiting_auth =
     \<lparr>av_authorization_id = sample_id, av_state = RESULT_BOUND, av_records = [record_0, record_1, request_2], av_evidence = evidence_1,
      av_pending_resume = Some \<lparr>pr_stage = ''validation'', pr_nonce = hex64, pr_attempt = 1, pr_dispatched_at = sample_time, pr_bound_run_id = None\<rparr>,
      av_resume_attempts = (\<lambda>stage. 0)(''validation'' := 1)\<rparr>"

definition waiting_view :: ledger_view where
  "waiting_view = sample_view waiting_auth (Some sample_id) (record_digest request_2) 3"

lemma resume_evidence_sorted: "json_sorted request_evidence = request_evidence" "json_sorted claim_evidence = claim_evidence"
  by (simp_all add: request_evidence_def claim_evidence_def less_char_def less_eq_char_def)

lemma resume_encodes: "json_encodes request_evidence" "json_encodes claim_evidence"
  by (simp_all add: request_evidence_def claim_evidence_def)

lemma resume_schemas: "resume_requested_schema request_evidence l = None" "resume_bound_schema claim_evidence l = None"
  unfolding resume_requested_schema_def resume_bound_schema_def request_evidence_def claim_evidence_def
  by (rule v_object_ok; simp add: v_pattern_ok v_int_ok v_enum_ok RESUME_STAGES_def)+

lemma resume_valid:
  "validate_record_schema (json_sorted request_2) = Inr (json_sorted request_2)"
  "validate_record_schema (json_sorted claim_3) = Inr (json_sorted claim_3)"
proof -
  have "RESULT_BOUND \<in> set STATES" by (simp add: STATES_def)
  moreover have "evidence_check request_2 = None" "evidence_check claim_3 = None"
    by (simp_all add: evidence_check_def request_2_def claim_3_def resume_schemas)
  moreover have "text_weight request_evidence \<le> 30000" "text_weight claim_evidence \<le> 30000"
    by (simp_all add: request_evidence_def claim_evidence_def sample_time_def int_text_def nat_text.simps)
  moreover have "jdepth 1 request_evidence \<le> 6" "jdepth 1 claim_evidence \<le> 6"
    by (simp_all add: request_evidence_def claim_evidence_def)
  ultimately show "validate_record_schema (json_sorted request_2) = Inr (json_sorted request_2)"
    "validate_record_schema (json_sorted claim_3) = Inr (json_sorted claim_3)"
    unfolding request_2_def claim_3_def
    by (intro sample_record_valid; simp add: digest_link LEDGER_ROLES_def sample_kinds_def resume_evidence_sorted)+
qed

lemma apply_request:
  "apply_record sample_verify sample_trust sample_provenance
     (sample_view (sample_auth RESULT_BOUND [record_0, record_1] evidence_1) (Some sample_id) (record_digest record_1) 2) request_2 None =
   Inr waiting_view" (is "apply_record _ _ _ ?view _ _ = _")
proof -
  have "apply_resume ?view request_2 =
      Inr (set_authorization sample_id (waiting_auth\<lparr>av_records := [record_0, record_1]\<rparr>) ?view)"
    unfolding apply_resume_def Let_def request_2_def
    by (simp add: sample_view_def sample_auth_def require_def av_terminal_def TERMINAL_STATES_def RESUME_ROLES_def)
      (simp add: apply_resume_requested_def request_evidence_def RESUME_STAGES_def require_def waiting_auth_def sfield_def ifield_def
        Let_def)
  moreover have "sfield ''kind'' request_2 = ''resume_requested''" by (simp add: request_2_def)
  ultimately have "apply_record sample_verify sample_trust sample_provenance ?view request_2 None =
      Inr (record_applied request_2 (set_authorization sample_id (waiting_auth\<lparr>av_records := [record_0, record_1]\<rparr>) ?view))"
    using resume_valid(1) unfolding request_2_def
    by (intro sample_apply) (simp_all add: resume_evidence_sorted resume_encodes sample_view_def opt_json_def)
  moreover have "sfield ''authorization_id'' request_2 = sample_id" by (simp add: request_2_def)
  ultimately show ?thesis
    by (simp add: record_applied_def Let_def set_authorization_def waiting_view_def sample_view_def waiting_auth_def)
qed

lemma waiting_chain: "verify_chain sample_verify sample_trust sample_provenance 3 7 waiting_entries = Inr waiting_view"
  by (simp add: verify_chain_def waiting_entries_def apply_0 apply_1 apply_request)

section \<open>The requested run\<close>

abbreviation sample_check_at :: "nat \<Rightarrow> provenance_check" where
  "sample_check_at t \<equiv> run_provenance sample_configuration (en_runs sample_env t)"

lemma sample_trust_roots [simp]: "cf_trust sample_configuration = sample_trust"
  by (simp add: cf_trust_def sample_configuration_def sample_trust_def)

lemma sample_setting_simps [simp]:
  "st_configuration sample_setting = sample_configuration" "st_verify sample_setting = sample_verify" "st_issue sample_setting = 7"
  "st_key sample_setting = sample_key" "cf_repository_id sample_configuration = 3"
  "wr_role (st_writer sample_setting) = ''bind''" "wr_run_id (st_writer sample_setting) = 5"
  by (simp_all add: sample_setting_def sample_configuration_def)

definition sample_recorder :: "string \<Rightarrow> json" where
  "sample_recorder role = JObj [(''head_sha'', JStr hex40), (''job'', JStr role), (''role'', JStr role), (''run_attempt'', JInt 1),
     (''run_id'', JInt 5), (''workflow_path'', JStr sample_workflow)]"

lemma sample_recorder_fields:
  "jfield ''recorded_by'' (sample_record kind state n prev role evidence) = sample_recorder role"
  "sfield ''workflow_path'' (sample_recorder role) = LIFECYCLE_WORKFLOW" "sfield ''job'' (sample_recorder role) = role"
  "sfield ''role'' (sample_recorder role) = role" "ifield ''run_attempt'' (sample_recorder role) = 1"
  by (simp_all add: sample_record_def sample_recorder_def jfield_def sfield_def ifield_def LIFECYCLE_WORKFLOW_def sample_workflow_def)

lemma sample_run_matches:
  assumes "''issues'' \<in> set (ww_events w)"
  shows "run_matches sample_configuration w (sample_recorder role) sample_run = Inr True"
proof -
  have "dget ''id'' sample_run = JInt 5" "dget ''run_attempt'' sample_run = JInt 1" "dget ''path'' sample_run = JStr sample_workflow"
    "dget ''event'' sample_run = JStr ''issues''" "dget ''head_branch'' sample_run = JStr ''main''" "dget ''head_sha'' sample_run = JStr hex40"
    "subget ''repository'' ''id'' sample_run = Inr (JInt 3)" "subget ''head_repository'' ''id'' sample_run = Inr (JInt 3)"
    by (simp_all add: sample_run_def dget_def subget_def pyget_def)
  moreover have "ifield ''run_id'' (sample_recorder role) = 5" "jfield ''workflow_path'' (sample_recorder role) = JStr sample_workflow"
    "jfield ''head_sha'' (sample_recorder role) = JStr hex40"
    by (simp_all add: sample_recorder_def ifield_def jfield_def)
  ultimately show ?thesis using assms by (simp only: run_matches_def) (simp add: eq_int_def is_member_def)
qed

lemma sample_confirmed:
  assumes "role = ''authorize'' \<or> role = ''bind''"
  shows "trusted (sample_check_at t) (jfield ''recorded_by'' (sample_record kind state n prev role evidence)) r"
proof -
  have "map_of WRITERS LIFECYCLE_WORKFLOW = Some \<lparr>ww_events = [''issues'', ''workflow_dispatch''],
        ww_jobs = [(''authorize'', [''authorize'']), (''bind'', [''bind'', ''resume-bind'', ''bind-fallback'']),
          (''owner-decision'', [''fallback-decision'']), (''record-validation'', [''record-validation'']), (''finalize'', [''finalize''])]\<rparr>"
    by (simp add: WRITERS_def)
  moreover have "en_runs sample_env t path = Answer (JObj sample_run)" for path by (simp add: sample_env_def)
  ultimately show ?thesis
    using assms unfolding trusted_def run_provenance_def sample_recorder_fields
    by (auto simp: definitive_read_def as_object_def sample_run_matches)
qed

lemma waiting_trusted: "verify_chain sample_verify sample_trust (trusted (sample_check_at t)) 3 7 waiting_entries = Inr waiting_view"
proof -
  have sorted: "json_sorted record_0 = record_0" "json_sorted record_1 = record_1" "json_sorted request_2 = request_2"
    unfolding record_0_def record_1_def request_2_def by (rule sample_record_sorted; simp add: resume_evidence_sorted)+
  have "trusted (sample_check_at t) (jfield ''recorded_by'' (json_sorted r)) (json_sorted r)" if "r \<in> {record_0, record_1, request_2}" for r
    using that sample_confirmed by (auto simp: sorted) (auto simp: record_0_def record_1_def request_2_def)
  then show ?thesis
    by (simp add: verify_chain_def waiting_entries_def apply_record_provenance [OF apply_0] apply_record_provenance [OF apply_1]
        apply_record_provenance [OF apply_request])
qed

definition sample_start :: job_state where
  "sample_start = \<lparr>js_time = 0, js_chain = waiting_entries, js_sent = []\<rparr>"

lemma sample_anchor: "verify_anchor_integrity (cf_anchor sample_configuration) (Some sample_ruleset) sample_rules = Inr ()"
  by code_simp

lemma sample_ref: "ledger_ref 7 = Inr (LEDGER_REF_PREFIX @ ''issue-7'')"
  by code_simp

lemma sample_anchored: "require_anchor sample_env sample_configuration (LEDGER_REF_PREFIX @ ''issue-7'') sample_start = (Inr (), sample_start\<lparr>js_time := 2\<rparr>)"
  by (simp add: require_anchor_def jbind_def get_json_def definitive_read_def sample_env_def sample_start_def tick_def as_object_def
      sample_anchor anchor_guard_def jlift_def)

lemma sample_begins:
  "begin_job sample_env sample_setting sample_start = (Inr (sample_check_at 2, waiting_view), sample_start\<lparr>js_time := 3\<rparr>)"
proof -
  have "read_chain sample_env (sample_start\<lparr>js_time := 2\<rparr>) = (Inr waiting_entries, sample_start\<lparr>js_time := 3\<rparr>)"
    by (simp add: read_chain_def sample_env_def arrive_def tick_def sample_start_def)
  then show ?thesis
    by (simp add: begin_job_def jbind_def jresult_def jlift_def sample_ref sample_anchored load_view_def jreturn_def Let_def
        load_ledger_Inr [THEN iffD2, OF waiting_trusted])
qed

definition claim :: document where
  "claim = [(''nonce'', JStr hex64), (''run_id'', JInt 5)]"

abbreviation claim_record :: json where
  "claim_record \<equiv> ledger_record sample_key (st_writer sample_setting) 3 7 waiting_view sample_id ''resume_bound'' RESULT_BOUND claim sample_time"

lemma claim_written: "json_sorted claim_record = json_sorted claim_3"
proof -
  have fields: "lv_next_seq waiting_view = 3" "lv_head_record_digest waiting_view = Some (record_digest request_2)"
    "recorded_by (st_writer sample_setting) = JObj
     [(''workflow_path'', JStr sample_workflow), (''job'', JStr ''bind''), (''role'', JStr ''bind''), (''run_id'', JInt 5),
      (''run_attempt'', JInt 1), (''head_sha'', JStr hex40)]"
    by (simp_all add: waiting_view_def sample_view_def sample_setting_def recorded_by_def)
  have signature: "bytes_hex (sk_sign sample_key m) = sample_signature" "sk_key_id sample_key = hex64" for m
    by (simp_all add: sample_key_def sample_signature_hex)
  show ?thesis
    unfolding ledger_record_def fields sign_record_def Let_def signature claim_3_def sample_record_def claim_def claim_evidence_def
    by (simp add: opt_json_def less_char_def less_eq_char_def)
qed

lemma claim_fields:
  "jfield ''evidence'' claim_3 = claim_evidence" "sfield ''kind'' claim_3 = ''resume_bound''" "sfield ''authorization_id'' claim_3 = sample_id"
  "sfield ''state'' claim_3 = RESULT_BOUND" "writer_role claim_3 = ''bind''" "jfield ''recorded_by'' claim_3 = sample_recorder ''bind''"
  unfolding claim_3_def by (simp_all add: sample_recorder_fields)

lemma claim_bound: "apply_resume_bound waiting_auth claim_3 = Inr (waiting_auth\<lparr>av_pending_resume :=
      Some \<lparr>pr_stage = ''validation'', pr_nonce = hex64, pr_attempt = 1, pr_dispatched_at = sample_time, pr_bound_run_id = Some 5\<rparr>\<rparr>)"
proof -
  have evidence: "sfield ''nonce'' claim_evidence = hex64" "jfield ''run_id'' claim_evidence = JInt 5" "ifield ''run_id'' claim_evidence = 5"
    "jfield ''run_id'' (sample_recorder ''bind'') = JInt 5"
    by (simp_all add: claim_evidence_def sample_recorder_def sfield_def jfield_def ifield_def)
  have auth: "av_pending_resume waiting_auth = Some \<lparr>pr_stage = ''validation'', pr_nonce = hex64, pr_attempt = 1,
      pr_dispatched_at = sample_time, pr_bound_run_id = None\<rparr>"
    by (simp add: waiting_auth_def)
  show ?thesis
    unfolding apply_resume_bound_def Let_def claim_fields evidence auth option.case by (simp add: require_def)
qed

lemma waiting_lookup:
  "lv_authorizations waiting_view sample_id = Some waiting_auth" "lv_active waiting_view = Some sample_id"
  "av_state waiting_auth = RESULT_BOUND" "\<not> av_terminal waiting_auth"
  by (simp_all add: waiting_view_def sample_view_def waiting_auth_def av_terminal_def TERMINAL_STATES_def)

lemma claim_resumes: "\<exists>w. apply_resume waiting_view claim_3 = Inr w"
  unfolding apply_resume_def Let_def claim_fields waiting_lookup(1,2) option.case
  using claim_bound by (simp add: waiting_lookup(3,4) require_def RESUME_ROLES_def)

lemma claim_applies: "\<exists>view. apply_record sample_verify sample_trust sample_provenance waiting_view claim_3 None = Inr view"
proof -
  obtain w where "apply_resume waiting_view claim_3 = Inr w" using claim_resumes by blast
  then have "apply_record sample_verify sample_trust sample_provenance waiting_view claim_3 None = Inr (record_applied claim_3 w)"
    using resume_valid(2) unfolding claim_3_def
    by (intro sample_apply) (simp_all add: resume_evidence_sorted resume_encodes waiting_view_def sample_view_def opt_json_def)
  then show ?thesis by blast
qed

lemma apply_claim:
  obtains view where "apply_record sample_verify sample_trust (trusted (sample_check_at 2)) waiting_view claim_record None = Inr view"
proof -
  obtain view where step: "apply_record sample_verify sample_trust sample_provenance waiting_view claim_3 None = Inr view"
    using claim_applies by blast
  have sorted: "json_sorted claim_3 = claim_3"
    unfolding claim_3_def by (rule sample_record_sorted) (simp_all add: resume_evidence_sorted)
  have "trusted (sample_check_at 2) (jfield ''recorded_by'' (json_sorted claim_3)) (json_sorted claim_3)"
    unfolding sorted using sample_confirmed [of "''bind''" 2 "''resume_bound''"] unfolding claim_3_def by blast
  from apply_record_provenance [where provenance' = "trusted (sample_check_at 2)", OF step this]
  have "apply_record sample_verify sample_trust (trusted (sample_check_at 2)) waiting_view claim_record None = Inr view"
    by (simp only: apply_record_sorted [OF claim_written])
  then show thesis by (rule that)
qed

lemma claim_prepared:
  obtains e where "ledger_prepare sample_verify sample_trust (sample_check_at 2) 3 7 sample_key (st_writer sample_setting) waiting_entries
      sample_id ''resume_bound'' RESULT_BOUND claim sample_time = Inr e"
proof -
  obtain view where step: "apply_record sample_verify sample_trust (trusted (sample_check_at 2)) waiting_view claim_record None = Inr view"
    by (rule apply_claim)
  have "view_ok view" using apply_record_step [OF verify_chain_view(1) [OF waiting_chain] step] by blast
  then obtain index where "ledger_index view = Inr index" using index_total by blast
  moreover have "load_ledger sample_verify sample_trust (sample_check_at 2) 3 7 waiting_entries = Inr waiting_view" using waiting_trusted by simp
  moreover have "apply_checked sample_verify sample_trust (sample_check_at 2) waiting_view claim_record None = Inr view"
    using step by (simp only: apply_checked_Inr)
  ultimately have "ledger_prepare sample_verify sample_trust (sample_check_at 2) 3 7 sample_key (st_writer sample_setting) waiting_entries
      sample_id ''resume_bound'' RESULT_BOUND claim sample_time = Inr (stored claim_record index)"
    by (simp only: ledger_prepare_def cbind_simps lift_simps Let_def)
  then show thesis by (rule that)
qed

lemma sample_clock: "timestamp (utc 63902822400000000) = sample_time"
  by code_simp

text \<open>The requested run binds its nonce and gets the commit that the authorization names.\<close>

lemma sample_binds:
  obtains e where "bind_resume sample_env sample_setting sample_id ''validation'' hex64 sample_start =
    (Inr hex40, \<lparr>js_time = 7, js_chain = waiting_entries @ [e], js_sent = []\<rparr>)"
proof -
  obtain e where e: "ledger_prepare sample_verify sample_trust (sample_check_at 2) 3 7 sample_key (st_writer sample_setting) waiting_entries
      sample_id ''resume_bound'' RESULT_BOUND claim sample_time = Inr e"
    by (rule claim_prepared)
  have "js_chain (sample_start\<lparr>js_time := t\<rparr>) = waiting_entries" for t by (simp add: sample_start_def)
  moreover have "store_append Fair waiting_entries (git_head waiting_entries) e = (Inr (), waiting_entries @ [e])"
    by (auto simp: store_append_def Let_def git_head_snoc [symmetric] git_head_inject)
  ultimately have appended: "append_record sample_env sample_setting (sample_check_at 2) sample_id ''resume_bound'' RESULT_BOUND claim sample_time
      (sample_start\<lparr>js_time := 5\<rparr>) = (Inr (), \<lparr>js_time = 7, js_chain = waiting_entries @ [e], js_sent = []\<rparr>)"
    using e by (simp add: append_record_def jbind_def read_chain_def write_entry_def ledger_write_def jlift_def arrive_def tick_def
        sample_env_def sample_start_def)
  have lookup: "lv_authorizations waiting_view sample_id = Some waiting_auth" "lv_active waiting_view = Some sample_id"
    by (simp_all add: waiting_view_def sample_view_def)
  have pending: "av_pending_resume waiting_auth = Some \<lparr>pr_stage = ''validation'', pr_nonce = hex64, pr_attempt = 1,
      pr_dispatched_at = sample_time, pr_bound_run_id = None\<rparr>" "av_state waiting_auth = RESULT_BOUND"
    by (simp_all add: waiting_auth_def)
  have sha: "binding waiting_auth ''control_sha'' = Inr (JStr hex40)"
    by (simp add: binding_def evidence_at_def waiting_auth_def evidence_1_def getitem_def sample_authorized_def)
  have compare: "get_json sample_env path (sample_start\<lparr>js_time := 3\<rparr>) = (Inr (JObj [(''status'', JStr ''identical'')]), sample_start\<lparr>js_time := 4\<rparr>)" for path
    by (simp add: get_json_def definitive_read_def sample_env_def tick_def sample_start_def)
  have clock: "read_clock sample_env (sample_start\<lparr>js_time := 4\<rparr>) = (Inr (utc 63902822400000000), sample_start\<lparr>js_time := 5\<rparr>)"
    by (simp add: read_clock_def sample_env_def tick_def sample_start_def)
  have "bind_resume sample_env sample_setting sample_id ''validation'' hex64 sample_start =
      (Inr hex40, \<lparr>js_time = 7, js_chain = waiting_entries @ [e], js_sent = []\<rparr>)"
    using appended [unfolded claim_def]
    by (simp add: bind_resume_def jbind_def sample_begins Let_def lookup pending jresult_def jlift_def sha pystr_def compare dget_def clock
        sample_clock jreturn_def)
  then show thesis by (rule that)
qed

section \<open>The properties in this world\<close>

lemma sample_world: "append_only sample_env" "en_others sample_env = (\<lambda>t es. es)" "dispatches_recorded sample_setting sample_start"
  by (simp_all add: append_only_def sample_env_def dispatches_recorded_def sample_start_def)

lemma sample_honest: "honest_runs sample_env sample_setting sample_provenance"
proof -
  have "jfield ''workflow_path'' w = JStr sample_workflow" if "run_matches sample_configuration ww w sample_run = Inr True" for w ww
    using that by (simp add: run_matches_def conj_result_def sample_run_def dget_def split: if_splits)
  then show ?thesis
    by (auto simp: honest_runs_def run_provenance_def sample_provenance_def sample_env_def definitive_read_def as_object_def
        split: option.splits if_splits)
qed

lemma sample_sound: "sound_ledger sample_setting sample_provenance (js_chain sample_start)"
  using waiting_chain by (simp add: sound_ledger_def sample_start_def)

definition no_hints :: hints where
  "no_hints = \<lparr>hi_advisory_code = None, hi_stderr_category = None, hi_probe_category = None, hi_canary_refusal = None,
     hi_attestation_sha256 = None, hi_fallback_model = None\<rparr>"

lemma jobs_keep_ledger_witness:
  "\<exists>e. js_chain (snd (bind_resume sample_env sample_setting sample_id ''validation'' hex64 sample_start)) = waiting_entries @ [e] \<and>
     sound_ledger sample_setting sample_provenance (waiting_entries @ [e])"
proof -
  obtain e where e: "bind_resume sample_env sample_setting sample_id ''validation'' hex64 sample_start =
    (Inr hex40, \<lparr>js_time = 7, js_chain = waiting_entries @ [e], js_sent = []\<rparr>)"
    by (rule sample_binds)
  have "sound_ledger sample_setting sample_provenance (js_chain (snd (bind_resume sample_env sample_setting sample_id ''validation'' hex64 sample_start)))"
    using jobs_keep_ledger [OF sample_world(1) sample_honest _ sample_sound] sample_world(2) by simp
  then show ?thesis by (simp add: e)
qed

lemma jobs_dispatch_recorded_witness:
  "dispatches_recorded sample_setting (snd (control_step sample_env sample_setting no_hints True sample_start))"
  using jobs_dispatch_recorded [OF sample_world(1,3)] by blast

lemma jobs_leave_witness:
  "leaves sample_env sample_setting sample_start 1 0 (snd (bind_resume sample_env sample_setting sample_id ''validation'' hex64 sample_start)) \<and>
   length (js_chain (snd (bind_resume sample_env sample_setting sample_id ''validation'' hex64 sample_start))) = length (js_chain sample_start) + 1"
proof
  obtain e where e: "bind_resume sample_env sample_setting sample_id ''validation'' hex64 sample_start =
    (Inr hex40, \<lparr>js_time = 7, js_chain = waiting_entries @ [e], js_sent = []\<rparr>)"
    by (rule sample_binds)
  then show "length (js_chain (snd (bind_resume sample_env sample_setting sample_id ''validation'' hex64 sample_start))) =
      length (js_chain sample_start) + 1" by (simp add: sample_start_def)
  show "leaves sample_env sample_setting sample_start 1 0 (snd (bind_resume sample_env sample_setting sample_id ''validation'' hex64 sample_start))"
    using jobs_leave [OF sample_world(1)] by blast
qed

text \<open>Another run that comes after the first one bound the request.\<close>

definition second_setting :: "(unit, unit) setting" where
  "second_setting = sample_setting\<lparr>st_writer := (st_writer sample_setting)\<lparr>wr_run_id := wr_run_id (st_writer sample_setting) + 1\<rparr>\<rparr>"

lemma resume_bound_once_witness:
  "\<exists>e why. fst (bind_resume sample_env second_setting sample_id ''validation'' hex64
     \<lparr>js_time = 0, js_chain = waiting_entries @ [e], js_sent = []\<rparr>) = Inl why"
proof -
  obtain e where e: "bind_resume sample_env sample_setting sample_id ''validation'' hex64 sample_start =
    (Inr hex40, \<lparr>js_time = 7, js_chain = waiting_entries @ [e], js_sent = []\<rparr>)"
    by (rule sample_binds)
  let ?s = "\<lparr>js_time = 0, js_chain = waiting_entries @ [e], js_sent = []\<rparr>"
  obtain answer u where second: "bind_resume sample_env second_setting sample_id ''validation'' hex64 ?s = (answer, u)" by fastforce
  have alone: "js_chain u = waiting_entries @ [e]"
    using bound_again_alone [OF e _ sample_world(2), of ?s second_setting sample_id "''validation''" hex64] by (simp add: second)
  have "\<exists>why. answer = Inl why"
    by (rule resume_bound_once [OF e second]) (simp_all add: alone second_setting_def)
  with second show ?thesis by (metis fst_conv)
qed

section \<open>An observation\<close>

text \<open>No branch, no pull request, the publication run ended without an outcome, and the bound artifact is gone.\<close>

definition quiet_env :: env where
  "quiet_env = sample_env\<lparr>en_get := \<lambda>t path.
     if t = 1 then Answer (JArr []) else if t = 2 then Answer (JObj [(''status'', JStr ''completed'')])
     else if t = 3 then Answer (JObj [(''total_count'', JInt 0), (''jobs'', JArr [])])
     else if t = 5 then Answer (JObj [(''total_count'', JInt 0), (''artifacts'', JArr [])]) else Absent\<rparr>"

lemma quiet_reads [simp]:
  "get_json quiet_env path s = (Inr (if js_time s = 1 then JArr [] else if js_time s = 2 then JObj [(''status'', JStr ''completed'')]
     else if js_time s = 3 then JObj [(''total_count'', JInt 0), (''jobs'', JArr [])]
     else if js_time s = 5 then JObj [(''total_count'', JInt 0), (''artifacts'', JArr [])] else JNull), s\<lparr>js_time := Suc (js_time s)\<rparr>)"
  by (simp add: get_json_def quiet_env_def definitive_read_def tick_def)

lemma working_owner: "owning_run working_auth = Inr 5"
  by (simp add: owning_run_def working_auth_def sample_auth_def jfield_def sample_record_def record_0_def record_1_def record_2_def binding_def evidence_at_def
      evidence_2_def evidence_1_def getitem_def sample_authorized_def pyint_def)

lemma quiet_jobs:
  "branch_head quiet_env cfg branch \<lparr>js_time = 0, js_chain = es, js_sent = ds\<rparr> = (Inr None, \<lparr>js_time = 1, js_chain = es, js_sent = ds\<rparr>)"
  "pull_requests quiet_env cfg branch \<lparr>js_time = Suc 0, js_chain = es, js_sent = ds\<rparr> = (Inr [], \<lparr>js_time = 2, js_chain = es, js_sent = ds\<rparr>)"
  "run_job quiet_env cfg run name \<lparr>js_time = 2, js_chain = es, js_sent = ds\<rparr> = (Inr (None, True), \<lparr>js_time = 4, js_chain = es, js_sent = ds\<rparr>)"
  "listed_artifacts quiet_env cfg run name \<lparr>js_time = 5, js_chain = es, js_sent = ds\<rparr> = (Inr [], \<lparr>js_time = 6, js_chain = es, js_sent = ds\<rparr>)"
  by (simp_all add: branch_head_def pull_requests_def run_job_def listed_artifacts_def jbind_def jreturn_def jresult_def jlift_def objects_def
      dget_def eq_int_def map_filter_simps)

lemma working_names:
  "binding working_auth ''execution_branch'' = Inr (JStr sample_branch)"
  "outcome_artifact_name (av_authorization_id working_auth) ''publication'' (stage_attempt working_auth ''publication'') =
     Inr (''hunter-ia-publication-'' @ hex64 @ ''-1'')"
  "rbind (evidence_at working_auth RESULT_BOUND) (\<lambda>e. rbind (getitem e ''result_artifact'') (\<lambda>a. getitem a ''artifact_id'')) = Inr (JInt 2)"
proof -
  have "authorization_digest sample_id = Inr hex64" by (simp add: authorization_digest_def) (simp add: sample_id_def)
  moreover have "int_text 1 = ''1''" by code_simp
  ultimately show "outcome_artifact_name (av_authorization_id working_auth) ''publication'' (stage_attempt working_auth ''publication'') =
     Inr (''hunter-ia-publication-'' @ hex64 @ ''-1'')"
    by (simp add: outcome_artifact_name_def RESUME_STAGES_def stage_attempt_def working_auth_def sample_auth_def)
qed (simp_all add: working_auth_def sample_auth_def binding_def evidence_at_def evidence_2_def evidence_1_def getitem_def sample_authorized_def
    sample_bound_def sample_artifact_def)

lemma quiet_observation:
  obtains ob t where "observe quiet_env loads sample_configuration working_auth sample_time no_hints
    \<lparr>js_time = 0, js_chain = [], js_sent = []\<rparr> = (Inr ob, t)"
proof -
  have "\<exists>ob t. observe quiet_env loads sample_configuration working_auth sample_time no_hints
    \<lparr>js_time = 0, js_chain = [], js_sent = []\<rparr> = (Inr ob, t)"
    by (simp add: observe_def working_names quiet_jobs working_owner working_evidence stage_status_def STAGE_JOBS_def observe_bound_def
        observed_resume_def observe_publication_def stage_outcome_def jbind_def jreturn_def jresult_def jlift_def Let_def)
  then show thesis using that by blast
qed

lemma observed_step_witness: "\<exists>ob t d. observe quiet_env (\<lambda>bs. Parsed JNull) sample_configuration working_auth sample_time no_hints
    \<lparr>js_time = 0, js_chain = [], js_sent = []\<rparr> = (Inr ob, t) \<and> advance working_auth (ob_facts ob) = Inr d"
proof -
  obtain ob t where ob: "observe quiet_env (\<lambda>bs. Parsed JNull) sample_configuration working_auth sample_time no_hints
    \<lparr>js_time = 0, js_chain = [], js_sent = []\<rparr> = (Inr ob, t)" by (rule quiet_observation)
  have "\<not> av_terminal working_auth" by (simp add: av_terminal_def TERMINAL_STATES_def working_evidence)
  from yieldsD [OF observe_good [OF auth_okI [OF working_chain working_lookup] this] ob]
  have "times_real working_auth (ob_facts ob)"
    using working_real by (simp add: times_real_def good_facts_def working_facts_def)
  with observed_step [OF working_chain working_lookup ob] ob show ?thesis by auto
qed

end
