(* ===== verification/Spec2Isabelle.thy ===== *)
theory Spec2Isabelle
  imports SuffAssessor SuffValidation SuffSelection Identity LedgerDecisions LedgerStore TransportProperties ControlSample
begin

text \<open>
  A verification development of Project Hunter (\<open>src/hunter\<close>). Two parts of the program are modelled, each from its data to
  what it promises: the \<^emph>\<open>data sufficiency\<close> service, which decides whether a report may be computed from the sources at hand, and the
  \<^emph>\<open>issue agent\<close>, which drives the implementation of an issue through a signed ledger in a git branch. They share the canonical
  form of values and their digests.

  \<^bold>\<open>1. Foundations.\<close> \<open>Prelude\<close> has the exceptions of the program (\<open>pyexc\<close>), results as a sum of an exception and a value with
  their bind, constructor checks that stop at the first failure, dictionaries as association lists, and the
  collections \<open>checked_simps\<close>, \<open>text_simps\<close>, \<open>replay_simps\<close>, \<open>ledger_simps\<close>. \<open>PyNumber\<close> models floats (finite values as exact
  rationals, infinities, nan) and decimals, \<open>PyTime\<close> and \<open>PyCalendar\<close> \<open>datetime\<close> values, their ISO text and the civil calendar (years 1 to
  9999), \<open>Regex\<close> the regular expressions of the schemas with \<open>fullmatch\<close>, \<open>Json\<close> JSON values with \<open>json.dumps\<close>, \<open>JsonText\<close> a reader of that
  text with its round trip, \<open>PyJson\<close> the operations of Python on values read from JSON (\<open>.get\<close>, truth, \<open>==\<close> between numbers and
  booleans, \<open>str\<close>, \<open>int\<close>). \<open>Sha256\<close> and \<open>Sha1\<close> compute the digests on 32-bit words from their definitions.
  \<open>Canonicalization\<close> is \<open>execution/canonicalization.py\<close>, \<open>hashing.py\<close> and \<open>identity.py\<close>; \<open>Identity\<close> shows when two values
  have the same canonical bytes (C-properties on identity), which rests on \<open>dumps\<close> being injective.

  \<^bold>\<open>2. Data sufficiency\<close> (\<open>src/hunter/sufficiency\<close>). \<open>SuffModels\<close>: vocabularies and frozen dataclasses of \<open>models.py\<close> as records, each with
  its constructor \<open>mk_...\<close>, which runs the checks of \<open>__post_init__\<close>. \<open>SuffPolicies\<close>: \<open>policies.py\<close>, \<open>identity.py\<close>, \<open>registry.py\<close>.
  \<open>SuffErrors\<close>: constructors raise \<open>ValueError\<close> and nothing else.
  \<open>SuffEvaluator\<close>: \<open>evaluator.py\<close>, from observations to the availability of a requirement (\<open>evaluate\<close>). \<open>SuffAssessor\<close>:
  \<open>assessor.py\<close>, from availabilities to an assessment (\<open>assess\<close>). \<open>SuffValidation\<close>: \<open>validation.py\<close>, the pairwise comparison of sources
  (\<open>validate\<close>). \<open>SuffRepository\<close>: \<open>repository.py\<close>; a table is the list of its rows in the order of their row numbers, a method a function
  from the store to a result and a store, a constraint a check of the upsert. \<open>SuffHistory\<close>: the store as a state machine (\<open>run_op\<close> over the
  writing methods) with its invariants. \<open>SuffSelection\<close>: requirements written and selected back.
  The locale \<open>replay_filter\<close> (\<open>Replay\<close>) is the contract of the copies of \<open>_visible_at\<close>, interpreted for evaluator, assessor and validation;
  \<open>keyed_table\<close> is the contract of an upsert, interpreted on \<open>upsert_rows\<close>. Lemma groups: exact conditions of the best outcome
  (available, sufficient), which inputs succeed and what is raised on the others, strict replay without look-ahead, links that mirror the observations
  used, which comparisons a validation makes, history of the store, round trips. Integers are bound to a statement as SQLite does it (64 bits, \<open>OverflowError\<close>
  beyond), floats as SQLite stores them (a negative zero as zero, nan as null); \<open>admit\<close> is the constraint check of the engine.

  \<^bold>\<open>3. The ledger of an issue\<close> (\<open>automation/issue_agent_state.py\<close>). \<open>LedgerSchema\<close>: vocabularies, transition and role tables,
  the schema combinators and every closed schema. \<open>LedgerChain\<close>: views, \<open>apply_record\<close> with its guards in the order of the code,
  \<open>verify_chain\<close>, the derived index. \<open>LedgerAdvance\<close>: \<open>Facts\<close>, \<open>Decision\<close>, \<open>advance\<close> and the fallback policy
  (\<open>issue_agent_fallback_policy.py\<close>). \<open>LedgerProtocol\<close>: the abstract protocol of an issue, an inductive step relation on phases.
  \<open>LedgerInvariant\<close>: the invariant of a verified ledger and its simulation by the protocol. \<open>HashChain\<close>: the locale of a hash chain, interpreted on
  the records in \<open>LedgerTheorems\<close>. \<open>LedgerRefusals\<close> and \<open>LedgerDecisions\<close>: which errors verification and decisions raise (a record with \<open>NaN\<close> or \<open>Infinity\<close>, which the
  reader accepts, raises \<open>ValueError\<close> in \<open>canonical_json\<close>: \<open>json_encodes\<close>), that
  decisions are accepted, and that they make progress. \<open>LedgerStore\<close>: \<open>GitLedgerStore.append_files\<close> and \<open>Ledger.append\<close>; the branch is the list
  of its entries, the head a term of that list, the locale \<open>lease_store\<close> the contract of compare and swap, interpreted on \<open>git_head\<close> and
  \<open>store_append\<close>. \<open>LedgerSample\<close> and \<open>LedgerProperties\<close>: a chain of six records that verifies, and the properties of section 3 on it.

  \<^bold>\<open>4. Sealed transport\<close> (\<open>automation/issue_agent_transport.py\<close>). \<open>Transport\<close>: the binding with its constructor, base64, \<open>seal\<close>, \<open>header\<close>,
  \<open>open_sealed\<close>. \<open>TransportProperties\<close>: the round trip, what an opened payload is, and which errors there are, for any
  cipher with \<open>crypto_laws\<close> and any reader of JSON text that meets the locale \<open>json_reader\<close>; the locale is interpreted on the reader of
  \<open>JsonText\<close>.

  \<^bold>\<open>5. The control plane\<close> (\<open>automation/issue_agent_control.py\<close>). \<open>ControlTrust\<close>: \<open>load_configuration\<close>. \<open>ControlHttp\<close>: \<open>GitHubRest\<close>, one
  exchange and the bounded retries of \<open>get\<close>. \<open>ControlWorld\<close>: what a job runs in. A job is a function of the state
  \<open>job_state\<close> (a clock tick, the shared chain, the dispatches sent) to an outcome and a state; \<open>env\<close> holds what the outside
  answers at every tick, and what other jobs do to the chain in between (\<open>en_others\<close>). \<open>ControlObserve\<close>: \<open>observe\<close> and its reads. \<open>ControlSteps\<close>:
  \<open>_bound_result\<close>, \<open>_evidence\<close>, \<open>step\<close>, \<open>owner_decision\<close>, \<open>bind_resume\<close>. \<open>ControlJobs\<close>: the step relations \<open>waits\<close> and \<open>moves\<close> (time
  passes, others write, the job writes what it prepared, the job dispatches), and that every job is a bounded sequence of moves. \<open>ControlFacts\<close>: what is observed in a
  state suffices for the decision of that state. \<open>ControlProperties\<close>: the ledger stays sound under interleaving jobs, dispatches are
  on record, writes and dispatches per job are bounded, a requested run binds once. \<open>ControlSample\<close>: a concrete world that runs them.

  \<^bold>\<open>How the parts meet.\<close> \<open>step\<close> reads the anchor and the chain (\<open>load_view\<close>, \<open>verify_chain\<close>), observes, calls \<open>advance\<close>, builds the evidence of the
  decision (\<open>header\<close> of the transport among it), signs and appends through \<open>store_append\<close>. The properties of section 5 rest on the
  invariant and the decisions of section 3.

  \<^bold>\<open>Bounds and fuel.\<close> \<open>get_loop\<close> ends after \<open>GET_MAX_ATTEMPTS\<close> = 3 exchanges (a measure). The reader of \<open>JsonText\<close> has as fuel twice
  the length of the text, which its round trip shows to be enough. The words of the digests wrap at 32 bits. The schema of the index
  admits ten thousand claimed authorizations, so the properties of writing are stated for chains of at most ten thousand records.

  \<^bold>\<open>Parameters.\<close> Ed25519 verification and signing, X25519, HKDF and ChaCha20-Poly1305 (laws in \<open>crypto_laws\<close>), \<open>json.loads\<close> where hostile text is
  read, the provenance of runs where a ledger is verified on its own, clock, nonces and every answer of the hosting service.

  \<^bold>\<open>Not modelled.\<close> Code points from 256 on (texts are lists of 8-bit characters), so no lone surrogates, which \<open>canonical_json\<close> cannot
  encode; keys of nested metadata that are no text (\<open>json.dumps\<close> converts int, bool and None keys); the decimal text of integers with more than 4300 digits; floats beyond the exact range in
  \<open>repr\<close> (from \<open>1e16\<close> on); in \<open>PyJson\<close> non-finite numbers; instants outside the years 1 to 9999 after a deadline is added. The git subprocesses: a failing
  command is \<open>weather\<close> of a write (not sent, sent but unacknowledged) or an unavailable read; a branch whose commits are no single chain of the two
  files is not represented. The zip archive of \<open>download_artifact\<close> is part of the answer in \<open>env\<close>; jobs read the definitive answers
  of \<open>env\<close> directly, \<open>github_get\<close> is modelled and proved on its own. A view changed in place by a record that is then refused is dropped by the code,
  and so by the model. Stored indexes other than objects and null. Remediation dispatch and review threads of the control plane, the agents' own jobs
  (\<open>issue_agent_execution.py\<close>, \<open>issue_agent_roles.py\<close>, \<open>issue_agent_workspace.py\<close>: containers and processes), the reporter of the sufficiency
  service, and the other packages of the repository (command line, acquisition, valuation, intelligence, dashboards, governance scripts).
\<close>

end
